(* ===== verification/Prelude.thy ===== *)
theory Prelude
  imports Main "HOL-Library.Word" "HOL-Library.AList" "HOL-Library.Multiset"
begin

text \<open>
  Types and standard-library operations shared by every component.

  A C++ \<open>std::string\<close> is a list of 8-bit characters (\<open>string\<close>), a \<open>std::vector<uint8_t>\<close>
  a list of 8-bit words (\<open>byte list\<close>). A \<open>std::unordered_map\<close> is an association list with
  distinct keys: its order stands for the unspecified iteration order of the hash table, so
  every statement about code that iterates over a map is made for every such list.
  Here are the models of the standard-library calls the sources use: \<open>find\<close> with
  \<open>substr\<close> (\<open>cut\<close>), \<open>std::getline\<close>, the two \<open>trim\<close> functions, \<open>std::to_string\<close> and
  \<open>std::stoull/stoll/stoi\<close>, with the lemmas the component theories share.
\<close>

type_synonym byte = "8 word"
type_synonym u32 = "32 word"
type_synonym u64 = "64 word"
type_synonym path = string

named_theorems cstr "facts on the string operations of the C++ standard library"
named_theorems codec "round trips of encoders and decoders"

section \<open>Characters and bytes\<close>

definition byte_of :: "char \<Rightarrow> byte" where
  "byte_of c = of_char c"

definition char_of_byte :: "byte \<Rightarrow> char" where
  "char_of_byte b = char_of (unat b)"

definition bytes_of :: "string \<Rightarrow> byte list" where
  "bytes_of s = map byte_of s"

definition string_of :: "byte list \<Rightarrow> string" where
  "string_of bs = map char_of_byte bs"

lemma unat_byte_of [simp]: "unat (byte_of c) = of_char c"
proof -
  have "byte_of c = of_nat (of_char c)"
    by (simp add: byte_of_def of_nat_of_char)
  then show ?thesis
    by (simp add: unat_of_nat)
qed

lemma char_of_byte_of [simp]: "char_of_byte (byte_of c) = c"
  by (simp add: char_of_byte_def)

lemma byte_of_char_of_byte [simp]: "byte_of (char_of_byte b) = b"
proof -
  have "unat b < 256"
    using unsigned_less [of b, where ?'a = nat] by simp
  then have "unat (byte_of (char_of_byte b)) = unat b"
    by (simp add: char_of_byte_def)
  then show ?thesis by (simp only: word_unat_eq_iff)
qed

lemma string_of_bytes_of [simp]: "string_of (bytes_of s) = s"
  by (simp add: string_of_def bytes_of_def comp_def)

lemma bytes_of_string_of [simp]: "bytes_of (string_of bs) = bs"
  by (simp add: string_of_def bytes_of_def comp_def)

lemma length_bytes_of [simp]: "length (bytes_of s) = length s"
  by (simp add: bytes_of_def)

lemma length_string_of [simp]: "length (string_of bs) = length bs"
  by (simp add: string_of_def)

lemma bytes_of_append [simp]: "bytes_of (s @ t) = bytes_of s @ bytes_of t"
  by (simp add: bytes_of_def)

lemma bytes_of_simps [simp]: "bytes_of [] = []" "bytes_of (c # s) = byte_of c # bytes_of s"
  by (simp_all add: bytes_of_def)

lemma string_of_simps [simp]:
  "string_of [] = []" "string_of (b # bs) = char_of_byte b # string_of bs"
  "string_of (bs @ cs) = string_of bs @ string_of cs"
  by (simp_all add: string_of_def)

lemma bytes_of_eq_iff [simp]: "bytes_of s = bytes_of t \<longleftrightarrow> s = t"
  by (metis string_of_bytes_of)

section \<open>Searching and splitting\<close>

text \<open>
  \<open>pos = s.find(c)\<close> followed by \<open>s.substr(0, pos)\<close> and \<open>s.substr(pos + 1)\<close>;
  \<open>None\<close> is \<open>npos\<close>.
\<close>

fun cut :: "char \<Rightarrow> string \<Rightarrow> (string \<times> string) option" where
  "cut c [] = None"
| "cut c (x # xs) =
     (if x = c then Some ([], xs)
      else case cut c xs of None \<Rightarrow> None | Some (a, b) \<Rightarrow> Some (x # a, b))"

lemma cut_append [cstr]: "c \<notin> set a \<Longrightarrow> cut c (a @ c # b) = Some (a, b)"
  by (induction a) auto

lemma cut_None_iff [cstr]: "cut c s = None \<longleftrightarrow> c \<notin> set s"
  by (induction s) (auto split: option.splits)

lemma cut_None [cstr]: "c \<notin> set s \<Longrightarrow> cut c s = None"
  by (simp add: cut_None_iff)

lemma cut_SomeD: "cut c s = Some (a, b) \<Longrightarrow> s = a @ c # b \<and> c \<notin> set a"
  by (induction s arbitrary: a) (auto split: if_splits option.splits)

lemma cut_length: "cut c s = Some (a, b) \<Longrightarrow> length b < length s"
  by (auto dest: cut_SomeD)

text \<open>\<open>s.rfind(p, 0) == 0\<close>: the string starts with \<open>p\<close>.\<close>

definition starts_with :: "'a list \<Rightarrow> 'a list \<Rightarrow> bool" where
  "starts_with p s \<longleftrightarrow> take (length p) s = p"

lemma starts_with_append [cstr]: "starts_with p (p @ s)"
  by (simp add: starts_with_def)

lemma starts_withE:
  assumes "starts_with p s" obtains r where "s = p @ r"
  using assms by (metis starts_with_def append_take_drop_id)

text \<open>
  One \<open>std::getline(stream, line, d)\<close> on a stream that holds \<open>s\<close>: the line and what is
  left, \<open>None\<close> when the stream is exhausted before a character is extracted.
\<close>

definition getline :: "char \<Rightarrow> string \<Rightarrow> (string \<times> string) option" where
  "getline d s =
     (if s = [] then None
      else case cut d s of None \<Rightarrow> Some (s, []) | Some p \<Rightarrow> Some p)"

lemma getline_length: "getline d s = Some (l, r) \<Longrightarrow> length r < length s"
  by (auto simp: getline_def cut_length split: if_splits option.splits)

lemma getline_line [cstr]: "d \<notin> set l \<Longrightarrow> getline d (l @ d # r) = Some (l, r)"
  by (simp add: getline_def cut_append)

lemma getline_last [cstr]: "d \<notin> set l \<Longrightarrow> l \<noteq> [] \<Longrightarrow> getline d l = Some (l, [])"
  by (simp add: getline_def cut_None)

lemma getline_Nil [cstr]: "getline d [] = None"
  by (simp add: getline_def)

text \<open>The lines a loop \<open>while (std::getline(stream, line, d))\<close> goes through.\<close>

function getlines :: "char \<Rightarrow> string \<Rightarrow> string list" where
  "getlines d s =
     (case getline d s of None \<Rightarrow> [] | Some (l, r) \<Rightarrow> l # getlines d r)"
  by pat_completeness auto
termination
  by (relation "measure (\<lambda>(d, s). length s)") (auto dest: getline_length)

declare getlines.simps [simp del]

lemma getlines_Nil [simp]: "getlines d [] = []"
  by (subst getlines.simps) (simp add: getline_def)

lemma getlines_line [cstr]: "d \<notin> set l \<Longrightarrow> getlines d (l @ d # r) = l # getlines d r"
  by (subst getlines.simps) (simp add: getline_line)

lemma getlines_last [cstr]: "d \<notin> set l \<Longrightarrow> l \<noteq> [] \<Longrightarrow> getlines d l = [l]"
  by (subst getlines.simps) (simp add: getline_last)

lemma getlines_concat [cstr]:
  "\<forall>l \<in> set ls. d \<notin> set l \<Longrightarrow> getlines d (concat (map (\<lambda>l. l @ [d]) ls) @ r) = ls @ getlines d r"
  by (induction ls) (auto simp: getlines_line)

lemma getlines_no_delim: "l \<in> set (getlines d s) \<Longrightarrow> d \<notin> set l"
proof (induction d s rule: getlines.induct)
  case (1 d s)
  show ?case
  proof (cases "getline d s")
    case None
    with "1.prems" show ?thesis by (simp add: getlines.simps [of d s])
  next
    case (Some p)
    obtain a r where p: "p = (a, r)" by (cases p)
    have "d \<notin> set a"
      using Some p by (auto simp: getline_def cut_None_iff dest: cut_SomeD split: if_splits option.splits)
    with "1.prems" "1.IH" [OF Some p [symmetric]] Some p show ?thesis
      by (auto simp: getlines.simps [of d s])
  qed
qed

section \<open>White space\<close>

text \<open>The set \<open>" \t\r\n"\<close> of the two \<open>trim\<close> functions.\<close>

definition is_ws :: "char \<Rightarrow> bool" where
  "is_ws c \<longleftrightarrow> c = CHR '' '' \<or> c = CHR 0x09 \<or> c = CHR 0x0D \<or> c = CHR 0x0A"

definition trimmed :: "string \<Rightarrow> bool" where
  "trimmed s \<longleftrightarrow> s = [] \<or> (\<not> is_ws (hd s) \<and> \<not> is_ws (last s))"

text \<open>\<open>find_first_not_of\<close>, \<open>find_last_not_of\<close> and \<open>substr\<close> as the code composes them.\<close>

definition trim :: "string \<Rightarrow> string" where
  "trim s = rev (dropWhile is_ws (rev (dropWhile is_ws s)))"

lemma dropWhile_hd: "s = [] \<or> \<not> P (hd s) \<Longrightarrow> dropWhile P s = s"
  by (cases s) auto

lemma trim_trimmed [cstr]: "trimmed s \<Longrightarrow> trim s = s"
proof -
  assume t: "trimmed s"
  then have "dropWhile is_ws s = s"
    by (auto simp: trimmed_def intro: dropWhile_hd)
  moreover have "dropWhile is_ws (rev s) = rev s"
    using t by (auto simp: trimmed_def hd_rev intro: dropWhile_hd)
  ultimately show "trim s = s" by (simp add: trim_def)
qed

lemma trim_space [cstr]: "trim (CHR '' '' # s) = trim s"
  by (simp add: trim_def is_ws_def)

lemma trim_Nil [simp]: "trim [] = []"
  by (simp add: trim_def)

lemma last_dropWhile: "dropWhile P s \<noteq> [] \<Longrightarrow> last (dropWhile P s) = last s"
  by (induction s) (auto split: if_splits)

lemma trimmed_trim: "trimmed (trim s)"
proof -
  define m where "m = dropWhile is_ws s"
  define r where "r = dropWhile is_ws (rev m)"
  have t: "trim s = rev r" by (simp add: trim_def m_def r_def)
  show ?thesis
  proof (cases "r = []")
    case True
    then show ?thesis by (simp add: t trimmed_def)
  next
    case False
    then have "\<not> is_ws (hd r)"
      unfolding r_def by (rule hd_dropWhile)
    moreover have "last r = hd m"
      using False last_dropWhile [of is_ws "rev m"] by (simp add: r_def last_rev)
    moreover have "m \<noteq> []" using False by (auto simp: r_def)
    then have "\<not> is_ws (hd m)"
      unfolding m_def by (rule hd_dropWhile)
    ultimately show ?thesis
      using False by (simp add: t trimmed_def hd_rev last_rev)
  qed
qed

lemma trim_idem [simp]: "trim (trim s) = trim s"
  by (rule trim_trimmed [OF trimmed_trim])

text \<open>\<open>std::isspace\<close> in the C locale, used by \<open>strtol\<close> and \<open>normalize_cipher_name\<close>.\<close>

definition is_space :: "char \<Rightarrow> bool" where
  "is_space c \<longleftrightarrow> c = CHR '' '' \<or> (9 \<le> (of_char c :: nat) \<and> (of_char c :: nat) \<le> 13)"

text \<open>\<open>std::tolower\<close> in the C locale.\<close>

definition to_lower :: "char \<Rightarrow> char" where
  "to_lower c = (let n = of_char c :: nat in if 65 \<le> n \<and> n \<le> 90 then char_of (n + 32) else c)"

section \<open>Decimal numbers\<close>

definition digit_char :: "nat \<Rightarrow> char" where
  "digit_char n = char_of (48 + n)"

definition is_digit :: "char \<Rightarrow> bool" where
  "is_digit c \<longleftrightarrow> 48 \<le> (of_char c :: nat) \<and> (of_char c :: nat) \<le> 57"

definition digit_val :: "char \<Rightarrow> nat" where
  "digit_val c = of_char c - 48"

text \<open>\<open>std::to_string\<close> and \<open>operator<<\<close> on unsigned and signed integers.\<close>

fun show_nat :: "nat \<Rightarrow> string" where
  "show_nat n =
     (if n < 10 then [digit_char n] else show_nat (n div 10) @ [digit_char (n mod 10)])"

declare show_nat.simps [simp del]

definition show_int :: "int \<Rightarrow> string" where
  "show_int i = (if i < 0 then CHR ''-'' # show_nat (nat (- i)) else show_nat (nat i))"

definition digits_val :: "string \<Rightarrow> nat" where
  "digits_val s = foldl (\<lambda>a c. 10 * a + digit_val c) 0 s"

lemma digit_char_facts [simp]:
  assumes "n < 10"
  shows "is_digit (digit_char n)" "digit_val (digit_char n) = n"
  using assms by (simp_all add: is_digit_def digit_char_def digit_val_def)

lemma show_nat_digits: "\<forall>c \<in> set (show_nat n). is_digit c"
proof (induction n rule: show_nat.induct)
  case (1 n)
  then show ?case by (subst show_nat.simps) auto
qed

lemma show_nat_nonempty [simp]: "show_nat n \<noteq> []"
  by (subst show_nat.simps) simp

lemma digits_val_snoc: "digits_val (s @ [c]) = 10 * digits_val s + digit_val c"
  by (simp add: digits_val_def)

lemma digits_val_show_nat [codec]: "digits_val (show_nat n) = n"
proof (induction n rule: show_nat.induct)
  case (1 n)
  show ?case
  proof (cases "n < 10")
    case True
    then show ?thesis by (subst show_nat.simps) (simp add: digits_val_def)
  next
    case False
    with 1 show ?thesis by (subst show_nat.simps) (simp add: digits_val_snoc)
  qed
qed

lemma digit_not_space: "is_digit c \<Longrightarrow> \<not> is_space c"
  by (auto simp: is_digit_def is_space_def)

lemma digit_not_sign: "is_digit c \<Longrightarrow> c \<noteq> CHR ''-'' \<and> c \<noteq> CHR ''+''"
  by (auto simp: is_digit_def)

text \<open>
  \<open>strtol\<close> and its kin: white space, an optional sign, then the longest run of digits;
  \<open>None\<close> stands for \<open>std::invalid_argument\<close>. The value is not yet checked for range.
\<close>

definition scan_int :: "string \<Rightarrow> (bool \<times> nat) option" where
  "scan_int s =
     (let t = dropWhile is_space s;
          (neg, u) = (case t of
              [] \<Rightarrow> (False, [])
            | c # r \<Rightarrow> if c = CHR ''-'' then (True, r) else if c = CHR ''+'' then (False, r) else (False, t));
          ds = takeWhile is_digit u
      in if ds = [] then None else Some (neg, digits_val ds))"

lemma scan_int_digits:
  assumes "\<forall>c \<in> set ds. is_digit c" "ds \<noteq> []" "r = [] \<or> \<not> is_digit (hd r)"
  shows "scan_int (ds @ r) = Some (False, digits_val ds)"
proof -
  from assms obtain c cs where ds: "ds = c # cs" "is_digit c" by (cases ds) auto
  have "dropWhile is_space (ds @ r) = ds @ r"
    using ds by (simp add: digit_not_space)
  moreover have "takeWhile is_digit (ds @ r) = ds"
    using assms by (cases r) (auto simp: takeWhile_append2)
  ultimately show ?thesis
    using ds digit_not_sign [of c] by (simp add: scan_int_def)
qed

text \<open>
  \<open>std::stoull\<close> (64 bits; a minus sign negates modulo \<open>2^64\<close>, as \<open>strtoull\<close> does),
  \<open>std::stoll\<close>, \<open>std::stoi\<close>. \<open>None\<close> is an exception.
\<close>

definition stoull :: "string \<Rightarrow> nat option" where
  "stoull s = (case scan_int s of None \<Rightarrow> None
     | Some (neg, v) \<Rightarrow>
         if 2 ^ 64 \<le> v then None else Some (if neg then (2 ^ 64 - v) mod 2 ^ 64 else v))"

definition signed_in :: "nat \<Rightarrow> string \<Rightarrow> int option" where
  "signed_in w s = (case scan_int s of None \<Rightarrow> None
     | Some (neg, v) \<Rightarrow>
         let i = (if neg then - int v else int v) in
         if - (2 ^ (w - 1)) \<le> i \<and> i < 2 ^ (w - 1) then Some i else None)"

definition stoll :: "string \<Rightarrow> int option" where
  "stoll s = signed_in 64 s"

definition stoi :: "string \<Rightarrow> int option" where
  "stoi s = signed_in 32 s"

lemma scan_int_show_nat [codec]: "scan_int (show_nat n) = Some (False, n)"
  using scan_int_digits [OF show_nat_digits show_nat_nonempty, of "[]" n]
  by (simp add: digits_val_show_nat)

lemma scan_int_neg [codec]: "scan_int (CHR ''-'' # show_nat n) = Some (True, n)"
proof -
  have "takeWhile is_digit (show_nat n) = show_nat n"
    using show_nat_digits by (simp add: takeWhile_eq_all_conv)
  then show ?thesis
    by (simp add: scan_int_def is_space_def digits_val_show_nat Let_def del: takeWhile_eq_all_conv)
qed

lemma stoull_show_nat [codec]: "n < 2 ^ 64 \<Longrightarrow> stoull (show_nat n) = Some n"
  by (simp add: stoull_def scan_int_show_nat)

lemma stoll_show_int [codec]:
  "- (2 ^ 63) \<le> i \<Longrightarrow> i < 2 ^ 63 \<Longrightarrow> stoll (show_int i) = Some i"
  by (cases "i < 0") (simp_all add: stoll_def signed_in_def show_int_def scan_int_show_nat scan_int_neg)

lemma stoi_show_int [codec]: "- (2 ^ 31) \<le> i \<Longrightarrow> i < 2 ^ 31 \<Longrightarrow> stoi (show_int i) = Some i"
  by (cases "i < 0") (simp_all add: stoi_def signed_in_def show_int_def scan_int_show_nat scan_int_neg)

lemma stoi_range: "stoi s = Some i \<Longrightarrow> - (2 ^ 31) \<le> i \<and> i < 2 ^ 31"
  by (auto simp: stoi_def signed_in_def Let_def split: option.splits if_splits)

lemma stoull_lt: "stoull s = Some n \<Longrightarrow> n < 2 ^ 64"
  by (auto simp: stoull_def split: option.splits if_splits)

lemma show_int_chars: "c \<in> set (show_int i) \<Longrightarrow> is_digit c \<or> c = CHR ''-''"
  using show_nat_digits by (auto simp: show_int_def split: if_splits)

lemma show_nat_free [cstr]: "\<not> is_digit c \<Longrightarrow> c \<notin> set (show_nat n)"
  using show_nat_digits by auto

lemma show_int_free [cstr]: "\<not> is_digit c \<Longrightarrow> c \<noteq> CHR ''-'' \<Longrightarrow> c \<notin> set (show_int i)"
  using show_int_chars by auto

lemma num_free [simp]:
  "CHR 0x0A \<notin> set (show_nat n)" "CHR ''|'' \<notin> set (show_nat n)" "CHR '':'' \<notin> set (show_nat n)"
  "CHR '','' \<notin> set (show_nat n)" "CHR 0x0D \<notin> set (show_nat n)"
  "CHR 0x0A \<notin> set (show_int i)" "CHR ''|'' \<notin> set (show_int i)" "CHR '':'' \<notin> set (show_int i)"
  by (rule show_nat_free show_int_free; simp add: is_digit_def)+

lemma unat_u64_lt [simp]: "unat (w :: u64) < 2 ^ 64"
  using unsigned_less [where ?'a = nat, of w] by simp

lemma show_int_nonempty [simp]: "show_int i \<noteq> []"
  by (simp add: show_int_def)

text \<open>
  \<open>std::from_chars\<close> on a signed 64-bit integer, with the check that the whole text was used:
  an optional minus sign and digits only.
\<close>

definition from_chars :: "string \<Rightarrow> int option" where
  "from_chars s =
     (let (neg, ds) = (if s \<noteq> [] \<and> hd s = CHR ''-'' then (True, tl s) else (False, s)) in
      if ds = [] \<or> \<not> list_all is_digit ds then None
      else let i = (if neg then - int (digits_val ds) else int (digits_val ds)) in
        if - (2 ^ 63) \<le> i \<and> i < 2 ^ 63 then Some i else None)"

lemma from_chars_show_int [codec]: "0 \<le> i \<Longrightarrow> i < 2 ^ 63 \<Longrightarrow> from_chars (show_int i) = Some i"
proof -
  assume i: "0 \<le> i" "i < 2 ^ 63"
  have d: "list_all is_digit (show_nat (nat i))"
    using show_nat_digits by (simp add: list_all_iff)
  then have "hd (show_nat (nat i)) \<noteq> CHR ''-''"
    using digit_not_sign [of "hd (show_nat (nat i))"] by (cases "show_nat (nat i)") auto
  with i d show ?thesis
    by (simp add: from_chars_def show_int_def digits_val_show_nat)
qed

text \<open>\<open>static_cast<size_t>(int)\<close>: a negative value wraps around at 64 bits.\<close>

definition size_of_int :: "int \<Rightarrow> nat" where
  "size_of_int i = unat (word_of_int i :: u64)"

section \<open>Association lists\<close>

definition alookup :: "('k \<times> 'v) list \<Rightarrow> 'k \<Rightarrow> 'v \<Rightarrow> 'v" where
  "alookup m k d = (case map_of m k of None \<Rightarrow> d | Some v \<Rightarrow> v)"

definition dkeys :: "('k \<times> 'v) list \<Rightarrow> bool" where
  "dkeys m \<longleftrightarrow> distinct (map fst m)"

lemma map_of_update [simp]: "map_of (AList.update k v m) = (map_of m)(k \<mapsto> v)"
  by (rule update_conv')

lemma dkeys_update [intro, simp]: "dkeys m \<Longrightarrow> dkeys (AList.update k v m)"
  by (simp add: dkeys_def distinct_update)

lemma dkeys_Nil [simp]: "dkeys []"
  by (simp add: dkeys_def)

lemma alookup_update [simp]:
  "alookup (AList.update k v m) k' d = (if k = k' then v else alookup m k' d)"
  by (simp add: alookup_def)

lemma dkeys_mset:
  assumes "mset m = mset m'" "dkeys m"
  shows "dkeys m'" "map_of m = map_of m'"
proof -
  have "mset (map fst m) = mset (map fst m')"
    using assms(1) by (metis mset_map)
  with assms(2) show d: "dkeys m'"
    unfolding dkeys_def by (metis mset_eq_imp_distinct_iff)
  have "set m = set m'" using assms(1) by (rule mset_eq_setD)
  with assms(2) d show "map_of m = map_of m'"
    unfolding dkeys_def by (simp add: map_of_inject_set)
qed

text \<open>A loop that stores each pair of a list into a map.\<close>

definition store_all :: "('k \<times> 'v) list \<Rightarrow> ('k \<times> 'v) list \<Rightarrow> ('k \<times> 'v) list" where
  "store_all kvs m = fold (\<lambda>(k, v). AList.update k v) kvs m"

lemma map_of_store_all: "dkeys kvs \<Longrightarrow> map_of (store_all kvs m) = map_of m ++ map_of kvs"
proof (induction kvs arbitrary: m)
  case Nil
  then show ?case by (simp add: store_all_def)
next
  case (Cons kv kvs)
  obtain k v where kv: "kv = (k, v)" by (cases kv)
  from Cons.prems kv have k: "map_of kvs k = None" and d: "dkeys kvs"
    by (auto simp: dkeys_def map_of_eq_None_iff)
  have e: "(map_of m)(k \<mapsto> v) ++ map_of kvs = map_of m ++ map_of (kv # kvs)"
    using k kv by (auto simp: map_add_def fun_eq_iff split: option.splits)
  have "map_of (store_all (kv # kvs) m) = map_of (AList.update k v m) ++ map_of kvs"
    using Cons.IH [OF d, of "AList.update k v m"] kv by (simp add: store_all_def del: map_of_update)
  with e show ?case by (simp only: map_of_update)
qed

lemma dkeys_store_all: "dkeys m \<Longrightarrow> dkeys (store_all kvs m)"
  by (induction kvs arbitrary: m) (auto simp: store_all_def split: prod.splits)

section \<open>Random bytes\<close>

text \<open>
  \<open>RAND_bytes\<close> reads a list of outcomes, one for each call, \<open>None\<close> being a failure (so is
  the end of the list).
\<close>

type_synonym rng = "byte list option list"

fun rand_bytes :: "nat \<Rightarrow> rng \<Rightarrow> byte list option \<times> rng" where
  "rand_bytes n [] = (None, [])"
| "rand_bytes n (None # r) = (None, r)"
| "rand_bytes n (Some bs # r) = (Some (take n (bs @ replicate n 0)), r)"

lemma rand_bytes_length: "rand_bytes n r = (Some bs, r') \<Longrightarrow> length bs = n"
  by (induction n r rule: rand_bytes.induct) auto

section \<open>Reversible encodings\<close>

text \<open>
  The contract every encoder and decoder of the program shares: what was encoded from a
  value inside the domain \<open>ok\<close> decodes to that value. The clients only need the two
  consequences proved here.
\<close>

locale reversible =
  fixes enc :: "'a \<Rightarrow> 'b" and dec :: "'b \<Rightarrow> 'a option" and ok :: "'a \<Rightarrow> bool"
  assumes dec_enc: "ok x \<Longrightarrow> dec (enc x) = Some x"
begin

lemma enc_inj: "inj_on enc {x. ok x}"
  by (rule inj_onI) (metis dec_enc mem_Collect_eq option.inject)

lemma enc_same: "ok x \<Longrightarrow> ok y \<Longrightarrow> enc x = enc y \<Longrightarrow> x = y"
  by (metis dec_enc option.inject)

end

section \<open>State kept per name\<close>

text \<open>
  The contract of the stores that keep one entry per user or per client: an operation on one
  name leaves what is stored under every other name alone. It gives isolation: whatever is
  done under other names, in any order and number, does not change an entry.
\<close>

locale per_name =
  fixes look :: "'s \<Rightarrow> string \<Rightarrow> 'r option" and op :: "string \<Rightarrow> 'a \<Rightarrow> 's \<Rightarrow> 's"
  assumes op_other: "k' \<noteq> k \<Longrightarrow> look (op k a s) k' = look s k'"
begin

lemma isolated: "k \<notin> fst ` set ops \<Longrightarrow> look (fold (\<lambda>(k, a). op k a) ops s) k = look s k"
proof (induction ops arbitrary: s)
  case (Cons ka ops)
  then show ?case by (cases ka) (auto simp: op_other)
qed simp

end

end
