(* ===== verification/Encoding.thy ===== *)
theory Encoding
  imports Prelude
begin

unbundle bit_operations_syntax

text \<open>
  Byte encodings: \<open>common/src/base64.cpp\<close>, the big-endian words and \<open>secure_zero\<close> of
  \<open>common/src/bytes.cpp\<close>, the hexadecimal text of \<open>common/src/auth.cpp\<close>, and the key blob
  that \<open>store_key\<close>/\<open>load_key\<close> of \<open>server/src/main.cpp\<close> write to and read from a file
  (the client's \<open>store_key_file\<close>/\<open>load_key_file\<close> have the same body). Each pair is an
  instance of the locale \<open>reversible\<close>.
\<close>

section \<open>Base64\<close>

definition kBase64Alphabet :: string where
  "kBase64Alphabet = ''ABCDEFGHIJKLMNOPQRSTUVWXYZabcdefghijklmnopqrstuvwxyz0123456789+/''"

definition b64_at :: "u32 \<Rightarrow> nat \<Rightarrow> char" where
  "b64_at triple k = kBase64Alphabet ! unat (drop_bit k triple AND 0x3F)"

fun base64_encode :: "byte list \<Rightarrow> string" where
  "base64_encode (a # b # c # rest) =
     (let triple = push_bit 16 (ucast a) OR push_bit 8 (ucast b) OR ucast c
      in [b64_at triple 18, b64_at triple 12, b64_at triple 6, b64_at triple 0] @ base64_encode rest)"
| "base64_encode [a, b] =
     (let triple = push_bit 16 (ucast a) OR push_bit 8 (ucast b)
      in [b64_at triple 18, b64_at triple 12, b64_at triple 6, CHR ''=''])"
| "base64_encode [a] =
     (let triple = push_bit 16 (ucast a)
      in [b64_at triple 18, b64_at triple 12, CHR ''='', CHR ''=''])"
| "base64_encode [] = []"

definition base64_value :: "char \<Rightarrow> int" where
  "base64_value c =
     (let n = of_char c :: int in
      if 65 \<le> n \<and> n \<le> 90 then n - 65
      else if 97 \<le> n \<and> n \<le> 122 then n - 97 + 26
      else if 48 \<le> n \<and> n \<le> 57 then n - 48 + 52
      else if c = CHR ''+'' then 62
      else if c = CHR ''/'' then 63
      else -1)"

text \<open>
  The decoder's loop state: the accumulator \<open>val\<close> (an \<open>int\<close>, kept at 32 bits with
  wrap-around: only its low bits are ever read), the bit position \<open>valb\<close>, the output so
  far and the success flag.
\<close>

record b64_state =
  b_val :: u32
  b_valb :: int
  b_out :: "byte list"
  b_ok :: bool

definition b64_skip :: "char \<Rightarrow> bool" where
  "b64_skip c \<longleftrightarrow> c = CHR ''='' \<or> c = CHR 0x0A \<or> c = CHR 0x0D \<or> c = CHR '' '' \<or> c = CHR 0x09"

definition b64_step :: "b64_state \<Rightarrow> char \<Rightarrow> b64_state" where
  "b64_step st c =
     (if b64_skip c then st
      else let v = base64_value c in
        if v < 0 then st\<lparr>b_ok := False\<rparr>
        else let val = push_bit 6 (b_val st) + word_of_int v;
                 valb = b_valb st + 6
             in if valb \<ge> 0
                then st\<lparr>b_val := val, b_valb := valb - 8,
                        b_out := b_out st @ [ucast (signed_drop_bit (nat valb) val AND 0xFF)]\<rparr>
                else st\<lparr>b_val := val, b_valb := valb\<rparr>)"

definition base64_decode :: "string \<Rightarrow> byte list \<times> bool" where
  "base64_decode text =
     (let st = foldl b64_step \<lparr>b_val = 0, b_valb = -8, b_out = [], b_ok = True\<rparr> text
      in (b_out st, b_ok st))"

text \<open>A caller that passes \<open>&ok\<close> and rejects the text unless it was set.\<close>

definition base64_decode_ok :: "string \<Rightarrow> byte list option" where
  "base64_decode_ok text = (case base64_decode text of (bs, ok) \<Rightarrow> if ok then Some bs else None)"

subsection \<open>Bits of the accumulators\<close>

lemma unat_byte_lt [simp]: "unat (a :: byte) < 256"
  using unsigned_less [of a, where ?'a = nat] by simp

lemma byte_bit_lt: "bit (a :: byte) n \<Longrightarrow> n < 8"
  using bit_imp_le_length [of a n] by simp

lemma triple_add:
  fixes a b c :: byte
  shows "push_bit 16 (ucast a) OR push_bit 8 (ucast b) OR (ucast c :: u32)
    = push_bit 16 (ucast a) + push_bit 8 (ucast b) + ucast c"
proof -
  have 1: "push_bit 16 (ucast a :: u32) + push_bit 8 (ucast b)
      = push_bit 16 (ucast a) OR push_bit 8 (ucast b)"
    by (rule disjunctive_add_eq_or)
      (auto simp: bit_eq_iff bit_simps dest: byte_bit_lt)
  have "(push_bit 16 (ucast a :: u32) OR push_bit 8 (ucast b)) + ucast c
      = (push_bit 16 (ucast a) OR push_bit 8 (ucast b)) OR ucast c"
    by (rule disjunctive_add_eq_or)
      (auto simp: bit_eq_iff bit_simps dest: byte_bit_lt)
  with 1 show ?thesis by (simp add: or.assoc)
qed

lemma unat_triple:
  fixes a b c :: byte
  shows "unat (push_bit 16 (ucast a) OR push_bit 8 (ucast b) OR (ucast c :: u32))
    = unat a * 65536 + unat b * 256 + unat c"
proof -
  have "push_bit 16 (ucast a) + push_bit 8 (ucast b) + (ucast c :: u32)
      = of_nat (unat a * 65536 + unat b * 256 + unat c)"
    by (simp add: push_bit_eq_mult)
  moreover have "unat a * 65536 + unat b * 256 + unat c < 4294967296"
    using unat_byte_lt [of a] unat_byte_lt [of b] unat_byte_lt [of c] by linarith
  ultimately show ?thesis
    unfolding triple_add by (simp only: unat_of_nat) simp
qed

lemma unat_and_63: "unat (w AND 0x3F :: u32) = unat w mod 64"
proof -
  have "w AND 0x3F = take_bit 6 w"
    by (simp add: take_bit_eq_mask mask_numeral)
  then have "unat (w AND 0x3F) = take_bit 6 (unat w)"
    by (simp only: unsigned_take_bit_eq)
  then show ?thesis by (simp add: take_bit_eq_mod)
qed

lemma b64_at_index: "b64_at t k = kBase64Alphabet ! (unat t div 2 ^ k mod 64)"
proof -
  have "unat (drop_bit k t) = unat t div 2 ^ k"
    by (metis drop_bit_eq_div unat_drop_bit_eq)
  then show ?thesis by (simp only: b64_at_def unat_and_63)
qed

lemma b64_alphabet:
  assumes "n < 64"
  shows "base64_value (kBase64Alphabet ! n) = int n" "\<not> b64_skip (kBase64Alphabet ! n)"
proof -
  have "\<forall>i \<in> set [0..<64]. base64_value (kBase64Alphabet ! i) = int i \<and> \<not> b64_skip (kBase64Alphabet ! i)"
    by code_simp
  with assms show "base64_value (kBase64Alphabet ! n) = int n" "\<not> b64_skip (kBase64Alphabet ! n)"
    by auto
qed

text \<open>The output byte depends on the twelve low bits of the accumulator only.\<close>

lemma out_byte:
  assumes "k \<le> 4"
  shows "ucast (signed_drop_bit k (w :: u32) AND 0xFF) = (word_of_nat (unat w mod 4096 div 2 ^ k) :: byte)"
proof (rule bit_word_eqI)
  fix n assume n: "n < LENGTH(8)"
  have m: "(0xFF :: u32) = mask 8" by (simp add: mask_numeral)
  have "unat w mod 4096 div 2 ^ k = drop_bit k (take_bit 12 (unat w))"
    by (simp add: drop_bit_eq_div take_bit_eq_mod)
  then show "bit (ucast (signed_drop_bit k w AND 0xFF) :: byte) n =
      bit (word_of_nat (unat w mod 4096 div 2 ^ k) :: byte) n"
    using n assms
    by (auto simp: bit_simps m min_def)
qed

lemma mod_4096: "x < 64 \<Longrightarrow> (n * 64 + x) mod 4096 = n mod 64 * 64 + (x :: nat)"
proof -
  assume x: "x < 64"
  have "n mod 64 < 64" by simp
  with x have "n mod 64 * 64 + x < 4096" by linarith
  moreover have "n * 64 + x = (n mod 64 * 64 + x) + 4096 * (n div 64)"
    using div_mult_mod_eq [of n 64] by linarith
  ultimately show ?thesis by (simp only: mod_mult_self2 mod_less)
qed

lemma acc_mod:
  fixes w :: u32
  assumes "x < 64"
  shows "unat (push_bit 6 w + word_of_int (int x)) mod 4096 = (unat w mod 64 * 64 + x)"
proof -
  have w: "word_of_nat (unat w) = w" by simp
  have "push_bit 6 w + word_of_int (int x) = (word_of_nat (unat w * 64 + x) :: u32)"
    by (simp add: push_bit_eq_mult)
  then have "unat (push_bit 6 w + word_of_int (int x)) = (unat w * 64 + x) mod 2 ^ 32"
    by (simp only: unat_of_nat) simp
  moreover have "(unat w * 64 + x) mod 2 ^ 32 mod 4096 = (unat w * 64 + x) mod 4096"
    by (rule mod_mod_cancel) simp
  ultimately show ?thesis
    using mod_4096 [OF assms, of "unat w"] by (simp only:)
qed

lemma b64_step_index:
  assumes x: "x < 64" and p: "p \<le> -2" "-8 \<le> p"
  shows "\<exists>v'. unat v' mod 64 = x \<and>
    b64_step \<lparr>b_val = v, b_valb = p, b_out = out, b_ok = k\<rparr> (kBase64Alphabet ! x) =
      (if p + 6 \<ge> 0
       then \<lparr>b_val = v', b_valb = p - 2,
              b_out = out @ [word_of_nat ((unat v mod 64 * 64 + x) div 2 ^ nat (p + 6))], b_ok = k\<rparr>
       else \<lparr>b_val = v', b_valb = p + 6, b_out = out, b_ok = k\<rparr>)"
proof -
  define v' where "v' = push_bit 6 v + word_of_int (int x)"
  have m: "unat v' mod 4096 = unat v mod 64 * 64 + x"
    unfolding v'_def by (rule acc_mod [OF x])
  have "unat v' mod 64 = unat v' mod 4096 mod 64"
    by (simp add: mod_mod_cancel)
  with m x have m6: "unat v' mod 64 = x" by simp
  have o: "ucast (signed_drop_bit (nat (p + 6)) v' AND 0xFF)
      = (word_of_nat ((unat v mod 64 * 64 + x) div 2 ^ nat (p + 6)) :: byte)"
    unfolding m [symmetric] by (rule out_byte) (use p in simp)
  show ?thesis
    using m6 o by (intro exI [of _ v']) (simp add: b64_step_def b64_alphabet [OF x] v'_def Let_def)
qed

lemma pair_index:
  fixes n :: nat
  shows "n div 64 mod 64 * 64 + n mod 64 = n mod 4096"
  using mod_mult2_eq [of n 64 64] by simp

lemma byte_eqI: "n mod 256 = unat a \<Longrightarrow> (word_of_nat n :: byte) = a"
  by (simp only: word_unat_eq_iff unat_of_nat) simp

lemma b64_group:
  fixes t :: nat
  shows "\<exists>v'. foldl b64_step \<lparr>b_val = v, b_valb = -8, b_out = out, b_ok = k\<rparr>
      [kBase64Alphabet ! (t div 2 ^ 18 mod 64), kBase64Alphabet ! (t div 2 ^ 12 mod 64)] =
      \<lparr>b_val = v', b_valb = -4, b_out = out @ [word_of_nat (t div 65536)], b_ok = k\<rparr>
    \<and> unat v' mod 64 = t div 2 ^ 12 mod 64"
proof -
  have d: "t div 2 ^ 18 = t div 2 ^ 12 div 64"
    by (simp add: div_mult2_eq [symmetric])
  obtain v1 where 1: "unat v1 mod 64 = t div 2 ^ 18 mod 64"
    "b64_step \<lparr>b_val = v, b_valb = -8, b_out = out, b_ok = k\<rparr> (kBase64Alphabet ! (t div 2 ^ 18 mod 64))
      = \<lparr>b_val = v1, b_valb = -2, b_out = out, b_ok = k\<rparr>"
    using b64_step_index [of "t div 2 ^ 18 mod 64" "-8" v out k] by auto
  obtain v2 where 2: "unat v2 mod 64 = t div 2 ^ 12 mod 64"
    "b64_step \<lparr>b_val = v1, b_valb = -2, b_out = out, b_ok = k\<rparr> (kBase64Alphabet ! (t div 2 ^ 12 mod 64))
      = \<lparr>b_val = v2, b_valb = -4,
          b_out = out @ [word_of_nat ((unat v1 mod 64 * 64 + t div 2 ^ 12 mod 64) div 2 ^ 4)], b_ok = k\<rparr>"
    using b64_step_index [of "t div 2 ^ 12 mod 64" "-2" v1 out k] by auto
  have "unat v1 mod 64 * 64 + t div 2 ^ 12 mod 64 = t div 2 ^ 12 mod 4096"
    unfolding 1(1) d by (rule pair_index)
  moreover have "(word_of_nat (t div 2 ^ 12 mod 4096 div 2 ^ 4) :: byte) = word_of_nat (t div 65536)"
  proof (rule byte_eqI)
    have "t div 2 ^ 12 mod 4096 div 2 ^ 4 mod 256 = t div 2 ^ 12 div 16 mod 256"
      using div_mod_decomp [of "t div 2 ^ 12" 4096] mod_mult2_eq [of "t div 2 ^ 12" 16 256] by simp
    then show "t div 2 ^ 12 mod 4096 div 2 ^ 4 mod 256 = unat (word_of_nat (t div 65536) :: byte)"
      by (simp add: unat_of_nat div_mult2_eq [symmetric])
  qed
  ultimately show ?thesis using 1(2) 2 by simp
qed

lemma b64_third:
  fixes t :: nat
  assumes "unat v mod 64 = t div 2 ^ 12 mod 64"
  shows "\<exists>v'. b64_step \<lparr>b_val = v, b_valb = -4, b_out = out, b_ok = k\<rparr> (kBase64Alphabet ! (t div 2 ^ 6 mod 64))
      = \<lparr>b_val = v', b_valb = -6, b_out = out @ [word_of_nat (t div 256)], b_ok = k\<rparr>
    \<and> unat v' mod 64 = t div 2 ^ 6 mod 64"
proof -
  have d: "t div 2 ^ 12 = t div 2 ^ 6 div 64"
    by (simp add: div_mult2_eq [symmetric])
  have "unat v mod 64 * 64 + t div 2 ^ 6 mod 64 = t div 2 ^ 6 mod 4096"
    unfolding assms d by (rule pair_index)
  moreover have "(word_of_nat (t div 2 ^ 6 mod 4096 div 2 ^ 2) :: byte) = word_of_nat (t div 256)"
  proof (rule byte_eqI)
    have "t div 2 ^ 6 mod 4096 div 2 ^ 2 mod 256 = t div 2 ^ 6 div 4 mod 256"
      using mod_mult2_eq [of "t div 2 ^ 6" 4 1024] by (simp add: mod_mod_cancel)
    then show "t div 2 ^ 6 mod 4096 div 2 ^ 2 mod 256 = unat (word_of_nat (t div 256) :: byte)"
      by (simp add: unat_of_nat div_mult2_eq [symmetric])
  qed
  ultimately show ?thesis
    using b64_step_index [of "t div 2 ^ 6 mod 64" "-4" v out k] by auto
qed

lemma b64_fourth:
  fixes t :: nat
  assumes "unat v mod 64 = t div 2 ^ 6 mod 64"
  shows "\<exists>v'. b64_step \<lparr>b_val = v, b_valb = -6, b_out = out, b_ok = k\<rparr> (kBase64Alphabet ! (t mod 64))
      = \<lparr>b_val = v', b_valb = -8, b_out = out @ [word_of_nat t], b_ok = k\<rparr>"
proof -
  have "unat v mod 64 * 64 + t mod 64 = t mod 4096"
    using pair_index [of t] assms by simp
  moreover have "(word_of_nat (t mod 4096) :: byte) = word_of_nat t"
    by (rule byte_eqI) (simp add: unat_of_nat mod_mod_cancel)
  ultimately show ?thesis
    using b64_step_index [of "t mod 64" "-6" v out k] by auto
qed

lemma b64_pad: "b64_step st (CHR ''='') = st"
  by (simp add: b64_step_def b64_skip_def)

lemma byte_nat:
  fixes a b c :: byte
  shows "(word_of_nat ((unat a * 65536 + unat b * 256 + unat c) div 65536) :: byte) = a"
    and "(word_of_nat ((unat a * 65536 + unat b * 256 + unat c) div 256) :: byte) = b"
    and "(word_of_nat (unat a * 65536 + unat b * 256 + unat c) :: byte) = c"
proof -
  have lt: "unat b * 256 + unat c < 65536"
    using unat_byte_lt [of b] unat_byte_lt [of c] by linarith
  have "(unat a * 65536 + (unat b * 256 + unat c)) div 65536 = unat a"
    using lt by simp
  then show "(word_of_nat ((unat a * 65536 + unat b * 256 + unat c) div 65536) :: byte) = a"
    by (simp add: add.assoc)
  have e: "unat a * 65536 + unat b * 256 + unat c = unat c + 256 * (256 * unat a + unat b)"
    by simp
  have "(unat a * 65536 + unat b * 256 + unat c) div 256 = 256 * unat a + unat b"
    unfolding e by (simp only: div_mult_self2 div_less [OF unat_byte_lt] add_0_right add_0_left)
  then show "(word_of_nat ((unat a * 65536 + unat b * 256 + unat c) div 256) :: byte) = b"
    by (intro byte_eqI) simp
  have "(unat a * 65536 + unat b * 256 + unat c) mod 256 = unat c"
    unfolding e by (simp only: mod_mult_self2 mod_less unat_byte_lt)
  then show "(word_of_nat (unat a * 65536 + unat b * 256 + unat c) :: byte) = c"
    by (rule byte_eqI)
qed

lemma base64_decode_encode_state:
  "\<exists>v' p'. foldl b64_step \<lparr>b_val = v, b_valb = -8, b_out = out, b_ok = k\<rparr> (base64_encode bs)
    = \<lparr>b_val = v', b_valb = p', b_out = out @ bs, b_ok = k\<rparr>"
proof (induction bs arbitrary: v out rule: base64_encode.induct)
  case (1 a b c rest)
  define t where "t = unat a * 65536 + unat b * 256 + unat c"
  obtain v2 where 2: "foldl b64_step \<lparr>b_val = v, b_valb = -8, b_out = out, b_ok = k\<rparr>
      [kBase64Alphabet ! (t div 2 ^ 18 mod 64), kBase64Alphabet ! (t div 2 ^ 12 mod 64)] =
      \<lparr>b_val = v2, b_valb = -4, b_out = out @ [a], b_ok = k\<rparr>" "unat v2 mod 64 = t div 2 ^ 12 mod 64"
    using b64_group [of v out k t] byte_nat(1) [of a b c] by (auto simp: t_def)
  obtain v3 where 3: "b64_step \<lparr>b_val = v2, b_valb = -4, b_out = out @ [a], b_ok = k\<rparr>
      (kBase64Alphabet ! (t div 2 ^ 6 mod 64)) = \<lparr>b_val = v3, b_valb = -6, b_out = out @ [a, b], b_ok = k\<rparr>"
    "unat v3 mod 64 = t div 2 ^ 6 mod 64"
    using b64_third [OF 2(2), of "out @ [a]" k] byte_nat(2) [of a b c] by (auto simp: t_def)
  obtain v4 where 4: "b64_step \<lparr>b_val = v3, b_valb = -6, b_out = out @ [a, b], b_ok = k\<rparr>
      (kBase64Alphabet ! (t mod 64)) = \<lparr>b_val = v4, b_valb = -8, b_out = out @ [a, b, c], b_ok = k\<rparr>"
    using b64_fourth [OF 3(2), of "out @ [a, b]" k] byte_nat(3) [of a b c] by (auto simp: t_def)
  have "base64_encode (a # b # c # rest) =
      [kBase64Alphabet ! (t div 2 ^ 18 mod 64), kBase64Alphabet ! (t div 2 ^ 12 mod 64),
       kBase64Alphabet ! (t div 2 ^ 6 mod 64), kBase64Alphabet ! (t mod 64)] @ base64_encode rest"
    by (simp add: b64_at_index unat_triple t_def)
  then show ?case
    using 2(1) 3(1) 4 "1.IH" [OF refl, of v4 "out @ [a, b, c]"] by simp
next
  case (2 a b)
  define t where "t = unat a * 65536 + unat b * 256 + unat (0 :: byte)"
  obtain v2 where 2: "foldl b64_step \<lparr>b_val = v, b_valb = -8, b_out = out, b_ok = k\<rparr>
      [kBase64Alphabet ! (t div 2 ^ 18 mod 64), kBase64Alphabet ! (t div 2 ^ 12 mod 64)] =
      \<lparr>b_val = v2, b_valb = -4, b_out = out @ [a], b_ok = k\<rparr>" "unat v2 mod 64 = t div 2 ^ 12 mod 64"
    using b64_group [of v out k t] byte_nat(1) [of a b 0] by (auto simp: t_def)
  obtain v3 where 3: "b64_step \<lparr>b_val = v2, b_valb = -4, b_out = out @ [a], b_ok = k\<rparr>
      (kBase64Alphabet ! (t div 2 ^ 6 mod 64)) = \<lparr>b_val = v3, b_valb = -6, b_out = out @ [a, b], b_ok = k\<rparr>"
    using b64_third [OF 2(2), of "out @ [a]" k] byte_nat(2) [of a b 0] by (auto simp: t_def)
  have "base64_encode [a, b] =
      [kBase64Alphabet ! (t div 2 ^ 18 mod 64), kBase64Alphabet ! (t div 2 ^ 12 mod 64),
       kBase64Alphabet ! (t div 2 ^ 6 mod 64), CHR ''='']"
    using unat_triple [of a b 0] by (simp add: b64_at_index t_def)
  then show ?case
    using 2(1) 3 by (simp add: b64_pad)
next
  case (3 a)
  define t where "t = unat a * 65536 + unat (0 :: byte) * 256 + unat (0 :: byte)"
  obtain v2 where 2: "foldl b64_step \<lparr>b_val = v, b_valb = -8, b_out = out, b_ok = k\<rparr>
      [kBase64Alphabet ! (t div 2 ^ 18 mod 64), kBase64Alphabet ! (t div 2 ^ 12 mod 64)] =
      \<lparr>b_val = v2, b_valb = -4, b_out = out @ [a], b_ok = k\<rparr>"
    using b64_group [of v out k t] byte_nat(1) [of a 0 0] by (auto simp: t_def)
  have "base64_encode [a] =
      [kBase64Alphabet ! (t div 2 ^ 18 mod 64), kBase64Alphabet ! (t div 2 ^ 12 mod 64), CHR ''='', CHR ''='']"
    using unat_triple [of a 0 0] by (simp add: b64_at_index t_def)
  then show ?case
    using 2 by (simp add: b64_pad)
next
  case 4
  then show ?case by simp
qed

lemma base64_decode_encode [codec]: "base64_decode (base64_encode bs) = (bs, True)"
  using base64_decode_encode_state [of 0 "[]" True bs] by (auto simp: base64_decode_def)

interpretation base64: reversible base64_encode base64_decode_ok "\<lambda>_. True"
  by unfold_locales (simp add: base64_decode_ok_def base64_decode_encode)

section \<open>Big-endian 32-bit words\<close>

text \<open>\<open>read_be32\<close> reads four bytes at the pointer: every caller has checked the length.\<close>

definition read_be32 :: "byte list \<Rightarrow> u32" where
  "read_be32 d =
     push_bit 24 (ucast (d ! 0)) OR push_bit 16 (ucast (d ! 1)) OR push_bit 8 (ucast (d ! 2)) OR ucast (d ! 3)"

definition write_be32 :: "u32 \<Rightarrow> byte list" where
  "write_be32 value =
     [ucast (drop_bit 24 value AND 0xFF), ucast (drop_bit 16 value AND 0xFF),
      ucast (drop_bit 8 value AND 0xFF), ucast (value AND 0xFF)]"

lemma length_write_be32 [simp]: "length (write_be32 v) = 4"
  by (simp add: write_be32_def)

lemma write_be32_mask:
  "write_be32 value =
     [ucast (drop_bit 24 value AND mask 8), ucast (drop_bit 16 value AND mask 8),
      ucast (drop_bit 8 value AND mask 8), ucast (value AND mask 8)]"
proof -
  have "(0xFF :: u32) = mask 8"
    by (simp add: mask_eq_exp_minus_1)
  then show ?thesis
    by (simp only: write_be32_def)
qed

lemma read_write_be32 [codec]: "read_be32 (write_be32 v @ rest) = v"
proof (rule bit_word_eqI)
  fix n assume "n < LENGTH(32)"
  then consider "n < 8" | "8 \<le> n" "n < 16" | "16 \<le> n" "n < 24" | "24 \<le> n" "n < 32"
    by fastforce
  then show "bit (read_be32 (write_be32 v @ rest)) n = bit v n"
    by cases (auto simp: read_be32_def write_be32_mask bit_simps)
qed

section \<open>secure_zero\<close>

text \<open>The loop stores a zero at each of \<open>len\<close> bytes; a null pointer or a zero length is left alone.\<close>

fun secure_zero :: "byte list \<Rightarrow> nat \<Rightarrow> byte list" where
  "secure_zero data 0 = data"
| "secure_zero [] (Suc len) = []"
| "secure_zero (b # data) (Suc len) = 0 # secure_zero data len"

lemma secure_zero_all: "secure_zero data (length data) = replicate (length data) 0"
  by (induction data) auto

lemma secure_zero_prefix: "n \<le> length data \<Longrightarrow> secure_zero data n = replicate n 0 @ drop n data"
  by (induction data n rule: secure_zero.induct) auto

section \<open>Hexadecimal text\<close>

definition kHex :: string where
  "kHex = ''0123456789abcdef''"

definition hex_byte :: "byte \<Rightarrow> string" where
  "hex_byte b = [kHex ! unat (drop_bit 4 b AND 0xF), kHex ! unat (b AND 0xF)]"

definition bytes_to_hex :: "byte list \<Rightarrow> string" where
  "bytes_to_hex data = concat (map hex_byte data)"

text \<open>
  \<open>std::stoi(one_char, nullptr, 16)\<close>: a single character is accepted only when it is a
  hexadecimal digit of either case; anything else throws (\<open>None\<close>).
\<close>

definition stoi16_char :: "char \<Rightarrow> nat option" where
  "stoi16_char c =
     (let n = of_char c :: nat in
      if 48 \<le> n \<and> n \<le> 57 then Some (n - 48)
      else if 97 \<le> n \<and> n \<le> 102 then Some (n - 97 + 10)
      else if 65 \<le> n \<and> n \<le> 70 then Some (n - 65 + 10)
      else None)"

fun hex_pairs :: "string \<Rightarrow> byte list option" where
  "hex_pairs (h # l # rest) =
     (case (stoi16_char h, stoi16_char l) of
        (Some hi, Some lo) \<Rightarrow>
          (case hex_pairs rest of None \<Rightarrow> None
           | Some bs \<Rightarrow> Some ((push_bit 4 (word_of_nat hi) OR word_of_nat lo) # bs))
      | _ \<Rightarrow> None)"
| "hex_pairs _ = Some []"

definition hex_to_bytes :: "string \<Rightarrow> byte list option" where
  "hex_to_bytes hex = (if length hex mod 2 \<noteq> 0 then Some [] else hex_pairs hex)"

lemma nibble_lt:
  fixes b :: byte
  shows "unat (b AND 0xF) < 16" "unat (drop_bit 4 b AND 0xF) < 16"
proof -
  have f: "(0xF :: byte) = mask 4" by (simp add: mask_numeral)
  have "unat (take_bit 4 w) < 16" for w :: byte
    by (simp only: unsigned_take_bit_eq) (simp add: take_bit_eq_mod)
  then show "unat (b AND 0xF) < 16" "unat (drop_bit 4 b AND 0xF) < 16"
    by (simp_all only: f take_bit_eq_mask [symmetric])
qed

lemma kHex_digit:
  assumes "n < 16"
  shows "stoi16_char (kHex ! n) = Some n"
proof -
  have "\<forall>i \<in> set [0..<16]. stoi16_char (kHex ! i) = Some i" by code_simp
  with assms show ?thesis by auto
qed

lemma join_nibbles: "push_bit 4 (drop_bit 4 b AND 0xF) OR (b AND 0xF) = (b :: byte)"
proof -
  have f: "(0xF :: byte) = mask 4" by (simp add: mask_numeral)
  show ?thesis
    unfolding f by (rule bit_word_eqI) (auto simp: bit_simps)
qed

lemma hex_pairs_byte: "hex_pairs (hex_byte b @ s) = map_option ((#) b) (hex_pairs s)"
proof -
  have "push_bit 4 (word_of_nat (unat (drop_bit 4 b AND 0xF))) OR word_of_nat (unat (b AND 0xF)) = b"
    using join_nibbles [of b] by (simp only: of_nat_unat ucast_id)
  then show ?thesis
    unfolding hex_byte_def by (simp only: append.simps hex_pairs.simps kHex_digit nibble_lt) (simp split: option.split)
qed

lemma hex_pairs_hex: "hex_pairs (bytes_to_hex bs) = Some bs"
  by (induction bs) (simp_all add: bytes_to_hex_def hex_pairs_byte)

lemma length_bytes_to_hex [simp]: "length (bytes_to_hex bs) = 2 * length bs"
  by (induction bs) (simp_all add: bytes_to_hex_def hex_byte_def)

lemma hex_to_bytes_to_hex [codec]: "hex_to_bytes (bytes_to_hex bs) = Some bs"
  by (simp add: hex_to_bytes_def hex_pairs_hex)

interpretation hex: reversible bytes_to_hex hex_to_bytes "\<lambda>_. True"
  by unfold_locales (simp add: hex_to_bytes_to_hex)

section \<open>Properties\<close>

text \<open>The text the server sends for a key, an IV or a tag decodes, without an error, to exactly
  the bytes it was made from: base64 loses nothing, whatever the bytes and their number.\<close>

theorem base64_lossless: "base64_decode (base64_encode data) = (data, True)"
  by (rule base64_decode_encode)

end
