(* ===== verification/Storage.thy ===== *)
theory Storage
  imports Encoding
begin

text \<open>
  Files, and the two record formats the server keeps in its keys and hash directories:
  \<open>read_file\<close> and \<open>write_file\<close> (common/src/bytes.cpp), \<open>store_key\<close>, \<open>load_key\<close>,
  \<open>parse_hash_record\<close>, \<open>load_hash_record\<close> (server/src/main.cpp).

  The file system is a map from paths to contents. What the operating system does with a
  write is not decided by the program, so every operation that writes takes an outcome:
  the file does not open, the stream reports an error after \<open>n\<close> bytes, the bytes after the
  first \<open>n\<close> are lost when the stream is flushed by its destructor (which reports nothing),
  or everything is written.
\<close>

type_synonym fs = "path \<rightharpoonup> byte list"

datatype wout = W_noopen | W_short nat | W_lost nat | W_ok

definition read_file :: "fs \<Rightarrow> path \<Rightarrow> byte list option" where
  "read_file fs p = fs p"

fun write_file :: "wout \<Rightarrow> path \<Rightarrow> byte list \<Rightarrow> fs \<Rightarrow> bool \<times> fs" where
  "write_file W_noopen p data fs = (False, fs)"
| "write_file (W_short n) p data fs =
     (if data = [] then (True, fs(p \<mapsto> [])) else (False, fs(p \<mapsto> take n data)))"
| "write_file (W_lost n) p data fs = (True, fs(p \<mapsto> take n data))"
| "write_file W_ok p data fs = (True, fs(p \<mapsto> data))"

lemma write_file_other: "q \<noteq> p \<Longrightarrow> snd (write_file w p data fs) q = fs q"
  by (cases w) auto

lemma write_file_prefix:
  "snd (write_file w p data fs) p = fs p
    \<or> (\<exists>n. snd (write_file w p data fs) p = Some (take n data))"
  by (cases w) (auto intro: exI [of _ "length data"])

lemma write_file_True:
  "fst (write_file w p data fs) \<Longrightarrow> \<exists>n. snd (write_file w p data fs) p = Some (take n data)"
  by (cases w) (auto intro: exI [of _ "length data"] split: if_splits)

section \<open>Key records\<close>

definition key_blob :: "byte list \<times> byte list \<times> byte list \<Rightarrow> byte list" where
  "key_blob r = (case r of (key, iv, tag) \<Rightarrow>
     write_be32 (word_of_nat (length key)) @ write_be32 (word_of_nat (length iv))
       @ write_be32 (word_of_nat (length tag)) @ key @ iv @ tag)"

definition store_key :: "wout \<Rightarrow> path \<Rightarrow> byte list \<Rightarrow> byte list \<Rightarrow> byte list \<Rightarrow> fs \<Rightarrow> bool \<times> fs" where
  "store_key w p key iv tag fs = write_file w p (key_blob (key, iv, tag)) fs"

definition parse_key_blob :: "byte list \<Rightarrow> (byte list \<times> byte list \<times> byte list) option" where
  "parse_key_blob blob =
     (if length blob < 12 then None
      else let key_len = unat (read_be32 blob);
               iv_len = unat (read_be32 (drop 4 blob));
               tag_len = unat (read_be32 (drop 8 blob)) in
        if length blob < 12 + key_len + iv_len + tag_len then None
        else Some (take key_len (drop 12 blob),
                   take iv_len (drop (12 + key_len) blob),
                   take tag_len (drop (12 + key_len + iv_len) blob)))"

definition load_key :: "fs \<Rightarrow> path \<Rightarrow> (byte list \<times> byte list \<times> byte list) option" where
  "load_key fs p = (case read_file fs p of None \<Rightarrow> None | Some blob \<Rightarrow> parse_key_blob blob)"

definition key_ok :: "byte list \<times> byte list \<times> byte list \<Rightarrow> bool" where
  "key_ok r = (case r of (key, iv, tag) \<Rightarrow>
     length key < 2 ^ 32 \<and> length iv < 2 ^ 32 \<and> length tag < 2 ^ 32)"

lemma unat_of_len: "n < 2 ^ 32 \<Longrightarrow> unat (word_of_nat n :: u32) = n"
  by (simp add: unat_of_nat)

lemma key_blob_fields:
  assumes "key_ok (key, iv, tag)"
  shows "length (key_blob (key, iv, tag)) = 12 + length key + length iv + length tag"
    and "unat (read_be32 (key_blob (key, iv, tag) @ x)) = length key"
    and "unat (read_be32 (drop 4 (key_blob (key, iv, tag)) @ x)) = length iv"
    and "unat (read_be32 (drop 8 (key_blob (key, iv, tag)) @ x)) = length tag"
  using assms by (simp_all add: key_blob_def key_ok_def read_write_be32 unat_of_len)

lemma read_be32_take:
  assumes "4 \<le> n" shows "read_be32 (take n d) = read_be32 d"
  using assms by (simp add: read_be32_def)

lemma key_blob_roundtrip: "key_ok r \<Longrightarrow> parse_key_blob (key_blob r) = Some r"
proof -
  assume ok: "key_ok r"
  obtain key iv tag where r: "r = (key, iv, tag)" by (cases r) auto
  note f = key_blob_fields(1) [OF ok [unfolded r]]
    key_blob_fields(2-4) [OF ok [unfolded r], of "[]", simplified]
  show ?thesis
    using f by (simp add: parse_key_blob_def r) (simp add: key_blob_def)
qed

lemma key_blob_take:
  assumes ok: "key_ok r" and n: "n < length (key_blob r)"
  shows "parse_key_blob (take n (key_blob r)) = None"
proof (cases "n < 12")
  case True
  with n show ?thesis by (simp add: parse_key_blob_def)
next
  case False
  obtain key iv tag where r: "r = (key, iv, tag)" by (cases r) auto
  note f = key_blob_fields(1) [OF ok [unfolded r]]
    key_blob_fields(2-4) [OF ok [unfolded r], of "[]", simplified]
  have "read_be32 (take n (key_blob r)) = read_be32 (key_blob r)"
    "read_be32 (drop 4 (take n (key_blob r))) = read_be32 (drop 4 (key_blob r))"
    "read_be32 (drop 8 (take n (key_blob r))) = read_be32 (drop 8 (key_blob r))"
    using False by (simp_all add: drop_take read_be32_take)
  with f n r show ?thesis by (simp add: parse_key_blob_def Let_def)
qed

interpretation key_file: reversible key_blob parse_key_blob key_ok
  by unfold_locales (rule key_blob_roundtrip)

section \<open>Hash records\<close>

record hash_record =
  h_alg :: string
  h_hex :: string
  h_file_name :: string

definition parse_hash_record :: "string \<Rightarrow> hash_record option" where
  "parse_hash_record payload = (case cut (CHR '':'') payload of
       None \<Rightarrow> None
     | Some (alg, rest) \<Rightarrow> (case cut (CHR '':'') rest of
         None \<Rightarrow> None
       | Some (hex, name) \<Rightarrow>
           if alg \<noteq> [] \<and> hex \<noteq> []
           then Some \<lparr>h_alg = alg, h_hex = hex, h_file_name = name\<rparr> else None))"

definition load_hash_record :: "fs \<Rightarrow> path \<Rightarrow> hash_record option" where
  "load_hash_record fs p = (case read_file fs p of
       None \<Rightarrow> None
     | Some data \<Rightarrow> if data = [] then None else parse_hash_record (string_of data))"

definition hash_payload :: "hash_record \<Rightarrow> string" where
  "hash_payload r = h_alg r @ '':'' @ h_hex r @ '':'' @ h_file_name r"

definition hash_record_ok :: "hash_record \<Rightarrow> bool" where
  "hash_record_ok r \<longleftrightarrow> h_alg r \<noteq> [] \<and> h_hex r \<noteq> []
     \<and> CHR '':'' \<notin> set (h_alg r) \<and> CHR '':'' \<notin> set (h_hex r)"

lemma hash_record_roundtrip: "hash_record_ok r \<Longrightarrow> parse_hash_record (hash_payload r) = Some r"
  by (simp add: hash_record_ok_def parse_hash_record_def hash_payload_def cut_append)

interpretation hash_file: reversible hash_payload parse_hash_record hash_record_ok
  by unfold_locales (rule hash_record_roundtrip)

section \<open>Properties\<close>

lemma load_after_write:
  assumes "key_ok r"
  shows "load_key (snd (write_file w p (key_blob r) fs)) p \<in> {Some r, None, load_key fs p}"
proof -
  have t: "parse_key_blob (take n (key_blob r)) = Some r \<or> parse_key_blob (take n (key_blob r)) = None" for n
    using key_blob_take [OF assms, of n] key_blob_roundtrip [OF assms] by (cases "n < length (key_blob r)") auto
  show ?thesis
    using write_file_prefix [of w p "key_blob r" fs]
  proof
    assume "\<exists>n. snd (write_file w p (key_blob r) fs) p = Some (take n (key_blob r))"
    then obtain n where "snd (write_file w p (key_blob r) fs) p = Some (take n (key_blob r))" ..
    then show ?thesis using t [of n] by (auto simp: load_key_def read_file_def)
  qed (simp add: load_key_def read_file_def)
qed

text \<open>Whatever becomes of the write of a key file, reading it back gives the key material that
  was stored, no key at all, or what the file held before: never a truncated or mixed key. When the
  write is complete it gives the key material.\<close>

theorem stored_key_intact:
  assumes "key_ok (key, iv, tag)"
  shows "load_key (snd (store_key w p key iv tag fs)) p \<in> {Some (key, iv, tag), None, load_key fs p}
    \<and> load_key (snd (store_key W_ok p key iv tag fs)) p = Some (key, iv, tag)"
  using load_after_write [OF assms, of w p fs] key_blob_roundtrip [OF assms]
  by (simp add: store_key_def load_key_def read_file_def)

theorem stored_key_intact_witness:
  "load_key (snd (store_key (W_lost 13) ''k'' [1, 2] [] [3] Map.empty)) ''k'' \<in> {Some ([1, 2], [], [3]), None}
   \<and> load_key (snd (store_key W_ok ''k'' [1, 2] [] [3] Map.empty)) ''k'' = Some ([1, 2], [], [3])"
  using stored_key_intact [of "[1, 2]" "[]" "[3]" "W_lost 13" "''k''" Map.empty]
  by (simp add: key_ok_def load_key_def read_file_def)

end
