(* ===== verification/AuditLog.thy ===== *)
theory AuditLog
  imports Storage
begin

text \<open>
  The audit service (server/src/audit.cpp): event lines appended to the log, numbered alerts
  appended to the alert file and to the log, \<open>get_alerts_since\<close>, \<open>tail_logs\<close> and the recovery
  of the last alert number when the service starts.

  The clock is an argument (\<open>now\<close>, seconds). Appending takes an outcome, as every write does
  (see Storage); the code never looks at the state of these streams after writing.
\<close>

record alert =
  al_id :: u64
  al_ts :: int
  al_type :: string
  al_username :: string
  al_detail :: string

record audit =
  a_log_path :: path
  a_alert_path :: path
  a_next_id :: u64

definition format_event_line :: "int \<Rightarrow> string \<Rightarrow> string \<Rightarrow> string \<Rightarrow> string" where
  "format_event_line ts type username detail =
     show_int ts @ ''|'' @ type @ ''|'' @ username @ ''|'' @ detail"

definition format_alert_line :: "alert \<Rightarrow> string" where
  "format_alert_line a =
     show_nat (unat (al_id a)) @ ''|'' @ show_int (al_ts a) @ ''|'' @ al_type a @ ''|''
       @ al_username a @ ''|'' @ al_detail a"

definition parse_alert_line :: "string \<Rightarrow> alert option" where
  "parse_alert_line line =
     (case cut (CHR ''|'') line of None \<Rightarrow> None | Some (f1, r1) \<Rightarrow>
     (case cut (CHR ''|'') r1 of None \<Rightarrow> None | Some (f2, r2) \<Rightarrow>
     (case cut (CHR ''|'') r2 of None \<Rightarrow> None | Some (f3, r3) \<Rightarrow>
     (case cut (CHR ''|'') r3 of None \<Rightarrow> None | Some (f4, r4) \<Rightarrow>
     (case stoull f1 of None \<Rightarrow> None | Some i \<Rightarrow>
     (case stoll f2 of None \<Rightarrow> None | Some ts \<Rightarrow>
        Some \<lparr>al_id = word_of_nat i, al_ts = ts, al_type = f3, al_username = f4, al_detail = r4\<rparr>))))))"

text \<open>\<open>std::ofstream(path, app)\<close> and one \<open>operator<<\<close> of a line.\<close>

definition append_file :: "wout \<Rightarrow> path \<Rightarrow> string \<Rightarrow> fs \<Rightarrow> fs" where
  "append_file w p text fs =
     (let old = (case fs p of None \<Rightarrow> [] | Some d \<Rightarrow> d); data = bytes_of text in
      case w of
        W_noopen \<Rightarrow> fs
      | W_short n \<Rightarrow> fs(p \<mapsto> old @ take n data)
      | W_lost n \<Rightarrow> fs(p \<mapsto> old @ take n data)
      | W_ok \<Rightarrow> fs(p \<mapsto> old @ data))"

definition file_lines :: "fs \<Rightarrow> path \<Rightarrow> string list" where
  "file_lines fs p = (case fs p of None \<Rightarrow> [] | Some data \<Rightarrow> getlines (CHR 0x0A) (string_of data))"

definition keep_max :: "string \<Rightarrow> u64 \<Rightarrow> u64" where
  "keep_max line last_id = (case parse_alert_line line of
       None \<Rightarrow> last_id | Some a \<Rightarrow> if al_id a > last_id then al_id a else last_id)"

definition load_last_alert_id :: "fs \<Rightarrow> path \<Rightarrow> u64" where
  "load_last_alert_id fs p = fold keep_max (file_lines fs p) 0"

definition audit_new :: "path \<Rightarrow> path \<Rightarrow> fs \<Rightarrow> audit" where
  "audit_new log_path alert_path fs =
     \<lparr>a_log_path = log_path, a_alert_path = alert_path, a_next_id = load_last_alert_id fs alert_path + 1\<rparr>"

definition log_event :: "int \<Rightarrow> wout \<Rightarrow> string \<Rightarrow> string \<Rightarrow> string \<Rightarrow> audit \<Rightarrow> fs \<Rightarrow> fs" where
  "log_event now w type username detail a fs =
     append_file w (a_log_path a) (format_event_line now type username detail @ [CHR 0x0A]) fs"

definition log_alert ::
  "int \<Rightarrow> wout \<Rightarrow> wout \<Rightarrow> string \<Rightarrow> string \<Rightarrow> string \<Rightarrow> audit \<Rightarrow> fs \<Rightarrow> alert \<times> audit \<times> fs" where
  "log_alert now w1 w2 type username detail a fs =
     (let al = \<lparr>al_id = a_next_id a, al_ts = now, al_type = type, al_username = username, al_detail = detail\<rparr>;
          fs1 = append_file w1 (a_alert_path a) (format_alert_line al @ [CHR 0x0A]) fs;
          fs2 = append_file w2 (a_log_path a)
                  (format_event_line now (''alert:'' @ type) username detail @ [CHR 0x0A]) fs1
      in (al, a\<lparr>a_next_id := a_next_id a + 1\<rparr>, fs2))"

text \<open>The loop that collects the alerts newer than \<open>since_id\<close>, and the cut to the last \<open>limit\<close>.\<close>

fun collect_alerts :: "u64 \<Rightarrow> string list \<Rightarrow> alert list" where
  "collect_alerts since [] = []"
| "collect_alerts since (line # rest) = (case parse_alert_line line of
       None \<Rightarrow> collect_alerts since rest
     | Some a \<Rightarrow> if al_id a \<le> since then collect_alerts since rest
                 else a # collect_alerts since rest)"

definition get_alerts_since :: "fs \<Rightarrow> audit \<Rightarrow> u64 \<Rightarrow> nat \<Rightarrow> alert list" where
  "get_alerts_since fs a since limit =
     (let out = collect_alerts since (file_lines fs (a_alert_path a)) in
      if limit > 0 \<and> length out > limit then drop (length out - limit) out else out)"

fun tail_loop :: "nat \<Rightarrow> string list \<Rightarrow> string list \<Rightarrow> string list" where
  "tail_loop limit [] buffer = buffer"
| "tail_loop limit (line # rest) buffer =
     (if line = [] then tail_loop limit rest buffer
      else let b = buffer @ [line] in
        tail_loop limit rest (if limit > 0 \<and> length b > limit then tl b else b))"

definition tail_logs :: "fs \<Rightarrow> audit \<Rightarrow> nat \<Rightarrow> string list" where
  "tail_logs fs a limit = tail_loop limit (file_lines fs (a_log_path a)) []"

section \<open>Alert lines\<close>

definition alert_ok :: "alert \<Rightarrow> bool" where
  "alert_ok a \<longleftrightarrow> - (2 ^ 63) \<le> al_ts a \<and> al_ts a < 2 ^ 63
     \<and> CHR ''|'' \<notin> set (al_type a) \<and> CHR ''|'' \<notin> set (al_username a)"

definition one_line :: "string \<Rightarrow> bool" where
  "one_line s \<longleftrightarrow> CHR 0x0A \<notin> set s"

lemma alert_roundtrip: "alert_ok a \<Longrightarrow> parse_alert_line (format_alert_line a) = Some a"
proof -
  assume ok: "alert_ok a"
  have "stoull (show_nat (unat (al_id a))) = Some (unat (al_id a))"
    by (rule stoull_show_nat) (rule unat_u64_lt)
  moreover have "stoll (show_int (al_ts a)) = Some (al_ts a)"
    using ok by (intro stoll_show_int) (simp_all add: alert_ok_def)
  ultimately show ?thesis
    using ok by (simp add: parse_alert_line_def format_alert_line_def alert_ok_def cut_append)
qed

interpretation alerts: reversible format_alert_line parse_alert_line alert_ok
  by unfold_locales (rule alert_roundtrip)

lemma alert_line_one:
  assumes "one_line (al_type a)" "one_line (al_username a)" "one_line (al_detail a)"
  shows "one_line (format_alert_line a)"
  using assms by (simp add: one_line_def format_alert_line_def)

section \<open>The numbering\<close>

lemma keep_max_ge: "i \<le> keep_max l i"
  by (auto simp: keep_max_def split: option.splits)

lemma keep_max_id: "parse_alert_line l = Some a \<Longrightarrow> al_id a \<le> keep_max l i"
  by (auto simp: keep_max_def)

lemma fold_keep_max_ge: "i \<le> fold keep_max ls i"
proof (induction ls arbitrary: i)
  case (Cons l ls)
  have "i \<le> keep_max l i" by (rule keep_max_ge)
  also have "\<dots> \<le> fold keep_max ls (keep_max l i)" by (rule Cons.IH)
  finally show ?case by simp
qed simp

lemma last_id_upper:
  "l \<in> set ls \<Longrightarrow> parse_alert_line l = Some a \<Longrightarrow> al_id a \<le> fold keep_max ls i"
proof (induction ls arbitrary: i)
  case (Cons l' ls)
  show ?case
  proof (cases "l = l'")
    case True
    have "al_id a \<le> keep_max l' i" using keep_max_id Cons.prems(2) True by simp
    also have "\<dots> \<le> fold keep_max ls (keep_max l' i)" by (rule fold_keep_max_ge)
    finally show ?thesis by simp
  qed (use Cons in simp)
qed simp

lemma load_last_upper:
  "l \<in> set (file_lines fs p) \<Longrightarrow> parse_alert_line l = Some a \<Longrightarrow> al_id a \<le> load_last_alert_id fs p"
  unfolding load_last_alert_id_def by (rule last_id_upper)

lemma fresh_after_max:
  assumes "n \<noteq> 0" "(x :: u64) \<le> n - 1" shows "x < n"
proof -
  have "unat (n - 1) < unat n"
    using assms(1) unat_gt_0 [of n] by (simp add: unat_minus_one)
  with assms(2) show ?thesis by (simp add: word_le_nat_alt word_less_nat_alt)
qed

section \<open>Reading back\<close>

text \<open>A file that ends with a complete line, as every append that succeeds leaves it.\<close>

definition line_ended :: "fs \<Rightarrow> path \<Rightarrow> bool" where
  "line_ended fs p \<longleftrightarrow> (\<exists>ls. (\<forall>l \<in> set ls. one_line l)
     \<and> (fs p = None \<and> ls = [] \<or> fs p = Some (bytes_of (concat (map (\<lambda>l. l @ [CHR 0x0A]) ls)))))"

lemma append_line:
  assumes "line_ended fs p" "one_line l"
  shows "file_lines (append_file W_ok p (l @ [CHR 0x0A]) fs) p = file_lines fs p @ [l]"
    and "line_ended (append_file W_ok p (l @ [CHR 0x0A]) fs) p"
proof -
  obtain ls where ls: "\<forall>l \<in> set ls. one_line l"
    "fs p = None \<and> ls = [] \<or> fs p = Some (bytes_of (concat (map (\<lambda>l. l @ [CHR 0x0A]) ls)))"
    using assms(1) by (auto simp: line_ended_def)
  have new: "append_file W_ok p (l @ [CHR 0x0A]) fs p
      = Some (bytes_of (concat (map (\<lambda>l. l @ [CHR 0x0A]) (ls @ [l]))))"
    using ls(2) by (auto simp: append_file_def Let_def)
  have all: "\<forall>k \<in> set (ls @ [l]). one_line k" using ls(1) assms(2) by simp
  show "line_ended (append_file W_ok p (l @ [CHR 0x0A]) fs) p"
    unfolding line_ended_def using new all by blast
  have g: "\<forall>k \<in> set ks. one_line k \<Longrightarrow> getlines (CHR 0x0A) (concat (map (\<lambda>l. l @ [CHR 0x0A]) ks)) = ks" for ks
    using getlines_concat [of ks "CHR 0x0A" "[]"] by (simp add: one_line_def)
  have "file_lines fs p = ls"
    using ls g [OF ls(1)] by (auto simp: file_lines_def)
  moreover have "file_lines (append_file W_ok p (l @ [CHR 0x0A]) fs) p = ls @ [l]"
    using new g [OF all] by (simp add: file_lines_def)
  ultimately show "file_lines (append_file W_ok p (l @ [CHR 0x0A]) fs) p = file_lines fs p @ [l]"
    by simp
qed

lemma collect_append: "collect_alerts s (xs @ ys) = collect_alerts s xs @ collect_alerts s ys"
  by (induction xs) (auto split: option.splits)

lemma collect_newer: "a \<in> set (collect_alerts s ls) \<longleftrightarrow> s < al_id a \<and> (\<exists>l \<in> set ls. parse_alert_line l = Some a)"
  by (induction ls) (auto split: option.splits)

lemma append_other: "q \<noteq> p \<Longrightarrow> append_file w p t fs q = fs q"
  by (cases w) (auto simp: append_file_def Let_def)

lemma log_event_other: "q \<noteq> a_log_path a \<Longrightarrow> log_event now w ty us de a fs q = fs q"
  by (simp add: log_event_def append_other)

lemma tail_loop_spec:
  "limit = 0 \<or> length buf \<le> limit \<Longrightarrow> tail_loop limit ls buf =
    (let all = buf @ filter (\<lambda>l. l \<noteq> []) ls in
      if limit > 0 then drop (length all - limit) all else all)"
proof (induction ls arbitrary: buf)
  case (Cons l ls)
  show ?case
  proof (cases "l = [] \<or> limit = 0 \<or> length buf < limit")
    case True
    with Cons.prems Cons.IH [of buf] Cons.IH [of "buf @ [l]"] show ?thesis by (auto simp: Let_def)
  next
    case False
    then have b: "l \<noteq> []" "0 < limit" "length buf = limit" using Cons.prems by auto
    then obtain x xs where buf: "buf = x # xs" by (cases buf) auto
    have "tail_loop limit (l # ls) buf = tail_loop limit ls (xs @ [l])"
      using b buf by (auto simp: Let_def)
    also have "\<dots> = (let all = (xs @ [l]) @ filter (\<lambda>l. l \<noteq> []) ls in drop (length all - limit) all)"
      using Cons.IH [of "xs @ [l]"] b buf by simp
    finally show ?thesis using b buf by (auto simp: Let_def)
  qed
qed auto

section \<open>Properties\<close>

text \<open>An alert raised after a restart has a larger number than every alert in the file, so a
  client that polls with the last number it saw is shown it; and when the line is written it is
  exactly what the next poll adds, after the older alerts.\<close>

theorem alert_delivered:
  assumes a: "a = audit_new log_path alert_path fs" "a_next_id a \<noteq> 0" "log_path \<noteq> alert_path"
    and f: "line_ended fs alert_path" "since \<le> load_last_alert_id fs alert_path"
    and al: "log_alert now W_ok w ty u d a fs = (al, a', fs')"
    and ok: "alert_ok al" "one_line ty" "one_line u" "one_line d"
  shows "(\<forall>l \<in> set (file_lines fs alert_path). \<forall>old. parse_alert_line l = Some old \<longrightarrow> al_id old < al_id al)
    \<and> get_alerts_since fs' a' since 0 = get_alerts_since fs a since 0 @ [al]"
proof -
  have al': "al_id al = a_next_id a" "al_type al = ty" "al_username al = u" "al_detail al = d"
    and a': "a_alert_path a' = alert_path"
    using al a(1) by (auto simp: log_alert_def Let_def audit_new_def)
  have upper: "x \<le> load_last_alert_id fs alert_path \<Longrightarrow> x < al_id al" for x
    using fresh_after_max [OF a(2), of x] a(1) by (simp add: al' audit_new_def)
  have "fs' alert_path = append_file W_ok alert_path (format_alert_line al @ [CHR 0x0A]) fs alert_path"
    using al a(1,3) by (auto simp: log_alert_def Let_def audit_new_def append_other)
  then have "file_lines fs' alert_path = file_lines fs alert_path @ [format_alert_line al]"
    using append_line(1) [OF f(1) alert_line_one [of al]] ok(2-4) by (simp add: file_lines_def al')
  moreover have "parse_alert_line (format_alert_line al) = Some al"
    using ok(1) by (rule alerts.dec_enc)
  moreover have "since < al_id al" by (rule upper [OF f(2)])
  ultimately have "get_alerts_since fs' a' since 0 = get_alerts_since fs a since 0 @ [al]"
    using a(1) by (simp add: get_alerts_since_def collect_append a' audit_new_def)
  moreover have "\<forall>l \<in> set (file_lines fs alert_path). \<forall>old. parse_alert_line l = Some old \<longrightarrow> al_id old < al_id al"
    using load_last_upper upper by blast
  ultimately show ?thesis by blast
qed

theorem alert_delivered_witness:
  "get_alerts_since (snd (snd (log_alert 5 W_ok W_ok ''t'' ''u'' ''d'' (audit_new ''l'' ''a'' Map.empty) Map.empty)))
      (audit_new ''l'' ''a'' Map.empty\<lparr>a_next_id := 2\<rparr>) 0 0
    = get_alerts_since Map.empty (audit_new ''l'' ''a'' Map.empty) 0 0
        @ [\<lparr>al_id = 1, al_ts = 5, al_type = ''t'', al_username = ''u'', al_detail = ''d''\<rparr>]"
proof -
  let ?a = "audit_new ''l'' ''a'' Map.empty"
  have n: "a_next_id ?a = 1" by (simp add: audit_new_def load_last_alert_id_def file_lines_def)
  have e: "line_ended Map.empty ''a''" by (auto simp: line_ended_def)
  have l: "log_alert 5 W_ok W_ok ''t'' ''u'' ''d'' ?a Map.empty =
      (\<lparr>al_id = 1, al_ts = 5, al_type = ''t'', al_username = ''u'', al_detail = ''d''\<rparr>, ?a\<lparr>a_next_id := 2\<rparr>,
        snd (snd (log_alert 5 W_ok W_ok ''t'' ''u'' ''d'' ?a Map.empty)))"
    by (simp add: log_alert_def Let_def n)
  show ?thesis
    using alert_delivered [OF refl _ _ e _ l] n
    by (simp add: alert_ok_def one_line_def load_last_alert_id_def file_lines_def)
qed

text \<open>\<open>tail_logs\<close>, which keeps a sliding buffer while it reads, returns the last \<open>limit\<close>
  non-empty lines of the log in order, or all of them when the limit is zero.\<close>

theorem tail_logs_last_lines:
  "tail_logs fs a limit =
     (let all = filter (\<lambda>l. l \<noteq> []) (file_lines fs (a_log_path a)) in
      if limit > 0 then drop (length all - limit) all else all)"
  using tail_loop_spec [of limit "[]" "file_lines fs (a_log_path a)"] by (simp add: tail_logs_def)

end
