(* ===== verification/Effects.thy ===== *)
theory Effects
  imports AuditLog
begin

text \<open>
  The effects the server's components share: the files, the audit service, the clock and the
  outcomes of writes. \<open>io_time n\<close> is what the \<open>n\<close>-th call of \<open>now_epoch_sec\<close> returns and
  \<open>io_wout n\<close> the outcome of the \<open>n\<close>-th write; both are decided by the environment, and the
  two counters tell how many have been used.
\<close>

record io =
  io_fs :: fs
  io_audit :: audit
  io_time :: "nat \<Rightarrow> int"
  io_ticks :: nat
  io_wout :: "nat \<Rightarrow> wout"
  io_writes :: nat

definition now_epoch_sec :: "('z) io_scheme \<Rightarrow> int \<times> ('z) io_scheme" where
  "now_epoch_sec io = (io_time io (io_ticks io), io\<lparr>io_ticks := io_ticks io + 1\<rparr>)"

definition next_wout :: "('z) io_scheme \<Rightarrow> wout \<times> ('z) io_scheme" where
  "next_wout io = (io_wout io (io_writes io), io\<lparr>io_writes := io_writes io + 1\<rparr>)"

text \<open>\<open>AuditService::log_event\<close>: the clock is read only when the log could be opened.\<close>

definition io_event :: "string \<Rightarrow> string \<Rightarrow> string \<Rightarrow> ('z) io_scheme \<Rightarrow> ('z) io_scheme" where
  "io_event type username detail io =
     (case next_wout io of (w, io) \<Rightarrow>
        if w = W_noopen then io
        else (case now_epoch_sec io of (now, io) \<Rightarrow>
          io\<lparr>io_fs := log_event now w type username detail (io_audit io) (io_fs io)\<rparr>))"

definition io_alert :: "string \<Rightarrow> string \<Rightarrow> string \<Rightarrow> ('z) io_scheme \<Rightarrow> ('z) io_scheme" where
  "io_alert type username detail io =
     (case now_epoch_sec io of (now, io) \<Rightarrow>
      case next_wout io of (w1, io) \<Rightarrow>
      case next_wout io of (w2, io) \<Rightarrow>
      case log_alert now w1 w2 type username detail (io_audit io) (io_fs io) of (al, a, fs) \<Rightarrow>
        io\<lparr>io_audit := a, io_fs := fs\<rparr>)"

definition io_write_file :: "path \<Rightarrow> byte list \<Rightarrow> ('z) io_scheme \<Rightarrow> bool \<times> ('z) io_scheme" where
  "io_write_file p data io =
     (case next_wout io of (w, io) \<Rightarrow>
      case write_file w p data (io_fs io) of (ok, fs) \<Rightarrow> (ok, io\<lparr>io_fs := fs\<rparr>))"

named_theorems effect "what an effect leaves alone"

lemma event_keeps [effect]:
  "io_audit (io_event ty u d io) = io_audit io" "io_time (io_event ty u d io) = io_time io"
  "io_wout (io_event ty u d io) = io_wout io"
  by (simp_all add: io_event_def next_wout_def now_epoch_sec_def)

lemma alert_keeps [effect]:
  "io_time (io_alert ty u d io) = io_time io" "io_wout (io_alert ty u d io) = io_wout io"
  "a_log_path (io_audit (io_alert ty u d io)) = a_log_path (io_audit io)"
  "a_alert_path (io_audit (io_alert ty u d io)) = a_alert_path (io_audit io)"
  by (simp_all add: io_alert_def next_wout_def now_epoch_sec_def log_alert_def Let_def)

lemma write_keeps [effect]:
  "io_audit (snd (io_write_file p d io)) = io_audit io" "io_time (snd (io_write_file p d io)) = io_time io"
  "io_wout (snd (io_write_file p d io)) = io_wout io" "io_ticks (snd (io_write_file p d io)) = io_ticks io"
  by (simp_all add: io_write_file_def next_wout_def split: prod.split)

text \<open>What extends the effects is never touched by them.\<close>

lemma effects_more [effect]:
  "io.more (io_event ty u d io) = io.more io" "io.more (io_alert ty u d io) = io.more io"
  "io.more (snd (io_write_file p b io)) = io.more io" "io.more (snd (now_epoch_sec io)) = io.more io"
  by (simp_all add: io_event_def io_alert_def io_write_file_def next_wout_def now_epoch_sec_def log_alert_def Let_def
      split: prod.split)

text \<open>Logging touches the two audit files only.\<close>

lemma event_fs:
  "q \<noteq> a_log_path (io_audit io) \<Longrightarrow> io_fs (io_event ty u d io) q = io_fs io q"
  by (simp add: io_event_def next_wout_def now_epoch_sec_def log_event_other)

lemma alert_fs:
  "q \<noteq> a_log_path (io_audit io) \<Longrightarrow> q \<noteq> a_alert_path (io_audit io)
    \<Longrightarrow> io_fs (io_alert ty u d io) q = io_fs io q"
  by (simp add: io_alert_def next_wout_def now_epoch_sec_def log_alert_def Let_def append_other)

lemma write_fs_other: "q \<noteq> p \<Longrightarrow> io_fs (snd (io_write_file p d io)) q = io_fs io q"
  using write_file_other [of q p "io_wout io (io_writes io)" d "io_fs io"]
  by (auto simp: io_write_file_def next_wout_def split: prod.split)

end
