(* ===== verification/Monitor.thy ===== *)
theory Monitor
  imports Effects Complex_Main
begin

text \<open>
  The security monitor (server/src/monitor.cpp): the statistics kept for each user name, the
  anomaly rules that raise alerts and lock accounts, the lock ladder, and the statistics file.

  Time stamps are mathematical integers: they are seconds, far from the ends of \<open>int64_t\<close>.
  Counters keep their widths. Doubles are reals, with \<open>round_double\<close> (a parameter) applied to
  the result of every operation, as IEEE arithmetic does; \<open>local_hour\<close> is \<open>localtime_r\<close>'s
  \<open>tm_hour\<close> and \<open>show_double\<close> the stream output of a double. The audit service is always
  there (the server passes its address), so the tests of \<open>audit_\<close> are left out.
\<close>

record monitor_env =
  local_hour :: "int \<Rightarrow> int"
  round_double :: "real \<Rightarrow> real"
  show_double :: "real \<Rightarrow> string"

record monitor_config =
  failed_login_threshold :: nat
  failed_login_window_sec :: int
  bulk_files_threshold :: nat
  bulk_files_window_sec :: int
  time_min_samples :: nat
  time_hour_fraction :: real
  alert_cooldown_sec :: int
  work_hours_start :: int
  work_hours_end :: int
  lock_failed_login_sec :: int
  lock_bulk_files_sec :: int
  lock_suspicious_time_sec :: int
  decrypt_burst_threshold :: nat
  decrypt_burst_window_sec :: int
  decrypt_volume_threshold_mb :: nat
  decrypt_volume_window_sec :: int
  profile_min_decrypt_samples :: nat
  profile_decrypt_rate_factor :: real
  profile_decrypt_bytes_factor :: real

record user_stats =
  hour_counts :: "u32 list"
  total_logins :: u32
  failed_login_times :: "int list"
  file_op_times :: "int list"
  decrypt_times :: "int list"
  decrypt_size_times :: "(int \<times> nat) list"
  total_decrypt_ops :: u64
  total_decrypt_bytes :: u64
  last_failed_alert_ts :: int
  last_bulk_alert_ts :: int
  last_time_alert_ts :: int
  last_decrypt_rate_alert_ts :: int
  last_decrypt_volume_alert_ts :: int
  strike_level :: u32
  lock_until_ts :: int

definition new_stats :: user_stats where
  "new_stats = \<lparr>hour_counts = replicate 24 0, total_logins = 0, failed_login_times = [], file_op_times = [],
     decrypt_times = [], decrypt_size_times = [], total_decrypt_ops = 0, total_decrypt_bytes = 0,
     last_failed_alert_ts = 0, last_bulk_alert_ts = 0, last_time_alert_ts = 0,
     last_decrypt_rate_alert_ts = 0, last_decrypt_volume_alert_ts = 0, strike_level = 0, lock_until_ts = 0\<rparr>"

record monitor =
  m_cfg :: monitor_config
  m_stats_path :: path
  m_stats :: "(string \<times> user_stats) list"

text \<open>\<open>stats_[username]\<close> creates the entry when there is none.\<close>

definition stats_of :: "monitor \<Rightarrow> string \<Rightarrow> user_stats" where
  "stats_of m name = alookup (m_stats m) name new_stats"

definition put_stats :: "string \<Rightarrow> user_stats \<Rightarrow> monitor \<Rightarrow> monitor" where
  "put_stats name s m = m\<lparr>m_stats := AList.update name s (m_stats m)\<rparr>"

section \<open>Locks\<close>

definition kLadder :: "int list" where
  "kLadder = [60, 300, 600, 1800, 3600, 7200]"

definition lock_ladder_sec :: "u32 \<Rightarrow> int" where
  "lock_ladder_sec level =
     (let idx = (if level = 0 then 0 else unat (level - 1)) in
      kLadder ! (if idx \<ge> length kLadder then length kLadder - 1 else idx))"

definition choose_lock_duration :: "user_stats \<Rightarrow> int \<Rightarrow> int \<times> user_stats" where
  "choose_lock_duration s configured_sec =
     (if configured_sec > 0 then (configured_sec, s)
      else let s' = (if strike_level s < 1000 then s\<lparr>strike_level := strike_level s + 1\<rparr> else s)
           in (lock_ladder_sec (strike_level s'), s'))"

text \<open>
  What each rule does once it fires: an alert with its detail, a lock of the chosen duration
  that never shortens an existing one, and a \<open>user_locked\<close> event.
\<close>

definition alert_and_lock ::
  "string \<Rightarrow> string \<Rightarrow> string \<Rightarrow> int \<Rightarrow> int \<Rightarrow> string \<Rightarrow> user_stats \<Rightarrow> ('z) io_scheme
     \<Rightarrow> user_stats \<times> ('z) io_scheme" where
  "alert_and_lock type detail reason configured now username s io =
     (let io1 = io_alert type username detail io;
          (lock_sec, s1) = choose_lock_duration s configured;
          s2 = s1\<lparr>lock_until_ts := max (lock_until_ts s1) (now + lock_sec)\<rparr>
      in (s2, io_event ''user_locked'' username
                (''locked_until='' @ show_int (lock_until_ts s2) @ '' reason='' @ reason
                  @ '' lock_sec='' @ show_int lock_sec) io1))"

definition is_outside_work_hours :: "monitor_config \<Rightarrow> int \<Rightarrow> bool" where
  "is_outside_work_hours cfg hour =
     (if work_hours_start cfg < 0 \<or> work_hours_end cfg < 0 then False
      else if hour < 0 \<or> hour > 23 then False
      else if work_hours_start cfg \<le> work_hours_end cfg
           then hour < work_hours_start cfg \<or> hour > work_hours_end cfg
      else hour > work_hours_end cfg \<and> hour < work_hours_start cfg)"

definition is_suspicious_hour :: "monitor_env \<Rightarrow> monitor_config \<Rightarrow> user_stats \<Rightarrow> int \<Rightarrow> bool" where
  "is_suspicious_hour env cfg s hour =
     (if is_outside_work_hours cfg hour then True
      else if unat (total_logins s) < time_min_samples cfg then False
      else if hour < 0 \<or> hour > 23 then False
      else real (unat (hour_counts s ! nat hour))
             < round_double env (real (unat (total_logins s)) * time_hour_fraction cfg))"

section \<open>The statistics file\<close>

definition join_commas :: "string list \<Rightarrow> string" where
  "join_commas parts = (case parts of [] \<Rightarrow> [] | p # ps \<Rightarrow> p @ concat (map (\<lambda>q. '','' @ q) ps))"

definition stats_line :: "string \<times> user_stats \<Rightarrow> string" where
  "stats_line kv = (case kv of (name, s) \<Rightarrow>
     name @ ''|'' @ show_nat (unat (total_logins s)) @ ''|''
       @ join_commas (map (\<lambda>h. show_nat (unat h)) (hour_counts s)) @ ''|'' @ show_int (lock_until_ts s))"

definition save_stats :: "monitor \<Rightarrow> ('z) io_scheme \<Rightarrow> ('z) io_scheme" where
  "save_stats m io =
     snd (io_write_file (m_stats_path m)
            (bytes_of (concat (map (\<lambda>kv. stats_line kv @ [CHR 0x0A]) (m_stats m)))) io)"

definition parse_hours :: "string \<Rightarrow> u32 list" where
  "parse_hours hours =
     (let parts = take 24 (getlines (CHR '','') hours) in
      map (\<lambda>p. case stoull p of None \<Rightarrow> 0 | Some n \<Rightarrow> word_of_nat n) parts @ replicate (24 - length parts) 0)"

definition parse_stats_line :: "string \<Rightarrow> (string \<times> user_stats) option" where
  "parse_stats_line line =
     (if line = [] then None
      else case getline (CHR ''|'') line of None \<Rightarrow> None | Some (name, r1) \<Rightarrow>
       (case getline (CHR ''|'') r1 of None \<Rightarrow> None | Some (tot, r2) \<Rightarrow>
       (case getline (CHR ''|'') r2 of None \<Rightarrow> None | Some (hours, r3) \<Rightarrow>
         let lock_str = (case getline (CHR ''|'') r3 of None \<Rightarrow> [] | Some (l, _) \<Rightarrow> l) in
         (case stoull tot of None \<Rightarrow> None | Some t \<Rightarrow>
            Some (name, new_stats\<lparr>total_logins := word_of_nat t, hour_counts := parse_hours hours,
              lock_until_ts := (if lock_str = [] then 0
                                else case stoll lock_str of None \<Rightarrow> 0 | Some l \<Rightarrow> l)\<rparr>)))))"

definition load_stats :: "fs \<Rightarrow> monitor \<Rightarrow> bool \<times> monitor" where
  "load_stats fs m = (case fs (m_stats_path m) of
       None \<Rightarrow> (False, m\<lparr>m_stats := []\<rparr>)
     | Some data \<Rightarrow>
         (True, m\<lparr>m_stats := fold (\<lambda>line st. case parse_stats_line line of
                      None \<Rightarrow> st | Some (k, s) \<Rightarrow> AList.update k s st)
                    (getlines (CHR 0x0A) (string_of data)) []\<rparr>))"

section \<open>The events\<close>

definition record_login_success ::
  "monitor_env \<Rightarrow> string \<Rightarrow> monitor \<Rightarrow> ('z) io_scheme \<Rightarrow> monitor \<times> ('z) io_scheme" where
  "record_login_success env username m io =
     (case now_epoch_sec io of (now, io) \<Rightarrow>
      let s0 = stats_of m username; cfg = m_cfg m;
          hour = local_hour env now;
          suspicious = is_suspicious_hour env cfg s0 hour;
          s1 = s0\<lparr>total_logins := total_logins s0 + 1\<rparr>;
          s2 = (if 0 \<le> hour \<and> hour < 24
                then s1\<lparr>hour_counts := (hour_counts s1)[nat hour := hour_counts s1 ! nat hour + 1]\<rparr> else s1);
          s3 = s2\<lparr>failed_login_times := []\<rparr>;
          s4 = (if strike_level s3 > 0 then s3\<lparr>strike_level := strike_level s3 - 1\<rparr> else s3);
          (s5, io) = (if suspicious \<and> now - last_time_alert_ts s4 > alert_cooldown_sec cfg
                then alert_and_lock ''suspicious_time''
                       (''suspicious-hour='' @ show_int hour @ '' total='' @ show_nat (unat (total_logins s4)))
                       ''suspicious_time'' (lock_suspicious_time_sec cfg) now username
                       (s4\<lparr>last_time_alert_ts := now\<rparr>) io
                else (s4, io));
          m' = put_stats username s5 m
      in (m', save_stats m' io))"

definition prune :: "int \<Rightarrow> int \<Rightarrow> int list \<Rightarrow> int list" where
  "prune now window ts = dropWhile (\<lambda>t. now - t > window) ts"

definition record_login_failure ::
  "string \<Rightarrow> monitor \<Rightarrow> ('z) io_scheme \<Rightarrow> monitor \<times> ('z) io_scheme" where
  "record_login_failure username m io =
     (case now_epoch_sec io of (now, io) \<Rightarrow>
      let s0 = stats_of m username; cfg = m_cfg m;
          s1 = s0\<lparr>failed_login_times := prune now (failed_login_window_sec cfg) (failed_login_times s0 @ [now])\<rparr>;
          (s2, io) = (if length (failed_login_times s1) \<ge> failed_login_threshold cfg
                         \<and> now - last_failed_alert_ts s1 > alert_cooldown_sec cfg
                then alert_and_lock ''failed_logins''
                       (''failed-logins='' @ show_nat (length (failed_login_times s1)) @ '' window=''
                          @ show_int (failed_login_window_sec cfg) @ ''s'')
                       ''failed_logins'' (lock_failed_login_sec cfg) now username
                       (s1\<lparr>last_failed_alert_ts := now\<rparr>) io
                else (s1, io));
          m' = put_stats username s2 m
      in (m', save_stats m' io))"

text \<open>\<open>record_file_op\<close>: the rule on bulk operations, for every operation.\<close>

definition bulk_rule ::
  "monitor_config \<Rightarrow> string \<Rightarrow> nat \<Rightarrow> int \<Rightarrow> string \<Rightarrow> user_stats \<Rightarrow> ('z) io_scheme \<Rightarrow> user_stats \<times> ('z) io_scheme" where
  "bulk_rule cfg op repeats now username s0 io =
     (let s1 = s0\<lparr>file_op_times := prune now (bulk_files_window_sec cfg) (file_op_times s0 @ replicate repeats now)\<rparr>
      in if length (file_op_times s1) \<ge> bulk_files_threshold cfg
            \<and> now - last_bulk_alert_ts s1 > alert_cooldown_sec cfg
         then alert_and_lock ''bulk_files''
                (''op='' @ op @ '' count='' @ show_nat (length (file_op_times s1)) @ '' window=''
                  @ show_int (bulk_files_window_sec cfg) @ ''s'')
                ''bulk_files'' (lock_bulk_files_sec cfg) now username (s1\<lparr>last_bulk_alert_ts := now\<rparr>) io
         else (s1, io))"

text \<open>The three rules on decryption: bursts, volume, and deviation from the user's profile.\<close>

definition count_decrypt :: "monitor_config \<Rightarrow> nat \<Rightarrow> nat \<Rightarrow> int \<Rightarrow> user_stats \<Rightarrow> user_stats" where
  "count_decrypt cfg repeats bytes now s =
     s\<lparr>total_decrypt_ops := total_decrypt_ops s + word_of_nat repeats,
       total_decrypt_bytes := total_decrypt_bytes s + word_of_nat bytes,
       decrypt_times := prune now (decrypt_burst_window_sec cfg) (decrypt_times s @ replicate repeats now),
       decrypt_size_times := dropWhile (\<lambda>p. now - fst p > decrypt_volume_window_sec cfg)
                               (decrypt_size_times s @ [(now, bytes)])\<rparr>"

definition burst_rule ::
  "monitor_config \<Rightarrow> int \<Rightarrow> string \<Rightarrow> user_stats \<Rightarrow> ('z) io_scheme \<Rightarrow> user_stats \<times> ('z) io_scheme" where
  "burst_rule cfg now username s io =
     (if length (decrypt_times s) \<ge> decrypt_burst_threshold cfg
         \<and> now - last_decrypt_rate_alert_ts s > alert_cooldown_sec cfg
      then alert_and_lock ''decrypt_burst''
             (''decrypt-burst='' @ show_nat (length (decrypt_times s)) @ '' window=''
               @ show_int (decrypt_burst_window_sec cfg) @ ''s'')
             ''decrypt_burst'' (lock_bulk_files_sec cfg) now username (s\<lparr>last_decrypt_rate_alert_ts := now\<rparr>) io
      else (s, io))"

definition window_bytes :: "user_stats \<Rightarrow> u64" where
  "window_bytes s = foldl (\<lambda>acc p. acc + word_of_nat (snd p)) 0 (decrypt_size_times s)"

definition volume_rule ::
  "monitor_config \<Rightarrow> int \<Rightarrow> string \<Rightarrow> user_stats \<Rightarrow> ('z) io_scheme \<Rightarrow> user_stats \<times> ('z) io_scheme" where
  "volume_rule cfg now username s io =
     (let threshold_bytes = word_of_nat (decrypt_volume_threshold_mb cfg) * 1024 * 1024 :: u64 in
      if threshold_bytes > 0 \<and> window_bytes s \<ge> threshold_bytes
         \<and> now - last_decrypt_volume_alert_ts s > alert_cooldown_sec cfg
      then alert_and_lock ''decrypt_volume''
             (''decrypt-volume-bytes='' @ show_nat (unat (window_bytes s)) @ '' window=''
               @ show_int (decrypt_volume_window_sec cfg) @ ''s'')
             ''decrypt_volume'' (lock_bulk_files_sec cfg) now username (s\<lparr>last_decrypt_volume_alert_ts := now\<rparr>) io
      else (s, io))"

definition profile_rule ::
  "monitor_env \<Rightarrow> monitor_config \<Rightarrow> nat \<Rightarrow> int \<Rightarrow> string \<Rightarrow> user_stats \<Rightarrow> ('z) io_scheme
     \<Rightarrow> user_stats \<times> ('z) io_scheme" where
  "profile_rule env cfg bytes now username s io =
     (if unat (total_decrypt_ops s) \<ge> profile_min_decrypt_samples cfg then
        (let rd = round_double env;
             ops = rd (real (unat (total_decrypt_ops s)));
             avg_bytes = rd (rd (real (unat (total_decrypt_bytes s))) / rd (real (max 1 (unat (total_decrypt_ops s)))));
             avg_rate = rd (ops / rd (real (max 1 (unat (total_logins s)))));
             curr_rate = rd (real (length (decrypt_times s)));
             rate_anomaly = curr_rate > rd (avg_rate * profile_decrypt_rate_factor cfg);
             bytes_anomaly = rd (real bytes) > rd (avg_bytes * profile_decrypt_bytes_factor cfg)
         in if (rate_anomaly \<or> bytes_anomaly) \<and> now - last_decrypt_rate_alert_ts s > alert_cooldown_sec cfg
            then alert_and_lock ''behavior_deviation''
                   (''rate_anomaly='' @ (if rate_anomaly then ''1'' else ''0'')
                     @ '' bytes_anomaly='' @ (if bytes_anomaly then ''1'' else ''0'')
                     @ '' curr_rate='' @ show_double env curr_rate @ '' avg_rate='' @ show_double env avg_rate
                     @ '' bytes='' @ show_nat bytes @ '' avg_bytes='' @ show_nat (nat \<lfloor>avg_bytes\<rfloor>))
                   ''behavior_deviation'' (lock_suspicious_time_sec cfg) now username
                   (s\<lparr>last_decrypt_rate_alert_ts := now\<rparr>) io
            else (s, io))
      else (s, io))"

definition record_file_op ::
  "monitor_env \<Rightarrow> string \<Rightarrow> string \<Rightarrow> nat \<Rightarrow> nat \<Rightarrow> monitor \<Rightarrow> ('z) io_scheme \<Rightarrow> monitor \<times> ('z) io_scheme" where
  "record_file_op env username op cnt bytes m io =
     (case now_epoch_sec io of (now, io) \<Rightarrow>
      let cfg = m_cfg m;
          repeats = (if cnt = 0 then 1 else cnt);
          (s1, io) = bulk_rule cfg op repeats now username (stats_of m username) io;
          (s2, io) = (if op = ''decrypt'' then
              (let s = count_decrypt cfg repeats bytes now s1;
                   (s, io) = burst_rule cfg now username s io;
                   (s, io) = volume_rule cfg now username s io
               in profile_rule env cfg bytes now username s io)
              else (s1, io));
          m' = put_stats username s2 m
      in (m', save_stats m' io))"

text \<open>\<open>is_locked\<close>: the seconds that remain, \<open>None\<close> when the account is not locked.\<close>

definition is_locked :: "string \<Rightarrow> monitor \<Rightarrow> ('z) io_scheme \<Rightarrow> int option \<times> ('z) io_scheme" where
  "is_locked username m io =
     (case now_epoch_sec io of (now, io) \<Rightarrow>
        (case map_of (m_stats m) username of
           None \<Rightarrow> None
         | Some s \<Rightarrow> if lock_until_ts s \<le> now then None else Some (lock_until_ts s - now), io))"

definition unlock_user :: "string \<Rightarrow> monitor \<Rightarrow> ('z) io_scheme \<Rightarrow> bool \<times> monitor \<times> ('z) io_scheme" where
  "unlock_user username m io = (case map_of (m_stats m) username of
       None \<Rightarrow> (False, m, io)
     | Some s \<Rightarrow>
         let m' = put_stats username (s\<lparr>lock_until_ts := 0, strike_level := 0\<rparr>) m;
             io = io_event ''user_unlocked'' username ''admin_reset'' io
         in (True, m', save_stats m' io))"

definition dump_stats :: "nat \<Rightarrow> monitor \<Rightarrow> string list" where
  "dump_stats limit m =
     (let out = map stats_line (m_stats m) in if limit > 0 \<and> length out > limit then take limit out else out)"

fun dump_locks_loop :: "nat \<Rightarrow> int \<Rightarrow> (string \<times> user_stats) list \<Rightarrow> string list \<Rightarrow> string list" where
  "dump_locks_loop limit now [] out = out"
| "dump_locks_loop limit now ((name, s) # rest) out =
     (if lock_until_ts s \<le> now then dump_locks_loop limit now rest out
      else let out = out @ [name @ ''|'' @ show_int (lock_until_ts s) @ ''|'' @ show_int (lock_until_ts s - now)] in
        if limit > 0 \<and> length out \<ge> limit then out else dump_locks_loop limit now rest out)"

definition dump_locks :: "nat \<Rightarrow> monitor \<Rightarrow> ('z) io_scheme \<Rightarrow> string list \<times> ('z) io_scheme" where
  "dump_locks limit m io = (case now_epoch_sec io of (now, io) \<Rightarrow>
     (dump_locks_loop limit now (m_stats m) [], io))"

section \<open>Locks: facts\<close>

lemma ladder_bounds: "60 \<le> lock_ladder_sec n \<and> lock_ladder_sec n \<le> 7200"
proof -
  have "x \<in> set kLadder \<Longrightarrow> 60 \<le> x \<and> x \<le> 7200" for x
    by (auto simp: kLadder_def)
  moreover have "lock_ladder_sec n \<in> set kLadder"
    unfolding lock_ladder_sec_def Let_def by (rule nth_mem) (simp add: kLadder_def)
  ultimately show ?thesis by blast
qed

lemma ladder_mono:
  assumes "m \<le> n" shows "lock_ladder_sec m \<le> lock_ladder_sec n"
proof -
  have s: "sorted kLadder" by (simp add: kLadder_def)
  define i where "i = (\<lambda>n :: u32. let idx = (if n = 0 then 0 else unat (n - 1)) in
      if idx \<ge> length kLadder then length kLadder - 1 else idx)"
  have e: "lock_ladder_sec n = kLadder ! i n" for n
    by (simp add: lock_ladder_sec_def i_def Let_def)
  have lt: "i n < length kLadder" for n
    by (simp add: i_def Let_def kLadder_def)
  have "unat m \<le> unat n" using assms by (simp add: word_le_nat_alt)
  then have "i m \<le> i n"
    by (auto simp: i_def Let_def unat_minus_one simp flip: unat_0_iff)
  then show ?thesis
    unfolding e using lt by (intro sorted_nth_mono [OF s])
qed

lemma choose_lock:
  "choose_lock_duration s c = (d, s') \<Longrightarrow>
     (if c > 0 then d = c else 60 \<le> d \<and> d \<le> 7200) \<and> lock_until_ts s' = lock_until_ts s"
  using ladder_bounds by (auto simp: choose_lock_duration_def Let_def split: if_splits)

lemma choose_lock_pos: "choose_lock_duration s c = (d, s') \<Longrightarrow> 0 < d"
  using choose_lock [of s c d s'] by (auto split: if_splits)

lemma alert_and_lock_until:
  assumes "alert_and_lock t d r c now u s io = (s', io')"
  shows "lock_until_ts s \<le> lock_until_ts s' \<and> now + (if c > 0 then c else 60) \<le> lock_until_ts s'
     \<and> lock_until_ts s' \<le> max (lock_until_ts s) (now + (if c > 0 then c else 7200))"
proof -
  obtain n s1 where ch: "choose_lock_duration s c = (n, s1)" by fastforce
  then have "lock_until_ts s' = max (lock_until_ts s) (now + n)"
    using assms choose_lock [OF ch] by (auto simp: alert_and_lock_def)
  with choose_lock [OF ch] show ?thesis by (auto simp: max_def split: if_splits)
qed

lemma alert_and_lock_fst:
  "fst (alert_and_lock t d r c now u s io) = (snd (choose_lock_duration s c))
      \<lparr>lock_until_ts := max (lock_until_ts s) (now + fst (choose_lock_duration s c))\<rparr>"
  by (cases "choose_lock_duration s c") (auto simp: alert_and_lock_def Let_def dest: choose_lock)

lemma map_of_put_stats [simp]:
  "map_of (m_stats (put_stats n s m)) k = (if k = n then Some s else map_of (m_stats m) k)"
  by (simp add: put_stats_def)

lemma put_stats_keeps [simp]:
  "m_cfg (put_stats n s m) = m_cfg m" "m_stats_path (put_stats n s m) = m_stats_path m"
  by (simp_all add: put_stats_def)

lemma stats_of_put [simp]: "stats_of (put_stats n s m) k = (if k = n then s else stats_of m k)"
  by (simp add: stats_of_def put_stats_def)

section \<open>No event shortens a lock\<close>

definition longer :: "user_stats \<Rightarrow> user_stats \<Rightarrow> bool" where
  "longer s s' \<longleftrightarrow> lock_until_ts s \<le> lock_until_ts s'"

lemma longer_trans: "longer a b \<Longrightarrow> longer b c \<Longrightarrow> longer a c"
  by (simp add: longer_def)

lemma longer_alert: "lock_until_ts s = lock_until_ts s0 \<Longrightarrow> longer s0 (fst (alert_and_lock t d r c now u s io))"
  by (cases "alert_and_lock t d r c now u s io") (auto simp: longer_def dest: alert_and_lock_until)

lemma rules_longer:
  "longer s (fst (bulk_rule cfg op n now u s io))"
  "longer s (count_decrypt cfg n b now s)"
  "longer s (fst (burst_rule cfg now u s io))"
  "longer s (fst (volume_rule cfg now u s io))"
  "longer s (fst (profile_rule env cfg b now u s io))"
  by (auto simp: bulk_rule_def count_decrypt_def burst_rule_def volume_rule_def profile_rule_def Let_def
      intro!: longer_alert) (auto simp: longer_def)

lemma success_longer: "longer (stats_of m u) (stats_of (fst (record_login_success env u m io)) u)"
  by (auto simp: record_login_success_def Let_def now_epoch_sec_def split: prod.splits)
    (auto simp: longer_def dest!: alert_and_lock_until)

lemma failure_longer: "longer (stats_of m u) (stats_of (fst (record_login_failure u m io)) u)"
  by (auto simp: record_login_failure_def Let_def now_epoch_sec_def split: prod.splits)
    (auto simp: longer_def dest!: alert_and_lock_until)

lemma file_op_longer: "longer (stats_of m u) (stats_of (fst (record_file_op env u op c b m io)) u)"
proof -
  let ?now = "io_time io (io_ticks io)" and ?r = "if c = 0 then 1 else c" and ?cfg = "m_cfg m"
  let ?io = "io\<lparr>io_ticks := io_ticks io + 1\<rparr>"
  obtain s1 io1 where 1: "bulk_rule ?cfg op ?r ?now u (stats_of m u) ?io = (s1, io1)" by fastforce
  let ?s = "count_decrypt ?cfg ?r b ?now s1"
  obtain s2 io2 where 2: "burst_rule ?cfg ?now u ?s io1 = (s2, io2)" by fastforce
  obtain s3 io3 where 3: "volume_rule ?cfg ?now u s2 io2 = (s3, io3)" by fastforce
  obtain s4 io4 where 4: "profile_rule env ?cfg b ?now u s3 io3 = (s4, io4)" by fastforce
  have "longer (stats_of m u) s1" using rules_longer(1) 1 by (metis fst_conv)
  moreover have "longer s1 s4"
    using rules_longer(2-5) 2 3 4 by (metis fst_conv longer_trans)
  ultimately have "longer (stats_of m u) (if op = ''decrypt'' then s4 else s1)"
    by (auto intro: longer_trans)
  then show ?thesis
    using 1 2 3 4 by (simp add: record_file_op_def now_epoch_sec_def Let_def split: if_splits)
qed

section \<open>What the monitor leaves alone\<close>

lemma alert_and_lock_more: "io.more (snd (alert_and_lock t d r c now u s io)) = io.more io"
  by (simp add: alert_and_lock_def Let_def effects_more split: prod.split)

lemma rules_more:
  "io.more (snd (bulk_rule cfg op n now u s io)) = io.more io"
  "io.more (snd (burst_rule cfg now u s io)) = io.more io"
  "io.more (snd (volume_rule cfg now u s io)) = io.more io"
  "io.more (snd (profile_rule env cfg b now u s io)) = io.more io"
  by (simp_all add: bulk_rule_def burst_rule_def volume_rule_def profile_rule_def Let_def alert_and_lock_more)

lemma save_stats_more: "io.more (save_stats m io) = io.more io"
  by (simp add: save_stats_def effects_more)

lemma monitor_more [effect]:
  "io.more (snd (record_login_success env u m io)) = io.more io"
  "io.more (snd (record_login_failure u m io)) = io.more io"
  "io.more (snd (is_locked u m io)) = io.more io"
  "io.more (snd (snd (unlock_user u m io))) = io.more io"
  "io.more (snd (dump_locks n m io)) = io.more io"
  by (simp_all add: record_login_success_def record_login_failure_def is_locked_def unlock_user_def dump_locks_def
      now_epoch_sec_def Let_def save_stats_more alert_and_lock_more effects_more case_prod_unfold split: option.split)

lemma file_op_more [effect]: "io.more (snd (record_file_op env u op c b m io)) = io.more io"
  by (simp add: record_file_op_def now_epoch_sec_def Let_def save_stats_more rules_more case_prod_unfold)

text \<open>The files the monitor writes: its statistics and, through the audit service, the logs.\<close>

definition monitor_files :: "monitor \<Rightarrow> ('z) io_scheme \<Rightarrow> path set" where
  "monitor_files m io = {m_stats_path m, a_log_path (io_audit io), a_alert_path (io_audit io)}"

definition same_files :: "path set \<Rightarrow> ('z) io_scheme \<Rightarrow> ('z) io_scheme \<Rightarrow> bool" where
  "same_files A io io' \<longleftrightarrow> (\<forall>q. q \<notin> A \<longrightarrow> io_fs io' q = io_fs io q)
     \<and> a_log_path (io_audit io') = a_log_path (io_audit io)
     \<and> a_alert_path (io_audit io') = a_alert_path (io_audit io)"

lemma same_files_refl [simp]: "same_files A io io"
  by (simp add: same_files_def)

lemma same_files_trans: "same_files A a b \<Longrightarrow> same_files A b c \<Longrightarrow> same_files A a c"
  by (auto simp: same_files_def)

lemma event_files:
  assumes "a_log_path (io_audit io) \<in> A" shows "same_files A io (io_event ty u d io)"
proof -
  have "io_fs (io_event ty u d io) q = io_fs io q" if "q \<notin> A" for q
    using that assms by (intro event_fs) blast
  then show ?thesis by (simp add: same_files_def event_keeps)
qed

lemma alert_files:
  assumes "a_log_path (io_audit io) \<in> A" "a_alert_path (io_audit io) \<in> A"
  shows "same_files A io (io_alert ty u d io)"
proof -
  have "io_fs (io_alert ty u d io) q = io_fs io q" if "q \<notin> A" for q
    using that assms by (intro alert_fs) blast+
  then show ?thesis by (simp add: same_files_def alert_keeps)
qed

lemma write_files:
  assumes "p \<in> A" shows "same_files A io (snd (io_write_file p b io))"
proof -
  have "io_fs (snd (io_write_file p b io)) q = io_fs io q" if "q \<notin> A" for q
    using that assms by (intro write_fs_other) blast
  then show ?thesis by (simp add: same_files_def write_keeps)
qed

lemma alert_and_lock_files:
  assumes "a_log_path (io_audit io) \<in> A" "a_alert_path (io_audit io) \<in> A"
  shows "same_files A io (snd (alert_and_lock t d r c now u s io))"
proof -
  have "same_files A io (io_alert t u d io)" using assms by (rule alert_files)
  moreover have "same_files A (io_alert t u d io) (io_event ty u x (io_alert t u d io))" for ty x
    using assms by (intro event_files) (simp add: alert_keeps)
  ultimately show ?thesis
    by (auto simp: alert_and_lock_def Let_def split: prod.split intro: same_files_trans)
qed

lemma save_stats_files:
  "same_files A io io' \<Longrightarrow> m_stats_path m \<in> A \<Longrightarrow> same_files A io (save_stats m io')"
  unfolding save_stats_def by (erule same_files_trans) (rule write_files)

lemma tick_files [simp]: "same_files A io (io\<lparr>io_ticks := n\<rparr>)"
  by (simp add: same_files_def)

lemma rule_files:
  assumes "a_log_path (io_audit io) \<in> A" "a_alert_path (io_audit io) \<in> A"
  shows "same_files A io (snd (if b then alert_and_lock ty d r c now u st (io\<lparr>io_ticks := n\<rparr>)
            else (st', io\<lparr>io_ticks := n\<rparr>)))"
  using same_files_trans [OF tick_files alert_and_lock_files [of "io\<lparr>io_ticks := n\<rparr>" A]] assms by simp

lemma login_files:
  "same_files (monitor_files m io) io (snd (record_login_success env u m io))"
  "same_files (monitor_files m io) io (snd (record_login_failure u m io))"
proof -
  have m: "m_stats_path (put_stats u s m) \<in> monitor_files m io" "a_log_path (io_audit io) \<in> monitor_files m io"
    "a_alert_path (io_audit io) \<in> monitor_files m io" for s
    by (simp_all add: monitor_files_def)
  show "same_files (monitor_files m io) io (snd (record_login_success env u m io))"
    unfolding record_login_success_def now_epoch_sec_def Let_def case_prod_unfold prod.sel
    by (rule save_stats_files [OF rule_files m(1)]; rule m)
  show "same_files (monitor_files m io) io (snd (record_login_failure u m io))"
    unfolding record_login_failure_def now_epoch_sec_def Let_def case_prod_unfold prod.sel
    by (rule save_stats_files [OF rule_files m(1)]; rule m)
qed

section \<open>Isolation\<close>

datatype monitor_op = Login_ok | Login_failed | File_op string nat nat | Unlock

fun apply_monitor_op :: "monitor_env \<Rightarrow> string \<Rightarrow> monitor_op \<Rightarrow> monitor \<times> ('z) io_scheme \<Rightarrow> monitor \<times> ('z) io_scheme" where
  "apply_monitor_op env u Login_ok (m, io) = record_login_success env u m io"
| "apply_monitor_op env u Login_failed (m, io) = record_login_failure u m io"
| "apply_monitor_op env u (File_op op c b) (m, io) = record_file_op env u op c b m io"
| "apply_monitor_op env u Unlock (m, io) = snd (unlock_user u m io)"

lemma record_put:
  "\<exists>s. fst (record_login_success env u m io) = put_stats u s m"
  "\<exists>s. fst (record_login_failure u m io) = put_stats u s m"
  "\<exists>s. fst (record_file_op env u op c b m io) = put_stats u s m"
  unfolding record_login_success_def record_login_failure_def record_file_op_def Let_def now_epoch_sec_def
    case_prod_unfold prod.sel
  by (rule exI, rule refl)+

lemma apply_monitor_op_put:
  "fst (apply_monitor_op env u a (m, io)) = m \<or> (\<exists>s. fst (apply_monitor_op env u a (m, io)) = put_stats u s m)"
  by (cases a) (auto simp: record_put unlock_user_def Let_def split: option.splits)

lemma apply_monitor_op_other:
  "k' \<noteq> k \<Longrightarrow> map_of (m_stats (fst (apply_monitor_op env k a mio))) k' = map_of (m_stats (fst mio)) k'"
  using apply_monitor_op_put [of env k a "fst mio" "snd mio"] by auto

interpretation monitored: per_name "\<lambda>mio. map_of (m_stats (fst mio))" "apply_monitor_op env"
  by unfold_locales (rule apply_monitor_op_other)

section \<open>The statistics file\<close>

lemma getlines_join:
  "\<forall>p \<in> set ps. CHR '','' \<notin> set p \<and> p \<noteq> [] \<Longrightarrow> getlines (CHR '','') (join_commas ps) = ps"
proof (induction ps)
  case (Cons p ps)
  show ?case
  proof (cases ps)
    case Nil
    with Cons.prems show ?thesis by (simp add: join_commas_def getlines_last)
  next
    case (Cons q qs)
    then have "join_commas (p # ps) = p @ CHR '','' # join_commas ps" by (simp add: join_commas_def)
    with Cons.prems Cons.IH show ?thesis by (simp add: getlines_line)
  qed
qed (simp add: join_commas_def)

definition stats_ok :: "user_stats \<Rightarrow> bool" where
  "stats_ok s \<longleftrightarrow> length (hour_counts s) = 24 \<and> - (2 ^ 63) \<le> lock_until_ts s \<and> lock_until_ts s < 2 ^ 63"

text \<open>The part of the statistics the file keeps.\<close>

definition saved_part :: "user_stats \<Rightarrow> user_stats" where
  "saved_part s = new_stats\<lparr>total_logins := total_logins s, hour_counts := hour_counts s, lock_until_ts := lock_until_ts s\<rparr>"

definition name_ok :: "string \<Rightarrow> bool" where
  "name_ok n \<longleftrightarrow> CHR ''|'' \<notin> set n \<and> CHR 0x0A \<notin> set n"

lemma unat_u32_lt: "unat (w :: u32) < 2 ^ 64"
  using unsigned_less [where ?'a = nat, of w] by simp

lemma stoull_u32 [simp]: "stoull (show_nat (unat (w :: u32))) = Some (unat w)"
  by (rule stoull_show_nat) (rule unat_u32_lt)

lemma parse_hours_show:
  assumes "length hs = 24"
  shows "parse_hours (join_commas (map (\<lambda>h. show_nat (unat h)) hs)) = hs"
proof -
  have "getlines (CHR '','') (join_commas (map (\<lambda>h. show_nat (unat (h :: u32))) hs)) = map (\<lambda>h. show_nat (unat h)) hs"
    by (rule getlines_join) auto
  then show ?thesis
    using assms by (simp add: parse_hours_def Let_def comp_def)
qed

lemma join_free: "\<forall>p \<in> set ps. c \<notin> set p \<Longrightarrow> c \<noteq> CHR '','' \<Longrightarrow> c \<notin> set (join_commas ps)"
  by (auto simp: join_commas_def split: list.splits)

lemma join_nonempty: "ps \<noteq> [] \<Longrightarrow> \<forall>p \<in> set ps. p \<noteq> [] \<Longrightarrow> join_commas ps \<noteq> []"
  by (auto simp: join_commas_def split: list.splits)

lemma parse_stats_line_show:
  assumes "name_ok n" "stats_ok s"
  shows "parse_stats_line (stats_line (n, s)) = Some (n, saved_part s)"
proof -
  let ?h = "join_commas (map (\<lambda>h. show_nat (unat h)) (hour_counts s))"
  have h: "CHR ''|'' \<notin> set ?h" by (rule join_free) auto
  have p: "parse_hours ?h = hour_counts s"
    using assms(2) by (intro parse_hours_show) (simp add: stats_ok_def)
  have l: "stoll (show_int (lock_until_ts s)) = Some (lock_until_ts s)"
    using assms(2) by (intro stoll_show_int) (simp_all add: stats_ok_def)
  have g: "getline (CHR ''|'') (show_int (lock_until_ts s)) = Some (show_int (lock_until_ts s), [])"
    by (simp add: getline_last)
  show ?thesis
    using assms(1) h p l g
    by (simp add: parse_stats_line_def stats_line_def name_ok_def getline_line saved_part_def)
qed

lemma line_name:
  assumes "name_ok n"
  shows "parse_stats_line (stats_line (n, s)) = None \<or> (\<exists>x. parse_stats_line (stats_line (n, s)) = Some (n, x))"
  using assms by (auto simp: parse_stats_line_def stats_line_def name_ok_def getline_line split: option.split prod.split)

lemma stats_line_no_nl: "name_ok n \<Longrightarrow> CHR 0x0A \<notin> set (stats_line (n, s))"
  using join_free [of "map (\<lambda>h. show_nat (unat h)) (hour_counts s)" "CHR 0x0A"]
  by (simp add: stats_line_def name_ok_def)

definition monitor_ok :: "monitor \<Rightarrow> bool" where
  "monitor_ok m \<longleftrightarrow> dkeys (m_stats m) \<and> (\<forall>(n, s) \<in> set (m_stats m). name_ok n \<and> stats_ok s)"

definition stats_text :: "monitor \<Rightarrow> string" where
  "stats_text m = concat (map (\<lambda>kv. stats_line kv @ [CHR 0x0A]) (m_stats m))"

lemma load_stats_text:
  assumes "monitor_ok m" "m_stats_path m' = p" "fs p = Some (bytes_of (stats_text m))"
  shows "map_of (m_stats (snd (load_stats fs m'))) = map_option saved_part \<circ> map_of (m_stats m)"
proof -
  define st where "st = m_stats m"
  have ok: "\<forall>(n, s) \<in> set st. name_ok n \<and> stats_ok s" and d: "dkeys st"
    using assms(1) by (auto simp: monitor_ok_def st_def)
  have t: "stats_text m = concat (map (\<lambda>l. l @ [CHR 0x0A]) (map stats_line st))"
    by (simp add: stats_text_def st_def comp_def)
  have "\<forall>l \<in> set (map stats_line st). CHR 0x0A \<notin> set l"
    using ok stats_line_no_nl by fastforce
  then have "getlines (CHR 0x0A) (stats_text m) = map stats_line st"
    using getlines_concat [of "map stats_line st" "CHR 0x0A" "[]"] by (simp add: t)
  moreover have "fold (\<lambda>line st. case parse_stats_line line of None \<Rightarrow> st | Some (k, s) \<Rightarrow> AList.update k s st)
      (map stats_line st) a = store_all (map (\<lambda>(n, s). (n, saved_part s)) st) a" for a
    using ok by (induction st arbitrary: a) (auto simp: store_all_def parse_stats_line_show)
  ultimately have "m_stats (snd (load_stats fs m')) = store_all (map (\<lambda>(n, s). (n, saved_part s)) st) []"
    using assms(2,3) by (simp add: load_stats_def)
  moreover have "dkeys (map (\<lambda>(n, s). (n, saved_part s)) st)"
    using d by (simp add: dkeys_def comp_def case_prod_unfold)
  ultimately show ?thesis
    by (simp add: map_of_store_all map_of_map st_def)
qed

section \<open>Properties\<close>

text \<open>No event shortens a lock: after a successful login, a failed login or a file operation of
  a user, the time until which the account is locked is the same or later.\<close>

theorem locks_only_grow:
  "lock_until_ts (stats_of m u) \<le> lock_until_ts (stats_of (fst (record_login_success env u m io)) u)
   \<and> lock_until_ts (stats_of m u) \<le> lock_until_ts (stats_of (fst (record_login_failure u m io)) u)
   \<and> lock_until_ts (stats_of m u) \<le> lock_until_ts (stats_of (fst (record_file_op env u op c b m io)) u)"
  using success_longer [of m u env io] failure_longer [of m u io] file_op_longer [of m u env op c b io]
  by (simp add: longer_def)

text \<open>Failed logins of one user in a row.\<close>

fun fail_run :: "nat \<Rightarrow> string \<Rightarrow> monitor \<times> ('z) io_scheme \<Rightarrow> monitor \<times> ('z) io_scheme" where
  "fail_run 0 u mio = mio"
| "fail_run (Suc n) u mio = fail_run n u (record_login_failure u (fst mio) (snd mio))"

lemma failure_io_time: "io_time (snd (record_login_failure u m io)) = io_time io"
  by (simp add: record_login_failure_def now_epoch_sec_def Let_def save_stats_def io_write_file_def next_wout_def
      alert_and_lock_def io_event_def io_alert_def case_prod_unfold split: if_split)

lemma now_time: "now_epoch_sec io = (io_time io (io_ticks io), io\<lparr>io_ticks := io_ticks io + 1\<rparr>)"
  by (simp add: now_epoch_sec_def)

text \<open>The times these failures are recorded with.\<close>

fun fail_times :: "nat \<Rightarrow> string \<Rightarrow> monitor \<times> ('z) io_scheme \<Rightarrow> int list" where
  "fail_times 0 u mio = []"
| "fail_times (Suc n) u mio =
     fst (now_epoch_sec (snd mio)) # fail_times n u (record_login_failure u (fst mio) (snd mio))"

lemma fail_run_longer: "lock_until_ts (stats_of (fst mio) u) \<le> lock_until_ts (stats_of (fst (fail_run n u mio)) u)"
proof (induction n arbitrary: mio)
  case (Suc n)
  show ?case
    using Suc [of "record_login_failure u (fst mio) (snd mio)"] failure_longer [of "fst mio" u "snd mio"] by (simp add: longer_def)
qed simp

lemma prune_suffix:
  "\<forall>x \<in> set new. \<not> now - x > w \<Longrightarrow> \<exists>old'. prune now w (old @ new) = old' @ new \<and> (old = [] \<longrightarrow> old' = [])"
proof (induction old)
  case Nil
  then show ?case by (cases new) (simp_all add: prune_def)
next
  case (Cons x old)
  then obtain old' where "prune now w (old @ new) = old' @ new" by blast
  then show ?case by (cases "now - x > w") (auto simp: prune_def)
qed

definition lock_time :: "monitor_config \<Rightarrow> int" where
  "lock_time cfg = (if lock_failed_login_sec cfg > 0 then lock_failed_login_sec cfg else 60)"

text \<open>One failure, of an account with any history: it fires the rule or is added to the list.\<close>

lemma failure_step:
  assumes "t \<le> now" "now \<le> t + failed_login_window_sec (m_cfg m)" "now = io_time io (io_ticks io)"
    and s: "failed_login_times (stats_of m u) = old @ new" "\<forall>x \<in> set new. t \<le> x"
      "last_failed_alert_ts (stats_of m u) + alert_cooldown_sec (m_cfg m) < t"
    and r: "record_login_failure u m io = (m', io')"
  shows "m_cfg m' = m_cfg m"
    "now + lock_time (m_cfg m) \<le> lock_until_ts (stats_of m' u) \<and> (old = [] \<longrightarrow> failed_login_threshold (m_cfg m) \<le> Suc (length new))
     \<or> Suc (length new) < failed_login_threshold (m_cfg m) \<and> last_failed_alert_ts (stats_of m' u) = last_failed_alert_ts (stats_of m u)
       \<and> (\<exists>old'. failed_login_times (stats_of m' u) = old' @ new @ [now] \<and> (old = [] \<longrightarrow> old' = []))"
proof -
  have "\<forall>x \<in> set (new @ [now]). \<not> now - x > failed_login_window_sec (m_cfg m)" using assms(1,2) s(2) by auto
  from prune_suffix [OF this, of old] obtain old' where
    p: "prune now (failed_login_window_sec (m_cfg m)) (old @ new @ [now]) = old' @ new @ [now]" "old = [] \<longrightarrow> old' = []" by blast
  let ?s1 = "stats_of m u\<lparr>failed_login_times := old' @ new @ [now]\<rparr>"
  obtain io1 where n: "now_epoch_sec io = (now, io1)" by (simp add: now_time assms(3))
  have "m_cfg m' = m_cfg m \<and> (now + lock_time (m_cfg m) \<le> lock_until_ts (stats_of m' u) \<and> (old = [] \<longrightarrow> failed_login_threshold (m_cfg m) \<le> Suc (length new))
     \<or> Suc (length new) < failed_login_threshold (m_cfg m) \<and> last_failed_alert_ts (stats_of m' u) = last_failed_alert_ts (stats_of m u)
       \<and> (\<exists>old'. failed_login_times (stats_of m' u) = old' @ new @ [now] \<and> (old = [] \<longrightarrow> old' = [])))"
  proof (cases "length (old' @ new @ [now]) < failed_login_threshold (m_cfg m)")
    case True
    then have "m' = put_stats u ?s1 m"
      using r p(1) n s(1) by (simp add: record_login_failure_def Let_def)
    with True p(2) show ?thesis by auto
  next
    case False
    obtain s2 io2 where a: "alert_and_lock ''failed_logins''
        (''failed-logins='' @ show_nat (length (failed_login_times ?s1)) @ '' window=''
           @ show_int (failed_login_window_sec (m_cfg m)) @ ''s'')
        ''failed_logins'' (lock_failed_login_sec (m_cfg m)) now u (?s1\<lparr>last_failed_alert_ts := now\<rparr>)
        io1 = (s2, io2)" by fastforce
    have "m' = put_stats u s2 m"
      using r a False p(1) s(1,3) assms(1)
      by (simp add: record_login_failure_def Let_def n)
    then show ?thesis using alert_and_lock_until [OF a] False p(2) by (auto simp: lock_time_def)
  qed
  then show "m_cfg m' = m_cfg m"
    "now + lock_time (m_cfg m) \<le> lock_until_ts (stats_of m' u) \<and> (old = [] \<longrightarrow> failed_login_threshold (m_cfg m) \<le> Suc (length new))
     \<or> Suc (length new) < failed_login_threshold (m_cfg m) \<and> last_failed_alert_ts (stats_of m' u) = last_failed_alert_ts (stats_of m u)
       \<and> (\<exists>old'. failed_login_times (stats_of m' u) = old' @ new @ [now] \<and> (old = [] \<longrightarrow> old' = []))" by simp_all
qed

lemma fail_run_locks:
  assumes "\<forall>k. t \<le> io_time io k \<and> io_time io k \<le> t + failed_login_window_sec (m_cfg m)"
    "failed_login_times (stats_of m u) = old @ new" "\<forall>x \<in> set new. t \<le> x"
    "last_failed_alert_ts (stats_of m u) + alert_cooldown_sec (m_cfg m) < t"
    "length new + n = failed_login_threshold (m_cfg m)" "0 < n"
  shows "\<exists>now \<in> set (fail_times n u (m, io)). now + lock_time (m_cfg m) \<le> lock_until_ts (stats_of (fst (fail_run n u (m, io))) u)
    \<and> (old = [] \<longrightarrow> now = last (fail_times n u (m, io)))"
  using assms
proof (induction n arbitrary: m io old new)
  case (Suc n)
  define now where "now = io_time io (io_ticks io)"
  obtain m' io' where r: "record_login_failure u m io = (m', io')" by fastforce
  have io': "io_time io' = io_time io" using failure_io_time [of u m io] r by simp
  have now: "t \<le> now" "now \<le> t + failed_login_window_sec (m_cfg m)" "fst (now_epoch_sec io) = now"
    using Suc.prems(1) by (auto simp: now_def now_time)
  note step = failure_step [OF now(1,2) now_def Suc.prems(2-4) r]
  from step(2) show ?case
  proof (elim disjE conjE exE)
    assume l: "now + lock_time (m_cfg m) \<le> lock_until_ts (stats_of m' u)" "old = [] \<longrightarrow> failed_login_threshold (m_cfg m) \<le> Suc (length new)"
    have "n = 0" if "old = []" using that l(2) Suc.prems(5) by simp
    with l(1) show ?thesis
      using fail_run_longer [of "(m', io')" u n] by (auto simp: r now(3) intro!: bexI [of _ now])
  next
    fix old'
    assume l: "Suc (length new) < failed_login_threshold (m_cfg m)" "last_failed_alert_ts (stats_of m' u) = last_failed_alert_ts (stats_of m u)"
      "failed_login_times (stats_of m' u) = old' @ new @ [now]" "old = [] \<longrightarrow> old' = []"
    have n: "0 < n" using l(1) Suc.prems(5) by simp
    have "\<exists>x \<in> set (fail_times n u (m', io')). x + lock_time (m_cfg m') \<le> lock_until_ts (stats_of (fst (fail_run n u (m', io'))) u)
        \<and> (old' = [] \<longrightarrow> x = last (fail_times n u (m', io')))"
      using Suc.prems now(1) n by (intro Suc.IH [of io' m' old' "new @ [now]"]) (simp_all add: io' step(1) l)
    then show ?thesis using l(4) n by (auto simp: r now(3) step(1) intro!: bexI)
  qed
qed simp

lemma fail_run_entry: "0 < n \<Longrightarrow> \<exists>s. map_of (m_stats (fst (fail_run n u mio))) u = Some s"
proof (induction n arbitrary: mio)
  case (Suc n)
  obtain s where "fst (record_login_failure u (fst mio) (snd mio)) = put_stats u s (fst mio)" using record_put(2) by blast
  then show ?case using Suc.IH [of "record_login_failure u (fst mio) (snd mio)"] by (cases n) auto
qed simp


text \<open>Within the cooldown after an alert no failed login locks anything.\<close>

lemma no_lock_in_cooldown:
  assumes "io_time io (io_ticks io) - last_failed_alert_ts (stats_of m u) \<le> alert_cooldown_sec (m_cfg m)"
  shows "lock_until_ts (stats_of (fst (record_login_failure u m io)) u) = lock_until_ts (stats_of m u)"
  using assms by (simp add: record_login_failure_def now_time Let_def)

definition demo_config :: monitor_config where
  "demo_config = \<lparr>failed_login_threshold = 3, failed_login_window_sec = 600, bulk_files_threshold = 20,
     bulk_files_window_sec = 300, time_min_samples = 5, time_hour_fraction = 0, alert_cooldown_sec = 600,
     work_hours_start = -1, work_hours_end = -1, lock_failed_login_sec = 0, lock_bulk_files_sec = 0,
     lock_suspicious_time_sec = 0, decrypt_burst_threshold = 20, decrypt_burst_window_sec = 60,
     decrypt_volume_threshold_mb = 256, decrypt_volume_window_sec = 300, profile_min_decrypt_samples = 20,
     profile_decrypt_rate_factor = 3, profile_decrypt_bytes_factor = 4\<rparr>"

definition demo_monitor :: monitor where
  "demo_monitor = \<lparr>m_cfg = demo_config, m_stats_path = ''stats'', m_stats = []\<rparr>"

definition demo_io :: io where
  "demo_io = \<lparr>io_fs = Map.empty, io_audit = audit_new ''l'' ''a'' Map.empty, io_time = (\<lambda>k. 1000), io_ticks = 0,
     io_wout = (\<lambda>k. W_ok), io_writes = 0\<rparr>"


text \<open>What the statistics file keeps of every user (logins, hours, lock) is what a restart gives
  back, for user names without a vertical bar or a line feed.\<close>

theorem stats_survive_restart:
  assumes "monitor_ok m" "m_stats_path m' = p" "fs p = Some (bytes_of (stats_text m))"
  shows "map_of (m_stats (snd (load_stats fs m'))) = map_option saved_part \<circ> map_of (m_stats m)"
  using assms by (rule load_stats_text)

theorem stats_survive_restart_witness:
  "map_of (m_stats (snd (load_stats [''stats'' \<mapsto> bytes_of (stats_text (put_stats ''bob'' new_stats demo_monitor))] demo_monitor)))
     ''bob'' = Some (saved_part new_stats)"
proof -
  have "monitor_ok (put_stats ''bob'' new_stats demo_monitor)"
    by (simp add: monitor_ok_def put_stats_def demo_monitor_def dkeys_def name_ok_def stats_ok_def new_stats_def)
  from stats_survive_restart [OF this, of demo_monitor "''stats''"] show ?thesis
    by (simp add: demo_monitor_def)
qed

text \<open>A user name with vertical bars forges a line of the statistics file: the line saved for the
  name \<open>u|0|0|0|\<close>, whatever its statistics, is read back as statistics of \<open>u\<close> with no lock.\<close>

definition forged :: "string \<Rightarrow> string" where
  "forged u = u @ ''|0|0|0|''"

lemma forged_line:
  assumes "name_ok u"
  shows "parse_stats_line (stats_line (forged u, s)) = Some (u, new_stats)" "CHR 0x0A \<notin> set (stats_line (forged u, s))"
proof -
  define tail where "tail = CHR ''|'' # show_nat (unat (total_logins s)) @ ''|''
       @ join_commas (map (\<lambda>h. show_nat (unat h)) (hour_counts s)) @ ''|'' @ show_int (lock_until_ts s)"
  have line: "stats_line (forged u, s) = u @ CHR ''|'' # ''0'' @ CHR ''|'' # ''0'' @ CHR ''|'' # ''0'' @ CHR ''|'' # tail"
    by (simp add: stats_line_def tail_def forged_def)
  have u: "CHR ''|'' \<notin> set u" and z: "CHR ''|'' \<notin> set ''0''" using assms by (simp_all add: name_ok_def)
  have "show_nat 0 = ''0''" by code_simp
  then have v: "stoull ''0'' = Some 0" "stoll ''0'' = Some 0"
    using stoull_show_nat [of 0] stoll_show_int [of 0] by (simp_all add: show_int_def)
  have h: "parse_hours ''0'' = replicate 24 0"
    using replicate_Suc [of 23 "0 :: u32"] by (simp add: parse_hours_def getlines_last v(1))
  have g: "getline (CHR ''|'') (CHR ''0'' # CHR ''|'' # x) = Some (''0'', x)" for x
    using getline_line [OF z, of x] by simp
  show "parse_stats_line (stats_line (forged u, s)) = Some (u, new_stats)"
    unfolding line by (simp add: parse_stats_line_def getline_line [OF u] g v h) (simp add: new_stats_def)
  show "CHR 0x0A \<notin> set (stats_line (forged u, s))"
    using join_free [of "map (\<lambda>h. show_nat (unat h)) (hour_counts s)" "CHR 0x0A"] assms
    by (simp add: stats_line_def name_ok_def forged_def)
qed

lemma getlines_split: "getlines d (a @ d # b) = getlines d (a @ [d]) @ getlines d b"
proof (induction "length a" arbitrary: a rule: less_induct)
  case less
  show ?case
  proof (cases "d \<in> set a")
    case False
    then show ?thesis using getlines_line [of d a b] getlines_line [of d a "[]"] by simp
  next
    case True
    then obtain l r where a: "a = l @ d # r" "d \<notin> set l" by (meson split_list_first)
    then show ?thesis using less [of r] getlines_line [of d l] by simp
  qed
qed

text \<open>Loading a file in which nothing after the forged line says something else of \<open>u\<close>.\<close>

definition forged_last :: "string \<Rightarrow> (string \<times> user_stats) list \<Rightarrow> bool" where
  "forged_last u st \<longleftrightarrow> (\<forall>kv \<in> set (dropWhile (\<lambda>kv. fst kv \<noteq> forged u) st). fst kv = forged u \<or> name_ok (fst kv) \<and> fst kv \<noteq> u)"

lemma forged_loads:
  assumes "name_ok u" "forged_last u (m_stats m)" "forged u \<in> fst ` set (m_stats m)" "fs (m_stats_path m') = Some (bytes_of (stats_text m))"
  shows "map_of (m_stats (snd (load_stats fs m'))) u = Some new_stats"
proof -
  define upd where "upd = (\<lambda>line st. case parse_stats_line line of None \<Rightarrow> st | Some (k, s) \<Rightarrow> AList.update k s st)"
  from assms(3) obtain xs s ys where st: "m_stats m = xs @ (forged u, s) # ys" "forged u \<notin> fst ` set xs"
    using split_list_first_prop [of "m_stats m" "\<lambda>kv. fst kv = forged u"] by force
  have "dropWhile (\<lambda>kv. fst kv \<noteq> forged u) (m_stats m) = (forged u, s) # ys"
    using st(2) unfolding st(1) by (subst dropWhile_append2) force+
  with assms(2) have ys: "\<forall>kv \<in> set ys. fst kv = forged u \<or> name_ok (fst kv) \<and> fst kv \<noteq> u" by (simp add: forged_last_def)
  let ?pre = "concat (map (\<lambda>kv. stats_line kv @ [CHR 0x0A]) xs)" and ?l = "map stats_line ((forged u, s) # ys)"
  have "\<forall>l \<in> set ?l. CHR 0x0A \<notin> set l"
    using ys forged_line(2) [OF assms(1)] stats_line_no_nl by auto
  from getlines_concat [OF this, of "[]"] have l: "getlines (CHR 0x0A) (concat (map (\<lambda>l. l @ [CHR 0x0A]) ?l)) = ?l" by simp
  have whole: "stats_text m = ?pre @ concat (map (\<lambda>l. l @ [CHR 0x0A]) ?l)" by (simp add: stats_text_def st(1) comp_def)
  have "\<exists>pre. getlines (CHR 0x0A) (stats_text m) = pre @ ?l"
  proof (cases xs rule: rev_cases)
    case Nil
    then show ?thesis using l whole by simp
  next
    case (snoc zs z)
    then have "?pre = (concat (map (\<lambda>kv. stats_line kv @ [CHR 0x0A]) zs) @ stats_line z) @ [CHR 0x0A]" by simp
    then show ?thesis unfolding whole using getlines_split l by (metis append.assoc append_Cons append_Nil)
  qed
  then obtain pre where "getlines (CHR 0x0A) (stats_text m) = pre @ ?l" ..
  then have "m_stats (snd (load_stats fs m')) = fold upd (map stats_line ys) (upd (stats_line (forged u, s)) (fold upd pre []))"
    using assms(4) by (simp add: load_stats_def upd_def)
  moreover have "map_of (fold upd (map stats_line ys) a) u = Some new_stats" if "map_of a u = Some new_stats" for a
    using ys that
  proof (induction ys arbitrary: a)
    case (Cons kv ys)
    have "map_of (upd (stats_line kv) a) u = Some new_stats"
    proof (cases "fst kv = forged u")
      case True
      then show ?thesis using forged_line(1) [OF assms(1), of "snd kv"] by (cases kv) (simp add: upd_def)
    next
      case False
      with Cons.prems have k: "name_ok (fst kv)" "fst kv \<noteq> u" by auto
      have "parse_stats_line (stats_line kv) = None \<or> (\<exists>x. parse_stats_line (stats_line kv) = Some (fst kv, x))"
        using line_name [OF k(1), of "snd kv"] by simp
      then show ?thesis using Cons.prems(2) k(2) by (auto simp: upd_def)
    qed
    with Cons show ?case by simp
  qed simp
  moreover have "map_of (upd (stats_line (forged u, s)) a) u = Some new_stats" for a
    by (simp add: upd_def forged_line(1) [OF assms(1)])
  ultimately show ?thesis by simp
qed

text \<open>A failed login is recorded under whatever name it was made, and saved with everything else.\<close>

lemma failure_saved:
  assumes "\<forall>k. io_wout io k = W_ok"
  shows "io_fs (snd (record_login_failure u m io)) (m_stats_path m) = Some (bytes_of (stats_text (fst (record_login_failure u m io))))"
proof -
  have w: "io_fs (save_stats (put_stats u x m) io') (m_stats_path m) = Some (bytes_of (stats_text (put_stats u x m)))"
    if "io_wout io' = io_wout io" for x io'
    using that assms by (simp add: save_stats_def stats_text_def io_write_file_def next_wout_def)
  have k: "io_wout (snd (alert_and_lock t d r c now u s io')) = io_wout io'" for t d r c now s io'
    by (simp add: alert_and_lock_def Let_def effect case_prod_unfold)
  show ?thesis
    unfolding record_login_failure_def now_epoch_sec_def Let_def case_prod_unfold prod.sel
    by (rule w) (simp add: k)
qed

lemma forged_last_update: "forged_last u st \<Longrightarrow> forged_last u (AList.update (forged u) s st)"
  by (induction st) (auto simp: forged_last_def split: if_splits)

end
