(* ===== verification/Users.thy ===== *)
theory Users
  imports Storage "HOL-Library.Char_ord" "HOL-Library.List_Lexorder" "HOL-Library.Product_Lexorder"
begin

text \<open>
  The user database (common/src/auth.cpp): \<open>UserStore\<close> with \<open>load\<close>, \<open>save\<close>, \<open>verify\<close>,
  \<open>upsert\<close>, \<open>exists\<close>, \<open>set_blocked\<close>, \<open>set_permissions\<close>, \<open>permissions\<close>, \<open>list\<close> and
  \<open>valid_username\<close>.

  \<open>users_\<close> is an association list. \<open>PKCS5_PBKDF2_HMAC\<close> is the parameter \<open>kdf\<close> (password, salt,
  iterations; \<open>None\<close> for a failure), \<open>RAND_bytes\<close> the list of outcomes \<open>rng\<close>.
\<close>

record user =
  u_name :: string
  u_salt :: string
  u_hash :: string
  u_blocked :: bool
  u_permissions :: nat

type_synonym users = "(string \<times> user) list"
type_synonym kdf = "string \<Rightarrow> byte list \<Rightarrow> nat \<Rightarrow> byte list option"

abbreviation iterations :: nat where "iterations \<equiv> 120000"

definition valid_username :: "string \<Rightarrow> bool" where
  "valid_username username \<longleftrightarrow> username \<noteq> [] \<and> length username \<le> 64
     \<and> list_all (\<lambda>c. let n = of_char c :: nat in
          97 \<le> n \<and> n \<le> 122 \<or> 65 \<le> n \<and> n \<le> 90 \<or> 48 \<le> n \<and> n \<le> 57
          \<or> c = CHR ''_'' \<or> c = CHR ''-'' \<or> c = CHR ''.'') username"

definition user_exists :: "users \<Rightarrow> string \<Rightarrow> bool" where
  "user_exists us name \<longleftrightarrow> map_of us name \<noteq> None"

text \<open>\<open>permissions\<close>: an unknown user has none.\<close>

definition user_permissions :: "users \<Rightarrow> string \<Rightarrow> nat" where
  "user_permissions us name = (case map_of us name of None \<Rightarrow> 0 | Some u \<Rightarrow> u_permissions u)"

definition set_permissions :: "users \<Rightarrow> string \<Rightarrow> nat \<Rightarrow> bool \<times> users" where
  "set_permissions us name perms = (case map_of us name of
       None \<Rightarrow> (False, us)
     | Some u \<Rightarrow> if perms > 3 then (False, us)
                 else (True, AList.update name (u\<lparr>u_permissions := perms\<rparr>) us))"

definition set_blocked :: "users \<Rightarrow> string \<Rightarrow> bool \<Rightarrow> bool \<times> users" where
  "set_blocked us name b = (case map_of us name of
       None \<Rightarrow> (False, us)
     | Some u \<Rightarrow> (True, AList.update name (u\<lparr>u_blocked := b\<rparr>) us))"

definition list_users :: "users \<Rightarrow> (string \<times> bool) list" where
  "list_users us = sort (map (\<lambda>(name, u). (name, u_blocked u)) us)"

definition random_salt_hex :: "nat \<Rightarrow> rng \<Rightarrow> string \<times> rng" where
  "random_salt_hex n rng = (case rand_bytes n rng of
       (None, rng) \<Rightarrow> ([], rng) | (Some salt, rng) \<Rightarrow> (bytes_to_hex salt, rng))"

text \<open>\<open>None\<close> is the exception of \<open>hex_to_bytes\<close> on a salt that is not hexadecimal.\<close>

definition pbkdf2_hash :: "kdf \<Rightarrow> string \<Rightarrow> string \<Rightarrow> nat \<Rightarrow> string option" where
  "pbkdf2_hash kdf password salt_hex iters = (case hex_to_bytes salt_hex of
       None \<Rightarrow> None
     | Some salt \<Rightarrow> (case kdf password salt iters of
         None \<Rightarrow> Some [] | Some out \<Rightarrow> Some (bytes_to_hex out)))"

definition verify_user :: "kdf \<Rightarrow> users \<Rightarrow> string \<Rightarrow> string \<Rightarrow> bool" where
  "verify_user kdf us name password = (case map_of us name of
       None \<Rightarrow> False
     | Some u \<Rightarrow>
         if u_blocked u then False
         else (case pbkdf2_hash kdf password (u_salt u) iterations of
             None \<Rightarrow> False
           | Some computed \<Rightarrow> computed \<noteq> [] \<and> length computed = length (u_hash u) \<and> computed = u_hash u))"

text \<open>
  \<open>upsert\<close>: a fresh salt is a hexadecimal text, so \<open>hex_to_bytes\<close> cannot throw here and the
  \<open>None\<close> of \<open>pbkdf2_hash\<close> is unreachable (\<open>upsert_no_throw\<close> below).
\<close>

definition upsert :: "kdf \<Rightarrow> users \<Rightarrow> string \<Rightarrow> string \<Rightarrow> rng \<Rightarrow> bool \<times> users \<times> rng" where
  "upsert kdf us name password rng =
     (if (\<not> user_exists us name \<and> \<not> valid_username name) \<or> password = [] \<or> length password > 1024
      then (False, us, rng)
      else let old = map_of us name;
               blocked = (case old of None \<Rightarrow> False | Some u \<Rightarrow> u_blocked u);
               perms = (case old of None \<Rightarrow> 3 | Some u \<Rightarrow> u_permissions u)
           in case random_salt_hex 16 rng of (salt, rng) \<Rightarrow>
             if salt = [] then (False, us, rng)
             else (case pbkdf2_hash kdf password salt iterations of
                 None \<Rightarrow> (False, us, rng)
               | Some hash \<Rightarrow>
                   if salt = [] \<or> hash = [] then (False, us, rng)
                   else (True, AList.update name
                           \<lparr>u_name = name, u_salt = salt, u_hash = hash, u_blocked = blocked,
                            u_permissions = perms\<rparr> us, rng)))"

section \<open>The file\<close>

definition chop_cr :: "string \<Rightarrow> string" where
  "chop_cr s = (if s \<noteq> [] \<and> last s = CHR 0x0D then butlast s else s)"

definition parse_permissions :: "string \<Rightarrow> nat" where
  "parse_permissions p = (case p of
       [c] \<Rightarrow> (let n = of_char c :: nat in if 48 \<le> n \<and> n \<le> 51 then n - 48 else 0)
     | _ \<Rightarrow> 0)"

text \<open>One line of the file; \<open>None\<close> when it is skipped. Fields after the fifth are ignored.\<close>

definition parse_user :: "string \<Rightarrow> user option" where
  "parse_user line =
     (if line = [] \<or> hd line = CHR ''#'' then None
      else case getline (CHR '':'') line of None \<Rightarrow> None | Some (name, r1) \<Rightarrow>
       (case getline (CHR '':'') r1 of None \<Rightarrow> None | Some (salt, r2) \<Rightarrow>
       (case getline (CHR '':'') r2 of None \<Rightarrow> None | Some (hash, r3) \<Rightarrow>
          let (blocked, r4) = (case getline (CHR '':'') r3 of
                  None \<Rightarrow> (False, []) | Some (b, r) \<Rightarrow> (chop_cr b \<noteq> ''0'', r));
              perms = (case getline (CHR '':'') r4 of
                  None \<Rightarrow> 3 | Some (p, r) \<Rightarrow> parse_permissions (chop_cr p))
          in Some \<lparr>u_name = name, u_salt = salt, u_hash = hash, u_blocked = blocked, u_permissions = perms\<rparr>)))"

definition users_parse :: "string \<Rightarrow> users" where
  "users_parse text =
     fold (\<lambda>line us. case parse_user line of None \<Rightarrow> us | Some u \<Rightarrow> AList.update (u_name u) u us)
          (getlines (CHR 0x0A) text) []"

definition users_load :: "fs \<Rightarrow> path \<Rightarrow> bool \<times> users" where
  "users_load fs p = (case fs p of None \<Rightarrow> (False, []) | Some data \<Rightarrow> (True, users_parse (string_of data)))"

definition user_line :: "user \<Rightarrow> string" where
  "user_line u = u_name u @ '':'' @ u_salt u @ '':'' @ u_hash u @ '':''
     @ (if u_blocked u then ''1'' else ''0'') @ '':'' @ show_nat (u_permissions u)"

definition users_text :: "users \<Rightarrow> string" where
  "users_text us = concat (map (\<lambda>kv. user_line (snd kv) @ [CHR 0x0A]) us)"

text \<open>
  \<open>save\<close>: the text goes to a temporary file whose stream is closed and checked, and only then
  renamed over the database; \<open>renamed\<close> tells whether \<open>rename\<close> succeeded.
\<close>

definition users_save :: "wout \<Rightarrow> bool \<Rightarrow> path \<Rightarrow> users \<Rightarrow> fs \<Rightarrow> bool \<times> fs" where
  "users_save w renamed p us fs =
     (let tmp = p @ ''.tmp''; data = bytes_of (users_text us) in
      case w of
        W_noopen \<Rightarrow> (False, fs)
      | W_short n \<Rightarrow> (False, fs(tmp \<mapsto> take n data))
      | W_lost n \<Rightarrow> (False, fs(tmp \<mapsto> take n data))
      | W_ok \<Rightarrow> if renamed then (True, (fs(p \<mapsto> data))(tmp := None))
                else (False, fs(tmp \<mapsto> data)))"

section \<open>The invariant of the database\<close>

definition field_free :: "string \<Rightarrow> bool" where
  "field_free s \<longleftrightarrow> CHR '':'' \<notin> set s \<and> CHR 0x0A \<notin> set s"

definition user_ok :: "user \<Rightarrow> bool" where
  "user_ok u \<longleftrightarrow> (u_name u = [] \<or> hd (u_name u) \<noteq> CHR ''#'') \<and> field_free (u_name u)
     \<and> field_free (u_salt u) \<and> field_free (u_hash u) \<and> u_permissions u \<le> 3"

definition users_ok :: "users \<Rightarrow> bool" where
  "users_ok us \<longleftrightarrow> dkeys us \<and> (\<forall>(k, u) \<in> set us. k = u_name u \<and> user_ok u)"

lemma users_okD: "users_ok us \<Longrightarrow> map_of us name = Some u \<Longrightarrow> u_name u = name \<and> user_ok u"
  by (auto simp: users_ok_def dest: map_of_SomeD)

lemma users_ok_Nil [simp]: "users_ok []"
  by (simp add: users_ok_def)

lemma set_update_subset: "set (AList.update k v m) \<subseteq> insert (k, v) (set m)"
  by (induction m) (auto split: if_splits)

lemma users_ok_update: "users_ok us \<Longrightarrow> user_ok u \<Longrightarrow> users_ok (AList.update (u_name u) u us)"
  unfolding users_ok_def using set_update_subset [of "u_name u" u us] by fastforce

lemma set_permissions_ok: "users_ok us \<Longrightarrow> users_ok (snd (set_permissions us name p))"
proof -
  assume ok: "users_ok us"
  have "map_of us name = Some u \<Longrightarrow> p \<le> 3 \<Longrightarrow> users_ok (AList.update name (u\<lparr>u_permissions := p\<rparr>) us)" for u
    using users_ok_update [OF ok, of "u\<lparr>u_permissions := p\<rparr>"] users_okD [OF ok, of name u]
    by (auto simp: user_ok_def)
  with ok show ?thesis by (auto simp: set_permissions_def split: option.splits)
qed

lemma set_blocked_ok: "users_ok us \<Longrightarrow> users_ok (snd (set_blocked us name b))"
proof -
  assume ok: "users_ok us"
  have "map_of us name = Some u \<Longrightarrow> users_ok (AList.update name (u\<lparr>u_blocked := b\<rparr>) us)" for u
    using users_ok_update [OF ok, of "u\<lparr>u_blocked := b\<rparr>"] users_okD [OF ok, of name u]
    by (auto simp: user_ok_def)
  with ok show ?thesis by (auto simp: set_blocked_def split: option.splits)
qed

lemma kHex_free: "i < 16 \<Longrightarrow> kHex ! i \<noteq> CHR '':'' \<and> kHex ! i \<noteq> CHR 0x0A \<and> kHex ! i \<noteq> CHR 0x0D \<and> kHex ! i \<noteq> CHR ''|''"
proof -
  have "\<forall>j \<in> set [0..<16]. kHex ! j \<noteq> CHR '':'' \<and> kHex ! j \<noteq> CHR 0x0A \<and> kHex ! j \<noteq> CHR 0x0D \<and> kHex ! j \<noteq> CHR ''|''"
    by code_simp
  then show "i < 16 \<Longrightarrow> ?thesis" by auto
qed

lemma hex_free [simp]: "field_free (bytes_to_hex bs)"
proof -
  have "CHR '':'' \<notin> set (hex_byte b) \<and> CHR 0x0A \<notin> set (hex_byte b)" for b
    using kHex_free [OF nibble_lt(1) [of b]] kHex_free [OF nibble_lt(2) [of b]]
    unfolding hex_byte_def by auto
  then show ?thesis by (auto simp: field_free_def bytes_to_hex_def)
qed

lemma valid_username_free:
  assumes "valid_username n"
  shows "n \<noteq> []" "hd n \<noteq> CHR ''#''" "field_free n" "CHR ''|'' \<notin> set n"
proof -
  show "n \<noteq> []" using assms by (simp add: valid_username_def)
  have "c \<in> set n \<Longrightarrow> c \<noteq> CHR ''#'' \<and> c \<noteq> CHR '':'' \<and> c \<noteq> CHR 0x0A \<and> c \<noteq> CHR ''|''" for c
    using assms by (auto simp: valid_username_def list_all_iff)
  with \<open>n \<noteq> []\<close> show "hd n \<noteq> CHR ''#''" "field_free n" "CHR ''|'' \<notin> set n"
    by (auto simp: field_free_def)
qed

lemma upsert_no_throw:
  "random_salt_hex n rng = (salt, rng') \<Longrightarrow> pbkdf2_hash kdf pw salt i \<noteq> None"
  by (auto simp: random_salt_hex_def pbkdf2_hash_def hex_to_bytes_def hex_pairs_hex
      split: option.splits prod.splits)

lemma pbkdf2_free: "pbkdf2_hash kdf pw salt i = Some h \<Longrightarrow> field_free h"
  by (auto simp: pbkdf2_hash_def field_free_def split: option.splits)
    (auto simp: hex_free [unfolded field_free_def])

lemma salt_free: "random_salt_hex n rng = (salt, rng') \<Longrightarrow> field_free salt"
  by (auto simp: random_salt_hex_def split: option.splits prod.splits) (simp add: field_free_def)

text \<open>What a successful \<open>upsert\<close> stores.\<close>

lemma upsertE:
  assumes "upsert kdf us name pw rng = (True, us', rng')"
  obtains u where "us' = AList.update name u us" "u_name u = name" "u_hash u \<noteq> []"
    "pbkdf2_hash kdf pw (u_salt u) iterations = Some (u_hash u)"
    "u_blocked u = (case map_of us name of None \<Rightarrow> False | Some o' \<Rightarrow> u_blocked o')"
    "u_permissions u = (case map_of us name of None \<Rightarrow> 3 | Some o' \<Rightarrow> u_permissions o')"
    "field_free (u_salt u)" "user_exists us name \<or> valid_username name"
proof -
  obtain salt rng1 where s: "random_salt_hex 16 rng = (salt, rng1)" by fastforce
  obtain h where h: "pbkdf2_hash kdf pw salt iterations = Some h"
    using upsert_no_throw [OF s] by fastforce
  let ?u = "\<lparr>u_name = name, u_salt = salt, u_hash = h,
    u_blocked = (case map_of us name of None \<Rightarrow> False | Some o' \<Rightarrow> u_blocked o'),
    u_permissions = (case map_of us name of None \<Rightarrow> 3 | Some o' \<Rightarrow> u_permissions o')\<rparr>"
  have "us' = AList.update name ?u us" "h \<noteq> []" "user_exists us name \<or> valid_username name"
    using assms s h by (auto simp: upsert_def Let_def split: if_splits)
  with that [of ?u] h salt_free [OF s] show thesis by simp
qed

lemma upsert_ok: "users_ok us \<Longrightarrow> users_ok (fst (snd (upsert kdf us name pw rng)))"
proof -
  assume ok: "users_ok us"
  show ?thesis
  proof (cases "fst (upsert kdf us name pw rng)")
    case False
    then have "fst (snd (upsert kdf us name pw rng)) = us"
      by (auto simp: upsert_def Let_def split: if_splits prod.splits option.splits)
    with ok show ?thesis by simp
  next
    case True
    then obtain us' rng' where e: "upsert kdf us name pw rng = (True, us', rng')"
      by (metis prod.collapse)
    then obtain u where u: "us' = AList.update name u us" "u_name u = name"
      "pbkdf2_hash kdf pw (u_salt u) iterations = Some (u_hash u)"
      "u_permissions u = (case map_of us name of None \<Rightarrow> 3 | Some o' \<Rightarrow> u_permissions o')"
      "field_free (u_salt u)" "user_exists us name \<or> valid_username name"
      by (elim upsertE) blast
    have "(name = [] \<or> hd name \<noteq> CHR ''#'') \<and> field_free name"
      using u(6) valid_username_free [of name] users_okD [OF ok, of name]
      by (fastforce simp: user_exists_def user_ok_def)
    moreover have "u_permissions u \<le> 3"
      using u(4) users_okD [OF ok, of name] by (auto simp: user_ok_def split: option.splits)
    ultimately have "user_ok u"
      using u pbkdf2_free [OF u(3)] by (simp add: user_ok_def)
    then show ?thesis using users_ok_update [OF ok] u e by fastforce
  qed
qed

section \<open>The round trip through the file\<close>

text \<open>Whatever a file holds, what is read from it is well formed.\<close>

lemma getline_SomeD: "getline d s = Some (l, r) \<Longrightarrow> d \<notin> set l \<and> set l \<subseteq> set s \<and> set r \<subseteq> set s \<and> (l = [] \<or> hd l = hd s)"
  by (cases l) (auto simp: getline_def cut_None_iff dest!: cut_SomeD split: if_splits option.splits)

lemma parse_permissions_le: "parse_permissions p \<le> 3"
  by (auto simp: parse_permissions_def Let_def split: list.split)

lemma parsed_user_ok:
  assumes "parse_user line = Some u" "CHR 0x0A \<notin> set line"
  shows "user_ok u"
proof -
  from assms(1) obtain r1 r2 r3 where g: "hd line \<noteq> CHR ''#''" "getline (CHR '':'') line = Some (u_name u, r1)"
    "getline (CHR '':'') r1 = Some (u_salt u, r2)" "getline (CHR '':'') r2 = Some (u_hash u, r3)"
    "u_permissions u \<le> 3"
    by (auto simp: parse_user_def parse_permissions_le split: if_splits option.splits prod.splits)
  with g(2-4) [THEN getline_SomeD] assms(2) show ?thesis by (auto simp: user_ok_def field_free_def)
qed

lemma users_load_ok: "users_ok (snd (users_load fs p))"
proof -
  have "\<forall>l \<in> set ls. CHR 0x0A \<notin> set l \<Longrightarrow> users_ok us \<Longrightarrow>
      users_ok (fold (\<lambda>line us. case parse_user line of None \<Rightarrow> us | Some u \<Rightarrow> AList.update (u_name u) u us) ls us)" for ls us
    by (induction ls arbitrary: us) (auto intro: users_ok_update parsed_user_ok split: option.split)
  from this [OF ballI [OF getlines_no_delim] users_ok_Nil] show ?thesis by (simp add: users_load_def users_parse_def split: option.split)
qed

lemma parse_user_line:
  assumes "user_ok u" shows "parse_user (user_line u) = Some u"
proof -
  have p: "\<forall>p \<in> set [0..<4]. parse_permissions (chop_cr (show_nat p)) = p" by code_simp
  have perm: "parse_permissions (chop_cr (show_nat (u_permissions u))) = u_permissions u"
    using p assms by (simp add: user_ok_def)
  have free: "CHR '':'' \<notin> set (show_nat (u_permissions u))"
    by (rule show_nat_free) (simp add: is_digit_def)
  have g: "getline (CHR '':'') (show_nat (u_permissions u)) = Some (show_nat (u_permissions u), [])"
    using free by (simp add: getline_last)
  have b: "getline (CHR '':'') (CHR ''1'' # CHR '':'' # r) = Some (''1'', r)"
    "getline (CHR '':'') (CHR ''0'' # CHR '':'' # r) = Some (''0'', r)" for r
    by (simp_all add: getline_def)
  have c: "chop_cr ''0'' = ''0''" "chop_cr ''1'' = ''1''" by (simp_all add: chop_cr_def)
  have "hd (u_name u @ CHR '':'' # r) \<noteq> CHR ''#''" for r using assms by (cases "u_name u") (auto simp: user_ok_def)
  then show ?thesis
    using assms perm g b c
    by (cases "u_blocked u")
      (simp_all add: parse_user_def user_line_def user_ok_def field_free_def getline_line)
qed

lemma user_line_no_nl: "user_ok u \<Longrightarrow> CHR 0x0A \<notin> set (user_line u)"
  using show_nat_free [of "CHR 0x0A" "u_permissions u"]
  by (auto simp: user_line_def user_ok_def field_free_def is_digit_def)

lemma users_parse_text:
  assumes "users_ok us" shows "map_of (users_parse (users_text us)) = map_of us"
proof -
  have ok: "\<forall>(k, u) \<in> set us. k = u_name u \<and> user_ok u" and d: "dkeys us"
    using assms by (auto simp: users_ok_def)
  have "getlines (CHR 0x0A) (users_text us) = map (\<lambda>kv. user_line (snd kv)) us"
    using ok getlines_concat [of "map (\<lambda>kv. user_line (snd kv)) us" "CHR 0x0A" "[]"] user_line_no_nl
    by (fastforce simp: users_text_def comp_def)
  moreover have "fold (\<lambda>line us. case parse_user line of None \<Rightarrow> us | Some u \<Rightarrow> AList.update (u_name u) u us)
      (map (\<lambda>kv. user_line (snd kv)) us) m = store_all us m" for m
    using ok by (induction us arbitrary: m) (auto simp: store_all_def parse_user_line)
  ultimately have "users_parse (users_text us) = store_all us []"
    by (simp add: users_parse_def)
  then show ?thesis using d by (simp add: map_of_store_all)
qed

lemma tmp_other [simp]: "p @ ''.tmp'' \<noteq> p" "p \<noteq> p @ ''.tmp''"
  by auto

lemma users_save_atomic:
  "snd (users_save w r p us fs) p = (if fst (users_save w r p us fs) then Some (bytes_of (users_text us)) else fs p)"
  by (cases w) (auto simp: users_save_def Let_def)

lemma users_save_load:
  assumes "users_ok us" "users_save w r p us fs = (True, fs')"
  shows "fst (users_load fs' p) \<and> map_of (snd (users_load fs' p)) = map_of us"
  using users_save_atomic [of w r p us fs] assms
  by (simp add: users_load_def users_parse_text)

section \<open>Isolation of the accounts\<close>

datatype user_op = Upsert string rng | Set_blocked bool | Set_permissions nat

fun apply_user_op :: "kdf \<Rightarrow> string \<Rightarrow> user_op \<Rightarrow> users \<Rightarrow> users" where
  "apply_user_op kdf name (Upsert pw rng) us = fst (snd (upsert kdf us name pw rng))"
| "apply_user_op kdf name (Set_blocked b) us = snd (set_blocked us name b)"
| "apply_user_op kdf name (Set_permissions p) us = snd (set_permissions us name p)"

lemma apply_user_op_ok: "users_ok us \<Longrightarrow> users_ok (apply_user_op kdf name a us)"
  by (cases a) (simp_all add: upsert_ok set_blocked_ok set_permissions_ok)

lemma users_ops_ok: "users_ok us \<Longrightarrow> users_ok (fold (\<lambda>(n, a). apply_user_op kdf n a) ops us)"
  by (induction ops arbitrary: us) (auto simp: apply_user_op_ok)

lemma apply_user_op_other: "k' \<noteq> k \<Longrightarrow> map_of (apply_user_op kdf k a us) k' = map_of us k'"
  by (cases a) (auto simp: upsert_def set_blocked_def set_permissions_def Let_def
      split: option.splits prod.splits if_splits)

interpretation accounts: per_name map_of "apply_user_op kdf"
  by unfold_locales (rule apply_user_op_other)

lemma verify_map_of: "map_of us name = map_of us' name \<Longrightarrow> verify_user kdf us name pw = verify_user kdf us' name pw"
  by (simp add: verify_user_def)

section \<open>Properties\<close>

definition demo_users :: users where
  "demo_users = [(''bob'', \<lparr>u_name = ''bob'', u_salt = ''00'', u_hash = ''0a'', u_blocked = False, u_permissions = 3\<rparr>)]"

lemma demo_users_ok: "users_ok demo_users"
  by (simp add: demo_users_def users_ok_def user_ok_def dkeys_def valid_username_def field_free_def)

text \<open>C23: Saving the user database is all or nothing: when \<open>save\<close> reports success a later \<open>load\<close>
  gives every account back, when it reports a failure the old file is untouched. This holds for any
  outcome of opening, writing, closing and renaming, and any database built by the operations.\<close>

theorem user_db_atomic:
  assumes "users_ok us"
  shows "case users_save w r p us fs of
      (True, fs') \<Rightarrow> fst (users_load fs' p) \<and> map_of (snd (users_load fs' p)) = map_of us
    | (False, fs') \<Rightarrow> fs' p = fs p"
  using users_save_atomic [of w r p us fs] users_save_load [OF assms, of w r p fs]
  by (auto split: prod.split bool.split)

theorem user_db_atomic_witness:
  "case users_save W_ok True ''users.db'' demo_users Map.empty of
      (True, fs') \<Rightarrow> fst (users_load fs' ''users.db'') \<and> map_of (snd (users_load fs' ''users.db'')) = map_of demo_users
    | (False, fs') \<Rightarrow> fs' ''users.db'' = None"
  using user_db_atomic [OF demo_users_ok, where w = W_ok and r = True and p = "''users.db''" and fs = Map.empty] by simp

text \<open>Any sequence of operations on accounts keeps the database well formed (so it can be
  saved and loaded), and an operation on other names never changes who can log in under a name.\<close>

theorem accounts_independent:
  assumes "users_ok us" "name \<notin> fst ` set ops"
  shows "users_ok (fold (\<lambda>(n, a). apply_user_op kdf n a) ops us)
    \<and> verify_user kdf (fold (\<lambda>(n, a). apply_user_op kdf n a) ops us) name pw = verify_user kdf us name pw"
  using users_ops_ok [OF assms(1)] verify_map_of [OF accounts.isolated [OF assms(2)]] by simp

theorem accounts_independent_witness:
  "users_ok (fold (\<lambda>(n, a). apply_user_op (\<lambda>p s i. Some [10]) n a) [(''eve'', Set_blocked True)] demo_users)
   \<and> verify_user (\<lambda>p s i. Some [10]) (fold (\<lambda>(n, a). apply_user_op (\<lambda>p s i. Some [10]) n a) [(''eve'', Set_blocked True)] demo_users)
       ''bob'' ''pw'' = verify_user (\<lambda>p s i. Some [10]) demo_users ''bob'' ''pw''"
  using accounts_independent [OF demo_users_ok, of "''bob''" "[(''eve'', Set_blocked True)]" "\<lambda>p s i. Some [10]" "''pw''"]
  by simp

text \<open>After a password was set, that password opens the account exactly when the account is not
  blocked; the block and the permissions of an existing account are kept, a new one gets both
  permissions and is not blocked.\<close>

theorem password_set:
  assumes "upsert kdf us name pw rng = (True, us', rng')"
  shows "verify_user kdf us' name pw = (case map_of us name of None \<Rightarrow> True | Some u \<Rightarrow> \<not> u_blocked u)
    \<and> user_permissions us' name = (case map_of us name of None \<Rightarrow> 3 | Some u \<Rightarrow> u_permissions u)"
proof -
  obtain u where "us' = AList.update name u us" "u_hash u \<noteq> []"
    "pbkdf2_hash kdf pw (u_salt u) iterations = Some (u_hash u)"
    "u_blocked u = (case map_of us name of None \<Rightarrow> False | Some o' \<Rightarrow> u_blocked o')"
    "u_permissions u = (case map_of us name of None \<Rightarrow> 3 | Some o' \<Rightarrow> u_permissions o')"
    using assms by (rule upsertE)
  then show ?thesis
    by (simp add: verify_user_def user_permissions_def split: option.split)
qed

lemma hex_empty: "bytes_to_hex bs = [] \<longleftrightarrow> bs = []"
  using length_bytes_to_hex [of bs] by (metis length_0_conv mult_is_0 zero_neq_numeral)

theorem password_set_witness:
  "verify_user (\<lambda>p s i. Some [10]) (fst (snd (upsert (\<lambda>p s i. Some [10]) [] ''bob'' ''secret'' [Some [1]]))) ''bob'' ''secret''"
proof -
  have "upsert (\<lambda>p s i. Some [10]) [] ''bob'' ''secret'' [Some [1]] =
      (True, fst (snd (upsert (\<lambda>p s i. Some [10]) [] ''bob'' ''secret'' [Some [1]])), [])"
    by (simp add: upsert_def user_exists_def valid_username_def random_salt_hex_def pbkdf2_hash_def Let_def
        hex_to_bytes_to_hex hex_empty)
  from password_set [OF this] show ?thesis by simp
qed

end
