(* ===== verification/Protocol.thy ===== *)
theory Protocol
  imports Prelude
begin

text \<open>
  The text header both ends of the TLS stream exchange (common/src/protocol.cpp): \<open>Header\<close>
  with \<open>get\<close>, \<open>set\<close>, \<open>serialize\<close> and \<open>parse\<close>; \<open>read_header\<close>, which reads one byte at a time
  up to an empty line or \<open>max_bytes\<close>; and \<open>write_header\<close>, the loop over partial writes.

  The map \<open>fields\<close> is an association list whose order is the iteration order of the
  \<open>std::unordered_map\<close>. The stream a header is read from is the list of the bytes still to
  come; its end stands for a read that returns zero or an error. A write is described by
  the list of the return values of the successive calls of \<open>write_fn\<close>.
\<close>

type_synonym header = "(string \<times> string) list"

definition hd_get :: "header \<Rightarrow> string \<Rightarrow> string \<Rightarrow> string" where
  "hd_get h key def = alookup h key def"

definition hd_set :: "string \<Rightarrow> string \<Rightarrow> header \<Rightarrow> header" where
  "hd_set key value h = AList.update key value h"

definition serialize :: "header \<Rightarrow> string" where
  "serialize h = concat (map (\<lambda>(k, v). k @ '': '' @ v @ [CHR 0x0A]) h) @ [CHR 0x0A]"

fun parse_lines :: "string list \<Rightarrow> header \<Rightarrow> header" where
  "parse_lines [] out = out"
| "parse_lines (line # rest) out =
     (if line = [] \<or> line = [CHR 0x0D] then out
      else case cut (CHR '':'') line of
          None \<Rightarrow> parse_lines rest out
        | Some (k, v) \<Rightarrow>
            parse_lines rest (if trim k \<noteq> [] then hd_set (trim k) (trim v) out else out))"

definition header_parse :: "string \<Rightarrow> header" where
  "header_parse raw = parse_lines (getlines (CHR 0x0A) raw) []"

text \<open>
  The loop of \<open>read_header\<close>: the bytes still to come, the bytes that may still be read
  (\<open>max_bytes - total\<close>), \<open>last_was_newline\<close> and the buffer. The result is the buffer, the
  remaining allowance and the rest of the stream; \<open>None\<close> is a failed read.
\<close>

fun read_header_loop :: "byte list \<Rightarrow> nat \<Rightarrow> bool \<Rightarrow> string \<Rightarrow> (string \<times> nat \<times> byte list) option" where
  "read_header_loop inp 0 nl buffer = Some (buffer, 0, inp)"
| "read_header_loop [] (Suc n) nl buffer = None"
| "read_header_loop (b # inp) (Suc n) nl buffer =
     (let c = char_of_byte b; buffer' = buffer @ [c] in
      if c = CHR 0x0A then
        (if nl then Some (buffer', n, inp) else read_header_loop inp n True buffer')
      else if c = CHR 0x0D then read_header_loop inp n nl buffer'
      else read_header_loop inp n False buffer')"

definition read_header :: "nat \<Rightarrow> byte list \<Rightarrow> (header \<times> byte list) option" where
  "read_header max_bytes inp = (case read_header_loop inp max_bytes False [] of
       None \<Rightarrow> None
     | Some (buffer, left, rest) \<Rightarrow>
         if left = 0 then None else Some (header_parse buffer, rest))"

text \<open>
  The loop of \<open>write_header\<close> (and of \<open>write_all\<close> and \<open>send_payload\<close> in the server, which
  are the same loop): each call of \<open>write_fn\<close> is offered the bytes left and returns how many
  it took. The result tells whether everything was written, the bytes that went out, and the
  return values not used.
\<close>

fun write_loop :: "int list \<Rightarrow> 'a list \<Rightarrow> bool \<times> 'a list \<times> int list" where
  "write_loop rs [] = (True, [], rs)"
| "write_loop [] (b # bs) = (False, [], [])"
| "write_loop (r # rs) (b # bs) =
     (if r \<le> 0 then (False, [], rs)
      else case write_loop rs (drop (nat r) (b # bs)) of
          (ok, out, rs') \<Rightarrow> (ok, take (nat r) (b # bs) @ out, rs'))"

definition write_header :: "int list \<Rightarrow> header \<Rightarrow> bool \<times> byte list \<times> int list" where
  "write_header rs h = write_loop rs (bytes_of (serialize h))"

section \<open>What a header can carry\<close>

definition field_ok :: "string \<times> string \<Rightarrow> bool" where
  "field_ok kv = (case kv of (k, v) \<Rightarrow>
     k \<noteq> [] \<and> trimmed k \<and> trimmed v \<and> CHR '':'' \<notin> set k
     \<and> CHR 0x0A \<notin> set k \<and> CHR 0x0A \<notin> set v)"

definition header_ok :: "header \<Rightarrow> bool" where
  "header_ok h \<longleftrightarrow> dkeys h \<and> (\<forall>kv \<in> set h. field_ok kv)"

definition field_line :: "string \<times> string \<Rightarrow> string" where
  "field_line kv = fst kv @ '': '' @ snd kv"

lemma serialize_lines: "serialize h = concat (map (\<lambda>l. l @ [CHR 0x0A]) (map field_line h)) @ [CHR 0x0A]"
  by (simp add: serialize_def field_line_def comp_def case_prod_unfold)

lemma field_line_no_nl: "field_ok kv \<Longrightarrow> CHR 0x0A \<notin> set (field_line kv)"
  by (auto simp: field_ok_def field_line_def)

lemma parse_field_lines:
  "\<forall>kv \<in> set h. field_ok kv \<Longrightarrow> parse_lines (map field_line h @ [] # ls) out = store_all h out"
proof (induction h arbitrary: out)
  case Nil
  then show ?case by (simp add: store_all_def)
next
  case (Cons kv h)
  obtain k v where kv: "kv = (k, v)" by (cases kv)
  have ok: "field_ok (k, v)" using Cons.prems kv by simp
  then have "cut (CHR '':'') (field_line kv) = Some (k, CHR '' '' # v)"
    by (simp add: kv field_line_def field_ok_def cut_append)
  moreover have "field_line kv \<noteq> []" "field_line kv \<noteq> [CHR 0x0D]"
    by (auto simp: kv field_line_def append_eq_Cons_conv)
  ultimately have "parse_lines (map field_line (kv # h) @ [] # ls) out
      = parse_lines (map field_line h @ [] # ls) (hd_set k v out)"
    using ok by (simp add: field_ok_def trim_trimmed trim_space)
  also have "\<dots> = store_all h (hd_set k v out)"
    using Cons by simp
  finally show ?case by (simp add: kv store_all_def hd_set_def)
qed

lemma header_parse_serialize:
  assumes "\<forall>kv \<in> set h. field_ok kv"
  shows "header_parse (serialize h) = store_all h []"
proof -
  have "getlines (CHR 0x0A) (serialize h) = map field_line h @ [[]]"
    using assms getlines_concat [of "map field_line h" "CHR 0x0A" "[CHR 0x0A]"]
      getlines_line [of "CHR 0x0A" "[]" "[]"]
    by (auto simp: serialize_lines field_line_no_nl)
  then show ?thesis
    using parse_field_lines [OF assms, of "[]" "[]"] by (simp add: header_parse_def)
qed

lemma header_roundtrip: "header_ok h \<Longrightarrow> map_of (header_parse (serialize h)) = map_of h"
  by (simp add: header_ok_def header_parse_serialize map_of_store_all)

lemma header_parse_dkeys: "dkeys (header_parse raw)"
proof -
  have "dkeys out \<Longrightarrow> dkeys (parse_lines ls out)" for ls out
    by (induction ls arbitrary: out) (auto simp: hd_set_def split: option.splits)
  then show ?thesis by (simp add: header_parse_def)
qed

section \<open>Reading a header from the stream\<close>

lemma read_loop_line:
  assumes "CHR 0x0A \<notin> set l" "CHR 0x0D \<notin> set l" "length l < n" "l \<noteq> []"
  shows "read_header_loop (bytes_of (l @ [CHR 0x0A]) @ inp) n nl buf
       = read_header_loop inp (n - length l - 1) True (buf @ l @ [CHR 0x0A])"
proof -
  have a: "CHR 0x0A \<notin> set l \<Longrightarrow> CHR 0x0D \<notin> set l \<Longrightarrow> length l < n \<Longrightarrow>
      read_header_loop (bytes_of (l @ [CHR 0x0A]) @ inp) n False buf
       = read_header_loop inp (n - length l - 1) True (buf @ l @ [CHR 0x0A])" for l n buf
  proof (induction l arbitrary: n buf)
    case Nil
    then obtain m where "n = Suc m" by (cases n) auto
    then show ?case by (simp add: bytes_of_def)
  next
    case (Cons c l)
    then obtain m where m: "n = Suc m" by (cases n) auto
    with Cons show ?case by (auto simp: bytes_of_def)
  qed
  obtain c l' where l: "l = c # l'" using assms by (cases l) auto
  obtain m where m: "n = Suc m" using assms by (cases n) auto
  show ?thesis
    using assms l m a [of l' m "buf @ [c]"] by (auto simp: bytes_of_def)
qed

lemma read_loop_lines:
  assumes "\<forall>l \<in> set ls. CHR 0x0A \<notin> set l \<and> CHR 0x0D \<notin> set l \<and> l \<noteq> []"
    "ls \<noteq> []" "s = concat (map (\<lambda>l. l @ [CHR 0x0A]) ls)" "length s < n"
  shows "read_header_loop (bytes_of (s @ [CHR 0x0A]) @ inp) n nl buf
    = Some (buf @ s @ [CHR 0x0A], n - length s - 1, inp)"
  using assms
proof (induction ls arbitrary: s n nl buf)
  case (Cons l ls)
  define s' where "s' = concat (map (\<lambda>l. l @ [CHR 0x0A]) ls)"
  have s: "s = (l @ [CHR 0x0A]) @ s'" using Cons.prems s'_def by simp
  have len: "length l < n" "n - length l - 1 = n - length (l @ [CHR 0x0A])" using Cons.prems s by auto
  have step: "read_header_loop (bytes_of (s @ [CHR 0x0A]) @ inp) n nl buf
      = read_header_loop (bytes_of (s' @ [CHR 0x0A]) @ inp) (n - length l - 1) True (buf @ l @ [CHR 0x0A])"
    using read_loop_line [of l n "bytes_of (s' @ [CHR 0x0A]) @ inp" nl buf] Cons.prems len s by simp
  show ?case
  proof (cases "ls = []")
    case True
    then have s': "s' = []" by (simp add: s'_def)
    have n: "n - length l - 1 = Suc (n - length l - 2)" using Cons.prems(4) s s' by simp
    show ?thesis unfolding step using s' s n by (simp add: Let_def)
  next
    case False
    have "length s' < n - length l - 1" using Cons.prems(4) s by simp
    then show ?thesis
      unfolding step using Cons.IH [OF _ False s'_def, of "n - length l - 1" True "buf @ l @ [CHR 0x0A]"] Cons.prems s
      by simp
  qed
qed simp

definition wire_ok :: "header \<Rightarrow> bool" where
  "wire_ok h \<longleftrightarrow> header_ok h \<and> (\<forall>(k, v) \<in> set h. CHR 0x0D \<notin> set k \<and> CHR 0x0D \<notin> set v)"

lemma read_header_serialize:
  assumes ok: "wire_ok h" and "h \<noteq> []" and len: "length (serialize h) < n"
  shows "read_header n (bytes_of (serialize h) @ rest) = Some (store_all h [], rest)"
proof -
  define s where "s = concat (map (\<lambda>l. l @ [CHR 0x0A]) (map field_line h))"
  have f: "\<forall>kv \<in> set h. field_ok kv" using ok by (simp add: wire_ok_def header_ok_def)
  have lines: "\<forall>l \<in> set (map field_line h). CHR 0x0A \<notin> set l \<and> CHR 0x0D \<notin> set l \<and> l \<noteq> []"
    using ok f by (auto simp: wire_ok_def field_line_no_nl) (auto simp: field_line_def)
  have s: "serialize h = s @ [CHR 0x0A]" by (simp add: serialize_lines s_def)
  have "read_header_loop (bytes_of (serialize h) @ rest) n False [] = Some (serialize h, n - length s - 1, rest)"
    using read_loop_lines [OF lines _ s_def, of n rest False "[]"] \<open>h \<noteq> []\<close> len s by simp
  moreover have "n - length s - 1 \<noteq> 0" using len s by simp
  ultimately show ?thesis
    using header_parse_serialize [OF f] by (simp add: read_header_def)
qed

lemma read_header_loop_bound:
  "read_header_loop inp n nl buf = Some (b, left, rest) \<Longrightarrow>
     length b + left = length buf + n \<and> length inp + left = length rest + n
     \<and> (\<exists>used. inp = used @ rest)"
proof (induction inp n nl buf rule: read_header_loop.induct)
  case (3 x inp n nl buffer)
  then show ?case by (force simp: Let_def split: if_splits)
qed auto

lemma read_header_bound:
  assumes "read_header n inp = Some (h, rest)"
  shows "\<exists>used. inp = used @ rest \<and> 0 < length used \<and> length used < n"
proof -
  obtain buffer left where b: "read_header_loop inp n False [] = Some (buffer, left, rest)" "left \<noteq> 0"
    using assms by (auto simp: read_header_def split: option.splits if_splits)
  obtain used where u: "inp = used @ rest"
    using read_header_loop_bound [OF b(1)] by auto
  have "left < n"
    using b by (cases n; cases inp) (auto dest!: read_header_loop_bound simp: Let_def split: if_splits)
  with read_header_loop_bound [OF b(1)] u b(2) show ?thesis by auto
qed

section \<open>Partial writes\<close>

lemma write_loop_prefix: "\<exists>rest. data = fst (snd (write_loop rs data)) @ rest"
proof (induction rs data rule: write_loop.induct)
  case (3 r rs b bs)
  show ?case
  proof (cases "r \<le> 0")
    case False
    then obtain rest where "drop (nat r) (b # bs) = fst (snd (write_loop rs (drop (nat r) (b # bs)))) @ rest"
      using 3 by auto
    then have "b # bs = take (nat r) (b # bs) @ fst (snd (write_loop rs (drop (nat r) (b # bs)))) @ rest"
      by (metis append_take_drop_id)
    with False show ?thesis by (auto split: prod.splits)
  qed simp
qed auto

lemma write_loop_complete: "fst (write_loop rs data) \<Longrightarrow> fst (snd (write_loop rs data)) = data"
proof (induction rs data rule: write_loop.induct)
  case (3 r rs b bs)
  show ?case
  proof (cases "r \<le> 0")
    case False
    with 3 show ?thesis by (cases "write_loop rs (drop (nat r) (b # bs))") simp
  qed (use 3 in simp)
qed auto

lemma write_loop_enough:
  "\<forall>r \<in> set rs. 0 < r \<Longrightarrow> length data \<le> length rs \<Longrightarrow> fst (write_loop rs data)"
proof (induction rs data rule: write_loop.induct)
  case (3 r rs b bs)
  then have "0 < nat r" by simp
  then have "length (drop (nat r) (b # bs)) \<le> length rs"
    using 3(3) unfolding length_drop list.size by linarith
  with 3 show ?case by (cases "write_loop rs (drop (nat r) (b # bs))") simp
qed auto

section \<open>Properties\<close>

text \<open>A header whose write succeeds is read by the other side as the same map of fields,
  however the writes were split, and the reader stops exactly where the payload begins. The
  serialised header has to be shorter than the reader's limit.\<close>

theorem header_over_wire:
  assumes "wire_ok h" "h \<noteq> []" "length (serialize h) < limit" "write_header rs h = (True, sent, rs')"
  shows "\<exists>h'. read_header limit (sent @ payload) = Some (h', payload) \<and> map_of h' = map_of h"
proof -
  have "sent = bytes_of (serialize h)"
    using write_loop_complete [of rs "bytes_of (serialize h)"] assms(4) by (simp add: write_header_def)
  moreover have "map_of (store_all h []) = map_of h"
    using assms(1) by (simp add: wire_ok_def header_ok_def map_of_store_all)
  ultimately show ?thesis
    using read_header_serialize [OF assms(1-3)] by simp
qed

theorem header_over_wire_witness:
  "\<exists>h'. read_header 64 (bytes_of (serialize [(''op'', ''auth_check'')]) @ [7]) = Some (h', [7])
     \<and> map_of h' = map_of [(''op'', ''auth_check'')]"
proof (rule header_over_wire)
  show "wire_ok [(''op'', ''auth_check'')]"
    by (simp add: wire_ok_def header_ok_def dkeys_def field_ok_def trimmed_def is_ws_def)
  show "length (serialize [(''op'', ''auth_check'')]) < 64" by (simp add: serialize_def)
  show "write_header [3, 15] [(''op'', ''auth_check'')] = (True, bytes_of (serialize [(''op'', ''auth_check'')]), [])"
    by (simp add: write_header_def serialize_def bytes_of_def)
qed simp

text \<open>A header that is accepted was read from fewer bytes than the limit, at least one, and
  nothing after it was consumed: a client cannot make the server buffer more than the limit.\<close>

theorem header_read_bounded:
  assumes "read_header limit inp = Some (h, rest)"
  shows "\<exists>used. inp = used @ rest \<and> 0 < length used \<and> length used < limit"
  using assms by (rule read_header_bound)

theorem header_read_bounded_witness:
  "\<exists>used. bytes_of [CHR ''a'', CHR '':'', CHR 0x0A, CHR 0x0A, CHR ''z''] = used @ bytes_of ''z''
     \<and> 0 < length used \<and> length used < 8"
  by (rule header_read_bounded [of 8 _ "[(''a'', [])]"])
    (simp add: bytes_of_def read_header_def header_parse_def hd_set_def; code_simp)

end
