(* ===== verification/Ciphers.thy ===== *)
theory Ciphers
  imports Prelude
begin

text \<open>
  The cipher and hash names (common/include/encoder/crypto.h and the first part of
  common/src/crypto.cpp): the enums \<open>Cipher\<close> and \<open>HashAlg\<close>, the table \<open>kCipherSpecs\<close>,
  \<open>normalize_cipher_name\<close>, the two lookups, and the four conversions between the enums and
  their wire names. The lookups are linear searches that return the first match.
\<close>

datatype cipher =
    KUZNECHIK | MAGMA | CHACHA20 | CHACHA20_POLY1305 | AES_128_ECB | AES_128_CBC | AES_128_CFB
    | AES_128_OFB | AES_128_CTR | AES_128_GCM | AES_128_CCM | AES_128_XTS | AES_128_OCB
    | AES_192_ECB | AES_192_CBC | AES_192_CFB | AES_192_OFB | AES_192_CTR | AES_192_GCM
    | AES_192_CCM | AES_192_OCB | AES_256_ECB | AES_256_CBC | AES_256_CFB | AES_256_OFB
    | AES_256_CTR | AES_256_GCM | AES_256_CCM | AES_256_XTS | AES_256_OCB | TWOFISH_128_ECB
    | TWOFISH_128_CBC | TWOFISH_128_CFB | TWOFISH_128_OFB | TWOFISH_128_CTR | TWOFISH_192_ECB
    | TWOFISH_192_CBC | TWOFISH_192_CFB | TWOFISH_192_OFB | TWOFISH_192_CTR | TWOFISH_256_ECB
    | TWOFISH_256_CBC | TWOFISH_256_CFB | TWOFISH_256_OFB | TWOFISH_256_CTR | DES_ECB | DES_CBC
    | DES_CFB | DES_OFB | DES_CTR | RC4 | RC4_40 | RC4_128

datatype hash_alg = SHA256 | SHA512 | SHA3_256 | SHA3_512 | BLAKE2B_512 | STREEBOG

record cipher_spec =
  s_cipher :: cipher
  s_wire_name :: string
  s_openssl_name :: "string option"
  s_gost :: bool
  s_aead :: bool
  s_ccm :: bool

abbreviation mk_spec :: "cipher \<Rightarrow> string \<Rightarrow> string option \<Rightarrow> bool \<Rightarrow> bool \<Rightarrow> bool \<Rightarrow> cipher_spec" where
  "mk_spec c w n g a cc \<equiv> \<lparr>s_cipher = c, s_wire_name = w, s_openssl_name = n, s_gost = g, s_aead = a, s_ccm = cc\<rparr>"

definition kCipherSpecs :: "cipher_spec list" where
  "kCipherSpecs = [
     mk_spec KUZNECHIK ''kuznechik'' None True False False,
     mk_spec MAGMA ''magma'' None True False False,
     mk_spec CHACHA20 ''chacha20'' (Some ''chacha20'') False False False,
     mk_spec CHACHA20_POLY1305 ''chacha20-poly1305'' (Some ''chacha20-poly1305'') False True False,
     mk_spec AES_128_ECB ''aes-128-ecb'' (Some ''aes-128-ecb'') False False False,
     mk_spec AES_128_CBC ''aes-128-cbc'' (Some ''aes-128-cbc'') False False False,
     mk_spec AES_128_CFB ''aes-128-cfb'' (Some ''aes-128-cfb'') False False False,
     mk_spec AES_128_OFB ''aes-128-ofb'' (Some ''aes-128-ofb'') False False False,
     mk_spec AES_128_CTR ''aes-128-ctr'' (Some ''aes-128-ctr'') False False False,
     mk_spec AES_128_GCM ''aes-128-gcm'' (Some ''aes-128-gcm'') False True False,
     mk_spec AES_128_CCM ''aes-128-ccm'' (Some ''aes-128-ccm'') False True True,
     mk_spec AES_128_XTS ''aes-128-xts'' (Some ''aes-128-xts'') False False False,
     mk_spec AES_128_OCB ''aes-128-ocb'' (Some ''aes-128-ocb'') False True False,
     mk_spec AES_192_ECB ''aes-192-ecb'' (Some ''aes-192-ecb'') False False False,
     mk_spec AES_192_CBC ''aes-192-cbc'' (Some ''aes-192-cbc'') False False False,
     mk_spec AES_192_CFB ''aes-192-cfb'' (Some ''aes-192-cfb'') False False False,
     mk_spec AES_192_OFB ''aes-192-ofb'' (Some ''aes-192-ofb'') False False False,
     mk_spec AES_192_CTR ''aes-192-ctr'' (Some ''aes-192-ctr'') False False False,
     mk_spec AES_192_GCM ''aes-192-gcm'' (Some ''aes-192-gcm'') False True False,
     mk_spec AES_192_CCM ''aes-192-ccm'' (Some ''aes-192-ccm'') False True True,
     mk_spec AES_192_OCB ''aes-192-ocb'' (Some ''aes-192-ocb'') False True False,
     mk_spec AES_256_ECB ''aes-256-ecb'' (Some ''aes-256-ecb'') False False False,
     mk_spec AES_256_CBC ''aes-256-cbc'' (Some ''aes-256-cbc'') False False False,
     mk_spec AES_256_CFB ''aes-256-cfb'' (Some ''aes-256-cfb'') False False False,
     mk_spec AES_256_OFB ''aes-256-ofb'' (Some ''aes-256-ofb'') False False False,
     mk_spec AES_256_CTR ''aes-256-ctr'' (Some ''aes-256-ctr'') False False False,
     mk_spec AES_256_GCM ''aes-256-gcm'' (Some ''aes-256-gcm'') False True False,
     mk_spec AES_256_CCM ''aes-256-ccm'' (Some ''aes-256-ccm'') False True True,
     mk_spec AES_256_XTS ''aes-256-xts'' (Some ''aes-256-xts'') False False False,
     mk_spec AES_256_OCB ''aes-256-ocb'' (Some ''aes-256-ocb'') False True False,
     mk_spec TWOFISH_128_ECB ''twofish-128-ecb'' (Some ''twofish-128-ecb'') False False False,
     mk_spec TWOFISH_128_CBC ''twofish-128-cbc'' (Some ''twofish-128-cbc'') False False False,
     mk_spec TWOFISH_128_CFB ''twofish-128-cfb'' (Some ''twofish-128-cfb'') False False False,
     mk_spec TWOFISH_128_OFB ''twofish-128-ofb'' (Some ''twofish-128-ofb'') False False False,
     mk_spec TWOFISH_128_CTR ''twofish-128-ctr'' (Some ''twofish-128-ctr'') False False False,
     mk_spec TWOFISH_192_ECB ''twofish-192-ecb'' (Some ''twofish-192-ecb'') False False False,
     mk_spec TWOFISH_192_CBC ''twofish-192-cbc'' (Some ''twofish-192-cbc'') False False False,
     mk_spec TWOFISH_192_CFB ''twofish-192-cfb'' (Some ''twofish-192-cfb'') False False False,
     mk_spec TWOFISH_192_OFB ''twofish-192-ofb'' (Some ''twofish-192-ofb'') False False False,
     mk_spec TWOFISH_192_CTR ''twofish-192-ctr'' (Some ''twofish-192-ctr'') False False False,
     mk_spec TWOFISH_256_ECB ''twofish-256-ecb'' (Some ''twofish-256-ecb'') False False False,
     mk_spec TWOFISH_256_CBC ''twofish-256-cbc'' (Some ''twofish-256-cbc'') False False False,
     mk_spec TWOFISH_256_CFB ''twofish-256-cfb'' (Some ''twofish-256-cfb'') False False False,
     mk_spec TWOFISH_256_OFB ''twofish-256-ofb'' (Some ''twofish-256-ofb'') False False False,
     mk_spec TWOFISH_256_CTR ''twofish-256-ctr'' (Some ''twofish-256-ctr'') False False False,
     mk_spec DES_ECB ''des-ecb'' (Some ''des-ecb'') False False False,
     mk_spec DES_CBC ''des-cbc'' (Some ''des-cbc'') False False False,
     mk_spec DES_CFB ''des-cfb'' (Some ''des-cfb'') False False False,
     mk_spec DES_OFB ''des-ofb'' (Some ''des-ofb'') False False False,
     mk_spec DES_CTR ''des-ctr'' (Some ''des-ctr'') False False False,
     mk_spec RC4 ''rc4'' (Some ''rc4'') False False False,
     mk_spec RC4_40 ''rc4-40'' (Some ''rc4-40'') False False False,
     mk_spec RC4_128 ''rc4-128'' (Some ''rc4'') False False False]"

definition normalize_cipher_name :: "string \<Rightarrow> string" where
  "normalize_cipher_name value =
     map (\<lambda>c. if c = CHR ''_'' then CHR ''-'' else to_lower c)
         (rev (dropWhile is_space (rev (dropWhile is_space value))))"

definition find_cipher_spec :: "cipher \<Rightarrow> cipher_spec option" where
  "find_cipher_spec cipher = List.find (\<lambda>spec. s_cipher spec = cipher) kCipherSpecs"

definition find_cipher_spec_name :: "string \<Rightarrow> cipher_spec option" where
  "find_cipher_spec_name value =
     (let normalized = normalize_cipher_name value
      in List.find (\<lambda>spec. normalized = s_wire_name spec) kCipherSpecs)"

definition cipher_to_string :: "cipher \<Rightarrow> string" where
  "cipher_to_string cipher = (case find_cipher_spec cipher of
       None \<Rightarrow> ''unknown'' | Some spec \<Rightarrow> s_wire_name spec)"

definition cipher_from_string :: "string \<Rightarrow> cipher option" where
  "cipher_from_string value = map_option s_cipher (find_cipher_spec_name value)"

fun hash_to_string :: "hash_alg \<Rightarrow> string" where
  "hash_to_string SHA256 = ''sha256''"
| "hash_to_string SHA512 = ''sha512''"
| "hash_to_string SHA3_256 = ''sha3-256''"
| "hash_to_string SHA3_512 = ''sha3-512''"
| "hash_to_string BLAKE2B_512 = ''blake2b-512''"
| "hash_to_string STREEBOG = ''streebog''"

definition hash_from_string :: "string \<Rightarrow> hash_alg option" where
  "hash_from_string value =
     (let v = normalize_cipher_name value in
      if v = ''sha256'' then Some SHA256
      else if v = ''sha512'' then Some SHA512
      else if v = ''sha3-256'' then Some SHA3_256
      else if v = ''sha3-512'' then Some SHA3_512
      else if v = ''blake2b-512'' \<or> v = ''blake2b512'' then Some BLAKE2B_512
      else if v = ''streebog'' then Some STREEBOG
      else None)"

section \<open>The table\<close>

text \<open>Each enumerator has exactly one row, no two rows share a wire name, every wire name is
  already normalised, the GOST rows are the ones without an OpenSSL name, and CCM is AEAD.\<close>

lemma specs_distinct:
  "distinct (map s_cipher kCipherSpecs)" "distinct (map s_wire_name kCipherSpecs)"
  by code_simp+

lemma specs_normal: "list_all (\<lambda>s. normalize_cipher_name (s_wire_name s) = s_wire_name s) kCipherSpecs"
  by code_simp

lemma specs_gost:
  "list_all (\<lambda>s. s_gost s = (s_openssl_name s = None) \<and> (s_ccm s \<longrightarrow> s_aead s) \<and> (s_gost s \<longrightarrow> \<not> s_aead s)) kCipherSpecs"
  by code_simp

lemma specs_ciphers:
  "map s_cipher kCipherSpecs = [
     KUZNECHIK, MAGMA, CHACHA20, CHACHA20_POLY1305, AES_128_ECB, AES_128_CBC, AES_128_CFB,
     AES_128_OFB, AES_128_CTR, AES_128_GCM, AES_128_CCM, AES_128_XTS, AES_128_OCB,
     AES_192_ECB, AES_192_CBC, AES_192_CFB, AES_192_OFB, AES_192_CTR, AES_192_GCM,
     AES_192_CCM, AES_192_OCB, AES_256_ECB, AES_256_CBC, AES_256_CFB, AES_256_OFB,
     AES_256_CTR, AES_256_GCM, AES_256_CCM, AES_256_XTS, AES_256_OCB, TWOFISH_128_ECB,
     TWOFISH_128_CBC, TWOFISH_128_CFB, TWOFISH_128_OFB, TWOFISH_128_CTR, TWOFISH_192_ECB,
     TWOFISH_192_CBC, TWOFISH_192_CFB, TWOFISH_192_OFB, TWOFISH_192_CTR, TWOFISH_256_ECB,
     TWOFISH_256_CBC, TWOFISH_256_CFB, TWOFISH_256_OFB, TWOFISH_256_CTR, DES_ECB, DES_CBC,
     DES_CFB, DES_OFB, DES_CTR, RC4, RC4_40, RC4_128]"
  by (simp add: kCipherSpecs_def)

lemma specs_total: "c \<in> s_cipher ` set kCipherSpecs"
proof -
  have "c \<in> set (map s_cipher kCipherSpecs)"
    unfolding specs_ciphers by (cases c) simp_all
  then show ?thesis by simp
qed

lemma find_distinct:
  "distinct (map f xs) \<Longrightarrow> x \<in> set xs \<Longrightarrow> List.find (\<lambda>y. f y = f x) xs = Some x"
  by (induction xs) force+

lemma find_distinct':
  "distinct (map f xs) \<Longrightarrow> x \<in> set xs \<Longrightarrow> List.find (\<lambda>y. f x = f y) xs = Some x"
  using find_distinct [of f xs x] by (simp only: eq_commute [of "f x"])

lemma find_cipher_spec_total: "\<exists>s \<in> set kCipherSpecs. find_cipher_spec c = Some s \<and> s_cipher s = c"
proof -
  obtain s where "s \<in> set kCipherSpecs" "s_cipher s = c"
    using specs_total [of c] by auto
  with find_distinct [OF specs_distinct(1)] show ?thesis
    by (force simp: find_cipher_spec_def)
qed

lemma find_cipher_specE:
  obtains s where "s \<in> set kCipherSpecs" "find_cipher_spec c = Some s" "s_cipher s = c"
  using find_cipher_spec_total by blast

lemma find_cipher_spec_name_wire:
  "s \<in> set kCipherSpecs \<Longrightarrow> find_cipher_spec_name (s_wire_name s) = Some s"
  using find_distinct' [OF specs_distinct(2)] specs_normal
  by (simp add: find_cipher_spec_name_def list_all_iff)

lemma cipher_name_roundtrip: "cipher_from_string (cipher_to_string c) = Some c"
  by (rule find_cipher_specE [of c])
    (simp add: cipher_to_string_def cipher_from_string_def find_cipher_spec_name_wire)

lemma cipher_from_string_name:
  assumes "cipher_from_string v = Some c"
  shows "normalize_cipher_name v = cipher_to_string c"
proof -
  obtain s where s: "find_cipher_spec_name v = Some s" "s_cipher s = c"
    using assms by (auto simp: cipher_from_string_def)
  then have "s \<in> set kCipherSpecs" "normalize_cipher_name v = s_wire_name s"
    by (auto simp: find_cipher_spec_name_def find_Some_iff Let_def)
  moreover obtain s' where "s' \<in> set kCipherSpecs" "find_cipher_spec c = Some s'" "s_cipher s' = c"
    by (rule find_cipher_specE)
  ultimately show ?thesis
    using s(2) specs_distinct(1) by (auto simp: cipher_to_string_def distinct_map inj_on_def)
qed

lemma hash_name_roundtrip: "hash_from_string (hash_to_string h) = Some h"
  by (cases h; hypsubst; code_simp)

section \<open>Normalisation\<close>

definition fold_char :: "char \<Rightarrow> char" where
  "fold_char c = (if c = CHR ''_'' then CHR ''-'' else to_lower c)"

lemma of_char_to_lower: "(of_char (to_lower c) :: nat) =
    (let n = of_char c in if 65 \<le> n \<and> n \<le> 90 then n + 32 else n)"
  using nat_of_char_less_256 [of c] by (simp add: to_lower_def Let_def)

lemma fold_char_idem [simp]: "fold_char (fold_char c) = fold_char c"
proof -
  have "to_lower (to_lower c) = to_lower c"
    by (rule of_char_eq_iff [where ?'a = nat, THEN iffD1]) (simp add: of_char_to_lower Let_def)
  moreover have "to_lower c = CHR ''_'' \<Longrightarrow> c = CHR ''_''"
    by (drule arg_cong [where f = "of_char :: char \<Rightarrow> nat"], rule of_char_eq_iff [where ?'a = nat, THEN iffD1])
      (simp add: of_char_to_lower Let_def split: if_splits)
  moreover have "to_lower (CHR ''-'') = CHR ''-''" by code_simp
  ultimately show ?thesis by (auto simp: fold_char_def)
qed

lemma is_space_fold_char [simp]: "is_space (fold_char c) = is_space c"
  by (auto simp: fold_char_def is_space_def of_char_to_lower Let_def
      simp flip: of_char_eq_iff [where ?'a = nat])

definition strip :: "string \<Rightarrow> string" where
  "strip v = rev (dropWhile is_space (rev (dropWhile is_space v)))"

lemma normalize_strip: "normalize_cipher_name v = map fold_char (strip v)"
  by (simp add: normalize_cipher_name_def strip_def fold_char_def [abs_def])

lemma strip_map: "strip (map fold_char v) = map fold_char (strip v)"
  by (simp add: strip_def dropWhile_map rev_map comp_def)

lemma strip_idem [simp]: "strip (strip v) = strip v"
proof -
  have ends: "s = [] \<or> (\<not> is_space (hd s) \<and> \<not> is_space (last s)) \<Longrightarrow> strip s = s" for s
    by (cases s rule: rev_cases) (auto simp: strip_def dropWhile_hd)
  define m where "m = dropWhile is_space v"
  have "strip v = [] \<or> (\<not> is_space (hd (strip v)) \<and> \<not> is_space (last (strip v)))"
  proof (cases "strip v = []")
    case False
    let ?r = "dropWhile is_space (rev m)"
    have s: "strip v = rev ?r" by (simp add: strip_def m_def)
    with False have "?r \<noteq> []" by simp
    moreover have "m \<noteq> []" using \<open>?r \<noteq> []\<close> by auto
    ultimately show ?thesis
      using hd_dropWhile [of is_space "rev m"] last_dropWhile [of is_space "rev m"] hd_dropWhile [of is_space v]
      by (simp add: s hd_rev last_rev m_def)
  qed simp
  then show ?thesis by (rule ends)
qed

lemma normalize_idem: "normalize_cipher_name (normalize_cipher_name v) = normalize_cipher_name v"
  by (simp add: normalize_strip strip_map comp_def)

section \<open>Properties\<close>

text \<open>A cipher name is accepted exactly when, with spaces trimmed, letters lowered and
  underscores turned into hyphens, it is the name some cipher is printed with, and then it denotes
  that cipher; so printing and parsing are inverse and no two ciphers share a name.\<close>

theorem cipher_names_exact:
  "cipher_from_string v = Some c \<longleftrightarrow> normalize_cipher_name v = cipher_to_string c"
  using cipher_from_string_name [of v c] cipher_name_roundtrip [of c]
  by (auto simp: cipher_from_string_def find_cipher_spec_name_def normalize_idem dest: arg_cong [of _ _ normalize_cipher_name])

end
