(* ===== verification/Evp.thy ===== *)
theory Evp
  imports Ciphers
begin

text \<open>
  The two routines that drive OpenSSL's cipher interface (\<open>evp_encrypt_cipher\<close> and
  \<open>evp_decrypt_cipher\<close> in common/src/crypto.cpp).

  OpenSSL is a parameter: \<open>evp_run c h\<close> is what the last call of the history \<open>h\<close> of calls on a
  context returns for the cipher \<open>c\<close> (its return value and the bytes it writes). The routines
  are written with continuations: \<open>evp_step\<close> makes one call; when it does not return 1 the
  routine frees the context and fails with the call's message and the queued errors, as every
  \<open>if\<close> of the source does. The result carries the history, so the order of the calls and the
  life time of the context are part of what is proved.
\<close>

datatype evp_mode = CBC_MODE | ECB_MODE | OTHER_MODE

record evp_cipher =
  e_name :: string
  e_key_length :: int
  e_iv_length :: int
  e_mode :: evp_mode

datatype evp_call =
    CtxNew | InitCipher bool | SetPadding bool | SetIvLen nat | SetTagLen nat | SetTag "byte list"
  | InitKey bool "byte list" "byte list option" | UpdateLen nat | Update "byte list" | Final
  | GetTag nat | CtxFree

record openssl =
  get_cipherbyname :: "string \<Rightarrow> evp_cipher option"
  evp_run :: "evp_cipher \<Rightarrow> evp_call list \<Rightarrow> int \<times> byte list"
  openssl_errors :: "evp_cipher \<Rightarrow> evp_call list \<Rightarrow> string"

type_synonym 'a evp_result = "(string + 'a) \<times> evp_call list"

definition evp_step ::
  "('z) openssl_scheme \<Rightarrow> evp_cipher \<Rightarrow> evp_call \<Rightarrow> string \<Rightarrow> evp_call list
    \<Rightarrow> (byte list \<Rightarrow> evp_call list \<Rightarrow> 'a evp_result) \<Rightarrow> 'a evp_result" where
  "evp_step os c call msg h k =
     (let h' = h @ [call] in
      case evp_run os c h' of (ret, out) \<Rightarrow>
        if ret \<noteq> 1 then (Inl (msg @ '' failed: '' @ openssl_errors os c h'), h' @ [CtxFree])
        else k out h')"

text \<open>A call that is made only when the flag holds.\<close>

definition evp_when ::
  "bool \<Rightarrow> (evp_call list \<Rightarrow> (byte list \<Rightarrow> evp_call list \<Rightarrow> 'a evp_result) \<Rightarrow> 'a evp_result)
    \<Rightarrow> evp_call list \<Rightarrow> (byte list \<Rightarrow> evp_call list \<Rightarrow> 'a evp_result) \<Rightarrow> 'a evp_result" where
  "evp_when b m h k = (if b then m h k else k [] h)"

definition padding_calls :: "evp_cipher \<Rightarrow> bool \<Rightarrow> evp_call list" where
  "padding_calls c aead = (if aead then [] else [SetPadding (e_mode c = CBC_MODE \<or> e_mode c = ECB_MODE)])"

definition iv_ptr :: "byte list \<Rightarrow> byte list option" where
  "iv_ptr iv = (if iv = [] then None else Some iv)"

definition evp_encrypt_cipher ::
  "('z) openssl_scheme \<Rightarrow> evp_cipher \<Rightarrow> byte list \<Rightarrow> byte list \<Rightarrow> byte list \<Rightarrow> bool \<Rightarrow> bool
    \<Rightarrow> (byte list \<times> byte list) evp_result" where
  "evp_encrypt_cipher os c plaintext key iv aead ccm =
     (if fst (evp_run os c [CtxNew]) \<noteq> 1 then (Inl ''EVP_CIPHER_CTX_new failed'', [CtxNew])
      else
        evp_step os c (InitCipher True) ''EVP_EncryptInit_ex'' [CtxNew] (\<lambda>_ h.
        evp_when ccm (\<lambda>h. evp_step os c (SetIvLen (length iv)) ''EVP_CTRL_AEAD_SET_IVLEN'' h)
          (h @ padding_calls c aead) (\<lambda>_ h.
        evp_when ccm (\<lambda>h. evp_step os c (SetTagLen 16) ''EVP_CTRL_AEAD_SET_TAG'' h) h (\<lambda>_ h.
        evp_step os c (InitKey True key (iv_ptr iv)) ''EVP_EncryptInit_ex(key/iv)'' h (\<lambda>_ h.
        evp_when ccm (\<lambda>h. evp_step os c (UpdateLen (length plaintext)) ''EVP_EncryptUpdate(length)'' h) h (\<lambda>_ h.
        evp_when (plaintext \<noteq> [])
          (\<lambda>h. evp_step os c (Update plaintext)
             (if ccm then ''EVP_EncryptUpdate(data)'' else ''EVP_EncryptUpdate'') h) h (\<lambda>out1 h.
        evp_step os c Final ''EVP_EncryptFinal_ex'' h (\<lambda>out2 h.
        evp_when aead (\<lambda>h. evp_step os c (GetTag 16) ''EVP_CTRL_AEAD_GET_TAG'' h) h (\<lambda>tag h.
          (Inr (out1 @ out2, tag), h @ [CtxFree]))))))))))"

definition evp_decrypt_cipher ::
  "('z) openssl_scheme \<Rightarrow> evp_cipher \<Rightarrow> byte list \<Rightarrow> byte list \<Rightarrow> byte list \<Rightarrow> byte list \<Rightarrow> bool \<Rightarrow> bool
    \<Rightarrow> (byte list) evp_result" where
  "evp_decrypt_cipher os c ciphertext key iv tag aead ccm =
     (if fst (evp_run os c [CtxNew]) \<noteq> 1 then (Inl ''EVP_CIPHER_CTX_new failed'', [CtxNew])
      else
        evp_step os c (InitCipher False) ''EVP_DecryptInit_ex'' [CtxNew] (\<lambda>_ h.
        evp_when ccm (\<lambda>h. evp_step os c (SetIvLen (length iv)) ''EVP_CTRL_AEAD_SET_IVLEN'' h)
          (h @ padding_calls c aead) (\<lambda>_ h.
        evp_when ccm (\<lambda>h. evp_step os c (SetTag tag) ''EVP_CTRL_AEAD_SET_TAG'' h) h (\<lambda>_ h.
        evp_step os c (InitKey False key (iv_ptr iv)) ''EVP_DecryptInit_ex(key/iv)'' h (\<lambda>_ h.
        evp_when (aead \<and> \<not> ccm) (\<lambda>h. evp_step os c (SetTag tag) ''EVP_CTRL_AEAD_SET_TAG'' h) h (\<lambda>_ h.
        evp_when ccm (\<lambda>h. evp_step os c (UpdateLen (length ciphertext)) ''EVP_DecryptUpdate(length)'' h) h (\<lambda>_ h.
        evp_when (ciphertext \<noteq> [])
          (\<lambda>h. evp_step os c (Update ciphertext)
             (if ccm then ''EVP_DecryptUpdate(data)'' else ''EVP_DecryptUpdate'') h) h (\<lambda>out1 h.
        evp_step os c Final ''EVP_DecryptFinal_ex'' h (\<lambda>out2 h.
          (Inr (out1 @ out2), h @ [CtxFree]))))))))))"

section \<open>The life time of the context\<close>

text \<open>A history during which the context is live: created first, not yet freed.\<close>

definition live :: "evp_call list \<Rightarrow> bool" where
  "live h \<longleftrightarrow> (\<exists>mid. h = CtxNew # mid \<and> CtxNew \<notin> set mid \<and> CtxFree \<notin> set mid)"

text \<open>A finished history: the context could not be created, or it was freed once, by the last call.\<close>

definition closed :: "evp_call list \<Rightarrow> bool" where
  "closed h \<longleftrightarrow> h = [CtxNew] \<or> (\<exists>h'. live h' \<and> h = h' @ [CtxFree])"

lemma live_New [simp]: "live [CtxNew]"
  by (simp add: live_def)

lemma live_append: "live h \<Longrightarrow> CtxNew \<notin> set cs \<Longrightarrow> CtxFree \<notin> set cs \<Longrightarrow> live (h @ cs)"
  by (auto simp: live_def)

lemma live_padding: "live h \<Longrightarrow> live (h @ padding_calls c a)"
  by (auto intro: live_append simp: padding_calls_def)

lemma closed_free [intro]: "live h \<Longrightarrow> closed (h @ [CtxFree])"
  by (auto simp: closed_def)

lemma step_closed:
  assumes "live h" "call \<noteq> CtxNew" "call \<noteq> CtxFree" "\<And>out h'. live h' \<Longrightarrow> closed (snd (k out h'))"
  shows "closed (snd (evp_step os c call msg h k))"
proof -
  have l: "live (h @ [call])"
    using assms(1-3) by (auto intro: live_append)
  then have "closed ((h @ [call]) @ [CtxFree])" by (rule closed_free)
  with l assms(4) show ?thesis
    by (auto simp: evp_step_def Let_def split: prod.splits)
qed

lemma when_closed:
  assumes "live h" "\<And>h' k'. live h' \<Longrightarrow> (\<And>out h''. live h'' \<Longrightarrow> closed (snd (k' out h''))) \<Longrightarrow> closed (snd (m h' k'))"
    "\<And>out h'. live h' \<Longrightarrow> closed (snd (k out h'))"
  shows "closed (snd (evp_when b m h k))"
  using assms by (simp add: evp_when_def)

lemmas closed_rules = step_closed when_closed live_padding closed_free

lemma encrypt_closed: "closed (snd (evp_encrypt_cipher os c p key iv aead ccm))"
  unfolding evp_encrypt_cipher_def
  by (auto simp: closed_def [of "[CtxNew]"] intro!: closed_rules)

lemma decrypt_closed: "closed (snd (evp_decrypt_cipher os c d key iv tag aead ccm))"
  unfolding evp_decrypt_cipher_def
  by (auto simp: closed_def [of "[CtxNew]"] intro!: closed_rules)

section \<open>What a success entails\<close>

lemma step_success:
  assumes "evp_step os c call msg h k = (Inr x, t)"
  obtains out where "evp_run os c (h @ [call]) = (1, out)" "k out (h @ [call]) = (Inr x, t)"
  using assms by (auto simp: evp_step_def Let_def split: prod.splits if_splits)

text \<open>The calls of a decryption that succeeds, in their order.\<close>

definition decrypt_calls ::
  "evp_cipher \<Rightarrow> byte list \<Rightarrow> byte list \<Rightarrow> byte list \<Rightarrow> byte list \<Rightarrow> bool \<Rightarrow> bool \<Rightarrow> evp_call list" where
  "decrypt_calls c d key iv tag aead ccm =
     [CtxNew, InitCipher False] @ padding_calls c aead
     @ (if ccm then [SetIvLen (length iv), SetTag tag] else [])
     @ [InitKey False key (iv_ptr iv)]
     @ (if aead \<and> \<not> ccm then [SetTag tag] else [])
     @ (if ccm then [UpdateLen (length d)] else [])
     @ (if d \<noteq> [] then [Update d] else [])"

lemma decrypt_success:
  assumes "evp_decrypt_cipher os c d key iv tag aead ccm = (Inr x, t)"
  shows "t = decrypt_calls c d key iv tag aead ccm @ [Final, CtxFree]
    \<and> fst (evp_run os c (decrypt_calls c d key iv tag aead ccm @ [Final])) = 1"
  using assms unfolding evp_decrypt_cipher_def evp_when_def decrypt_calls_def
  by (auto elim!: step_success split: if_splits)

definition encrypt_calls ::
  "evp_cipher \<Rightarrow> byte list \<Rightarrow> byte list \<Rightarrow> byte list \<Rightarrow> bool \<Rightarrow> bool \<Rightarrow> evp_call list" where
  "encrypt_calls c p key iv aead ccm =
     [CtxNew, InitCipher True] @ padding_calls c aead
     @ (if ccm then [SetIvLen (length iv), SetTagLen 16] else [])
     @ [InitKey True key (iv_ptr iv)]
     @ (if ccm then [UpdateLen (length p)] else [])
     @ (if p \<noteq> [] then [Update p] else [])"

lemma encrypt_success:
  assumes "evp_encrypt_cipher os c p key iv aead ccm = (Inr (x, tag), t)"
  shows "t = encrypt_calls c p key iv aead ccm @ [Final] @ (if aead then [GetTag 16] else []) @ [CtxFree]
    \<and> (if aead then tag = snd (evp_run os c (encrypt_calls c p key iv aead ccm @ [Final, GetTag 16])) else tag = [])"
  using assms unfolding evp_encrypt_cipher_def evp_when_def encrypt_calls_def
  by (auto elim!: step_success split: if_splits)

section \<open>Properties\<close>

text \<open>On every path, whatever OpenSSL answers, the cipher context is created by the first call
  and freed exactly once, by the last call, or its creation failed and nothing else is called: no
  path leaks the context, frees it twice or uses it after it was freed.\<close>

theorem context_lifetime:
  "closed (snd (evp_encrypt_cipher os c plain key iv aead ccm))
   \<and> closed (snd (evp_decrypt_cipher os c data key iv tag aead ccm))"
  by (simp add: encrypt_closed decrypt_closed)

end
