(* ===== verification/CryptoEngine.thy ===== *)
theory CryptoEngine
  imports Evp Encoding
begin

text \<open>
  \<open>CryptoEngine\<close> (common/src/crypto.cpp) and the native GOST backend
  (common/src/gost_native.cpp): key generation, encryption, decryption, hashing, the framed
  GOST-MGM container and the recovery of files of the historical CBC format.

  The libraries are the parameters of \<open>crypto_env\<close>: OpenSSL's cipher interface (see Evp), its
  digests, and libakrypt's MGM and CBC modes.
\<close>

record crypto_env = openssl +
  native_gost :: bool
  has_digest :: "string \<Rightarrow> bool"
  md_ctx_new :: bool
  md_init :: "string \<Rightarrow> bool"
  md_update :: "string \<Rightarrow> byte list \<Rightarrow> bool"
  md_final :: "string \<Rightarrow> byte list \<Rightarrow> byte list option"
  ak_init :: bool
  ak_setup :: "cipher \<Rightarrow> byte list \<Rightarrow> bool"
  ak_encrypt_mgm :: "cipher \<Rightarrow> byte list \<Rightarrow> byte list \<Rightarrow> byte list \<Rightarrow> byte list \<Rightarrow> (byte list \<times> byte list) option"
  ak_decrypt_mgm :: "cipher \<Rightarrow> byte list \<Rightarrow> byte list \<Rightarrow> byte list \<Rightarrow> byte list \<Rightarrow> byte list \<Rightarrow> byte list option"
  ak_decrypt_cbc :: "byte list \<Rightarrow> byte list \<Rightarrow> byte list \<Rightarrow> byte list option"

record crypto_result =
  r_data :: "byte list"
  r_key :: "byte list"
  r_iv :: "byte list"
  r_tag :: "byte list"

section \<open>Hashing\<close>

text \<open>The digest chosen for an algorithm: SHA-2 is built in, the others are looked up by two names.\<close>

definition find_digest :: "('z) crypto_env_scheme \<Rightarrow> string \<Rightarrow> string \<Rightarrow> string option" where
  "find_digest env n1 n2 =
     (if has_digest env n1 then Some n1 else if has_digest env n2 then Some n2 else None)"

fun hash_md :: "('z) crypto_env_scheme \<Rightarrow> hash_alg \<Rightarrow> string option" where
  "hash_md env SHA256 = Some ''SHA256''"
| "hash_md env SHA512 = Some ''SHA512''"
| "hash_md env SHA3_256 = find_digest env ''sha3-256'' ''SHA3-256''"
| "hash_md env SHA3_512 = find_digest env ''sha3-512'' ''SHA3-512''"
| "hash_md env BLAKE2B_512 = find_digest env ''blake2b512'' ''BLAKE2b512''"
| "hash_md env STREEBOG = Some ''SHA256''"

definition engine_hash :: "('z) crypto_env_scheme \<Rightarrow> hash_alg \<Rightarrow> byte list \<Rightarrow> string + (byte list \<times> string)" where
  "engine_hash env alg data = (case hash_md env alg of
       None \<Rightarrow> Inl ''Digest algorithm not available''
     | Some md \<Rightarrow>
         if \<not> md_ctx_new env then Inl ''EVP_MD_CTX_new failed''
         else if \<not> md_init env md then Inl ''EVP_DigestInit_ex failed''
         else if data \<noteq> [] \<and> \<not> md_update env md data then Inl ''EVP_DigestUpdate failed''
         else (case md_final env md data of
             None \<Rightarrow> Inl ''EVP_DigestFinal_ex failed''
           | Some bytes \<Rightarrow> Inr (bytes, bytes_to_hex bytes)))"

section \<open>The native GOST container\<close>

definition gost_fail :: string where
  "gost_fail = ''GOST-MGM operation failed or data authentication rejected''"

definition gost_header_size :: nat where "gost_header_size = 18"

definition gost_max_size :: nat where "gost_max_size = 100 * 1024 * 1024"

definition gost_magic :: "byte list" where
  "gost_magic = bytes_of ''ENGOST02''"

definition gost_id :: "cipher \<Rightarrow> nat" where
  "gost_id c = (if c = MAGMA then 1 else if c = KUZNECHIK then 2 else 0)"

definition gost_block :: "cipher \<Rightarrow> nat" where
  "gost_block c = (if c = MAGMA then 8 else 16)"

text \<open>The size field: eight bytes, least significant first.\<close>

definition write_le64 :: "u64 \<Rightarrow> byte list" where
  "write_le64 v = map (\<lambda>i. ucast (drop_bit (8 * i) v)) [0..<8]"

definition read_le64 :: "byte list \<Rightarrow> u64" where
  "read_le64 d = foldl (\<lambda>size i. size OR push_bit (8 * i) (ucast (d ! i))) 0 [0..<8]"

definition gost_header :: "cipher \<Rightarrow> nat \<Rightarrow> byte list" where
  "gost_header c n =
     gost_magic @ [word_of_nat (gost_id c), word_of_nat (gost_block c)] @ write_le64 (word_of_nat n)"

text \<open>The reserved high bit is cleared in the first and in the last byte of the nonce.\<close>

definition gost_clear :: "byte list \<Rightarrow> byte list" where
  "gost_clear iv =
     (let iv1 = iv[0 := iv ! 0 AND 0x7F] in iv1[length iv1 - 1 := iv1 ! (length iv1 - 1) AND 0x7F])"

definition gost_native_encrypt ::
  "('z) crypto_env_scheme \<Rightarrow> cipher \<Rightarrow> byte list \<Rightarrow> rng \<Rightarrow> (string + crypto_result) \<times> rng" where
  "gost_native_encrypt env cipher plain rng =
     (if gost_id cipher = 0 \<or> length plain > gost_max_size then (Inl gost_fail, rng)
      else if \<not> ak_init env then (Inl gost_fail, rng)
      else case rand_bytes 32 rng of
          (None, rng) \<Rightarrow> (Inl gost_fail, rng)
        | (Some key, rng) \<Rightarrow> (case rand_bytes (gost_block cipher) rng of
              (None, rng) \<Rightarrow> (Inl gost_fail, rng)
            | (Some nonce, rng) \<Rightarrow>
                let iv = gost_clear nonce; hdr = gost_header cipher (length plain) in
                if \<not> ak_setup env cipher key then (Inl gost_fail, rng)
                else (case ak_encrypt_mgm env cipher key hdr plain iv of
                    None \<Rightarrow> (Inl gost_fail, rng)
                  | Some (ct, mac) \<Rightarrow>
                      (Inr \<lparr>r_data = hdr @ iv @ ct @ mac, r_key = key, r_iv = [], r_tag = []\<rparr>, rng))))"

definition gost_native_decrypt ::
  "('z) crypto_env_scheme \<Rightarrow> cipher \<Rightarrow> byte list \<Rightarrow> byte list \<Rightarrow> string + crypto_result" where
  "gost_native_decrypt env cipher frame key =
     (if gost_id cipher = 0 \<or> length key \<noteq> 32 \<or> length frame < gost_header_size then Inl gost_fail
      else let block = gost_block cipher in
        if take 8 frame \<noteq> gost_magic \<or> unat (frame ! 8) \<noteq> gost_id cipher \<or> unat (frame ! 9) \<noteq> block
        then Inl gost_fail
        else let size = unat (read_le64 (drop 10 frame)) in
          if size > gost_max_size \<or> length frame \<noteq> gost_header_size + block * 2 + size then Inl gost_fail
          else if \<not> ak_init env then Inl gost_fail
          else if \<not> ak_setup env cipher key then Inl gost_fail
          else let body = drop gost_header_size frame in
            (case ak_decrypt_mgm env cipher key (take gost_header_size frame)
                    (take size (drop block body)) (take block body) (take block (drop (block + size) body)) of
               None \<Rightarrow> Inl gost_fail
             | Some plain \<Rightarrow> Inr \<lparr>r_data = plain, r_key = [], r_iv = [], r_tag = []\<rparr>))"

text \<open>The padding of the historical format: 1 to 15 copies of its length.\<close>

definition legacy_unpad :: "byte list \<Rightarrow> byte list option" where
  "legacy_unpad plain =
     (if plain = [] then None
      else let padding = unat (last plain) in
        if padding = 0 \<or> padding > 15
           \<or> \<not> list_all (\<lambda>v. v = last plain) (drop (length plain - padding) plain) then None
        else Some (take (length plain - padding) plain))"

definition gost_native_recover_legacy ::
  "('z) crypto_env_scheme \<Rightarrow> byte list \<Rightarrow> byte list \<Rightarrow> hash_alg \<Rightarrow> string \<Rightarrow> string + byte list" where
  "gost_native_recover_legacy env frame key alg digest =
     (if length key \<noteq> 32 \<or> length frame < 16 \<or> (length frame - 16) mod 16 \<noteq> 0
         \<or> length frame > gost_max_size + 32 \<or> digest = [] then Inl gost_fail
      else if \<not> ak_init env then Inl gost_fail
      else if \<not> ak_setup env KUZNECHIK key then Inl gost_fail
      else case (if length frame = 16 then Some [] else ak_decrypt_cbc env key (drop 16 frame) (take 16 frame)) of
          None \<Rightarrow> Inl gost_fail
        | Some plain \<Rightarrow> (case engine_hash env alg plain of
              Inl e \<Rightarrow> Inl e
            | Inr (_, hex) \<Rightarrow>
                if hex = digest then Inr plain
                else (case legacy_unpad plain of
                    None \<Rightarrow> Inl gost_fail
                  | Some short \<Rightarrow> (case engine_hash env alg short of
                        Inl e \<Rightarrow> Inl gost_fail
                      | Inr (_, hex') \<Rightarrow> if hex' = digest then Inr short else Inl gost_fail))))"

section \<open>The engine\<close>

definition engine_encrypt ::
  "('z) crypto_env_scheme \<Rightarrow> cipher \<Rightarrow> byte list \<Rightarrow> rng \<Rightarrow> (string + crypto_result) \<times> rng" where
  "engine_encrypt env cipher plaintext rng = (case find_cipher_spec cipher of
       None \<Rightarrow> (Inl ''Unsupported cipher'', rng)
     | Some spec \<Rightarrow>
         if s_gost spec then
           (if native_gost env then gost_native_encrypt env cipher plaintext rng
            else (Inl ''Native GOST-MGM backend is not enabled; legacy encryption is disabled'', rng))
         else (case get_cipherbyname env (the (s_openssl_name spec)) of
             None \<Rightarrow> (Inl (''Cipher is not available in OpenSSL: '' @ s_wire_name spec), rng)
           | Some evp \<Rightarrow>
               let key_len = e_key_length evp; iv_len = max 0 (e_iv_length evp) in
               if key_len \<le> 0 then (Inl ''Invalid key length for cipher'', rng)
               else (case rand_bytes (nat key_len) rng of
                   (None, rng) \<Rightarrow> (Inl ''RAND_bytes failed (key)'', rng)
                 | (Some key, rng) \<Rightarrow>
                     (case (if iv_len = 0 then (Some [], rng) else rand_bytes (nat iv_len) rng) of
                         (None, rng) \<Rightarrow> (Inl ''RAND_bytes failed (iv)'', rng)
                       | (Some iv, rng) \<Rightarrow>
                           (case fst (evp_encrypt_cipher env evp plaintext key iv (s_aead spec) (s_ccm spec)) of
                               Inl e \<Rightarrow> (Inl e, rng)
                             | Inr (ct, tag) \<Rightarrow>
                                 (Inr \<lparr>r_data = ct, r_key = key, r_iv = iv, r_tag = tag\<rparr>, rng))))))"

definition engine_decrypt ::
  "('z) crypto_env_scheme \<Rightarrow> cipher \<Rightarrow> byte list \<Rightarrow> byte list \<Rightarrow> byte list \<Rightarrow> byte list \<Rightarrow> string + crypto_result" where
  "engine_decrypt env cipher ciphertext key iv tag = (case find_cipher_spec cipher of
       None \<Rightarrow> Inl ''Unsupported cipher''
     | Some spec \<Rightarrow>
         if s_gost spec then
           (if native_gost env then gost_native_decrypt env cipher ciphertext key
            else Inl ''Native GOST-MGM backend is not enabled; legacy files require verified recovery'')
         else if s_aead spec \<and> tag = [] then Inl ''Missing authentication tag for AEAD cipher''
         else (case get_cipherbyname env (the (s_openssl_name spec)) of
             None \<Rightarrow> Inl (''Cipher is not available in OpenSSL: '' @ s_wire_name spec)
           | Some evp \<Rightarrow>
               (case fst (evp_decrypt_cipher env evp ciphertext key iv tag (s_aead spec) (s_ccm spec)) of
                   Inl e \<Rightarrow> Inl e
                 | Inr plain \<Rightarrow> Inr \<lparr>r_data = plain, r_key = [], r_iv = [], r_tag = []\<rparr>)))"

definition engine_recover_legacy_gost ::
  "('z) crypto_env_scheme \<Rightarrow> byte list \<Rightarrow> byte list \<Rightarrow> hash_alg \<Rightarrow> string \<Rightarrow> string + byte list" where
  "engine_recover_legacy_gost env ciphertext key alg trusted_digest =
     (if native_gost env then gost_native_recover_legacy env ciphertext key alg trusted_digest
      else Inl ''Native GOST backend required for verified legacy recovery'')"

section \<open>The size field\<close>

lemma byte_bit_lt8: "bit (b :: byte) j \<Longrightarrow> j < 8"
  using bit_imp_le_length [of b j] by simp

lemma bit_read_le:
  "bit (foldl (\<lambda>size i. size OR push_bit (8 * i) (ucast (d ! i))) 0 [0..<k] :: u64) n
     \<longleftrightarrow> n < 8 * k \<and> n < 64 \<and> bit (d ! (n div 8)) (n mod 8)" for d :: "byte list"
proof (induction k)
  case (Suc k)
  have "bit (push_bit (8 * k) (ucast (d ! k)) :: u64) n \<longleftrightarrow> 8 * k \<le> n \<and> n < 64 \<and> bit (d ! k) (n - 8 * k)"
    by (auto simp: bit_push_bit_iff bit_ucast_iff)
  moreover have "n div 8 = k \<and> n mod 8 = n - 8 * k" if "8 * k \<le> n" "n < 8 * k + 8"
  proof -
    have "n = 8 * k + (n - 8 * k)" "n - 8 * k < 8" using that by auto
    then show ?thesis by (metis div_mult_self4 mod_mult_self4 div_less mod_less mult.commute add.commute
          add_0 zero_neq_numeral)
  qed
  moreover have "bit (d ! k) (n - 8 * k) \<Longrightarrow> n - 8 * k < 8"
    by (rule byte_bit_lt8)
  moreover have "\<not> bit (d ! (n div 8)) (n mod 8) \<or> n < 8 * Suc k \<or> \<not> n < 8 * k" by auto
  ultimately show ?case
    using Suc by (auto simp: bit_or_iff not_less)
qed simp

lemma read_write_le64 [codec]: "read_le64 (write_le64 v @ rest) = v"
proof (rule bit_word_eqI)
  fix n assume n: "n < LENGTH(64)"
  then have i: "n div 8 < 8" by simp
  then have "(write_le64 v @ rest) ! (n div 8) = ucast (drop_bit (8 * (n div 8)) v)"
    by (simp add: write_le64_def nth_append)
  moreover have "bit (ucast (drop_bit (8 * (n div 8)) v) :: byte) (n mod 8) = bit v n"
    by (simp add: bit_ucast_iff bit_drop_bit_eq)
  ultimately show "bit (read_le64 (write_le64 v @ rest)) n = bit v n"
    using n unfolding read_le64_def bit_read_le by simp
qed

lemma length_write_le64 [simp]: "length (write_le64 v) = 8"
  by (simp add: write_le64_def)

lemma length_gost_header [simp]: "length (gost_header c n) = 18"
  by (simp add: gost_header_def gost_magic_def)

lemma length_gost_clear [simp]: "length (gost_clear iv) = length iv"
  by (simp add: gost_clear_def Let_def)

section \<open>Properties of the GOST container\<close>

text \<open>What the library promises of MGM: the ciphertext has the size of the plaintext, the tag the
  size of a block, and decryption with the same key, header and nonce inverts encryption.\<close>

definition mgm_law :: "('z) crypto_env_scheme \<Rightarrow> bool" where
  "mgm_law env \<longleftrightarrow> (\<forall>c key hdr plain iv ct mac. ak_encrypt_mgm env c key hdr plain iv = Some (ct, mac) \<longrightarrow>
     length ct = length plain \<and> length mac = gost_block c
     \<and> ak_decrypt_mgm env c key hdr ct iv mac = Some plain)"

lemma gost_encryptE:
  assumes "gost_native_encrypt env c plain rng = (Inr r, rng')"
  obtains key nonce ct mac where
    "gost_id c \<noteq> 0" "length plain \<le> gost_max_size" "ak_init env" "ak_setup env c key"
    "ak_encrypt_mgm env c key (gost_header c (length plain)) plain (gost_clear nonce) = Some (ct, mac)"
    "length key = 32" "length nonce = gost_block c"
    "r = \<lparr>r_data = gost_header c (length plain) @ gost_clear nonce @ ct @ mac, r_key = key, r_iv = [], r_tag = []\<rparr>"
proof -
  have g: "gost_id c \<noteq> 0" "length plain \<le> gost_max_size" "ak_init env"
    using assms by (auto simp: gost_native_encrypt_def split: if_splits)
  obtain key rng1 where k: "rand_bytes 32 rng = (Some key, rng1)"
    using assms g by (auto simp: gost_native_encrypt_def split: prod.splits option.splits)
  obtain nonce rng2 where n: "rand_bytes (gost_block c) rng1 = (Some nonce, rng2)"
    using assms g k by (auto simp: gost_native_encrypt_def split: prod.splits option.splits)
  have s: "ak_setup env c key"
    using assms g k n by (auto simp: gost_native_encrypt_def Let_def split: if_splits)
  obtain ct mac where m:
    "ak_encrypt_mgm env c key (gost_header c (length plain)) plain (gost_clear nonce) = Some (ct, mac)"
    using assms g k n s by (auto simp: gost_native_encrypt_def Let_def split: prod.splits option.splits)
  have "r = \<lparr>r_data = gost_header c (length plain) @ gost_clear nonce @ ct @ mac, r_key = key, r_iv = [], r_tag = []\<rparr>"
    using assms g k n s m by (simp add: gost_native_encrypt_def)
  with g s m rand_bytes_length [OF k] rand_bytes_length [OF n] that show thesis
    by blast
qed

lemma gost_roundtrip:
  assumes law: "mgm_law env" and enc: "gost_native_encrypt env c plain rng = (Inr r, rng')"
  shows "gost_native_decrypt env c (r_data r) (r_key r) = Inr \<lparr>r_data = plain, r_key = [], r_iv = [], r_tag = []\<rparr>"
proof -
  obtain key nonce ct mac where e:
    "gost_id c \<noteq> 0" "length plain \<le> gost_max_size" "ak_init env" "ak_setup env c key"
    "ak_encrypt_mgm env c key (gost_header c (length plain)) plain (gost_clear nonce) = Some (ct, mac)"
    "length key = 32" "length nonce = gost_block c"
    "r = \<lparr>r_data = gost_header c (length plain) @ gost_clear nonce @ ct @ mac, r_key = key, r_iv = [], r_tag = []\<rparr>"
    using enc by (rule gost_encryptE)
  have l: "length ct = length plain" "length mac = gost_block c"
    "ak_decrypt_mgm env c key (gost_header c (length plain)) ct (gost_clear nonce) mac = Some plain"
    using law e(5) unfolding mgm_law_def by blast+
  have n: "unat (word_of_nat (length plain) :: u64) = length plain"
    using e(2) by (simp add: unat_of_nat gost_max_size_def)
  have d: "drop 10 (gost_header c m) = write_le64 (word_of_nat m)"
    "take 8 (gost_header c m) = gost_magic" "unat (gost_header c m ! 8) = gost_id c"
    "unat (gost_header c m ! 9) = gost_block c" for m
    by (auto simp: gost_header_def gost_magic_def nth_append gost_id_def gost_block_def unat_of_nat)
  show ?thesis
    using e l n by (simp add: gost_native_decrypt_def d nth_append read_write_le64 Let_def gost_header_size_def)
qed

text \<open>Decryption never reads outside of the frame: the sizes are checked before any slice is taken.\<close>

lemma gost_decrypt_sizes:
  assumes "gost_native_decrypt env c frame key = Inr r"
  shows "length key = 32 \<and> take 8 frame = gost_magic
    \<and> length frame = gost_header_size + 2 * gost_block c + unat (read_le64 (drop 10 frame))
    \<and> unat (read_le64 (drop 10 frame)) \<le> gost_max_size"
  using assms unfolding gost_native_decrypt_def Let_def
  by (simp split: if_splits)

lemma gost_decrypt_authentic:
  assumes "gost_native_decrypt env c frame key = Inr r"
  shows "ak_decrypt_mgm env c key (take 18 frame)
          (take (length frame - 18 - 2 * gost_block c) (drop (18 + gost_block c) frame))
          (take (gost_block c) (drop 18 frame))
          (drop (length frame - gost_block c) frame) = Some (r_data r)"
proof -
  define n where "n = unat (read_le64 (drop 10 frame))"
  have len: "length frame = 18 + 2 * gost_block c + n"
    using gost_decrypt_sizes [OF assms] unfolding n_def gost_header_size_def by (elim conjE)
  have "(case ak_decrypt_mgm env c key (take 18 frame) (take n (drop (gost_block c) (drop 18 frame)))
      (take (gost_block c) (drop 18 frame)) (take (gost_block c) (drop (gost_block c + n) (drop 18 frame))) of
        None \<Rightarrow> Inl gost_fail | Some plain \<Rightarrow> Inr \<lparr>r_data = plain, r_key = [], r_iv = [], r_tag = []\<rparr>) = Inr r"
    using assms unfolding gost_native_decrypt_def Let_def gost_header_size_def n_def
    by (simp only: sum.distinct split: if_splits)
  then have d: "ak_decrypt_mgm env c key (take 18 frame) (take n (drop (gost_block c) (drop 18 frame)))
      (take (gost_block c) (drop 18 frame)) (take (gost_block c) (drop (gost_block c + n) (drop 18 frame))) = Some (r_data r)"
    by (cases "ak_decrypt_mgm env c key (take 18 frame) (take n (drop (gost_block c) (drop 18 frame)))
      (take (gost_block c) (drop 18 frame)) (take (gost_block c) (drop (gost_block c + n) (drop 18 frame)))") auto
  have n: "n = length frame - 18 - 2 * gost_block c" using len by linarith
  have o1: "gost_block c + n + 18 = length frame - gost_block c" using len by linarith
  have o2: "gost_block c + 18 = 18 + gost_block c" by (rule add.commute)
  have t: "take (gost_block c) (drop (length frame - gost_block c) frame) = drop (length frame - gost_block c) frame"
    using len by (intro take_all) simp
  show ?thesis
    using d unfolding drop_drop o1 o2 t unfolding n .
qed

section \<open>Properties of the engine\<close>

lemma recover_legacy_sound:
  assumes "gost_native_recover_legacy env frame key alg digest = Inr plain"
  shows "(\<exists>b. engine_hash env alg plain = Inr (b, digest)) \<and> digest \<noteq> [] \<and> length key = 32"
  using assms unfolding gost_native_recover_legacy_def
  by (auto split: if_splits option.splits sum.splits)

lemma encrypt_no_tag:
  "fst (evp_encrypt_cipher os c p key iv False ccm) = Inr (x, tag) \<Longrightarrow> tag = []"
  using encrypt_success [of os c p key iv False ccm x tag "snd (evp_encrypt_cipher os c p key iv False ccm)"]
  by (cases "evp_encrypt_cipher os c p key iv False ccm") auto

lemma engine_encrypt_sizes:
  assumes "engine_encrypt env c plain rng = (Inr r, rng')" "find_cipher_spec c = Some spec" "\<not> s_gost spec"
  shows "\<exists>evp. get_cipherbyname env (the (s_openssl_name spec)) = Some evp
    \<and> int (length (r_key r)) = e_key_length evp \<and> int (length (r_iv r)) = max 0 (e_iv_length evp)
    \<and> (\<not> s_aead spec \<longrightarrow> r_tag r = [])"
  using assms
  by (auto simp: engine_encrypt_def Let_def dest!: rand_bytes_length
      split: if_splits option.splits prod.splits sum.splits dest: encrypt_no_tag)

section \<open>Properties\<close>

text \<open>A concrete library for the witnesses: identity ciphers, a one-byte digest, a constant tag.\<close>

definition demo_crypto :: crypto_env where
  "demo_crypto =
     \<lparr>get_cipherbyname = (\<lambda>n. Some \<lparr>e_name = n, e_key_length = 16, e_iv_length = 12, e_mode = OTHER_MODE\<rparr>),
      evp_run = (\<lambda>c h. (1, case last h of Update d \<Rightarrow> d | GetTag n \<Rightarrow> replicate n 0 | _ \<Rightarrow> [])),
      openssl_errors = (\<lambda>c h. []), native_gost = True, has_digest = (\<lambda>n. True), md_ctx_new = True,
      md_init = (\<lambda>n. True), md_update = (\<lambda>n d. True), md_final = (\<lambda>n d. Some [word_of_nat (length d)]),
      ak_init = True, ak_setup = (\<lambda>c k. True),
      ak_encrypt_mgm = (\<lambda>c k h p iv. Some (p, replicate (gost_block c) 7)),
      ak_decrypt_mgm = (\<lambda>c k h d iv mac. if mac = replicate (gost_block c) 7 then Some d else None),
      ak_decrypt_cbc = (\<lambda>k d iv. Some d)\<rparr>"

lemma demo_values:
  "gost_clear (replicate 8 1) = replicate 8 1" "bytes_to_hex [14] = ''0e''" "bytes_to_hex [16] = ''10''"
  by code_simp+

lemma demo_container:
  "gost_native_encrypt demo_crypto MAGMA [8, 9] [Some (replicate 32 5), Some (replicate 8 1)] =
    (Inr \<lparr>r_data = gost_header MAGMA 2 @ replicate 8 1 @ [8, 9] @ replicate 8 7, r_key = replicate 32 5,
          r_iv = [], r_tag = []\<rparr>, [])"
  by (simp add: gost_native_encrypt_def demo_crypto_def gost_id_def gost_block_def gost_max_size_def Let_def
      demo_values numeral_2_eq_2)

lemma demo_mgm: "mgm_law demo_crypto"
  by (simp add: mgm_law_def demo_crypto_def)

text \<open>The calls an authenticated decryption makes before its last one, and the bytes of the data.\<close>

definition aead_calls :: "bool \<Rightarrow> byte list \<Rightarrow> byte list \<Rightarrow> byte list \<Rightarrow> byte list \<Rightarrow> evp_call list" where
  "aead_calls ccm data key iv tag = [CtxNew, InitCipher False]
     @ (if ccm then [SetIvLen (length iv), SetTag tag, InitKey False key (iv_ptr iv), UpdateLen (length data)]
        else [InitKey False key (iv_ptr iv), SetTag tag])
     @ (if data = [] then [] else [Update data])"

lemma aead_success:
  assumes "evp_decrypt_cipher os c data key iv tag True ccm = (Inr x, t)"
  shows "t = aead_calls ccm data key iv tag @ [Final, CtxFree]
    \<and> (\<forall>n \<in> {1..length (aead_calls ccm data key iv tag) + 1}. fst (evp_run os c (take n (aead_calls ccm data key iv tag @ [Final]))) = 1)
    \<and> x = (if data = [] then [] else snd (evp_run os c (aead_calls ccm data key iv tag))) @ snd (evp_run os c (aead_calls ccm data key iv tag @ [Final]))"
proof -
  have up: "{Suc 0..Suc n} = insert (Suc n) {Suc 0..n}" for n by auto
  show ?thesis
    using assms unfolding evp_decrypt_cipher_def evp_when_def aead_calls_def
    by (auto simp: padding_calls_def up elim!: step_success split: if_splits)
qed

text \<open>C34: Plaintext of an AEAD cipher is released only when a tag was given and OpenSSL accepted it for this
  very data: in one context, OpenSSL was handed the key, the IV and the tag, then exactly the given data and
  nothing else, then the final call; every one of these calls succeeded, among them the one in which OpenSSL
  compares the tag (the final call, for CCM the call on the data), and what is released is what the calls on the
  data and the final call wrote. Data without a byte is not handed over at all: there the acceptance rests on the
  final call, for CCM too (see the findings). Sizes are those the code's \<open>int\<close> can hold.\<close>

theorem aead_plaintext_verified:
  assumes "find_cipher_spec c = Some spec" "s_aead spec" "\<not> s_gost spec"
    "engine_decrypt env c data key iv tag = Inr r"
  shows "tag \<noteq> [] \<and> (\<exists>evp. get_cipherbyname env (the (s_openssl_name spec)) = Some evp
    \<and> (let before = [CtxNew, InitCipher False]
           @ (if s_ccm spec then [SetIvLen (length iv), SetTag tag, InitKey False key (iv_ptr iv), UpdateLen (length data)]
              else [InitKey False key (iv_ptr iv), SetTag tag])
           @ (if data = [] then [] else [Update data]) in
         snd (evp_decrypt_cipher env evp data key iv tag True (s_ccm spec)) = before @ [Final, CtxFree]
         \<and> (\<forall>n \<in> {1..length before + 1}. fst (evp_run env evp (take n (before @ [Final]))) = 1)
         \<and> r_data r = (if data = [] then [] else snd (evp_run env evp before)) @ snd (evp_run env evp (before @ [Final]))))"
proof -
  obtain evp x where e: "tag \<noteq> []" "get_cipherbyname env (the (s_openssl_name spec)) = Some evp"
    "fst (evp_decrypt_cipher env evp data key iv tag True (s_ccm spec)) = Inr x" "r_data r = x"
    using assms by (auto simp: engine_decrypt_def split: if_splits option.splits sum.splits)
  then have "evp_decrypt_cipher env evp data key iv tag True (s_ccm spec)
      = (Inr x, snd (evp_decrypt_cipher env evp data key iv tag True (s_ccm spec)))"
    by (metis prod.collapse)
  from aead_success [OF this] e show ?thesis unfolding aead_calls_def Let_def by blast
qed

theorem aead_plaintext_verified_witness:
  "\<exists>evp. get_cipherbyname demo_crypto ''chacha20-poly1305'' = Some evp
    \<and> fst (evp_run demo_crypto evp [CtxNew, InitCipher False, InitKey False [3] (Some [4]), SetTag [5], Update [1, 2], Final]) = 1"
proof -
  let ?s = "mk_spec CHACHA20_POLY1305 ''chacha20-poly1305'' (Some ''chacha20-poly1305'') False True False"
  have s: "find_cipher_spec CHACHA20_POLY1305 = Some ?s" by code_simp
  have d: "engine_decrypt demo_crypto CHACHA20_POLY1305 [1, 2] [3] [4] [5] = Inr \<lparr>r_data = [1, 2], r_key = [], r_iv = [], r_tag = []\<rparr>"
    by (simp add: engine_decrypt_def s demo_crypto_def evp_decrypt_cipher_def evp_step_def evp_when_def
        padding_calls_def Let_def)
  from aead_plaintext_verified [OF s _ _ d] obtain evp where e: "get_cipherbyname demo_crypto ''chacha20-poly1305'' = Some evp"
    "\<forall>n \<in> {1..length [CtxNew, InitCipher False, InitKey False [3] (Some [4]), SetTag [5], Update [1, 2]] + 1}.
       fst (evp_run demo_crypto evp (take n ([CtxNew, InitCipher False, InitKey False [3] (Some [4]), SetTag [5], Update [1, 2]] @ [Final]))) = 1"
    unfolding Let_def by (simp only: iv_ptr_def) (force simp del: ball_simps)
  from bspec [OF e(2), of 6] e(1) show ?thesis by auto
qed

text \<open>A GOST container made by the server decrypts with the returned key to the file it was
  made from, with both block ciphers and every size up to the limit, given that libakrypt's MGM
  decryption inverts its encryption.\<close>

theorem gost_container_roundtrip:
  assumes "mgm_law env" "gost_native_encrypt env c plain rng = (Inr r, rng')"
  shows "gost_native_decrypt env c (r_data r) (r_key r) = Inr \<lparr>r_data = plain, r_key = [], r_iv = [], r_tag = []\<rparr>"
  using assms by (rule gost_roundtrip)

theorem gost_container_roundtrip_witness:
  "gost_native_decrypt demo_crypto MAGMA
     (gost_header MAGMA 2 @ replicate 8 1 @ [8, 9] @ replicate 8 7) (replicate 32 5)
   = Inr \<lparr>r_data = [8, 9], r_key = [], r_iv = [], r_tag = []\<rparr>"
  using gost_container_roundtrip [OF demo_mgm demo_container] by simp

text \<open>A container is accepted only when the key has 32 bytes, the magic matches and the size
  field agrees with the length of the frame, and then exactly the frame's header, ciphertext, nonce
  and tag go to the authenticated decryption: no slice reaches outside of the frame, and no
  plaintext comes out that libakrypt did not authenticate.\<close>

theorem gost_container_checked:
  assumes "gost_native_decrypt env c frame key = Inr r"
  shows "length key = 32 \<and> take 8 frame = gost_magic
    \<and> length frame = gost_header_size + 2 * gost_block c + unat (read_le64 (drop 10 frame))
    \<and> ak_decrypt_mgm env c key (take 18 frame)
          (take (length frame - 18 - 2 * gost_block c) (drop (18 + gost_block c) frame))
          (take (gost_block c) (drop 18 frame))
          (drop (length frame - gost_block c) frame) = Some (r_data r)"
  using gost_decrypt_sizes [OF assms] gost_decrypt_authentic [OF assms] by simp

theorem gost_container_checked_witness:
  "ak_decrypt_mgm demo_crypto MAGMA (replicate 32 5) (gost_header MAGMA 2) [8, 9] (replicate 8 1) (replicate 8 7)
     = Some [8, 9]"
  using gost_container_checked [OF gost_roundtrip [OF demo_mgm demo_container]] by (simp add: gost_block_def)

text \<open>The recovery of a file of the historical format returns a text only when its digest is the
  trusted one, which must not be empty: a guess at the padding is never released unverified.\<close>

theorem legacy_recovery_verified:
  assumes "gost_native_recover_legacy env frame key alg digest = Inr plain"
  shows "(\<exists>b. engine_hash env alg plain = Inr (b, digest)) \<and> digest \<noteq> [] \<and> length key = 32"
  using assms by (rule recover_legacy_sound)

theorem legacy_recovery_verified_witness:
  "\<exists>b. engine_hash demo_crypto SHA256 (replicate 14 9) = Inr (b, ''0e'')"
proof -
  have "gost_native_recover_legacy demo_crypto (replicate 16 0 @ replicate 14 9 @ [2, 2]) (replicate 32 0) SHA256 ''0e''
      = Inr (replicate 14 9)"
    by (simp add: gost_native_recover_legacy_def demo_crypto_def legacy_unpad_def engine_hash_def gost_max_size_def
        demo_values Let_def)
  from legacy_recovery_verified [OF this] show ?thesis by simp
qed

end
