(* ===== verification/ConfigFile.thy ===== *)
theory ConfigFile
  imports Prelude
begin

text \<open>
  The configuration file reader (common/src/config.cpp): \<open>Config::load\<close> reads lines
  \<open>key=value\<close>, \<open>get\<close>, \<open>get_int\<close> and \<open>get_bool\<close> look a key up with a default. The map
  \<open>values_\<close> is an association list. A file that cannot be opened is \<open>None\<close>.
\<close>

type_synonym config = "(string \<times> string) list"

definition config_line :: "string \<Rightarrow> (string \<times> string) option" where
  "config_line raw =
     (let line = trim raw in
      if line = [] \<or> hd line = CHR ''#'' then None
      else case cut (CHR ''='') line of
          None \<Rightarrow> None
        | Some (k, v) \<Rightarrow> Some (trim k, trim v))"

definition config_load :: "string option \<Rightarrow> bool \<times> config" where
  "config_load file = (case file of
       None \<Rightarrow> (False, [])
     | Some text \<Rightarrow>
         (True, fold (\<lambda>line values. case config_line line of
                          None \<Rightarrow> values
                        | Some (k, v) \<Rightarrow> AList.update k v values)
                  (getlines (CHR 0x0A) text) []))"

definition config_get :: "config \<Rightarrow> string \<Rightarrow> string \<Rightarrow> string" where
  "config_get c key def = alookup c key def"

definition config_get_int :: "config \<Rightarrow> string \<Rightarrow> int \<Rightarrow> int" where
  "config_get_int c key def = (case map_of c key of
       None \<Rightarrow> def
     | Some v \<Rightarrow> (case stoi v of None \<Rightarrow> def | Some i \<Rightarrow> i))"

definition config_get_bool :: "config \<Rightarrow> string \<Rightarrow> bool \<Rightarrow> bool" where
  "config_get_bool c key def = (case map_of c key of
       None \<Rightarrow> def
     | Some w \<Rightarrow>
         let v = map to_lower w in
         if v = ''1'' \<or> v = ''true'' \<or> v = ''yes'' then True
         else if v = ''0'' \<or> v = ''false'' \<or> v = ''no'' then False
         else def)"

section \<open>The file a map of settings is written as\<close>

text \<open>A setting the format can carry: its key and its value are trimmed and hold no line end,
  the key no equals sign, and the line is neither empty nor a comment.\<close>

definition setting_ok :: "string \<times> string \<Rightarrow> bool" where
  "setting_ok kv = (case kv of (k, v) \<Rightarrow>
     k \<noteq> [] \<and> trimmed k \<and> trimmed v \<and> CHR ''='' \<notin> set k
     \<and> hd k \<noteq> CHR ''#'' \<and> CHR 0x0A \<notin> set k \<and> CHR 0x0A \<notin> set v)"

definition setting_line :: "string \<times> string \<Rightarrow> string" where
  "setting_line kv = fst kv @ ''='' @ snd kv"

definition config_text :: "config \<Rightarrow> string" where
  "config_text c = concat (map (\<lambda>kv. setting_line kv @ [CHR 0x0A]) c)"

lemma config_line_setting:
  assumes "setting_ok (k, v)" shows "config_line (setting_line (k, v)) = Some (k, v)"
proof -
  have "\<not> is_ws (CHR ''='')" by (simp add: is_ws_def)
  then have "trimmed (k @ CHR ''='' # v)"
    using assms by (auto simp: trimmed_def setting_ok_def)
  then have "trim (k @ CHR ''='' # v) = k @ CHR ''='' # v"
    by (rule trim_trimmed)
  moreover have "trim k = k" "trim v = v"
    using assms by (auto simp: setting_ok_def intro: trim_trimmed)
  ultimately show ?thesis
    using assms by (simp add: config_line_def setting_line_def setting_ok_def cut_append)
qed

lemma config_text_load:
  assumes "\<forall>kv \<in> set c. setting_ok kv"
  shows "config_load (Some (config_text c)) = (True, store_all c [])"
proof -
  have "getlines (CHR 0x0A) (config_text c) = map setting_line c"
    using assms getlines_concat [of "map setting_line c" "CHR 0x0A" "[]"]
    by (fastforce simp: config_text_def setting_line_def setting_ok_def comp_def)
  moreover have "fold (\<lambda>line values. case config_line line of
        None \<Rightarrow> values | Some (k, v) \<Rightarrow> AList.update k v values) (map setting_line c) m = store_all c m" for m
    using assms by (induction c arbitrary: m) (auto simp: store_all_def config_line_setting)
  ultimately show ?thesis by (simp add: config_load_def)
qed

lemma config_load_map:
  assumes "\<forall>kv \<in> set c. setting_ok kv" "dkeys c"
  shows "map_of (snd (config_load (Some (config_text c)))) = map_of c"
  using assms by (simp add: config_text_load map_of_store_all)

lemma config_line_trimmed:
  "config_line l = Some (k, v) \<Longrightarrow> trimmed k \<and> trimmed v"
  by (auto simp: config_line_def Let_def trimmed_trim split: if_splits option.splits)

text \<open>Whatever the file holds, the loaded keys are distinct and every key and value is trimmed.\<close>

lemma config_load_inv:
  "dkeys (snd (config_load file)) \<and> (\<forall>(k, v) \<in> set (snd (config_load file)). trimmed k \<and> trimmed v)"
proof -
  let ?step = "\<lambda>line values. case config_line line of
      None \<Rightarrow> values | Some (k, v) \<Rightarrow> AList.update k v values"
  have "dkeys m \<Longrightarrow> (\<forall>(k, v) \<in> set m. trimmed k \<and> trimmed v) \<Longrightarrow>
      dkeys (fold ?step ls m) \<and> (\<forall>(k, v) \<in> set (fold ?step ls m). trimmed k \<and> trimmed v)" for ls m
  proof (induction ls arbitrary: m)
    case (Cons l ls)
    show ?case
    proof (cases "config_line l")
      case None
      with Cons show ?thesis by simp
    next
      case (Some p)
      obtain k v where p: "p = (k, v)" by (cases p)
      have "set (AList.update k v m) \<subseteq> insert (k, v) (set m)"
        by (induction m) (auto split: if_splits)
      then have "\<forall>(k, v) \<in> set (AList.update k v m). trimmed k \<and> trimmed v"
        using Cons.prems config_line_trimmed [OF Some [unfolded p]] by fastforce
      with Cons.IH [OF dkeys_update [OF Cons.prems(1), of k v]] Some p show ?thesis by simp
    qed
  qed simp
  from this [of "[]"] show ?thesis
    by (auto simp: config_load_def split: option.splits)
qed

section \<open>Properties\<close>

text \<open>Whatever the text of the configuration file, the loaded settings have distinct keys, and
  no key and no value keeps white space at either end.\<close>

theorem config_entries_clean:
  "distinct (map fst (snd (config_load file)))
   \<and> list_all (\<lambda>(k, v). trimmed k \<and> trimmed v) (snd (config_load file))"
  using config_load_inv by (auto simp: dkeys_def list_all_iff)

end
