(* ===== verification/ServerState.thy ===== *)
theory ServerState
  imports Monitor Users Protocol CryptoEngine ConfigFile
begin

text \<open>
  The state of the server (\<open>ServerContext\<close> in server/src/main.cpp) together with one client
  connection, and the small routines every handler uses: \<open>random_hex\<close>, \<open>read_exact\<close>,
  \<open>discard_payload\<close>, \<open>write_all\<close>, \<open>send_error\<close>, \<open>send_payload\<close>.

  \<open>srv\<close> extends the effects of \<open>io\<close>, so the operations of the audit service and of the monitor
  act on it directly. A session runs from its accept to its last reply; the mutexes, which
  serialise the sections of different sessions, are not modelled.

  The connection is the list of bytes the peer still sends (\<open>c_in\<close>), the values the successive
  calls of \<open>TlsStream::write\<close> return (\<open>c_rets\<close>), and a trace of what was written: for each
  header and each block of data, how many of its bytes the stream took.
\<close>

record binding_record =
  cb_allowed :: bool
  cb_first_seen :: int
  cb_last_seen :: int
  cb_label :: string

datatype out_event = Out_header header nat | Out_data "byte list" nat

record srv = io +
  s_config :: config
  s_users :: users
  s_users_db_path :: path
  s_keys_dir :: path
  s_hashes_dir :: path
  s_admin_token :: string
  s_binding_db_path :: path
  s_monitor :: monitor
  s_binding_enabled :: bool
  s_bindings :: "(string \<times> binding_record) list"
  s_max_header_bytes :: nat
  s_max_file_bytes :: nat
  s_rng :: rng
  c_in :: "byte list"
  c_rets :: "int list"
  c_trace :: "out_event list"

text \<open>What the server takes from its libraries: OpenSSL and libakrypt, PBKDF2, the C library's
  local time, and whether the renames of the user database succeed.\<close>

record env =
  e_crypto :: crypto_env
  e_kdf :: kdf
  e_monitor :: monitor_env
  e_renamed :: "nat \<Rightarrow> bool"

text \<open>\<open>fs::path(dir) / name\<close>: an absolute right-hand side replaces the left one.\<close>

definition path_join :: "path \<Rightarrow> string \<Rightarrow> path" where
  "path_join dir name =
     (if name \<noteq> [] \<and> hd name = CHR ''/'' then name
      else if dir = [] then name
      else if last dir = CHR ''/'' then dir @ name
      else dir @ ''/'' @ name)"

text \<open>\<open>random_hex\<close> does not look at the result of \<open>RAND_bytes\<close>: after a failure the buffer still
  holds its initial zeros.\<close>

definition random_hex :: "nat \<Rightarrow> srv \<Rightarrow> string \<times> srv" where
  "random_hex n s = (case rand_bytes n (s_rng s) of
       (r, rng) \<Rightarrow> (bytes_to_hex (case r of None \<Rightarrow> replicate n 0 | Some data \<Rightarrow> data), s\<lparr>s_rng := rng\<rparr>))"

text \<open>Reading: the bytes come in pieces of the stream's choice, up to the size asked for.\<close>

definition read_exact :: "nat \<Rightarrow> srv \<Rightarrow> byte list option \<times> srv" where
  "read_exact n s =
     (if length (c_in s) < n then (None, s\<lparr>c_in := []\<rparr>)
      else (Some (take n (c_in s)), s\<lparr>c_in := drop n (c_in s)\<rparr>))"

definition discard_payload :: "nat \<Rightarrow> srv \<Rightarrow> srv" where
  "discard_payload n s = (if n = 0 then s else snd (read_exact n s))"

definition send_header :: "header \<Rightarrow> srv \<Rightarrow> bool \<times> srv" where
  "send_header h s = (case write_header (c_rets s) h of
       (ok, out, rs) \<Rightarrow> (ok, s\<lparr>c_rets := rs, c_trace := c_trace s @ [Out_header h (length out)]\<rparr>))"

definition write_all :: "byte list \<Rightarrow> srv \<Rightarrow> bool \<times> srv" where
  "write_all data s = (case write_loop (c_rets s) data of
       (ok, out, rs) \<Rightarrow> (ok, s\<lparr>c_rets := rs, c_trace := c_trace s @ [Out_data data (length out)]\<rparr>))"

definition error_header :: "string \<Rightarrow> header" where
  "error_header message = hd_set ''message'' message (hd_set ''status'' ''error'' [])"

definition send_error :: "string \<Rightarrow> srv \<Rightarrow> srv" where
  "send_error message s = snd (send_header (error_header message) s)"

definition send_payload :: "header \<Rightarrow> string \<Rightarrow> srv \<Rightarrow> srv" where
  "send_payload h payload s = (case send_header h s of
       (ok, s) \<Rightarrow> if \<not> ok \<or> payload = [] then s else snd (write_all (bytes_of payload) s))"

text \<open>\<open>{status: ok, message: m}\<close>, the reply of the operations that return no data.\<close>

definition send_ok :: "string \<Rightarrow> srv \<Rightarrow> srv" where
  "send_ok message s = snd (send_header (hd_set ''message'' message (hd_set ''status'' ''ok'' [])) s)"

section \<open>What the output routines leave alone\<close>

text \<open>Everything but the connection.\<close>

definition same_state :: "srv \<Rightarrow> srv \<Rightarrow> bool" where
  "same_state s s' \<longleftrightarrow> s' = s\<lparr>c_in := c_in s', c_rets := c_rets s', c_trace := c_trace s'\<rparr>"

lemma same_state_refl [simp]: "same_state s s"
  by (simp add: same_state_def)

lemma same_state_trans: "same_state a b \<Longrightarrow> same_state b c \<Longrightarrow> same_state a c"
  by (cases a; cases b; cases c) (simp add: same_state_def)

lemma send_header_state [effect]: "same_state s (snd (send_header h s))"
  by (simp add: send_header_def same_state_def split: prod.split)

lemma write_all_state [effect]: "same_state s (snd (write_all d s))"
  by (simp add: write_all_def same_state_def split: prod.split)

lemma send_error_state [effect]: "same_state s (send_error m s)"
  by (simp add: send_error_def send_header_state)

lemma discard_state [effect]: "same_state s (discard_payload n s)"
  by (simp add: discard_payload_def read_exact_def same_state_def)

lemma send_payload_state [effect]: "same_state s (send_payload h p s)"
  using send_header_state [of s h] write_all_state
  by (auto simp: send_payload_def split: prod.split intro: same_state_trans)

lemma send_header_trace:
  "c_trace (snd (send_header h s)) = c_trace s @ [Out_header h (length (fst (snd (write_header (c_rets s) h))))]"
  by (simp add: send_header_def split: prod.split)

lemma send_error_trace:
  "\<exists>n. c_trace (send_error m s) = c_trace s @ [Out_header (error_header m) n]"
  by (simp add: send_error_def send_header_trace)

lemma write_all_trace:
  "c_trace (snd (write_all d s)) = c_trace s @ [Out_data d (length (fst (snd (write_loop (c_rets s) d))))]"
  by (simp add: write_all_def split: prod.split)

lemma discard_trace [simp]: "c_trace (discard_payload n s) = c_trace s"
  by (simp add: discard_payload_def read_exact_def)

end
