(* ===== verification/Binding.thy ===== *)
theory Binding
  imports ServerState
begin

text \<open>
  The client binding policy (server/src/main.cpp): the registry of client identifiers, the
  decision whether a client may use the server, the policy file, and
  \<open>enforce_client_binding\<close>, which every client operation calls first.
\<close>

definition sanitize_label :: "string \<Rightarrow> string" where
  "sanitize_label label = map (\<lambda>c. if c = CHR ''|'' then CHR ''/'' else c) label"

definition bit_text :: "bool \<Rightarrow> string" where
  "bit_text b = (if b then ''1'' else ''0'')"

definition binding_line :: "string \<times> binding_record \<Rightarrow> string" where
  "binding_line kv = (case kv of (cid, r) \<Rightarrow>
     ''client|'' @ cid @ ''|'' @ bit_text (cb_allowed r) @ ''|'' @ show_int (cb_first_seen r) @ ''|''
       @ show_int (cb_last_seen r) @ ''|'' @ sanitize_label (cb_label r))"

definition binding_text :: "bool \<Rightarrow> (string \<times> binding_record) list \<Rightarrow> string" where
  "binding_text enabled bs =
     ''enabled='' @ bit_text enabled @ [CHR 0x0A] @ concat (map (\<lambda>kv. binding_line kv @ [CHR 0x0A]) bs)"

text \<open>The stream is not checked after it was opened.\<close>

definition save_binding_policy :: "srv \<Rightarrow> srv" where
  "save_binding_policy s =
     (if s_binding_db_path s = [] then s
      else snd (io_write_file (s_binding_db_path s)
                  (bytes_of (binding_text (s_binding_enabled s) (s_bindings s))) s))"

definition parse_binding :: "string \<Rightarrow> (string \<times> binding_record) option" where
  "parse_binding line =
     (let parts = getlines (CHR ''|'') line in
      if length parts < 6 then None
      else let (first, last) = (case (stoll (parts ! 3), stoll (parts ! 4)) of
                 (Some a, Some b) \<Rightarrow> (a, b) | _ \<Rightarrow> (0, 0))
           in Some (parts ! 1, \<lparr>cb_allowed = (parts ! 2 = ''1''), cb_first_seen = first,
                                cb_last_seen = last, cb_label = parts ! 5\<rparr>))"

definition binding_step ::
  "string \<Rightarrow> bool \<times> (string \<times> binding_record) list \<Rightarrow> bool \<times> (string \<times> binding_record) list" where
  "binding_step line st = (case st of (enabled, bs) \<Rightarrow>
     if line = [] \<or> hd line = CHR ''#'' then (enabled, bs)
     else if starts_with ''enabled='' line then (drop 8 line = ''1'', bs)
     else if \<not> starts_with ''client|'' line then (enabled, bs)
     else case parse_binding line of
         None \<Rightarrow> (enabled, bs)
       | Some (cid, r) \<Rightarrow> (enabled, AList.update cid r bs))"

definition binding_parse :: "string \<Rightarrow> bool \<times> (string \<times> binding_record) list" where
  "binding_parse text = fold binding_step (getlines (CHR 0x0A) text) (False, [])"

definition load_binding_policy :: "srv \<Rightarrow> srv" where
  "load_binding_policy s = (case io_fs s (s_binding_db_path s) of
       None \<Rightarrow> s\<lparr>s_bindings := [], s_binding_enabled := False\<rparr>
     | Some data \<Rightarrow> (case binding_parse (string_of data) of
         (enabled, bs) \<Rightarrow> s\<lparr>s_bindings := bs, s_binding_enabled := enabled\<rparr>))"

definition register_client :: "string \<Rightarrow> string \<Rightarrow> srv \<Rightarrow> srv" where
  "register_client client_id client_label s =
     (case now_epoch_sec s of (now, s) \<Rightarrow>
        (case map_of (s_bindings s) client_id of
           None \<Rightarrow>
             save_binding_policy (s\<lparr>s_bindings := AList.update client_id
               \<lparr>cb_allowed = (\<not> s_binding_enabled s), cb_first_seen = now, cb_last_seen = now,
                cb_label = sanitize_label client_label\<rparr> (s_bindings s)\<rparr>)
         | Some r \<Rightarrow>
             save_binding_policy (s\<lparr>s_bindings := AList.update client_id
               (r\<lparr>cb_last_seen := now,
                  cb_label := (if client_label = [] then cb_label r else sanitize_label client_label)\<rparr>)
               (s_bindings s)\<rparr>)))"

definition is_client_allowed :: "string \<Rightarrow> srv \<Rightarrow> bool" where
  "is_client_allowed client_id s =
     (if \<not> s_binding_enabled s then True
      else (case map_of (s_bindings s) client_id of None \<Rightarrow> False | Some r \<Rightarrow> cb_allowed r))"

definition request_client_id :: "header \<Rightarrow> string" where
  "request_client_id req = (let cid = hd_get req ''client_id'' [] in if cid = [] then ''unknown'' else cid)"

definition enforce_client_binding :: "header \<Rightarrow> string \<Rightarrow> string \<Rightarrow> srv \<Rightarrow> bool \<times> srv" where
  "enforce_client_binding req username op s =
     (let client_id = request_client_id req;
          client_host = hd_get req ''client_host'' ''unknown'';
          s = register_client client_id client_host s
      in if is_client_allowed client_id s then (True, s)
         else (False, send_error ''Client is not allowed by binding policy''
                 (io_alert ''client_binding_block'' username
                    (''op='' @ op @ '' client_id='' @ client_id @ '' host='' @ client_host) s)))"

text \<open>The administrator's two operations on the policy, without the reply.\<close>

definition set_binding :: "bool \<Rightarrow> srv \<Rightarrow> srv" where
  "set_binding en s = save_binding_policy (s\<lparr>s_binding_enabled := en\<rparr>)"

definition new_binding :: binding_record where
  "new_binding = \<lparr>cb_allowed = False, cb_first_seen = 0, cb_last_seen = 0, cb_label = []\<rparr>"

definition set_client_allowed :: "string \<Rightarrow> bool \<Rightarrow> srv \<Rightarrow> srv" where
  "set_client_allowed client_id allowed s =
     (let r = alookup (s_bindings s) client_id new_binding;
          (r, s) = (if cb_first_seen r = 0
             then (case now_epoch_sec s of (now, s) \<Rightarrow>
                     (r\<lparr>cb_first_seen := now, cb_last_seen := now, cb_label := ''manual''\<rparr>, s))
             else (r, s))
      in save_binding_policy (s\<lparr>s_bindings := AList.update client_id (r\<lparr>cb_allowed := allowed\<rparr>) (s_bindings s)\<rparr>))"

section \<open>The decision\<close>

lemma save_binding_keeps [effect]:
  "s_bindings (save_binding_policy s) = s_bindings s"
  "s_binding_enabled (save_binding_policy s) = s_binding_enabled s"
  "s_users (save_binding_policy s) = s_users s" "s_monitor (save_binding_policy s) = s_monitor s"
  "c_trace (save_binding_policy s) = c_trace s" "c_in (save_binding_policy s) = c_in s"
  "io_audit (save_binding_policy s) = io_audit s"
  by (auto simp: save_binding_policy_def io_write_file_def next_wout_def split: prod.split)

lemma register_allowed:
  "map_option cb_allowed (map_of (s_bindings (register_client c l s)) c)
     = Some (case map_of (s_bindings s) c of None \<Rightarrow> \<not> s_binding_enabled s | Some r \<Rightarrow> cb_allowed r)"
  by (auto simp: register_client_def now_epoch_sec_def save_binding_keeps split: option.splits)

lemma register_other:
  "k \<noteq> c \<Longrightarrow> map_of (s_bindings (register_client c l s)) k = map_of (s_bindings s) k"
  by (auto simp: register_client_def now_epoch_sec_def save_binding_keeps split: option.splits)

lemma register_keeps [effect]:
  "s_binding_enabled (register_client c l s) = s_binding_enabled s"
  "s_users (register_client c l s) = s_users s" "s_monitor (register_client c l s) = s_monitor s"
  "c_trace (register_client c l s) = c_trace s" "c_in (register_client c l s) = c_in s"
  by (auto simp: register_client_def now_epoch_sec_def save_binding_keeps split: option.splits)

text \<open>The decision the policy promises: a disabled policy lets everyone in, an enabled one only
  the clients that were already registered and allowed.\<close>

definition policy_allows :: "srv \<Rightarrow> string \<Rightarrow> bool" where
  "policy_allows s c \<longleftrightarrow> \<not> s_binding_enabled s
     \<or> (\<exists>r. map_of (s_bindings s) c = Some r \<and> cb_allowed r)"

lemma allowed_after_register: "is_client_allowed c (register_client c l s) = policy_allows s c"
  using register_allowed [of c l s]
  by (auto simp: is_client_allowed_def policy_allows_def register_keeps split: option.splits)

lemma enforce_decision:
  "fst (enforce_client_binding req u op s) = policy_allows s (request_client_id req)"
  by (simp add: enforce_client_binding_def Let_def allowed_after_register)

section \<open>Isolation of the clients\<close>

datatype binding_op = Register string | Set_allowed bool

fun apply_binding_op :: "string \<Rightarrow> binding_op \<Rightarrow> srv \<Rightarrow> srv" where
  "apply_binding_op c (Register label) s = register_client c label s"
| "apply_binding_op c (Set_allowed a) s = set_client_allowed c a s"

lemma apply_binding_op_other:
  "k \<noteq> c \<Longrightarrow> map_of (s_bindings (apply_binding_op c a s)) k = map_of (s_bindings s) k"
  by (cases a) (auto simp: register_other set_client_allowed_def Let_def now_epoch_sec_def save_binding_keeps
      split: if_splits)

interpretation bindings: per_name "\<lambda>s. map_of (s_bindings s)" apply_binding_op
  by unfold_locales (rule apply_binding_op_other)

section \<open>The policy file\<close>

definition binding_ok :: "string \<times> binding_record \<Rightarrow> bool" where
  "binding_ok kv = (case kv of (cid, r) \<Rightarrow> CHR ''|'' \<notin> set cid \<and> CHR 0x0A \<notin> set cid
     \<and> - (2 ^ 63) \<le> cb_first_seen r \<and> cb_first_seen r < 2 ^ 63
     \<and> - (2 ^ 63) \<le> cb_last_seen r \<and> cb_last_seen r < 2 ^ 63
     \<and> cb_label r \<noteq> [] \<and> CHR ''|'' \<notin> set (cb_label r) \<and> CHR 0x0A \<notin> set (cb_label r))"

lemma sanitize_free [simp]: "CHR ''|'' \<notin> set (sanitize_label l)"
  by (auto simp: sanitize_label_def)

lemma sanitize_clean: "CHR ''|'' \<notin> set l \<Longrightarrow> sanitize_label l = l"
  unfolding sanitize_label_def by (rule map_idI) auto

lemma parse_binding_line:
  assumes "binding_ok (cid, r)"
  shows "parse_binding (binding_line (cid, r)) = Some (cid, r)"
proof -
  have b: "CHR ''|'' \<notin> set (bit_text (cb_allowed r))" "(bit_text (cb_allowed r) = ''1'') = cb_allowed r"
    by (auto simp: bit_text_def)
  have n: "stoll (show_int (cb_first_seen r)) = Some (cb_first_seen r)"
    "stoll (show_int (cb_last_seen r)) = Some (cb_last_seen r)"
    using assms by (auto simp: binding_ok_def intro!: stoll_show_int)
  have "binding_line (cid, r) = ''client'' @ CHR ''|'' # cid @ CHR ''|'' # bit_text (cb_allowed r) @ CHR ''|''
      # show_int (cb_first_seen r) @ CHR ''|'' # show_int (cb_last_seen r) @ CHR ''|'' # cb_label r"
    using assms by (simp add: binding_line_def sanitize_clean binding_ok_def)
  moreover have "CHR ''|'' \<notin> set ''client''" by simp
  ultimately have "getlines (CHR ''|'') (binding_line (cid, r)) =
      [''client'', cid, bit_text (cb_allowed r), show_int (cb_first_seen r), show_int (cb_last_seen r), cb_label r]"
    using assms b by (simp only: getlines_line num_free getlines_last binding_ok_def prod.case not_False_eq_True)
  then show ?thesis
    using n b by (simp add: parse_binding_def Let_def)
qed

lemma binding_line_step:
  assumes "binding_ok (cid, r)"
  shows "binding_step (binding_line (cid, r)) (e, bs) = (e, AList.update cid r bs)"
proof -
  have "binding_line (cid, r) \<noteq> []" "hd (binding_line (cid, r)) \<noteq> CHR ''#''"
    "\<not> starts_with ''enabled='' (binding_line (cid, r))" "starts_with ''client|'' (binding_line (cid, r))"
    by (simp_all add: binding_line_def starts_with_def)
  then show ?thesis
    by (simp add: binding_step_def parse_binding_line [OF assms])
qed

lemma binding_text_parse:
  assumes "\<forall>kv \<in> set bs. binding_ok kv"
  shows "binding_parse (binding_text e bs) = (e, store_all bs [])"
proof -
  have nl: "CHR 0x0A \<notin> set (binding_line kv)" if "binding_ok kv" for kv
    using that by (cases kv) (auto simp: binding_line_def binding_ok_def bit_text_def sanitize_clean)
  have t: "binding_text e bs = concat (map (\<lambda>l. l @ [CHR 0x0A]) ((''enabled='' @ bit_text e) # map binding_line bs))"
    by (simp add: binding_text_def comp_def)
  have "getlines (CHR 0x0A) (binding_text e bs) = (''enabled='' @ bit_text e) # map binding_line bs"
    using getlines_concat [of "(''enabled='' @ bit_text e) # map binding_line bs" "CHR 0x0A" "[]"] assms nl
    unfolding t by (auto simp: bit_text_def)
  moreover have "binding_step (''enabled='' @ bit_text e) (False, []) = (e, [])"
    by (auto simp: binding_step_def starts_with_def bit_text_def)
  moreover have "fold binding_step (map binding_line bs) (e, m) = (e, store_all bs m)" for m
    using assms by (induction bs arbitrary: m) (auto simp: store_all_def binding_line_step)
  ultimately show ?thesis by (simp add: binding_parse_def)
qed

section \<open>Properties\<close>

text \<open>A request is let through exactly when the policy allows the client that is named in it,
  as the policy stood before the request: registering the client on the way in cannot make it
  allowed under an enabled policy, and never touches another client.\<close>

theorem binding_decision:
  "fst (enforce_client_binding req u op s) = policy_allows s (request_client_id req)
   \<and> map_of (s_bindings (snd (enforce_client_binding req u op s)))
      = (map_of (s_bindings s))(request_client_id req :=
          map_of (s_bindings (snd (enforce_client_binding req u op s))) (request_client_id req))"
proof -
  have m: "io.more a = io.more b \<Longrightarrow> s_bindings a = s_bindings (b :: srv)" for a b
    by (cases a; cases b; simp)
  have e: "s_bindings (send_error msg t) = s_bindings t" for msg t
    using send_error_state [of t msg] by (cases t; cases "send_error msg t") (simp add: same_state_def)
  have "s_bindings (snd (enforce_client_binding req u op s))
      = s_bindings (register_client (request_client_id req) (hd_get req ''client_host'' ''unknown'') s)"
    by (simp add: enforce_client_binding_def Let_def e request_client_id_def m [OF effects_more(2)])
  then show ?thesis
    by (auto simp: enforce_decision fun_eq_iff register_other)
qed

text \<open>C35: A client identifier with a vertical bar forges an entry of the policy file: the line
  saved for the client \<open>c|1|0|0|x\<close>, blocked or not, is read back as a record that allows \<open>c\<close>. The
  identifier comes from the request, before any authentication.\<close>

theorem client_id_forges_policy:
  assumes "CHR ''|'' \<notin> set c"
  shows "parse_binding (binding_line (c @ ''|1|0|0|x'', r)) =
    Some (c, \<lparr>cb_allowed = True, cb_first_seen = 0, cb_last_seen = 0, cb_label = ''x''\<rparr>)"
proof -
  define tail where "tail = bit_text (cb_allowed r) @ ''|'' @ show_int (cb_first_seen r) @ ''|''
      @ show_int (cb_last_seen r) @ ''|'' @ sanitize_label (cb_label r)"
  have line: "binding_line (c @ ''|1|0|0|x'', r) = ''client'' @ CHR ''|'' # c @ CHR ''|'' # ''1'' @ CHR ''|'' #
      ''0'' @ CHR ''|'' # ''0'' @ CHR ''|'' # ''x'' @ CHR ''|'' # tail"
    by (simp add: binding_line_def tail_def)
  have n: "CHR ''|'' \<notin> set ''client''" "CHR ''|'' \<notin> set ''1''" "CHR ''|'' \<notin> set ''0''" "CHR ''|'' \<notin> set ''x''"
    by simp_all
  have z: "stoll ''0'' = Some 0" by code_simp
  have "getlines (CHR ''|'') (binding_line (c @ ''|1|0|0|x'', r)) =
      ''client'' # c # ''1'' # ''0'' # ''0'' # ''x'' # getlines (CHR ''|'') tail"
    unfolding line by (simp only: getlines_line [OF n(1)] getlines_line [OF assms] getlines_line [OF n(2)]
        getlines_line [OF n(3)] getlines_line [OF n(4)])
  then show ?thesis
    by (simp add: parse_binding_def Let_def z)
qed

theorem client_id_forges_policy_witness:
  "parse_binding (binding_line (''boss|1|0|0|x'', new_binding)) =
    Some (''boss'', \<lparr>cb_allowed = True, cb_first_seen = 0, cb_last_seen = 0, cb_label = ''x''\<rparr>)"
  using client_id_forges_policy [of "''boss''" new_binding] by simp

end
