(* ===== verification/Handlers.thy ===== *)
theory Handlers
  imports Binding
begin

text \<open>
  The handlers of the client operations (server/src/main.cpp): \<open>handle_encrypt\<close>,
  \<open>handle_decrypt\<close>, \<open>handle_change_password\<close> and \<open>handle_auth_check\<close>, with every guard in
  the order of the code. A handler maps the state to the state; its replies are in the trace.

  Overwriting the local buffers with zeros (\<open>secure_zero\<close>, \<open>scrub_sensitive\<close>) has no effect
  on the state and is left out; the sizes logged after it are those of the buffers.
\<close>

section \<open>Pieces the handlers share\<close>

definition mon_success :: "env \<Rightarrow> string \<Rightarrow> srv \<Rightarrow> srv" where
  "mon_success env u s = (case record_login_success (e_monitor env) u (s_monitor s) s of
     (m, s) \<Rightarrow> s\<lparr>s_monitor := m\<rparr>)"

definition mon_failure :: "string \<Rightarrow> srv \<Rightarrow> srv" where
  "mon_failure u s = (case record_login_failure u (s_monitor s) s of (m, s) \<Rightarrow> s\<lparr>s_monitor := m\<rparr>)"

definition mon_file_op :: "env \<Rightarrow> string \<Rightarrow> string \<Rightarrow> nat \<Rightarrow> srv \<Rightarrow> srv" where
  "mon_file_op env u op bytes s = (case record_file_op (e_monitor env) u op 1 bytes (s_monitor s) s of
     (m, s) \<Rightarrow> s\<lparr>s_monitor := m\<rparr>)"

text \<open>The reply to a locked account, after the payload (if the operation has one) was read.\<close>

definition refuse_locked :: "nat \<Rightarrow> string \<Rightarrow> string \<Rightarrow> int \<Rightarrow> srv \<Rightarrow> srv" where
  "refuse_locked payload_size what username remaining s =
     send_error (''Account locked. Try again in '' @ show_int remaining @ ''s'')
       (io_event ''auth_locked'' username (what @ '' remaining_sec='' @ show_int remaining)
          (discard_payload payload_size s))"

definition refuse_auth :: "string \<Rightarrow> string \<Rightarrow> srv \<Rightarrow> srv" where
  "refuse_auth what username s =
     send_error ''Authentication failed'' (io_event ''auth_failed'' username what (mon_failure username s))"

definition header_size :: "header \<Rightarrow> string \<Rightarrow> nat option" where
  "header_size req field = stoull (hd_get req field ''0'')"

section \<open>handle_encrypt\<close>

definition encrypt_reply ::
  "string \<Rightarrow> string \<Rightarrow> string \<Rightarrow> string \<Rightarrow> string \<Rightarrow> string \<Rightarrow> crypto_result \<Rightarrow> header" where
  "encrypt_reply cipher_str hash_str file_id hex key_id key_storage r =
     (let h0 = hd_set ''enc_size'' (show_nat (length (r_data r))) (hd_set ''hash_value'' hex
            (hd_set ''file_id'' file_id (hd_set ''hash'' hash_str (hd_set ''cipher'' cipher_str
              (hd_set ''status'' ''ok'' [])))));
          h1 = (if key_id \<noteq> [] then hd_set ''key_id'' key_id h0 else h0);
          h2 = (if key_storage = ''client'' then hd_set ''key'' (base64_encode (r_key r)) h1 else h1);
          h3 = (if r_iv r \<noteq> [] then hd_set ''iv'' (base64_encode (r_iv r)) h2 else h2)
      in if r_tag r \<noteq> [] then hd_set ''tag'' (base64_encode (r_tag r)) h3 else h3)"

text \<open>The last part: the key and the hash record are stored, the reply is sent, the operation is
  recorded. The result of writing the hash record is not looked at.\<close>

definition encrypt_finish ::
  "env \<Rightarrow> string \<Rightarrow> string \<Rightarrow> string \<Rightarrow> string \<Rightarrow> string \<Rightarrow> nat \<Rightarrow> string \<Rightarrow> crypto_result \<Rightarrow> string \<Rightarrow> srv \<Rightarrow> srv" where
  "encrypt_finish env username cipher_str hash_str key_storage file_name file_size hex r key_id s =
     (case random_hex 16 s of (file_id, s) \<Rightarrow>
      let s = snd (io_write_file (path_join (s_hashes_dir s) (file_id @ ''.hash''))
                     (bytes_of (hash_str @ '':'' @ hex @ '':'' @ file_name)) s)
      in case send_header (encrypt_reply cipher_str hash_str file_id hex key_id key_storage r) s of
           (False, s) \<Rightarrow> s
         | (True, s) \<Rightarrow>
             let s = snd (write_all (r_data r) s);
                 s = mon_file_op env username ''encrypt'' file_size s
             in io_event ''encrypt'' username
                  (''file='' @ file_name @ '' file_size='' @ show_nat file_size @ '' enc_size=''
                     @ show_nat (length (r_data r)) @ '' cipher='' @ cipher_str) s)"

text \<open>After the authentication: the algorithms, the payload, the digest, the encryption.\<close>

definition encrypt_body ::
  "env \<Rightarrow> string \<Rightarrow> string \<Rightarrow> string \<Rightarrow> string \<Rightarrow> string \<Rightarrow> nat \<Rightarrow> srv \<Rightarrow> srv" where
  "encrypt_body env username cipher_str hash_str key_storage file_name file_size s =
     (case cipher_from_string cipher_str of
        None \<Rightarrow> send_error ''Unknown cipher'' s
      | Some cipher \<Rightarrow> (case hash_from_string hash_str of
          None \<Rightarrow> send_error ''Unknown hash algorithm'' s
        | Some alg \<Rightarrow>
            if alg = STREEBOG
            then send_error ''Legacy streebog label is not supported for new encryption; select SHA-256'' s
            else (case read_exact file_size s of
                (None, s) \<Rightarrow> send_error ''Failed to read file'' s
              | (Some plaintext, s) \<Rightarrow> (case engine_hash (e_crypto env) alg plaintext of
                  Inl err \<Rightarrow> send_error (''Hash failed: '' @ err) s
                | Inr (_, hex) \<Rightarrow> (case engine_encrypt (e_crypto env) cipher plaintext (s_rng s) of
                    (Inl err, rng) \<Rightarrow> send_error (''Encrypt failed: '' @ err) (s\<lparr>s_rng := rng\<rparr>)
                  | (Inr r, rng) \<Rightarrow>
                      let s = s\<lparr>s_rng := rng\<rparr> in
                      if key_storage \<noteq> ''server'' \<and> key_storage \<noteq> ''client''
                      then send_error ''Invalid key_storage'' s
                      else if key_storage = ''server'' then
                        (case random_hex 16 s of (key_id, s) \<Rightarrow>
                         (case io_write_file (path_join (s_keys_dir s) (key_id @ ''.bin''))
                                 (key_blob (r_key r, r_iv r, r_tag r)) s of
                            (False, s) \<Rightarrow> send_error ''Failed to store key'' s
                          | (True, s) \<Rightarrow>
                              encrypt_finish env username cipher_str hash_str key_storage file_name
                                file_size hex r key_id s))
                      else encrypt_finish env username cipher_str hash_str key_storage file_name
                             file_size hex r [] s)))))"

definition handle_encrypt :: "env \<Rightarrow> header \<Rightarrow> srv \<Rightarrow> srv" where
  "handle_encrypt env req s =
     (let username = hd_get req ''username'' []; password = hd_get req ''password'' [];
          cipher_str = hd_get req ''cipher'' []; hash_str = hd_get req ''hash'' [];
          key_storage = hd_get req ''key_storage'' ''server''; file_name = hd_get req ''file_name'' []
      in case header_size req ''file_size'' of
           None \<Rightarrow> send_error ''Invalid file_size'' s
         | Some file_size \<Rightarrow>
             if file_size > s_max_file_bytes s then send_error ''File too large'' s
             else (case enforce_client_binding req username ''encrypt'' s of
                 (False, s) \<Rightarrow> discard_payload file_size s
               | (True, s) \<Rightarrow> (case is_locked username (s_monitor s) s of
                   (Some remaining, s) \<Rightarrow> refuse_locked file_size ''encrypt'' username remaining s
                 | (None, s) \<Rightarrow>
                     if \<not> verify_user (e_kdf env) (s_users s) username password
                     then refuse_auth ''encrypt'' username s
                     else if even (user_permissions (s_users s) username)
                     then send_error ''Encryption is not allowed for this account'' s
                     else let s = mon_success env username s in
                       (case is_locked username (s_monitor s) s of
                          (Some remaining, s) \<Rightarrow>
                            refuse_locked file_size ''encrypt post_login'' username remaining s
                        | (None, s) \<Rightarrow>
                            encrypt_body env username cipher_str hash_str key_storage file_name file_size s))))"

section \<open>handle_decrypt\<close>

text \<open>The key material of a request: from the key file when \<open>key_id\<close> is given, otherwise from the
  header fields. \<open>Inl\<close> is the error message.\<close>

definition request_key ::
  "header \<Rightarrow> srv \<Rightarrow> string + (byte list \<times> byte list \<times> byte list)" where
  "request_key req s =
     (let key_id = hd_get req ''key_id'' []; iv_b64 = hd_get req ''iv'' []; tag_b64 = hd_get req ''tag'' [] in
      if key_id \<noteq> [] then
        (case load_key (io_fs s) (path_join (s_keys_dir s) (key_id @ ''.bin'')) of
           None \<Rightarrow> Inl ''Key not found'' | Some k \<Rightarrow> Inr k)
      else (case base64_decode (hd_get req ''key'' []) of (key, ok) \<Rightarrow>
        if \<not> ok \<or> key = [] then Inl ''Invalid key''
        else (case (if iv_b64 = [] then ([], True) else base64_decode iv_b64) of (iv, ok) \<Rightarrow>
          if \<not> ok then Inl ''Invalid IV''
          else (case (if tag_b64 = [] then ([], True) else base64_decode tag_b64) of (tag, ok) \<Rightarrow>
            if \<not> ok then Inl ''Invalid tag'' else Inr (key, iv, tag)))))"

definition hash_path :: "string \<Rightarrow> srv \<Rightarrow> path" where
  "hash_path file_id s = path_join (s_hashes_dir s) (file_id @ ''.hash'')"

definition is_legacy_gost :: "cipher \<Rightarrow> byte list \<Rightarrow> bool" where
  "is_legacy_gost cipher ciphertext \<longleftrightarrow> (cipher = KUZNECHIK \<or> cipher = MAGMA)
     \<and> (length ciphertext < 8 \<or> take 8 ciphertext \<noteq> bytes_of ''ENGOST02'')"

text \<open>The decryption proper; \<open>Inl\<close> is the error message that is sent.\<close>

definition decrypt_data ::
  "env \<Rightarrow> cipher \<Rightarrow> string \<Rightarrow> byte list \<Rightarrow> byte list \<times> byte list \<times> byte list \<Rightarrow> srv \<Rightarrow> string + byte list" where
  "decrypt_data env cipher file_id ciphertext k s = (case k of (key, iv, tag) \<Rightarrow>
     if is_legacy_gost cipher ciphertext then
       (case (if file_id = [] then None else load_hash_record (io_fs s) (hash_path file_id s)) of
          None \<Rightarrow> Inl ''Legacy GOST requires the original trusted server hash record''
        | Some trusted \<Rightarrow> (case hash_from_string (h_alg trusted) of
            None \<Rightarrow> Inl ''Legacy GOST requires the original trusted server hash record''
          | Some alg \<Rightarrow>
              (case engine_recover_legacy_gost (e_crypto env) ciphertext key alg (h_hex trusted) of
                 Inl err \<Rightarrow> Inl (''Decrypt failed: '' @ err) | Inr plain \<Rightarrow> Inr plain)))
     else (case engine_decrypt (e_crypto env) cipher ciphertext key iv tag of
             Inl err \<Rightarrow> Inl (''Decrypt failed: '' @ err) | Inr r \<Rightarrow> Inr (r_data r)))"

text \<open>The check against the stored hash record: \<open>Inl\<close> is the state after an error reply.\<close>

definition integrity_check ::
  "env \<Rightarrow> string \<Rightarrow> string \<Rightarrow> string \<Rightarrow> byte list \<Rightarrow> srv \<Rightarrow> srv + srv" where
  "integrity_check env username file_id hash_str plain s =
     (if file_id = [] then Inr s
      else case load_hash_record (io_fs s) (hash_path file_id s) of
          None \<Rightarrow> Inl (send_error ''Hash record not found'' s)
        | Some record \<Rightarrow>
            let s = (if hash_str \<noteq> [] \<and> hash_str \<noteq> h_alg record
                     then io_event ''hash_mismatch'' username
                            (''file_id='' @ file_id @ '' request='' @ hash_str @ '' stored='' @ h_alg record) s
                     else s)
            in (case hash_from_string (h_alg record) of
                  None \<Rightarrow> Inl (send_error ''Unknown hash algorithm'' s)
                | Some alg \<Rightarrow> (case engine_hash (e_crypto env) alg plain of
                    Inl err \<Rightarrow> Inl (send_error (''Hash failed: '' @ err) s)
                  | Inr (_, hex) \<Rightarrow>
                      if hex \<noteq> h_hex record
                      then Inl (send_error ''Integrity check failed''
                             (io_alert ''integrity_failed'' username
                               (''file_id='' @ file_id @ '' expected='' @ h_hex record @ '' got='' @ hex) s))
                      else Inr s)))"

definition decrypt_reply :: "nat \<Rightarrow> header" where
  "decrypt_reply n = hd_set ''plain_size'' (show_nat n) (hd_set ''status'' ''ok'' [])"

definition decrypt_finish :: "env \<Rightarrow> string \<Rightarrow> string \<Rightarrow> nat \<Rightarrow> string \<Rightarrow> byte list \<Rightarrow> srv \<Rightarrow> srv" where
  "decrypt_finish env username file_id file_size cipher_str plain s =
     (case send_header (decrypt_reply (length plain)) s of
        (False, s) \<Rightarrow> s
      | (True, s) \<Rightarrow>
          let s = snd (write_all plain s);
              s = mon_file_op env username ''decrypt'' (length plain) s
          in io_event ''decrypt'' username
               (''file_id='' @ file_id @ '' enc_size='' @ show_nat file_size @ '' plain_size=''
                 @ show_nat (length plain) @ '' cipher='' @ cipher_str) s)"

definition decrypt_body :: "env \<Rightarrow> header \<Rightarrow> nat \<Rightarrow> srv \<Rightarrow> srv" where
  "decrypt_body env req file_size s =
     (let username = hd_get req ''username'' []; cipher_str = hd_get req ''cipher'' [];
          hash_str = hd_get req ''hash'' []; file_id = hd_get req ''file_id'' []
      in case cipher_from_string cipher_str of
           None \<Rightarrow> send_error ''Unknown cipher'' s
         | Some cipher \<Rightarrow> (case read_exact file_size s of
             (None, s) \<Rightarrow> send_error ''Failed to read file'' s
           | (Some ciphertext, s) \<Rightarrow> (case request_key req s of
               Inl msg \<Rightarrow> send_error msg s
             | Inr k \<Rightarrow> (case decrypt_data env cipher file_id ciphertext k s of
                 Inl msg \<Rightarrow> send_error msg s
               | Inr plain \<Rightarrow> (case integrity_check env username file_id hash_str plain s of
                   Inl s \<Rightarrow> s
                 | Inr s \<Rightarrow> decrypt_finish env username file_id file_size cipher_str plain s)))))"

definition handle_decrypt :: "env \<Rightarrow> header \<Rightarrow> srv \<Rightarrow> srv" where
  "handle_decrypt env req s =
     (let username = hd_get req ''username'' []; password = hd_get req ''password'' []
      in case header_size req ''file_size'' of
           None \<Rightarrow> send_error ''Invalid file_size'' s
         | Some file_size \<Rightarrow>
             if file_size > s_max_file_bytes s then send_error ''File too large'' s
             else (case enforce_client_binding req username ''decrypt'' s of
                 (False, s) \<Rightarrow> discard_payload file_size s
               | (True, s) \<Rightarrow> (case is_locked username (s_monitor s) s of
                   (Some remaining, s) \<Rightarrow> refuse_locked file_size ''decrypt'' username remaining s
                 | (None, s) \<Rightarrow>
                     if \<not> verify_user (e_kdf env) (s_users s) username password
                     then refuse_auth ''decrypt'' username s
                     else if even (user_permissions (s_users s) username div 2)
                     then send_error ''Decryption is not allowed for this account'' s
                     else let s = mon_success env username s in
                       (case is_locked username (s_monitor s) s of
                          (Some remaining, s) \<Rightarrow>
                            refuse_locked file_size ''decrypt post_login'' username remaining s
                        | (None, s) \<Rightarrow> decrypt_body env req file_size s))))"

section \<open>handle_change_password and handle_auth_check\<close>

text \<open>\<open>users.save\<close>: the outcome of the write and of the rename come from the environment.\<close>

definition save_users :: "env \<Rightarrow> srv \<Rightarrow> bool \<times> srv" where
  "save_users env s =
     (let renamed = e_renamed env (io_writes s) in
      case next_wout s of (w, s) \<Rightarrow>
      case users_save w renamed (s_users_db_path s) (s_users s) (io_fs s) of
        (ok, fs) \<Rightarrow> (ok, s\<lparr>io_fs := fs\<rparr>))"

definition handle_change_password :: "env \<Rightarrow> header \<Rightarrow> srv \<Rightarrow> srv" where
  "handle_change_password env req s =
     (let username = hd_get req ''username'' []; password = hd_get req ''password'' [];
          new_password = hd_get req ''new_password'' []
      in case enforce_client_binding req username ''change_password'' s of
           (False, s) \<Rightarrow> s
         | (True, s) \<Rightarrow> (case is_locked username (s_monitor s) s of
             (Some remaining, s) \<Rightarrow> refuse_locked 0 ''change_password'' username remaining s
           | (None, s) \<Rightarrow>
               if \<not> verify_user (e_kdf env) (s_users s) username password
               then refuse_auth ''change_password'' username s
               else let s = mon_success env username s; previous = s_users s in
                 (case upsert (e_kdf env) (s_users s) username new_password (s_rng s) of
                    (ok, users, rng) \<Rightarrow>
                      let s = s\<lparr>s_users := users, s_rng := rng\<rparr> in
                      (case (if ok then save_users env s else (False, s)) of
                         (False, s) \<Rightarrow> send_error ''Cannot save password change'' (s\<lparr>s_users := previous\<rparr>)
                       | (True, s) \<Rightarrow>
                           send_ok ''Password updated'' (io_event ''change_password'' username ''ok'' s)))))"

definition handle_auth_check :: "env \<Rightarrow> header \<Rightarrow> srv \<Rightarrow> srv" where
  "handle_auth_check env req s =
     (let username = hd_get req ''username'' []; password = hd_get req ''password'' []
      in case enforce_client_binding req username ''auth_check'' s of
           (False, s) \<Rightarrow> s
         | (True, s) \<Rightarrow> (case is_locked username (s_monitor s) s of
             (Some remaining, s) \<Rightarrow> refuse_locked 0 ''auth_check'' username remaining s
           | (None, s) \<Rightarrow>
               if \<not> verify_user (e_kdf env) (s_users s) username password
               then refuse_auth ''auth_check'' username s
               else let s = io_event ''auth_ok'' username ''auth_check'' (mon_success env username s)
                 in snd (send_header (hd_set ''permissions'' (show_nat (user_permissions (s_users s) username))
                      (hd_set ''message'' ''Authentication successful'' (hd_set ''status'' ''ok'' []))) s)))"

end
