(* ===== verification/NetStatus.thy ===== *)
theory NetStatus
  imports Prelude
begin

text \<open>
  The read-only network reports (server/src/network_status.cpp) and the text the collector
  publishes (server/src/wifi_collector.cpp): \<open>sanitize_wifi_status\<close>, \<open>wifi_snapshot\<close>,
  \<open>network_status\<close>, \<open>snapshot_data\<close>.

  Results are sums: \<open>Inl\<close> the error message, \<open>Inr\<close> the output. The time is an argument; the
  contents of the snapshot file are \<open>None\<close> when it cannot be opened. The interfaces of
  \<open>network_status\<close> are the IPv4 entries \<open>getifaddrs\<close> reports.
\<close>

definition status_keys :: "string list" where
  "status_keys = [''wpa_state'', ''ssid'', ''bssid'', ''ip_address'']"

definition wpa_states :: "string list" where
  "wpa_states = [''DISCONNECTED'', ''INACTIVE'', ''INTERFACE_DISABLED'', ''SCANNING'', ''AUTHENTICATING'',
     ''ASSOCIATING'', ''ASSOCIATED'', ''4WAY_HANDSHAKE'', ''GROUP_HANDSHAKE'', ''COMPLETED'']"

definition printable :: "char \<Rightarrow> bool" where
  "printable c \<longleftrightarrow> 32 \<le> (of_char c :: nat) \<and> (of_char c :: nat) \<noteq> 127"

fun status_loop :: "string list \<Rightarrow> (string \<times> string) list \<Rightarrow> string + (string \<times> string) list" where
  "status_loop [] fields = Inr fields"
| "status_loop (line # rest) fields = (case cut (CHR ''='') line of
       None \<Rightarrow> status_loop rest fields
     | Some (key, value) \<Rightarrow>
         if key \<notin> set status_keys then status_loop rest fields
         else if length value > 256 \<or> map_of fields key \<noteq> None then Inl ''Invalid Wi-Fi status field''
         else if \<not> list_all printable value then Inl ''Invalid Wi-Fi status characters''
         else status_loop rest (fields @ [(key, value)]))"

definition status_line :: "string \<times> string \<Rightarrow> string" where
  "status_line kv = fst kv @ ''='' @ snd kv"

text \<open>The fields that are present, in the fixed order.\<close>

definition ordered_fields :: "(string \<times> string) list \<Rightarrow> (string \<times> string) list" where
  "ordered_fields fields =
     List.map_filter (\<lambda>k. case map_of fields k of None \<Rightarrow> None | Some v \<Rightarrow> Some (k, v)) status_keys"

definition status_text :: "(string \<times> string) list \<Rightarrow> string" where
  "status_text fields = concat (map (\<lambda>kv. status_line kv @ [CHR 0x0A]) (ordered_fields fields))"

definition sanitize_wifi_status :: "string \<Rightarrow> string + string" where
  "sanitize_wifi_status raw =
     (if length raw > 8192 then Inl ''Wi-Fi status too large''
      else case status_loop (getlines (CHR 0x0A) raw) [] of
          Inl e \<Rightarrow> Inl e
        | Inr fields \<Rightarrow>
            if alookup fields ''wpa_state'' [] \<notin> set wpa_states then Inl ''Unknown Wi-Fi connection state''
            else Inr (status_text fields))"

text \<open>\<open>find("\n\n")\<close> and the two parts around it.\<close>

fun cut_blank :: "string \<Rightarrow> (string \<times> string) option" where
  "cut_blank (a # b # r) =
     (if a = CHR 0x0A \<and> b = CHR 0x0A then Some ([], r)
      else case cut_blank (b # r) of None \<Rightarrow> None | Some (x, y) \<Rightarrow> Some (a # x, y))"
| "cut_blank _ = None"

definition results_header :: string where
  "results_header = ''bssid / frequency / signal level / flags / ssid'' @ [CHR 0x0A]"

definition v1_prefix :: string where "v1_prefix = ''encoder-wifi-v1 ''"
definition v2_prefix :: string where "v2_prefix = ''encoder-wifi-v2 ''"

definition snapshot_results :: "string \<Rightarrow> string + string" where
  "snapshot_results results =
     (if \<not> starts_with results_header results then Inl ''Invalid Wi-Fi snapshot results'' else Inr results)"

definition wifi_snapshot :: "int \<Rightarrow> string option \<Rightarrow> bool \<Rightarrow> string + string" where
  "wifi_snapshot now file current_status = (case file of
       None \<Rightarrow> Inl ''Wi-Fi snapshot unavailable; collector is not installed or not running''
     | Some data \<Rightarrow>
         if length data \<ge> 65536 then Inl ''Wi-Fi snapshot is oversized or unreadable''
         else let version2 = starts_with v2_prefix data;
                  prefix = (if version2 then v2_prefix else v1_prefix) in
           (case cut (CHR 0x0A) data of
              None \<Rightarrow> Inl ''Invalid Wi-Fi snapshot format''
            | Some (first, results) \<Rightarrow>
                if \<not> starts_with prefix data \<or> length first \<le> length prefix
                then Inl ''Invalid Wi-Fi snapshot format''
                else (case from_chars (drop (length prefix) first) of
                    None \<Rightarrow> Inl ''Wi-Fi snapshot expired or has invalid time''
                  | Some timestamp \<Rightarrow>
                      if timestamp < 0 \<or> timestamp > now \<or> now - timestamp > 90
                      then Inl ''Wi-Fi snapshot expired or has invalid time''
                      else if version2 then
                        (case cut_blank results of
                           None \<Rightarrow> Inl ''Invalid Wi-Fi connection snapshot''
                         | Some (conn, results) \<Rightarrow> (case sanitize_wifi_status conn of
                             Inl _ \<Rightarrow> Inl ''Invalid Wi-Fi connection snapshot''
                           | Inr connection \<Rightarrow>
                               if current_status then Inr connection else snapshot_results results))
                      else if current_status
                      then Inl ''Connection status requires an updated Wi-Fi collector''
                      else snapshot_results results)))"

text \<open>What the collector publishes; \<open>None\<close> when it exits with an error.\<close>

definition snapshot_data :: "int \<Rightarrow> string \<Rightarrow> string \<Rightarrow> string option" where
  "snapshot_data now raw_status results = (case sanitize_wifi_status raw_status of
       Inl _ \<Rightarrow> None
     | Inr connection \<Rightarrow>
         let data = v2_prefix @ show_int now @ [CHR 0x0A] @ connection @ [CHR 0x0A] @ results in
         if length data \<ge> 65536 then None else Some data)"

definition network_status :: "(string \<times> bool \<times> string) list option \<Rightarrow> string + string" where
  "network_status interfaces = (case interfaces of
       None \<Rightarrow> Inl ''Cannot read network interfaces''
     | Some ifs \<Rightarrow>
         Inr (''Interface | Link | IPv4'' @ [CHR 0x0A]
           @ concat (map (\<lambda>(name, running, address).
               name @ '' | '' @ (if running then ''carrier'' else ''no carrier'') @ '' | '' @ address @ [CHR 0x0A]) ifs)))"

section \<open>The sanitised status\<close>

definition fields_ok :: "(string \<times> string) list \<Rightarrow> bool" where
  "fields_ok fields \<longleftrightarrow> dkeys fields \<and>
     (\<forall>(k, v) \<in> set fields. k \<in> set status_keys \<and> length v \<le> 256 \<and> list_all printable v)"

lemma status_loop_ok: "status_loop ls fields = Inr fs \<Longrightarrow> fields_ok fields \<Longrightarrow> fields_ok fs"
proof (induction ls arbitrary: fields)
  case (Cons l ls)
  show ?case
  proof (cases "cut (CHR ''='') l")
    case None
    with Cons show ?thesis by simp
  next
    case (Some p)
    obtain k v where p: "p = (k, v)" by (cases p)
    show ?thesis
    proof (cases "k \<in> set status_keys")
      case False
      with Cons Some p show ?thesis by simp
    next
      case True
      then have g: "length v \<le> 256" "map_of fields k = None" "list_all printable v"
        "status_loop ls (fields @ [(k, v)]) = Inr fs"
        using Cons.prems Some p by (auto split: if_splits)
      have "fields_ok (fields @ [(k, v)])"
        using Cons.prems(2) g True by (auto simp: fields_ok_def dkeys_def map_of_eq_None_iff)
      with Cons.IH g(4) show ?thesis by blast
    qed
  qed
qed simp

lemma status_keys_free: "k \<in> set status_keys \<Longrightarrow> k \<noteq> [] \<and> CHR ''='' \<notin> set k \<and> CHR 0x0A \<notin> set k \<and> length k \<le> 10"
  by (auto simp: status_keys_def)

lemma printable_no_nl: "list_all printable v \<Longrightarrow> CHR 0x0A \<notin> set v"
  by (auto simp: list_all_iff printable_def)

lemma status_loop_lines:
  "fields_ok (acc @ kvs) \<Longrightarrow> status_loop (map status_line kvs) acc = Inr (acc @ kvs)"
proof (induction kvs arbitrary: acc)
  case (Cons kv kvs)
  obtain k v where kv: "kv = (k, v)" by (cases kv)
  have k: "k \<in> set status_keys" "length v \<le> 256" "list_all printable v" "map_of acc k = None"
    using Cons.prems kv by (auto simp: fields_ok_def dkeys_def map_of_eq_None_iff)
  then have "cut (CHR ''='') (status_line kv) = Some (k, v)"
    using status_keys_free [OF k(1)] by (simp add: kv status_line_def cut_append)
  moreover have "status_loop (map status_line kvs) (acc @ [(k, v)]) = Inr ((acc @ [(k, v)]) @ kvs)"
    using Cons.prems kv by (intro Cons.IH) simp
  ultimately show ?case using k kv by simp
qed simp

lemma map_of_map_filter:
  "distinct ks \<Longrightarrow> map_of (List.map_filter (\<lambda>k. case m k of None \<Rightarrow> None | Some v \<Rightarrow> Some (k, v)) ks) k
     = (if k \<in> set ks then m k else None)"
  by (induction ks) (auto simp: map_filter_simps split: option.splits)

lemma set_ordered: "set (ordered_fields f) = {(k, v). k \<in> set status_keys \<and> map_of f k = Some v}"
  by (auto simp: ordered_fields_def List.map_filter_def split: option.splits) force

lemma ordered_fields_ok:
  assumes "fields_ok f" shows "fields_ok (ordered_fields f)"
proof -
  have d: "distinct (map fst (ordered_fields f))"
  proof -
    have "map fst (ordered_fields f) = filter (\<lambda>k. map_of f k \<noteq> None) status_keys"
      by (auto simp: ordered_fields_def List.map_filter_def comp_def intro!: map_idI split: option.splits)
    moreover have "distinct status_keys" by (simp add: status_keys_def)
    ultimately show ?thesis by simp
  qed
  then show ?thesis
    using assms unfolding fields_ok_def by (auto simp: set_ordered dkeys_def dest: map_of_SomeD)
qed

lemma map_filter_same:
  "(\<And>x. x \<in> set xs \<Longrightarrow> f x = g x) \<Longrightarrow> List.map_filter f xs = List.map_filter g xs"
  by (induction xs) (auto simp: map_filter_simps split: option.splits)

lemma ordered_idem: "ordered_fields (ordered_fields f) = ordered_fields f"
proof -
  have "map_of (ordered_fields f) k = (if k \<in> set status_keys then map_of f k else None)" for k
    unfolding ordered_fields_def by (rule map_of_map_filter) (simp add: status_keys_def)
  then have "(case map_of (ordered_fields f) k of None \<Rightarrow> None | Some v \<Rightarrow> Some (k, v))
      = (case map_of f k of None \<Rightarrow> None | Some v \<Rightarrow> Some (k, v))" if "k \<in> set status_keys" for k
    using that by simp
  then show ?thesis
    unfolding ordered_fields_def [of "ordered_fields f"] unfolding ordered_fields_def [of f]
    by (intro map_filter_same) (simp add: ordered_fields_def)
qed

lemma status_line_no_nl:
  assumes "fields_ok f" "kv \<in> set (ordered_fields f)"
  shows "CHR 0x0A \<notin> set (status_line kv) \<and> status_line kv \<noteq> [] \<and> length (status_line kv) \<le> 267"
proof -
  obtain k v where kv: "kv = (k, v)" by (cases kv)
  have "k \<in> set status_keys \<and> length v \<le> 256 \<and> list_all printable v"
    using ordered_fields_ok [OF assms(1)] assms(2) kv unfolding fields_ok_def by blast
  then show ?thesis
    using status_keys_free [of k] printable_no_nl [of v] by (simp add: kv status_line_def)
qed

lemma status_lines:
  assumes "fields_ok f"
  shows "getlines (CHR 0x0A) (status_text f) = map status_line (ordered_fields f)"
    and "status_text f \<noteq> [] \<Longrightarrow> getlines (CHR 0x0A) (butlast (status_text f)) = map status_line (ordered_fields f)"
proof -
  have n: "\<forall>l \<in> set (map status_line (ordered_fields f)). CHR 0x0A \<notin> set l \<and> l \<noteq> []"
    using status_line_no_nl [OF assms] by auto
  have g: "\<forall>l \<in> set ls. CHR 0x0A \<notin> set l \<and> l \<noteq> [] \<Longrightarrow> ls \<noteq> [] \<Longrightarrow>
      getlines (CHR 0x0A) (butlast (concat (map (\<lambda>l. l @ [CHR 0x0A]) ls))) = ls" for ls
  proof (induction ls)
    case (Cons l ls)
    show ?case
    proof (cases "ls = []")
      case True
      with Cons.prems show ?thesis by (simp add: butlast_append getlines_last)
    next
      case False
      then have "concat (map (\<lambda>l. l @ [CHR 0x0A]) ls) \<noteq> []" by (cases ls) auto
      then have "butlast (concat (map (\<lambda>l. l @ [CHR 0x0A]) (l # ls)))
          = l @ CHR 0x0A # butlast (concat (map (\<lambda>l. l @ [CHR 0x0A]) ls))"
        by (simp add: butlast_append)
      with Cons False show ?thesis by (simp add: getlines_line)
    qed
  qed simp
  have t: "status_text f = concat (map (\<lambda>l. l @ [CHR 0x0A]) (map status_line (ordered_fields f)))"
    by (simp add: status_text_def comp_def)
  show "getlines (CHR 0x0A) (status_text f) = map status_line (ordered_fields f)"
    unfolding t using n getlines_concat [of "map status_line (ordered_fields f)" "CHR 0x0A" "[]"] by simp
  assume "status_text f \<noteq> []"
  then have "map status_line (ordered_fields f) \<noteq> []" unfolding t by auto
  with g [OF n] show "getlines (CHR 0x0A) (butlast (status_text f)) = map status_line (ordered_fields f)"
    unfolding t by blast
qed

lemma ordered_length: "length (ordered_fields f) \<le> 4"
proof -
  have "length (List.map_filter g ks) \<le> length ks" for g :: "'a \<Rightarrow> 'b option" and ks
    by (induction ks) (auto simp: map_filter_simps split: option.splits)
  moreover have "length status_keys = 4" by (simp add: status_keys_def)
  ultimately show ?thesis unfolding ordered_fields_def by metis
qed

lemma concat_length_bound:
  "\<forall>l \<in> set ls. length l \<le> n \<Longrightarrow> length (concat ls) \<le> length ls * n"
  by (induction ls) auto

lemma status_text_length:
  assumes "fields_ok f" shows "length (status_text f) \<le> 1072"
proof -
  have "length (status_text f) \<le> length (ordered_fields f) * 268"
    unfolding status_text_def using concat_length_bound [of "map (\<lambda>kv. status_line kv @ [CHR 0x0A]) (ordered_fields f)" 268]
      status_line_no_nl [OF assms] by fastforce
  also have "\<dots> \<le> 4 * 268" using ordered_length by (rule mult_le_mono1)
  finally show ?thesis by simp
qed

lemma sanitizeE:
  assumes "sanitize_wifi_status raw = Inr out"
  obtains f where "fields_ok f" "out = status_text f" "alookup f ''wpa_state'' [] \<in> set wpa_states"
proof -
  have "fields_ok []" by (simp add: fields_ok_def)
  with assms that show thesis
    by (auto simp: sanitize_wifi_status_def dest: status_loop_ok split: if_splits sum.splits)
qed

lemma sanitize_lines:
  assumes f: "fields_ok f" "alookup f ''wpa_state'' [] \<in> set wpa_states" and "length raw \<le> 8192"
    and l: "getlines (CHR 0x0A) raw = map status_line (ordered_fields f)"
  shows "sanitize_wifi_status raw = Inr (status_text f)"
proof -
  have "map_of (ordered_fields f) ''wpa_state'' = map_of f ''wpa_state''"
    using map_of_map_filter [of status_keys "map_of f" "''wpa_state''"]
    by (simp add: ordered_fields_def status_keys_def)
  then have "alookup (ordered_fields f) ''wpa_state'' [] \<in> set wpa_states"
    using f(2) by (simp add: alookup_def)
  moreover have "status_loop (map status_line (ordered_fields f)) [] = Inr (ordered_fields f)"
    using status_loop_lines [of "[]"] ordered_fields_ok [OF f(1)] by simp
  ultimately show ?thesis
    using assms(3) by (simp add: sanitize_wifi_status_def l status_text_def ordered_idem)
qed

lemma sanitize_again:
  assumes "sanitize_wifi_status raw = Inr out"
  shows "sanitize_wifi_status out = Inr out" "out \<noteq> []" "sanitize_wifi_status (butlast out) = Inr out"
proof -
  obtain f where f: "fields_ok f" "out = status_text f" "alookup f ''wpa_state'' [] \<in> set wpa_states"
    using assms by (rule sanitizeE)
  then have "map_of f ''wpa_state'' \<noteq> None"
    by (cases "map_of f ''wpa_state''") (auto simp: alookup_def wpa_states_def)
  then obtain v where "(''wpa_state'', v) \<in> set (ordered_fields f)"
    by (auto simp: set_ordered status_keys_def)
  then show ne: "out \<noteq> []" by (auto simp: f(2) status_text_def)
  show "sanitize_wifi_status out = Inr out" "sanitize_wifi_status (butlast out) = Inr out"
    using status_text_length [OF f(1)] status_lines [OF f(1)] ne unfolding f(2)
    by (intro sanitize_lines f(1,3); simp)+
qed

section \<open>The published snapshot\<close>

lemma cut_blank_lines:
  "\<forall>l \<in> set ls. CHR 0x0A \<notin> set l \<and> l \<noteq> [] \<Longrightarrow> ls \<noteq> [] \<Longrightarrow>
     cut_blank (concat (map (\<lambda>l. l @ [CHR 0x0A]) ls) @ CHR 0x0A # r)
       = Some (butlast (concat (map (\<lambda>l. l @ [CHR 0x0A]) ls)), r)"
proof (induction ls)
  case (Cons l ls)
  define t where "t = concat (map (\<lambda>l. l @ [CHR 0x0A]) ls)"
  have l: "CHR 0x0A \<notin> set l" "l \<noteq> []" using Cons.prems by auto
  have skip: "CHR 0x0A \<notin> set m \<Longrightarrow> m \<noteq> [] \<Longrightarrow> cut_blank (m @ CHR 0x0A # x)
      = map_option (\<lambda>(a, b). (m @ a, b)) (cut_blank (CHR 0x0A # x))" for m x
  proof (induction m)
    case (Cons c m)
    show ?case
    proof (cases m)
      case Nil
      with Cons.prems show ?thesis by (cases x) (auto split: option.splits)
    next
      case (Cons d m')
      with Cons.IH Cons.prems show ?thesis by (auto split: option.splits)
    qed
  qed simp
  show ?case
  proof (cases "ls = []")
    case True
    then show ?thesis using skip [OF l, of "CHR 0x0A # r"] by (simp add: butlast_append)
  next
    case False
    then obtain c t' where t: "t = c # t'" "c \<noteq> CHR 0x0A"
      using Cons.prems by (cases ls; cases "hd ls") (auto simp: t_def)
    have "cut_blank (t @ CHR 0x0A # r) = Some (butlast t, r)"
      using Cons.IH Cons.prems False by (simp add: t_def)
    then have "cut_blank (CHR 0x0A # t @ CHR 0x0A # r) = Some (CHR 0x0A # butlast t, r)"
      using t by simp
    then have "cut_blank (l @ CHR 0x0A # t @ CHR 0x0A # r) = Some (l @ CHR 0x0A # butlast t, r)"
      using skip [OF l, of "t @ CHR 0x0A # r"] by simp
    moreover have "butlast (l @ CHR 0x0A # t) = l @ CHR 0x0A # butlast t"
      using t by (simp add: butlast_append)
    ultimately show ?thesis by (simp add: t_def)
  qed
qed simp

lemma snapshot_read:
  assumes d: "snapshot_data stamp raw results = Some data"
    and time: "0 \<le> stamp" "stamp < 2 ^ 63"
    and r: "starts_with results_header results"
    and c: "sanitize_wifi_status raw = Inr conn"
  shows "wifi_snapshot now (Some data) b =
    (if stamp \<le> now \<and> now - stamp \<le> 90 then Inr (if b then conn else results)
     else Inl ''Wi-Fi snapshot expired or has invalid time'')"
proof -
  have data: "data = v2_prefix @ show_int stamp @ CHR 0x0A # conn @ CHR 0x0A # results" "length data < 65536"
    using d c by (auto simp: snapshot_data_def Let_def split: if_splits)
  obtain f where f: "fields_ok f" "conn = status_text f"
    using c by (rule sanitizeE)
  have "\<forall>l \<in> set (map status_line (ordered_fields f)). CHR 0x0A \<notin> set l \<and> l \<noteq> []"
    using status_line_no_nl [OF f(1)] by auto
  moreover have "map status_line (ordered_fields f) \<noteq> []"
    using sanitize_again(2) [OF c] by (auto simp: f(2) status_text_def)
  ultimately have cb: "cut_blank (conn @ CHR 0x0A # results) = Some (butlast conn, results)"
    using cut_blank_lines [of "map status_line (ordered_fields f)" results]
    by (simp add: f(2) status_text_def comp_def)
  have v2: "starts_with v2_prefix data" unfolding data(1) by (rule starts_with_append)
  have p: "CHR 0x0A \<notin> set v2_prefix" by (simp add: v2_prefix_def)
  have "CHR 0x0A \<notin> set (v2_prefix @ show_int stamp)" using p by simp
  then have cd: "cut (CHR 0x0A) data = Some (v2_prefix @ show_int stamp, conn @ CHR 0x0A # results)"
    using cut_append [of "CHR 0x0A" "v2_prefix @ show_int stamp"] by (simp add: data(1))
  have t: "from_chars (show_int stamp) = Some stamp"
    using time by (intro from_chars_show_int) simp_all
  have res: "snapshot_results results = Inr results" using r by (simp add: snapshot_results_def)
  show ?thesis
    using data(2) v2 cd t time cb sanitize_again(3) [OF c] res
    by (simp add: wifi_snapshot_def Let_def)
qed

lemma snapshot_stale:
  assumes "wifi_snapshot now (Some data) b = Inr out"
  shows "\<exists>t. 0 \<le> t \<and> t \<le> now \<and> now - t \<le> 90
    \<and> (\<exists>p rest. p \<in> {v1_prefix, v2_prefix} \<and> data = p @ rest \<and> (\<exists>ts body. cut (CHR 0x0A) rest = Some (ts, body) \<and> from_chars ts = Some t))"
proof -
  let ?p = "if starts_with v2_prefix data then v2_prefix else v1_prefix"
  obtain first results where c: "cut (CHR 0x0A) data = Some (first, results)"
    and p: "starts_with ?p data" "length ?p < length first"
    using assms by (auto simp: wifi_snapshot_def Let_def split: if_splits option.splits)
  obtain t where t: "from_chars (drop (length ?p) first) = Some t" "0 \<le> t" "t \<le> now" "now - t \<le> 90"
    using assms c p by (auto simp: wifi_snapshot_def Let_def split: if_splits option.splits)
  have d: "data = first @ CHR 0x0A # results" "CHR 0x0A \<notin> set first"
    using cut_SomeD [OF c] by auto
  have "take (length ?p) first = ?p"
    using p d by (simp add: starts_with_def)
  then have f: "first = ?p @ drop (length ?p) first"
    by (metis append_take_drop_id)
  have "cut (CHR 0x0A) (drop (length ?p) first @ CHR 0x0A # results) = Some (drop (length ?p) first, results)"
    using d(2) by (intro cut_append) (auto dest: in_set_dropD)
  moreover have "data = ?p @ (drop (length ?p) first @ CHR 0x0A # results)"
    using f d(1) by (metis append.assoc)
  moreover have "?p \<in> {v1_prefix, v2_prefix}" by simp
  ultimately show ?thesis using t by blast
qed

section \<open>Properties\<close>

text \<open>What is passed on of the supplicant's status is at most 1072 characters long, however the
  raw text was built, and is a fixed point: sanitising it again changes nothing. So a report only
  carries the four allowed fields, once each, in the fixed order, without control characters.\<close>

theorem sanitized_status:
  assumes "sanitize_wifi_status raw = Inr out"
  shows "sanitize_wifi_status out = Inr out \<and> length out \<le> 1072
    \<and> (\<exists>f. fields_ok f \<and> out = status_text f \<and> alookup f ''wpa_state'' [] \<in> set wpa_states)"
proof -
  obtain f where f: "fields_ok f" "out = status_text f" "alookup f ''wpa_state'' [] \<in> set wpa_states"
    using assms by (rule sanitizeE)
  then show ?thesis using sanitize_again(1) [OF assms] status_text_length [OF f(1)] by blast
qed

lemma demo_status:
  "sanitize_wifi_status (''noise'' @ [CHR 0x0A] @ ''wpa_state=COMPLETED'' @ [CHR 0x0A]) = Inr (''wpa_state=COMPLETED'' @ [CHR 0x0A])"
proof -
  have "getlines (CHR 0x0A) (''noise'' @ CHR 0x0A # ''wpa_state=COMPLETED'' @ CHR 0x0A # []) = [''noise'', ''wpa_state=COMPLETED'']"
    using getlines_line [of "CHR 0x0A" "''noise''"] getlines_line [of "CHR 0x0A" "''wpa_state=COMPLETED''" "[]"] by simp
  moreover have "status_loop [''noise'', ''wpa_state=COMPLETED''] [] = Inr [(''wpa_state'', ''COMPLETED'')]"
    by code_simp
  moreover have "status_text [(''wpa_state'', ''COMPLETED'')] = ''wpa_state=COMPLETED'' @ [CHR 0x0A]"
    by code_simp
  ultimately show ?thesis
    by (simp add: sanitize_wifi_status_def alookup_def wpa_states_def)
qed

theorem sanitized_status_witness:
  "sanitize_wifi_status (''wpa_state=COMPLETED'' @ [CHR 0x0A]) = Inr (''wpa_state=COMPLETED'' @ [CHR 0x0A])"
  using sanitized_status [OF demo_status] by blast

text \<open>The file the collector publishes is understood by the server for exactly ninety seconds:
  in that time it yields the scan results, or the sanitised connection, unchanged, and before and
  after it the snapshot is refused.\<close>

theorem snapshot_freshness:
  assumes "snapshot_data stamp raw results = Some data" "0 \<le> stamp" "stamp < 2 ^ 63"
    "starts_with results_header results" "sanitize_wifi_status raw = Inr conn"
  shows "wifi_snapshot now (Some data) status =
    (if stamp \<le> now \<and> now - stamp \<le> 90 then Inr (if status then conn else results)
     else Inl ''Wi-Fi snapshot expired or has invalid time'')"
  using assms by (rule snapshot_read)

theorem snapshot_freshness_witness:
  "wifi_snapshot 1100 (snapshot_data 1000 (''noise'' @ [CHR 0x0A] @ ''wpa_state=COMPLETED'' @ [CHR 0x0A]) results_header) True
     = Inl ''Wi-Fi snapshot expired or has invalid time''"
proof -
  have n: "length (show_int 1000) = 4" by code_simp
  obtain data where d: "snapshot_data 1000 (''noise'' @ [CHR 0x0A] @ ''wpa_state=COMPLETED'' @ [CHR 0x0A]) results_header = Some data"
    unfolding snapshot_data_def demo_status using n by (simp add: Let_def v2_prefix_def results_header_def)
  have "starts_with results_header results_header" by (simp add: starts_with_def)
  from snapshot_freshness [OF d _ _ this demo_status, of 1100 True] show ?thesis unfolding d by simp
qed

end
