(* ===== verification/WifiScan.thy ===== *)
theory WifiScan
  imports NetStatus
begin

text \<open>
  The Wi-Fi scan (server/src/scan_session.cpp, scan_ipc.cpp, wifi_control.cpp, scan_limit.cpp,
  snapshot_publish.cpp): the session with the supplicant, the protocol between the server and
  the scan helper, the fixed commands of the collector, the limit on the rate of scans and the
  publication of the snapshot.

  Sockets and files are what the operating system returns: the list of messages that arrive
  before the deadline, the results of successive calls of \<open>send\<close> and \<open>write\<close>, the outcome of a
  sequence of checks on a descriptor. Errors are \<open>Inl\<close>.
\<close>

text \<open>The check on the path of a UNIX socket; \<open>sun_path\<close> holds 108 bytes.\<close>

definition socket_path_ok :: "path \<Rightarrow> bool" where
  "socket_path_ok p \<longleftrightarrow> p \<noteq> [] \<and> hd p = CHR ''/'' \<and> length p < 108 \<and> CHR 0x00 \<notin> set p"

section \<open>The session with the supplicant\<close>

text \<open>
  \<open>inbox\<close> holds the messages the socket delivers before the deadline, \<open>messages\<close> counts those
  received, \<open>outbox\<close> the commands sent. A receive that finds no message, or the limit of 512
  reached, is the timeout of the code.
\<close>

record session =
  inbox :: "string list"
  messages :: nat
  outbox :: "string list"
  scan_sent :: bool
  scan_completed :: bool
  scan_failed :: bool

definition receive_message :: "session \<Rightarrow> (string \<times> session) option" where
  "receive_message s = (case inbox s of
       [] \<Rightarrow> None
     | m # rest \<Rightarrow> if messages s < 512 then Some (m, s\<lparr>inbox := rest, messages := messages s + 1\<rparr>) else None)"

definition timeout_message :: string where
  "timeout_message = ''Wi-Fi scan timed out or event stream invalid; completion unknown''"

text \<open>\<open>event\<close>: whether the text is an event, and what the two events of interest do.\<close>

definition event_matches :: "string \<Rightarrow> string \<Rightarrow> bool" where
  "event_matches name v \<longleftrightarrow> starts_with name v
     \<and> (length v = length name \<or> v ! length name = CHR '' '' \<or> v ! length name = CHR 0x0A)"

definition scan_event :: "string \<Rightarrow> session \<Rightarrow> session option" where
  "scan_event text s =
     (if length text < 3 \<or> hd text \<noteq> CHR ''<'' then None
      else case cut (CHR ''>'') text of
          None \<Rightarrow> None
        | Some (_, v) \<Rightarrow>
            let s = (if scan_sent s \<and> event_matches ''CTRL-EVENT-SCAN-RESULTS'' v
                     then s\<lparr>scan_completed := True\<rparr> else s)
            in Some (if scan_sent s \<and> event_matches ''CTRL-EVENT-SCAN-FAILED'' v
                     then s\<lparr>scan_failed := True\<rparr> else s))"

lemma receive_inbox: "receive_message s = Some (m, s') \<Longrightarrow> length (inbox s') < length (inbox s)"
  by (auto simp: receive_message_def split: list.splits if_splits)

lemma scan_event_keeps:
  "scan_event t s = Some s' \<Longrightarrow> inbox s' = inbox s \<and> messages s' = messages s \<and> outbox s' = outbox s
     \<and> scan_sent s' = scan_sent s \<and> (scan_completed s \<longrightarrow> scan_completed s')
     \<and> (\<not> scan_sent s \<longrightarrow> scan_completed s' = scan_completed s)"
  by (auto simp: scan_event_def Let_def split: if_splits option.splits)

text \<open>\<open>while (receive(reply)) if (!event(*reply)) return true;\<close>\<close>

function await_reply :: "session \<Rightarrow> (string \<times> session) option" where
  "await_reply s = (case receive_message s of
       None \<Rightarrow> None
     | Some (m, s1) \<Rightarrow> (case scan_event m s1 of None \<Rightarrow> Some (m, s1) | Some s2 \<Rightarrow> await_reply s2))"
  by pat_completeness auto
termination
  by (relation "measure (\<lambda>s. length (inbox s))") (auto dest!: receive_inbox scan_event_keeps)

declare await_reply.simps [simp del]

definition scan_command :: "bool \<Rightarrow> string \<Rightarrow> session \<Rightarrow> (string + string) \<times> session" where
  "scan_command send_ok text s =
     (if \<not> send_ok then (Inl ''Cannot send Wi-Fi scan command'', s)
      else let s1 = s\<lparr>outbox := outbox s @ [text]\<rparr> in
        (case await_reply s1 of None \<Rightarrow> (Inl timeout_message, s1) | Some (m, s2) \<Rightarrow> (Inr m, s2)))"

text \<open>\<open>while (!completed && !failed)\<close>.\<close>

function await_scan :: "session \<Rightarrow> string + session" where
  "await_scan s =
     (if scan_completed s \<or> scan_failed s then Inr s
      else case receive_message s of
          None \<Rightarrow> Inl timeout_message
        | Some (m, s1) \<Rightarrow> (case scan_event m s1 of
            None \<Rightarrow> Inl ''Unexpected Wi-Fi scan response''
          | Some s2 \<Rightarrow> await_scan s2))"
  by pat_completeness auto
termination
  by (relation "measure (\<lambda>s. length (inbox s))") (auto dest!: receive_inbox scan_event_keeps)

declare await_scan.simps [simp del]

definition new_session :: "string list \<Rightarrow> session" where
  "new_session msgs = \<lparr>inbox = msgs, messages = 0, outbox = [], scan_sent = False,
     scan_completed = False, scan_failed = False\<rparr>"

text \<open>The destructor of the socket: once attached, the session detaches on every path. (The send
  is attempted without waiting; its outcome is not looked at.)\<close>

definition detach :: "session \<Rightarrow> session" where
  "detach s = s\<lparr>outbox := outbox s @ [''DETACH'']\<rparr>"

text \<open>\<open>connected\<close>: the socket could be created, bound and connected; \<open>sends\<close>: which of the three
  commands could be sent. The final session is returned with the outcome.\<close>

definition scan_attached :: "(nat \<Rightarrow> bool) \<Rightarrow> session \<Rightarrow> (string + string) \<times> session" where
  "scan_attached sends s =
     (case scan_command (sends 1) ''SCAN'' (s\<lparr>scan_sent := True\<rparr>) of
        (Inl e, s) \<Rightarrow> (Inl e, s)
      | (Inr reply, s) \<Rightarrow>
          if reply \<noteq> ''OK'' @ [CHR 0x0A] then (Inl ''Wi-Fi scan rejected or busy; retry later'', s)
          else (case await_scan s of
              Inl e \<Rightarrow> (Inl e, s)
            | Inr s \<Rightarrow>
                if scan_failed s then (Inl ''Wi-Fi scan failed'', s)
                else (case scan_command (sends 2) ''SCAN_RESULTS'' s of
                    (Inl e, s) \<Rightarrow> (Inl e, s)
                  | (Inr reply, s) \<Rightarrow>
                      if \<not> starts_with results_header reply then (Inl ''Invalid Wi-Fi scan results'', s)
                      else (Inr reply, s))))"

definition wifi_scan_and_wait ::
  "path \<Rightarrow> bool \<Rightarrow> (nat \<Rightarrow> bool) \<Rightarrow> string list \<Rightarrow> (string + string) \<times> session" where
  "wifi_scan_and_wait path connected sends msgs =
     (if \<not> socket_path_ok path then (Inl ''Invalid Wi-Fi control socket path'', new_session msgs)
      else if \<not> connected then (Inl ''Wi-Fi control socket unavailable or permission denied'', new_session msgs)
      else case scan_command (sends 0) ''ATTACH'' (new_session msgs) of
          (Inl e, s) \<Rightarrow> (Inl e, s)
        | (Inr reply, s) \<Rightarrow>
            if reply \<noteq> ''OK'' @ [CHR 0x0A] then (Inl ''Cannot monitor Wi-Fi scan completion'', s)
            else (case scan_attached sends s of (r, s) \<Rightarrow> (r, detach s)))"

section \<open>The protocol with the scan helper\<close>

text \<open>What one \<open>wait_io\<close> and \<open>recv\<close> give: data, the end of the stream, a transient error (the loop
  goes on), a hard error. The end of the list is the deadline.\<close>

datatype recv_result = R_data string | R_eof | R_again | R_error

fun receive_loop :: "nat \<Rightarrow> recv_result list \<Rightarrow> string \<Rightarrow> string option" where
  "receive_loop limit [] out = None"
| "receive_loop limit (R_eof # rs) out = Some out"
| "receive_loop limit (R_again # rs) out = receive_loop limit rs out"
| "receive_loop limit (R_error # rs) out = None"
| "receive_loop limit (R_data d # rs) out =
     (if length out + length d > limit then None else receive_loop limit rs (out @ d))"

text \<open>\<open>transmit\<close>: the results of successive sends, \<open>None\<close> for a transient error.\<close>

fun transmit_loop :: "int option list \<Rightarrow> string \<Rightarrow> bool \<times> string" where
  "transmit_loop rs [] = (True, [])"
| "transmit_loop [] (c # cs) = (False, [])"
| "transmit_loop (None # rs) (c # cs) = transmit_loop rs (c # cs)"
| "transmit_loop (Some n # rs) (c # cs) =
     (if n \<le> 0 then (False, [])
      else case transmit_loop rs (drop (nat n) (c # cs)) of
          (ok, out) \<Rightarrow> (ok, take (nat n) (c # cs) @ out))"

text \<open>
  The server's side. \<open>exchange\<close>: \<open>None\<close> when the connection fails; otherwise the outcome of
  sending the request, shutting the connection down and the results of the reads.
\<close>

definition request_wifi_scan :: "path \<Rightarrow> (bool \<times> recv_result list) option \<Rightarrow> string + string" where
  "request_wifi_scan path exchange =
     (if \<not> socket_path_ok path then Inl ''Invalid scan helper socket path''
      else case exchange of
          None \<Rightarrow> Inl ''Scan helper unavailable or busy''
        | Some (sent, rs) \<Rightarrow> (case (if sent then receive_loop 65536 rs [] else None) of
            None \<Rightarrow> Inl ''Scan helper timed out or returned an invalid response; completion unknown''
          | Some response \<Rightarrow>
              if starts_with (''OK'' @ [CHR 0x0A] @ results_header) response then Inr (drop 3 response)
              else Inl (if starts_with (''ERROR'' @ [CHR 0x0A]) response then take 256 (drop 6 response)
                        else ''Invalid scan helper response'')))"

text \<open>The helper's side: the text it transmits for the results of its reads and of the action.\<close>

definition serve_wifi_scan :: "recv_result list \<Rightarrow> string + string \<Rightarrow> string" where
  "serve_wifi_scan rs action =
     (if receive_loop 8 rs [] \<noteq> Some (''SCAN'' @ [CHR 0x0A]) then ''ERROR'' @ [CHR 0x0A] @ ''Invalid scan request''
      else (case action of
          Inr results \<Rightarrow>
            if length results > 65500 \<or> \<not> starts_with results_header results
            then ''ERROR'' @ [CHR 0x0A] @ ''Invalid scan results''
            else ''OK'' @ [CHR 0x0A] @ results
        | Inl error \<Rightarrow> ''ERROR'' @ [CHR 0x0A] @ take 256 error))"

text \<open>Whether the helper runs the scan at all.\<close>

definition helper_acts :: "recv_result list \<Rightarrow> bool" where
  "helper_acts rs \<longleftrightarrow> receive_loop 8 rs [] = Some (''SCAN'' @ [CHR 0x0A])"

section \<open>The collector's commands\<close>

datatype wifi_command = Results | Status | Scan

fun command_text :: "wifi_command \<Rightarrow> string" where
  "command_text Status = ''STATUS''"
| "command_text Scan = ''SCAN''"
| "command_text Results = ''SCAN_RESULTS''"

text \<open>\<open>exchange\<close> as above: sending succeeded, the reply (\<open>None\<close> for a timeout).\<close>

definition wifi_control_read ::
  "path \<Rightarrow> wifi_command \<Rightarrow> (bool \<times> string option) option \<Rightarrow> string + string" where
  "wifi_control_read path operation exchange =
     (if \<not> socket_path_ok path then Inl ''Invalid Wi-Fi control socket path''
      else case exchange of
          None \<Rightarrow> Inl ''Wi-Fi control socket unavailable or permission denied''
        | Some (sent, reply) \<Rightarrow>
            if \<not> sent then Inl ''Cannot send Wi-Fi control request''
            else (case reply of
                None \<Rightarrow> Inl ''Wi-Fi control response timed out''
              | Some r \<Rightarrow>
                  if r = [] \<or> length r \<ge> 65536 then Inl ''Missing or oversized Wi-Fi response''
                  else if operation = Results \<and> \<not> starts_with results_header r
                  then Inl ''Invalid Wi-Fi scan results response''
                  else Inr r))"

definition wifi_request_scan :: "path \<Rightarrow> (bool \<times> string option) option \<Rightarrow> string option" where
  "wifi_request_scan path exchange = (case wifi_control_read path Scan exchange of
       Inl e \<Rightarrow> Some e
     | Inr response \<Rightarrow>
         if response = ''OK'' @ [CHR 0x0A] then None
         else Some (if response = ''FAIL-BUSY'' @ [CHR 0x0A] then ''Wi-Fi scan is busy; retry later''
                    else ''Wi-Fi scan request rejected''))"

section \<open>The limit on the rate\<close>

text \<open>
  \<open>dir_safe\<close> and \<open>file_safe\<close> are the outcomes of the checks on the two descriptors, \<open>state\<close> the
  contents of the file (\<open>None\<close> when the read fails), \<open>persisted\<close> whether the new stamp was
  written, truncated and synced. The result is an error or the new contents.
\<close>

definition reserve_scan_slot ::
  "bool \<Rightarrow> bool \<Rightarrow> string option \<Rightarrow> int \<Rightarrow> bool \<Rightarrow> string + string" where
  "reserve_scan_slot dir_safe file_safe state now persisted =
     (if \<not> dir_safe then Inl ''Unsafe or missing scan state directory''
      else if \<not> file_safe then Inl ''Scan state is unsafe or busy''
      else case state of
          None \<Rightarrow> Inl ''Cannot read scan state''
        | Some buffer \<Rightarrow>
            if length buffer \<ge> 64 \<or> now \<le> 0 then Inl ''Cannot read scan state''
            else let write = (if persisted then Inr (show_int now) else Inl ''Cannot persist scan cooldown'') in
              if buffer = [] then write
              else (case from_chars buffer of
                  None \<Rightarrow> Inl ''Invalid scan state''
                | Some last_scan \<Rightarrow>
                    if last_scan \<le> 0 then Inl ''Invalid scan state''
                    else if last_scan > now \<or> now - last_scan < 30
                    then Inl ''Scan cooldown: wait at least 30 seconds between attempts''
                    else write))"

section \<open>The publication of the snapshot\<close>

text \<open>The write loop: \<open>None\<close> is \<open>EINTR\<close>. The result is the number of bytes written.\<close>

fun publish_loop :: "int option list \<Rightarrow> string \<Rightarrow> nat" where
  "publish_loop rs [] = 0"
| "publish_loop [] (c # cs) = 0"
| "publish_loop (None # rs) (c # cs) = publish_loop rs (c # cs)"
| "publish_loop (Some n # rs) (c # cs) =
     (if n \<le> 0 then 0
      else let k = min (nat n) (length (c # cs)) in k + publish_loop rs (drop k (c # cs)))"

text \<open>
  The directory is the map from names to contents. \<open>created\<close> is the temporary name the code
  could create (\<open>None\<close> after 16 failures), \<open>synced\<close> the outcome of \<open>fchmod\<close> and \<open>fsync\<close>,
  \<open>closed\<close> and \<open>renamed\<close> those of the last two calls.
\<close>

definition publish_wifi_snapshot ::
  "bool \<Rightarrow> string option \<Rightarrow> int option list \<Rightarrow> bool \<Rightarrow> bool \<Rightarrow> bool \<Rightarrow> string
     \<Rightarrow> (string \<rightharpoonup> string) \<Rightarrow> string option \<times> (string \<rightharpoonup> string)" where
  "publish_wifi_snapshot dir_safe created rs synced closed renamed data dir =
     (if data = [] \<or> length data \<ge> 65536 then (Some ''Invalid snapshot size'', dir)
      else if \<not> dir_safe
      then (Some ''Snapshot directory must be owned by collector and not writable by others'', dir)
      else case created of
          None \<Rightarrow> (Some ''Cannot create snapshot temporary file'', dir)
        | Some tmp \<Rightarrow>
            let written = publish_loop rs data;
                dir = dir(tmp \<mapsto> take written data);
                complete = (written = length data \<and> synced)
            in if \<not> complete \<or> \<not> closed \<or> \<not> renamed
               then (Some ''Cannot publish complete snapshot'', dir(tmp := None))
               else (None, (dir(''wifi.txt'' := dir tmp))(tmp := None)))"

section \<open>Properties of the session\<close>

lemma receive_keeps:
  "receive_message s = Some (m, s') \<Longrightarrow> outbox s' = outbox s \<and> scan_sent s' = scan_sent s
     \<and> scan_completed s' = scan_completed s \<and> messages s' = messages s + 1 \<and> messages s' \<le> 512"
  by (auto simp: receive_message_def split: list.splits if_splits)

lemma await_reply_keeps:
  "await_reply s = Some (m, s') \<Longrightarrow> outbox s' = outbox s \<and> scan_sent s' = scan_sent s
     \<and> (\<not> scan_sent s \<longrightarrow> scan_completed s' = scan_completed s)
     \<and> (scan_completed s \<longrightarrow> scan_completed s') \<and> messages s' \<le> 512"
proof (induction s arbitrary: m s' rule: await_reply.induct)
  case (1 s)
  obtain m1 s1 where r: "receive_message s = Some (m1, s1)"
    using "1.prems" by (subst (asm) await_reply.simps) (auto split: option.splits)
  note k = receive_keeps [OF r]
  show ?case
  proof (cases "scan_event m1 s1")
    case None
    then have "s' = s1" using "1.prems" r by (subst (asm) await_reply.simps) simp
    with k show ?thesis by simp
  next
    case (Some s2)
    then have "await_reply s2 = Some (m, s')" using "1.prems" r by (subst (asm) await_reply.simps) simp
    then show ?thesis using "1.IH" [OF r refl Some] k scan_event_keeps [OF Some] by simp
  qed
qed

lemma await_scan_keeps:
  "await_scan s = Inr s' \<Longrightarrow> outbox s' = outbox s \<and> scan_sent s' = scan_sent s
     \<and> (scan_completed s' \<or> scan_failed s')"
proof (induction s arbitrary: s' rule: await_scan.induct)
  case (1 s)
  show ?case
  proof (cases "scan_completed s \<or> scan_failed s")
    case True
    then have "s' = s" using "1.prems" by (subst (asm) await_scan.simps) simp
    with True show ?thesis by simp
  next
    case False
    obtain m1 s1 where r: "receive_message s = Some (m1, s1)"
      using "1.prems" False by (subst (asm) await_scan.simps) (auto split: option.splits)
    obtain s2 where e: "scan_event m1 s1 = Some s2"
      using "1.prems" False r by (subst (asm) await_scan.simps) (auto split: option.splits)
    have "await_scan s2 = Inr s'" using "1.prems" False r e by (subst (asm) await_scan.simps) simp
    then show ?thesis using "1.IH" [OF False r refl e] receive_keeps [OF r] scan_event_keeps [OF e] by simp
  qed
qed

lemma scan_command_keeps:
  assumes "scan_command ok text s = (r, s')"
  shows "outbox s' = outbox s \<and> r = Inl ''Cannot send Wi-Fi scan command'' \<or> outbox s' = outbox s @ [text]"
    and "r = Inr m \<Longrightarrow> outbox s' = outbox s @ [text] \<and> messages s' \<le> 512 \<and> (scan_completed s \<longrightarrow> scan_completed s')"
  using assms by (auto simp: scan_command_def Let_def split: if_splits option.splits dest: await_reply_keeps)

lemma scan_attached_outbox:
  assumes "scan_attached sends s = (r, s')"
  shows "outbox s' \<in> {outbox s, outbox s @ [''SCAN''], outbox s @ [''SCAN'', ''SCAN_RESULTS'']}"
    and "r = Inr results \<Longrightarrow> outbox s' = outbox s @ [''SCAN'', ''SCAN_RESULTS''] \<and> scan_completed s'
      \<and> starts_with results_header results \<and> messages s' \<le> 512"
proof -
  obtain r1 s1 where 1: "scan_command (sends 1) ''SCAN'' (s\<lparr>scan_sent := True\<rparr>) = (r1, s1)" by fastforce
  have o1: "outbox s1 \<in> {outbox s, outbox s @ [''SCAN'']}" using scan_command_keeps(1) [OF 1] by auto
  have "outbox s' \<in> {outbox s, outbox s @ [''SCAN''], outbox s @ [''SCAN'', ''SCAN_RESULTS'']}
    \<and> (r = Inr results \<longrightarrow> outbox s' = outbox s @ [''SCAN'', ''SCAN_RESULTS''] \<and> scan_completed s'
      \<and> starts_with results_header results \<and> messages s' \<le> 512)"
  proof (cases "r1 = Inr (''OK'' @ [CHR 0x0A]) \<and> (\<exists>s2. await_scan s1 = Inr s2 \<and> \<not> scan_failed s2)")
    case False
    then have "s' = s1 \<and> (\<forall>x. r \<noteq> Inr x) \<or> (\<exists>s2. await_scan s1 = Inr s2 \<and> s' = s2 \<and> (\<forall>x. r \<noteq> Inr x))"
      using assms 1 by (cases r1) (auto simp: scan_attached_def split: if_splits sum.splits)
    with o1 show ?thesis by (auto dest: await_scan_keeps)
  next
    case True
    then obtain s2 where r1: "r1 = Inr (''OK'' @ [CHR 0x0A])" and 2: "await_scan s1 = Inr s2" "\<not> scan_failed s2" by blast
    obtain r3 s3 where 3: "scan_command (sends 2) ''SCAN_RESULTS'' s2 = (r3, s3)" by fastforce
    have o2: "outbox s2 = outbox s @ [''SCAN'']" "scan_completed s2"
      using await_scan_keeps [OF 2(1)] 2(2) scan_command_keeps(2) [OF 1 r1] by auto
    have "s' = s3" and r: "r = Inr x \<Longrightarrow> r3 = Inr x \<and> starts_with results_header x" for x
      using assms 1 r1 2 3 by (auto simp: scan_attached_def split: sum.splits if_splits)
    moreover have "outbox s3 \<in> {outbox s @ [''SCAN''], outbox s @ [''SCAN'', ''SCAN_RESULTS'']}"
      using scan_command_keeps(1) [OF 3] o2(1) by auto
    ultimately show ?thesis
      using scan_command_keeps(2) [OF 3, of results] o2 r [of results] by auto
  qed
  then show "outbox s' \<in> {outbox s, outbox s @ [''SCAN''], outbox s @ [''SCAN'', ''SCAN_RESULTS'']}"
    and "r = Inr results \<Longrightarrow> outbox s' = outbox s @ [''SCAN'', ''SCAN_RESULTS''] \<and> scan_completed s'
      \<and> starts_with results_header results \<and> messages s' \<le> 512" by blast+
qed

section \<open>Properties of the helper protocol\<close>

lemma receive_loop_limit: "receive_loop limit rs out = Some s \<Longrightarrow> length out \<le> limit \<Longrightarrow> length s \<le> limit"
  by (induction limit rs out rule: receive_loop.induct) (auto split: if_splits)

lemma receive_loop_data:
  "receive_loop limit (map R_data ds @ [R_eof]) out =
     (if length out + length (concat ds) \<le> limit \<or> ds = [] then Some (out @ concat ds) else None)"
proof (induction ds arbitrary: out)
  case (Cons d ds)
  show ?case using Cons.IH [of "out @ d"] by auto
qed simp

lemma helper_reply:
  assumes "socket_path_ok path" "concat ds = serve_wifi_scan rs action" "ds \<noteq> []"
  shows "request_wifi_scan path (Some (True, map R_data ds @ [R_eof])) =
     (if \<not> helper_acts rs then Inl ''Invalid scan request''
      else case action of
          Inl e \<Rightarrow> Inl (take 256 e)
        | Inr results \<Rightarrow>
            if length results > 65500 \<or> \<not> starts_with results_header results then Inl ''Invalid scan results''
            else Inr results)"
proof -
  have "length (serve_wifi_scan rs action) \<le> 65536"
    by (auto simp: serve_wifi_scan_def split: sum.splits)
  then have r: "receive_loop 65536 (map R_data ds @ [R_eof]) [] = Some (serve_wifi_scan rs action)"
    using assms(2) by (simp add: receive_loop_data)
  have no: "\<not> starts_with (''OK'' @ CHR 0x0A # results_header) (''ERROR'' @ x)" for x
    by (simp add: starts_with_def results_header_def)
  have yes: "starts_with (''ERROR'' @ [CHR 0x0A]) (''ERROR'' @ CHR 0x0A # x)" for x
    by (simp add: starts_with_def)
  have ok: "starts_with (''OK'' @ CHR 0x0A # results_header) (''OK'' @ CHR 0x0A # results)
      = starts_with results_header results" for results
    by (simp add: starts_with_def)
  show ?thesis
    unfolding request_wifi_scan_def using assms(1) r no yes ok
    by (auto simp: serve_wifi_scan_def helper_acts_def split: sum.splits)
qed

section \<open>Properties of the rate limit\<close>

lemma reserve_ok:
  assumes "reserve_scan_slot d f (Some buffer) now p = Inr new"
  shows "new = show_int now \<and> 0 < now \<and> (buffer = [] \<or> (\<exists>t. from_chars buffer = Some t \<and> 0 < t \<and> t + 30 \<le> now))"
  using assms by (auto simp: reserve_scan_slot_def Let_def split: if_splits option.splits)

text \<open>The file between attempts: unchanged by a failure (a failed write is the exception the
  hypothesis of the property excludes), the new stamp after a success.\<close>

fun reserve_run :: "(bool \<times> bool \<times> int) list \<Rightarrow> string \<Rightarrow> int list" where
  "reserve_run [] state = []"
| "reserve_run ((d, f, now) # attempts) state =
     (case reserve_scan_slot d f (Some state) now True of
        Inl _ \<Rightarrow> reserve_run attempts state
      | Inr new \<Rightarrow> now # reserve_run attempts new)"

fun spaced :: "int \<Rightarrow> int list \<Rightarrow> bool" where
  "spaced gap (a # b # rest) \<longleftrightarrow> a + gap \<le> b \<and> spaced gap (b # rest)"
| "spaced gap _ \<longleftrightarrow> True"

lemma reserve_run_spaced:
  "\<forall>(d, f, now) \<in> set attempts. now < 2 ^ 63 \<Longrightarrow>
     spaced 30 (reserve_run attempts state)
     \<and> (\<forall>t. from_chars state = Some t \<and> state \<noteq> [] \<longrightarrow> (\<forall>x xs. reserve_run attempts state = x # xs \<longrightarrow> t + 30 \<le> x))"
proof (induction attempts arbitrary: state)
  case (Cons a attempts)
  obtain d f now where a: "a = (d, f, now)" by (cases a)
  show ?case
  proof (cases "reserve_scan_slot d f (Some state) now True")
    case (Inl e)
    with Cons a show ?thesis by simp
  next
    case (Inr new)
    have n: "new = show_int now" "0 < now"
      "state = [] \<or> (\<exists>t. from_chars state = Some t \<and> 0 < t \<and> t + 30 \<le> now)"
      using reserve_ok [OF Inr] by auto
    have "from_chars new = Some now"
      unfolding n(1) using n(2) Cons.prems a by (intro from_chars_show_int) auto
    moreover have "new \<noteq> []" by (simp add: n(1))
    ultimately have ih: "spaced 30 (reserve_run attempts new)"
      "\<forall>x xs. reserve_run attempts new = x # xs \<longrightarrow> now + 30 \<le> x"
      using Cons.IH [of new] Cons.prems by auto
    have "spaced 30 (now # reserve_run attempts new)"
      using ih by (cases "reserve_run attempts new") auto
    with n(3) Inr a show ?thesis by auto
  qed
qed simp

section \<open>Properties of the publication\<close>

lemma publish_loop_le: "publish_loop rs data \<le> length data"
  by (induction rs data rule: publish_loop.induct) (auto simp: Let_def)

lemma publish_atomic:
  assumes "publish_wifi_snapshot ds (Some tmp) rs sy cl re data dir = (err, dir')" "tmp \<noteq> ''wifi.txt''"
  shows "dir' ''wifi.txt'' = (if err = None then Some data else dir ''wifi.txt'')"
    and "data \<noteq> [] \<and> length data < 65536 \<and> ds \<longrightarrow> dir' tmp = None"
    and "err = None \<longrightarrow> data \<noteq> [] \<and> length data < 65536"
  using assms by (auto simp: publish_wifi_snapshot_def Let_def split: if_splits)

section \<open>Properties\<close>

lemma scan_outbox:
  assumes "wifi_scan_and_wait path connected sends msgs = (r, s)"
  shows "outbox s \<in> {[], [''ATTACH''], [''ATTACH'', ''DETACH''], [''ATTACH'', ''SCAN'', ''DETACH''],
      [''ATTACH'', ''SCAN'', ''SCAN_RESULTS'', ''DETACH'']}
    \<and> (\<forall>results. r = Inr results \<longrightarrow> outbox s = [''ATTACH'', ''SCAN'', ''SCAN_RESULTS'', ''DETACH'']
        \<and> scan_completed s \<and> starts_with results_header results \<and> messages s \<le> 512)"
proof (cases "socket_path_ok path \<and> connected")
  case False
  then show ?thesis using assms by (auto simp: wifi_scan_and_wait_def new_session_def split: if_splits)
next
  case True
  obtain r1 s1 where 1: "scan_command (sends 0) ''ATTACH'' (new_session msgs) = (r1, s1)" by fastforce
  obtain r2 s2 where 2: "scan_attached sends s1 = (r2, s2)" by fastforce
  have o1: "outbox s1 \<in> {[], [''ATTACH'']}" using scan_command_keeps(1) [OF 1] by (auto simp: new_session_def)
  show ?thesis
  proof (cases "r1 = Inr (''OK'' @ [CHR 0x0A])")
    case False
    then have "s = s1 \<and> (\<forall>x. r \<noteq> Inr x)"
      using assms 1 True by (auto simp: wifi_scan_and_wait_def split: sum.splits if_splits)
    with o1 show ?thesis by auto
  next
    case True
    then have "outbox s1 = [''ATTACH'']"
      using scan_command_keeps(2) [OF 1 True] by (simp add: new_session_def)
    moreover have "r = r2" "s = detach s2"
      using assms 1 2 True \<open>socket_path_ok path \<and> connected\<close> by (auto simp: wifi_scan_and_wait_def)
    ultimately show ?thesis
      using scan_attached_outbox [OF 2] by (auto simp: detach_def)
  qed
qed

text \<open>A scan session sends only its fixed commands, in their order, detaches whenever it had
  attached, and reports results only when the supplicant announced the end of a scan after the
  request for it was sent; it ends after at most 512 messages.\<close>

theorem scan_session_protocol:
  assumes "wifi_scan_and_wait path connected sends msgs = (r, s)"
  shows "outbox s \<in> {[], [''ATTACH''], [''ATTACH'', ''DETACH''], [''ATTACH'', ''SCAN'', ''DETACH''],
      [''ATTACH'', ''SCAN'', ''SCAN_RESULTS'', ''DETACH'']}
    \<and> (\<forall>results. r = Inr results \<longrightarrow> outbox s = [''ATTACH'', ''SCAN'', ''SCAN_RESULTS'', ''DETACH'']
        \<and> scan_completed s \<and> starts_with results_header results \<and> messages s \<le> 512)"
  using assms by (rule scan_outbox)

theorem scan_session_protocol_witness:
  "outbox (snd (wifi_scan_and_wait ''/run/w'' True (\<lambda>k. True) [])) \<in> {[], [''ATTACH''], [''ATTACH'', ''DETACH''],
     [''ATTACH'', ''SCAN'', ''DETACH''], [''ATTACH'', ''SCAN'', ''SCAN_RESULTS'', ''DETACH'']}"
  using scan_session_protocol [OF surjective_pairing] by blast

text \<open>The server and the scan helper agree: for any way the helper's answer is cut into pieces,
  the server returns the results of the action when the helper was asked properly and they are well
  formed, and otherwise the helper's error text (at most 256 characters).\<close>

theorem helper_protocol_refines_action:
  assumes "socket_path_ok path" "concat ds = serve_wifi_scan rs action" "ds \<noteq> []"
  shows "request_wifi_scan path (Some (True, map R_data ds @ [R_eof])) =
     (if \<not> helper_acts rs then Inl ''Invalid scan request''
      else case action of
          Inl e \<Rightarrow> Inl (take 256 e)
        | Inr results \<Rightarrow>
            if length results > 65500 \<or> \<not> starts_with results_header results then Inl ''Invalid scan results''
            else Inr results)"
  using assms by (rule helper_reply)

theorem helper_protocol_refines_action_witness:
  "request_wifi_scan ''/run/w'' (Some (True, map R_data [''ERR'', ''OR'' @ [CHR 0x0A], ''busy''] @ [R_eof])) = Inl ''busy''"
proof -
  have a: "receive_loop 8 [R_data (''SCAN'' @ [CHR 0x0A]), R_eof] [] = Some (''SCAN'' @ [CHR 0x0A])" by simp
  have "socket_path_ok ''/run/w''" by (simp add: socket_path_ok_def)
  from helper_protocol_refines_action [OF this, of "[''ERR'', ''OR'' @ [CHR 0x0A], ''busy'']"
      "[R_data (''SCAN'' @ [CHR 0x0A]), R_eof]" "Inl ''busy''"]
  show ?thesis using a by (simp add: serve_wifi_scan_def helper_acts_def)
qed

text \<open>However often a scan is asked for, and whatever the clock does in between, two scans that
  are granted are at least thirty seconds apart.\<close>

theorem scans_are_spaced:
  assumes "\<forall>(d, f, now) \<in> set attempts. now < 2 ^ 63"
  shows "spaced 30 (reserve_run attempts state)"
  using reserve_run_spaced [OF assms] by blast

theorem scans_are_spaced_witness:
  "spaced 30 (reserve_run [(True, True, 100), (True, True, 110), (True, True, 140)] [])"
  by (rule scans_are_spaced) simp

text \<open>Publishing a snapshot is atomic: the published file becomes exactly the new data when the
  operation succeeds and is what it was when it fails, wherever it fails; no temporary file is left.\<close>

theorem snapshot_publish_atomic:
  assumes "publish_wifi_snapshot safe (Some tmp) rs synced closed renamed data dir = (err, dir')" "tmp \<noteq> ''wifi.txt''"
  shows "dir' ''wifi.txt'' = (if err = None then Some data else dir ''wifi.txt'')
    \<and> dir' tmp = (if data = [] \<or> length data \<ge> 65536 \<or> \<not> safe then dir tmp else None)"
  using publish_atomic [OF assms] assms(1)
  by (auto simp: publish_wifi_snapshot_def split: if_splits)

theorem snapshot_publish_atomic_witness:
  "snd (publish_wifi_snapshot True (Some ''tmp'') [Some 1] True True True ''ab'' [''wifi.txt'' \<mapsto> ''old'']) ''wifi.txt''
     = Some ''old''"
  using snapshot_publish_atomic [OF surjective_pairing, of "''tmp''" True "[Some 1]" True True True "''ab''" "[''wifi.txt'' \<mapsto> ''old'']"]
  by (simp add: publish_wifi_snapshot_def)

end
