(* ===== verification/Session.thy ===== *)
theory Session
  imports Handlers WifiScan
begin

text \<open>
  A session of the server (\<open>handle_session\<close> in server/src/main.cpp): the request header, the
  administrative operations with their token, the dispatch to the client handlers; and the
  set-up of the server from its configuration (\<open>main\<close>).

  \<open>admin_env\<close> adds what other processes and the operating system answer: the Wi-Fi change
  helper, the exchange with the scan helper (see WifiScan), the interfaces, \<open>std::stod\<close>.
\<close>

record admin_env = env +
  e_wifi_change :: "string \<Rightarrow> string option"
  e_scan_exchange :: "path \<Rightarrow> (bool \<times> recv_result list) option"
  e_interfaces :: "(string \<times> bool \<times> string) list option"
  e_stod :: "string \<Rightarrow> real option"

definition ok_header :: header where
  "ok_header = hd_set ''status'' ''ok'' []"

text \<open>A reply with a payload: its size is set after the status and the fields given.\<close>

definition reply_payload :: "header \<Rightarrow> string \<Rightarrow> srv \<Rightarrow> srv" where
  "reply_payload h payload s = send_payload (hd_set ''payload_size'' (show_nat (length payload)) h) payload s"

definition reply_result :: "string + string \<Rightarrow> srv \<Rightarrow> srv" where
  "reply_result r s = (case r of Inl e \<Rightarrow> send_error e s | Inr payload \<Rightarrow> reply_payload ok_header payload s)"

definition lines_payload :: "string list \<Rightarrow> string" where
  "lines_payload ls = concat (map (\<lambda>l. l @ [CHR 0x0A]) ls)"

text \<open>An optional numeric field: \<open>None\<close> when \<open>stoull\<close> throws.\<close>

definition number_field :: "header \<Rightarrow> string \<Rightarrow> nat \<Rightarrow> nat option" where
  "number_field req field def = (if hd_get req field [] = [] then Some def else stoull (hd_get req field []))"

section \<open>The administrative operations\<close>

definition admin_wifi_change :: "('z) admin_env_scheme \<Rightarrow> bool \<Rightarrow> bool \<Rightarrow> header \<Rightarrow> srv \<Rightarrow> srv" where
  "admin_wifi_change env admin_only wifi_path req s =
     (if \<not> admin_only \<or> \<not> config_get_bool (s_config s) ''wifi_change_enabled'' False \<or> \<not> wifi_path
      then send_error ''Wi-Fi change disabled or requires Ethernet admin connection'' s
      else let packet = hd_get req ''wifi_packet'' [] in
        if packet = [] \<or> length packet > 256 then send_error ''Invalid Wi-Fi request'' s
        else (case e_wifi_change env packet of
            None \<Rightarrow> send_error ''Wi-Fi helper unavailable; operation outcome unknown'' s
          | Some payload \<Rightarrow> reply_payload ok_header payload s))"

definition admin_wifi_scan :: "('z) admin_env_scheme \<Rightarrow> srv \<Rightarrow> srv" where
  "admin_wifi_scan env s =
     (if \<not> config_get_bool (s_config s) ''wifi_scan_enabled'' False
      then send_error ''Wi-Fi scanning is disabled on this server'' s
      else let path = config_get (s_config s) ''wifi_scan_socket'' ''/run/encoder-wifi-scan.sock''
           in reply_result (request_wifi_scan path (e_scan_exchange env path)) s)"

definition admin_wifi_snapshot :: "bool \<Rightarrow> srv \<Rightarrow> srv" where
  "admin_wifi_snapshot current_status s =
     (if \<not> config_get_bool (s_config s) ''wifi_read_enabled'' False
      then send_error ''Wi-Fi diagnostics are disabled on this server'' s
      else let path = config_get (s_config s) ''wifi_snapshot_file'' ''/run/encoder-network/wifi.txt'' in
        (case now_epoch_sec s of (now, s) \<Rightarrow>
           reply_result (wifi_snapshot now (map_option string_of (io_fs s path)) current_status) s))"

definition user_list_line :: "users \<Rightarrow> string \<times> bool \<Rightarrow> string" where
  "user_list_line us nb = (case nb of (name, blocked) \<Rightarrow>
     name @ ''|'' @ (if blocked then ''blocked'' else ''active'') @ ''|'' @ show_nat (user_permissions us name))"

definition admin_list_users :: "srv \<Rightarrow> srv" where
  "admin_list_users s =
     (let users = list_users (s_users s) in
      reply_payload (hd_set ''user_count'' (show_nat (length users)) ok_header)
        (lines_payload (map (user_list_line (s_users s)) users)) s)"

text \<open>
  The change an operation on a user makes: \<open>Inl\<close> is an error reply, \<open>Inr\<close> the outcome of the
  change, the new users and what is left of the random numbers.
\<close>

definition user_change ::
  "('z) admin_env_scheme \<Rightarrow> string \<Rightarrow> header \<Rightarrow> string \<Rightarrow> srv \<Rightarrow> string + (bool \<times> users \<times> rng)" where
  "user_change env op req username s =
     (if op = ''admin_set_permissions'' then
        (case hd_get req ''permissions'' [] of
           [c] \<Rightarrow> (let n = of_char c :: nat in
              if n < 48 \<or> n > 51 then Inl ''Invalid permissions''
              else (case set_permissions (s_users s) username (n - 48) of (ok, us) \<Rightarrow> Inr (ok, us, s_rng s)))
         | _ \<Rightarrow> Inl ''Invalid permissions'')
      else if op = ''admin_block_user'' then
        (let blocked = hd_get req ''blocked'' [] in
         if blocked \<noteq> ''0'' \<and> blocked \<noteq> ''1'' then Inl ''Invalid blocked value''
         else (case set_blocked (s_users s) username (blocked = ''1'') of (ok, us) \<Rightarrow> Inr (ok, us, s_rng s)))
      else
        (let password = hd_get req ''new_password'' [] in
         if length password < 8 \<or> length password > 1024 then Inl ''Password must contain 8-1024 bytes''
         else Inr (upsert (e_kdf env) (s_users s) username password (s_rng s))))"

definition admin_update_user :: "('z) admin_env_scheme \<Rightarrow> string \<Rightarrow> header \<Rightarrow> srv \<Rightarrow> srv" where
  "admin_update_user env op req s =
     (let username = hd_get req ''username'' [] in
      if \<not> valid_username username
      then send_error ''Username must contain 1-64 Latin letters, digits, dots, underscores or hyphens'' s
      else let exists = user_exists (s_users s) username in
        if (op = ''admin_create_user'' \<and> exists) \<or> (op \<noteq> ''admin_create_user'' \<and> \<not> exists)
        then send_error (if exists then ''User already exists'' else ''User not found'') s
        else let previous = s_users s in
          (case user_change env op req username s of
             Inl e \<Rightarrow> send_error e s
           | Inr (updated, users, rng) \<Rightarrow>
               let s = s\<lparr>s_users := users, s_rng := rng\<rparr> in
               (case (if updated then save_users (env.truncate env) s else (False, s)) of
                  (False, s) \<Rightarrow> send_error ''Cannot save user database'' (s\<lparr>s_users := previous\<rparr>)
                | (True, s) \<Rightarrow> send_ok ''User updated'' (io_event op ''admin'' username s))))"

definition admin_get_alerts :: "header \<Rightarrow> srv \<Rightarrow> srv" where
  "admin_get_alerts req s =
     (case (number_field req ''since_id'' 0, number_field req ''limit'' 100) of
        (Some since, Some limit) \<Rightarrow>
          let alerts = get_alerts_since (io_fs s) (io_audit s) (word_of_nat since) limit;
              last_id = fold (\<lambda>a i. if al_id a > i then al_id a else i) alerts (word_of_nat since);
              payload = lines_payload (map format_alert_line alerts)
          in send_payload (hd_set ''last_id'' (show_nat (unat last_id))
               (hd_set ''payload_size'' (show_nat (length payload)) ok_header)) payload s
      | _ \<Rightarrow> send_error ''Invalid parameters'' s)"

text \<open>The three operations that return lines: the log, the statistics, the locks.\<close>

definition admin_lines :: "string \<Rightarrow> header \<Rightarrow> srv \<Rightarrow> srv" where
  "admin_lines op req s =
     (case number_field req ''limit'' 200 of
        None \<Rightarrow> send_error ''Invalid parameters'' s
      | Some limit \<Rightarrow>
          (case (if op = ''admin_get_logs'' then (tail_logs (io_fs s) (io_audit s) limit, s)
                 else if op = ''admin_get_stats'' then (dump_stats limit (s_monitor s), s)
                 else dump_locks limit (s_monitor s) s) of
             (ls, s) \<Rightarrow> reply_payload ok_header (lines_payload ls) s))"

definition admin_unlock_user :: "header \<Rightarrow> srv \<Rightarrow> srv" where
  "admin_unlock_user req s =
     (let username = hd_get req ''username'' [] in
      if username = [] then send_error ''Missing username'' s
      else (case unlock_user username (s_monitor s) s of
          (False, m, s) \<Rightarrow> send_error ''User not found'' (s\<lparr>s_monitor := m\<rparr>)
        | (True, m, s) \<Rightarrow>
            send_ok ''User unlocked'' (io_event ''admin_unlock_user'' ''admin'' username (s\<lparr>s_monitor := m\<rparr>))))"

definition binding_list_line :: "string \<times> binding_record \<Rightarrow> string" where
  "binding_list_line kv = (case kv of (cid, r) \<Rightarrow>
     cid @ ''|'' @ bit_text (cb_allowed r) @ ''|'' @ show_int (cb_first_seen r) @ ''|''
       @ show_int (cb_last_seen r) @ ''|'' @ cb_label r)"

definition admin_get_binding :: "header \<Rightarrow> srv \<Rightarrow> srv" where
  "admin_get_binding req s =
     (case number_field req ''limit'' 500 of
        None \<Rightarrow> send_error ''Invalid parameters'' s
      | Some limit \<Rightarrow>
          let shown = (if limit > 0 then take limit (s_bindings s) else s_bindings s)
          in reply_payload (hd_set ''binding_enabled'' (bit_text (s_binding_enabled s)) ok_header)
               (lines_payload (map binding_list_line shown)) s)"

definition admin_set_binding :: "header \<Rightarrow> srv \<Rightarrow> srv" where
  "admin_set_binding req s =
     (let enabled = hd_get req ''enabled'' []; en = (enabled = ''1'' \<or> enabled = ''true'');
          s = io_event ''admin_set_binding'' ''admin'' (if en then ''enabled'' else ''disabled'') (set_binding en s)
      in send_ok (if en then ''Binding enabled'' else ''Binding disabled'') s)"

definition admin_set_client_allowed :: "header \<Rightarrow> srv \<Rightarrow> srv" where
  "admin_set_client_allowed req s =
     (let client_id = hd_get req ''client_id'' [] in
      if client_id = [] then send_error ''Missing client_id'' s
      else let a = hd_get req ''allowed'' []; allowed = (a = ''1'' \<or> a = ''true'');
               s = io_event ''admin_set_client_allowed'' ''admin'' (client_id @ ''='' @ bit_text allowed)
                     (set_client_allowed client_id allowed s)
           in send_ok (if allowed then ''Client allowed'' else ''Client blocked'') s)"

definition handle_admin :: "('z) admin_env_scheme \<Rightarrow> bool \<Rightarrow> bool \<Rightarrow> string \<Rightarrow> header \<Rightarrow> srv \<Rightarrow> srv" where
  "handle_admin env admin_only wifi_path op req s =
     (if op = ''admin_wifi_change'' then admin_wifi_change env admin_only wifi_path req s
      else if op = ''admin_wifi_scan'' then admin_wifi_scan env s
      else if op = ''admin_wifi_results'' \<or> op = ''admin_wifi_status''
      then admin_wifi_snapshot (op = ''admin_wifi_status'') s
      else if op = ''admin_network_status'' then reply_result (network_status (e_interfaces env)) s
      else if op = ''admin_list_users'' then admin_list_users s
      else if op = ''admin_create_user'' \<or> op = ''admin_reset_password'' \<or> op = ''admin_block_user''
        \<or> op = ''admin_set_permissions''
      then admin_update_user env op req s
      else if op = ''admin_get_alerts'' then admin_get_alerts req s
      else if op = ''admin_get_logs'' \<or> op = ''admin_get_stats'' \<or> op = ''admin_get_locks''
      then admin_lines op req s
      else if op = ''admin_unlock_user'' then admin_unlock_user req s
      else if op = ''admin_get_binding'' then admin_get_binding req s
      else if op = ''admin_set_binding'' then admin_set_binding req s
      else if op = ''admin_set_client_allowed'' then admin_set_client_allowed req s
      else send_error ''Unknown admin operation'' s)"

section \<open>The session\<close>

definition is_admin_op :: "string \<Rightarrow> bool" where
  "is_admin_op op \<longleftrightarrow> starts_with ''admin_'' op"

definition admin_authorized :: "header \<Rightarrow> srv \<Rightarrow> bool" where
  "admin_authorized req s \<longleftrightarrow> s_admin_token s \<noteq> [] \<and> hd_get req ''admin_token'' [] = s_admin_token s"

text \<open>The dispatch on a request whose header was read.\<close>

definition handle_request :: "('z) admin_env_scheme \<Rightarrow> bool \<Rightarrow> bool \<Rightarrow> header \<Rightarrow> srv \<Rightarrow> srv" where
  "handle_request env admin_only wifi_path req s =
     (let op = hd_get req ''op'' []; cenv = env.truncate env in
      if admin_only \<and> \<not> is_admin_op op
      then send_error ''Administrative port accepts only admin operations'' s
      else if is_admin_op op then
        (if \<not> admin_authorized req s then send_error ''Unauthorized'' s
         else handle_admin env admin_only wifi_path op req s)
      else if op = ''encrypt'' then handle_encrypt cenv req s
      else if op = ''decrypt'' then handle_decrypt cenv req s
      else if op = ''change_password'' then handle_change_password cenv req s
      else if op = ''auth_check'' then handle_auth_check cenv req s
      else send_error ''Unknown operation'' s)"

text \<open>\<open>accepted\<close> is the outcome of the TLS handshake; without it, or when no header can be read,
  the session ends without a reply.\<close>

definition handle_session :: "('z) admin_env_scheme \<Rightarrow> bool \<Rightarrow> bool \<Rightarrow> bool \<Rightarrow> srv \<Rightarrow> srv" where
  "handle_session env admin_only wifi_path accepted s =
     (if \<not> accepted then s
      else case read_header (s_max_header_bytes s) (c_in s) of
          None \<Rightarrow> s\<lparr>c_in := []\<rparr>
        | Some (req, rest) \<Rightarrow> handle_request env admin_only wifi_path req (s\<lparr>c_in := rest\<rparr>))"

section \<open>The set-up\<close>

definition cfg_size :: "config \<Rightarrow> string \<Rightarrow> int \<Rightarrow> nat" where
  "cfg_size c key def = size_of_int (config_get_int c key def)"

definition cfg_double :: "(string \<Rightarrow> real option) \<Rightarrow> config \<Rightarrow> string \<Rightarrow> string \<Rightarrow> real \<Rightarrow> real" where
  "cfg_double to_double c key def fallback =
     (case to_double (config_get c key def) of None \<Rightarrow> fallback | Some d \<Rightarrow> d)"

definition monitor_config_of :: "(string \<Rightarrow> real option) \<Rightarrow> config \<Rightarrow> monitor_config" where
  "monitor_config_of to_double c =
     \<lparr>failed_login_threshold = cfg_size c ''anomaly_failed_login_threshold'' 3,
      failed_login_window_sec = config_get_int c ''anomaly_failed_login_window_sec'' 600,
      bulk_files_threshold = cfg_size c ''anomaly_bulk_files_threshold'' 20,
      bulk_files_window_sec = config_get_int c ''anomaly_bulk_files_window_sec'' 300,
      time_min_samples = cfg_size c ''anomaly_time_min_samples'' 5,
      time_hour_fraction = cfg_double to_double c ''anomaly_time_hour_fraction'' ''0.2'' (2 / 10),
      alert_cooldown_sec = config_get_int c ''anomaly_alert_cooldown_sec'' 600,
      work_hours_start = config_get_int c ''anomaly_work_hours_start'' (- 1),
      work_hours_end = config_get_int c ''anomaly_work_hours_end'' (- 1),
      lock_failed_login_sec = config_get_int c ''anomaly_failed_login_lock_sec'' 0,
      lock_bulk_files_sec = config_get_int c ''anomaly_bulk_files_lock_sec'' 0,
      lock_suspicious_time_sec = config_get_int c ''anomaly_time_lock_sec'' 0,
      decrypt_burst_threshold = cfg_size c ''anomaly_decrypt_burst_threshold'' 20,
      decrypt_burst_window_sec = config_get_int c ''anomaly_decrypt_burst_window_sec'' 60,
      decrypt_volume_threshold_mb = cfg_size c ''anomaly_decrypt_volume_threshold_mb'' 256,
      decrypt_volume_window_sec = config_get_int c ''anomaly_decrypt_volume_window_sec'' 300,
      profile_min_decrypt_samples = cfg_size c ''anomaly_profile_min_decrypt_samples'' 20,
      profile_decrypt_rate_factor = cfg_double to_double c ''anomaly_profile_decrypt_rate_factor'' ''3.0'' 3,
      profile_decrypt_bytes_factor = cfg_double to_double c ''anomaly_profile_decrypt_bytes_factor'' ''4.0'' 4\<rparr>"

text \<open>The context \<open>main\<close> builds from a configuration and the files: the users, the audit service,
  the monitor with its statistics, the binding policy, which the configuration can only enable.\<close>

definition server_init :: "('z) admin_env_scheme \<Rightarrow> config \<Rightarrow> rng \<Rightarrow> io \<Rightarrow> srv" where
  "server_init env c rng io =
     (let storage = config_get c ''storage_dir'' ''storage'';
          fs = io_fs io;
          logs = path_join storage ''logs'';
          users_db = path_join storage ''users.db'';
          audit = audit_new (path_join logs ''events.log'') (path_join logs ''alerts.log'') fs;
          m0 = \<lparr>m_cfg = monitor_config_of (e_stod env) c, m_stats_path = path_join storage ''user_stats.db'', m_stats = []\<rparr>;
          s = \<lparr>io_fs = fs, io_audit = audit, io_time = io_time io, io_ticks = io_ticks io,
               io_wout = io_wout io, io_writes = io_writes io,
               s_config = c, s_users = snd (users_load fs users_db), s_users_db_path = users_db,
               s_keys_dir = path_join storage ''keys'', s_hashes_dir = path_join storage ''hashes'',
               s_admin_token = config_get c ''admin_token'' [],
               s_binding_db_path = path_join storage ''client_binding.db'',
               s_monitor = snd (load_stats fs m0), s_binding_enabled = False, s_bindings = [],
               s_max_header_bytes = cfg_size c ''max_header_bytes'' 65536,
               s_max_file_bytes = cfg_size c ''max_file_bytes'' 104857600,
               s_rng = rng, c_in = [], c_rets = [], c_trace = []\<rparr>;
          s = load_binding_policy s
      in if config_get_bool c ''client_binding_enabled'' False
         then save_binding_policy (s\<lparr>s_binding_enabled := True\<rparr>) else s)"

text \<open>\<open>--init-user\<close>: \<open>False\<close> is the exit status 1.\<close>

definition init_user :: "('z) admin_env_scheme \<Rightarrow> string \<Rightarrow> string \<Rightarrow> srv \<Rightarrow> bool \<times> srv" where
  "init_user env username password s =
     (case upsert (e_kdf env) (s_users s) username password (s_rng s) of
        (ok, users, rng) \<Rightarrow>
          let s = s\<lparr>s_users := users, s_rng := rng\<rparr> in
          if ok then save_users (env.truncate env) s else (False, s))"

end
