(* ===== verification/ServerSafety.thy ===== *)
theory ServerSafety
  imports Session
begin

text \<open>
  What the server's handlers guarantee. First the parts of the state the effects and the output
  leave alone; then which requests can make the server send file data, what a failed or
  unauthorised request changes, and that the user database and its file stay consistent.
\<close>

section \<open>Frames\<close>

lemma more_fields:
  assumes "io.more s = io.more (s' :: srv)"
  shows "c_trace s = c_trace s'" "c_in s = c_in s'" "c_rets s = c_rets s'" "s_users s = s_users s'"
    "s_bindings s = s_bindings s'" "s_binding_enabled s = s_binding_enabled s'" "s_keys_dir s = s_keys_dir s'"
    "s_hashes_dir s = s_hashes_dir s'" "s_monitor s = s_monitor s'" "s_rng s = s_rng s'"
    "s_users_db_path s = s_users_db_path s'" "s_binding_db_path s = s_binding_db_path s'"
    "s_admin_token s = s_admin_token s'" "s_max_file_bytes s = s_max_file_bytes s'" "s_config s = s_config s'"
  using assms by (cases s; cases s'; simp)+

lemmas event_fields [simp] = more_fields [OF effects_more(1)]
lemmas alert_fields [simp] = more_fields [OF effects_more(2)]
lemmas write_fields [simp] = more_fields [OF effects_more(3)]
lemmas now_fields [simp] = more_fields [OF effects_more(4)]
lemmas locked_fields [simp] = more_fields [OF monitor_more(3)]

lemma mon_fields [simp]:
  "c_trace (mon_success env u s) = c_trace s" "s_users (mon_success env u s) = s_users s"
  "c_in (mon_success env u s) = c_in s" "s_hashes_dir (mon_success env u s) = s_hashes_dir s"
  "s_keys_dir (mon_success env u s) = s_keys_dir s" "s_users_db_path (mon_success env u s) = s_users_db_path s"
  "s_rng (mon_success env u s) = s_rng s" "s_bindings (mon_success env u s) = s_bindings s"
  "c_trace (mon_failure u s) = c_trace s" "s_users (mon_failure u s) = s_users s"
  "c_trace (mon_file_op env u op n s) = c_trace s" "s_users (mon_file_op env u op n s) = s_users s"
  using more_fields [OF monitor_more(1) [of "e_monitor env" u "s_monitor s" s]]
    more_fields [OF monitor_more(2) [of u "s_monitor s" s]]
    more_fields [OF file_op_more [of "e_monitor env" u op 1 n "s_monitor s" s]]
  by (simp_all add: mon_success_def mon_failure_def mon_file_op_def case_prod_unfold)

lemma same_fields:
  assumes "same_state s s'"
  shows "s_users s' = s_users s" "s_bindings s' = s_bindings s" "s_binding_enabled s' = s_binding_enabled s"
    "s_monitor s' = s_monitor s" "io_fs s' = io_fs s" "s_hashes_dir s' = s_hashes_dir s" "s_keys_dir s' = s_keys_dir s"
    "s_users_db_path s' = s_users_db_path s" "io_time s' = io_time s" "io_audit s' = io_audit s"
    "io_wout s' = io_wout s" "io_writes s' = io_writes s" "io_ticks s' = io_ticks s" "s_rng s' = s_rng s"
  using assms by (cases s; cases s'; simp add: same_state_def)+

lemmas error_fields [simp] = same_fields [OF send_error_state]
lemmas header_fields [simp] = same_fields [OF send_header_state]
lemmas data_fields [simp] = same_fields [OF write_all_state]
lemmas discard_fields [simp] = same_fields [OF discard_state]

section \<open>Data on the wire\<close>

fun is_data :: "out_event \<Rightarrow> bool" where
  "is_data (Out_data d n) = True"
| "is_data (Out_header h n) = False"

text \<open>The blocks of file data sent so far.\<close>

definition data_sent :: "srv \<Rightarrow> out_event list" where
  "data_sent s = filter is_data (c_trace s)"

lemma data_trace: "c_trace s = c_trace s' \<Longrightarrow> data_sent s = data_sent s'"
  by (simp add: data_sent_def)

lemma data_sent_error [simp]: "data_sent (send_error m s) = data_sent s"
  using send_error_trace [of m s] by (auto simp: data_sent_def)

lemma data_sent_header [simp]: "data_sent (snd (send_header h s)) = data_sent s"
  by (simp add: data_sent_def send_header_trace)

lemma data_sent_write: "\<exists>n. data_sent (snd (write_all d s)) = data_sent s @ [Out_data d n]"
  by (simp add: data_sent_def write_all_trace)

lemma data_sent_effects [simp]:
  "data_sent (io_event ty u d s) = data_sent s" "data_sent (io_alert ty u d s) = data_sent s"
  "data_sent (discard_payload n s) = data_sent s" "data_sent (snd (is_locked u m s)) = data_sent s"
  "data_sent (mon_success env u s) = data_sent s" "data_sent (mon_failure u s) = data_sent s"
  "data_sent (mon_file_op env u op n s) = data_sent s" "data_sent (snd (io_write_file p b s)) = data_sent s"
  "data_sent (register_client c l s) = data_sent s" "data_sent (s\<lparr>c_in := i\<rparr>) = data_sent s"
  "data_sent (s\<lparr>s_rng := r\<rparr>) = data_sent s" "data_sent (s\<lparr>s_users := us\<rparr>) = data_sent s"
  by (rule data_trace; simp add: register_keeps)+

lemma data_sent_enforce [simp]: "data_sent (snd (enforce_client_binding req u op s)) = data_sent s"
  by (simp add: enforce_client_binding_def Let_def)

lemma data_sent_refuse [simp]:
  "data_sent (refuse_locked n what u r s) = data_sent s" "data_sent (refuse_auth what u s) = data_sent s"
  by (simp_all add: refuse_locked_def refuse_auth_def)

lemma enforce_fields [simp]:
  "s_users (snd (enforce_client_binding req u op s)) = s_users s"
  "s_monitor (snd (enforce_client_binding req u op s)) = s_monitor s"
  "io_time (snd (enforce_client_binding req u op s)) = io_time s"
proof -
  have t: "io_time (register_client c l s) = io_time s" for c l
    by (auto simp: register_client_def now_epoch_sec_def save_binding_policy_def io_write_file_def next_wout_def
        split: option.splits prod.split)
  show "s_users (snd (enforce_client_binding req u op s)) = s_users s"
    "s_monitor (snd (enforce_client_binding req u op s)) = s_monitor s"
    "io_time (snd (enforce_client_binding req u op s)) = io_time s"
    by (simp_all add: enforce_client_binding_def Let_def register_keeps t alert_keeps)
qed

section \<open>Who gets data\<close>

text \<open>The account is not locked at some time the clock shows.\<close>

definition not_locked :: "string \<Rightarrow> srv \<Rightarrow> bool" where
  "not_locked u s \<longleftrightarrow> (\<exists>k. case map_of (m_stats (s_monitor s)) u of
     None \<Rightarrow> True | Some st \<Rightarrow> lock_until_ts st \<le> io_time s k)"

lemma is_locked_None:
  assumes "fst (is_locked u (s_monitor s) (s' :: srv)) = None" "io_time s' = io_time s"
  shows "not_locked u s"
  using assms by (auto simp: is_locked_def now_epoch_sec_def not_locked_def split: option.splits if_splits)

definition authenticated :: "env \<Rightarrow> header \<Rightarrow> srv \<Rightarrow> bool" where
  "authenticated env req s \<longleftrightarrow> policy_allows s (request_client_id req)
     \<and> not_locked (hd_get req ''username'' []) s
     \<and> verify_user (e_kdf env) (s_users s) (hd_get req ''username'' []) (hd_get req ''password'' [])"

definition record_matches :: "env \<Rightarrow> string \<Rightarrow> byte list \<Rightarrow> srv \<Rightarrow> bool" where
  "record_matches env file_id plain s \<longleftrightarrow> (\<exists>r alg b. load_hash_record (io_fs s) (hash_path file_id s) = Some r
     \<and> hash_from_string (h_alg r) = Some alg \<and> engine_hash (e_crypto env) alg plain = Inr (b, h_hex r))"

lemma integrity_data:
  "case integrity_check env u file_id hs plain s of
     Inl s' \<Rightarrow> data_sent s' = data_sent s
   | Inr s' \<Rightarrow> data_sent s' = data_sent s \<and> (file_id \<noteq> [] \<longrightarrow> record_matches env file_id plain s)"
  by (auto simp: integrity_check_def record_matches_def Let_def split: option.splits sum.splits)

lemma decrypt_finish_data:
  "data_sent (decrypt_finish env u f n c plain s) = data_sent s
    \<or> (\<exists>k. data_sent (decrypt_finish env u f n c plain s) = data_sent s @ [Out_data plain k])"
proof -
  obtain ok s1 where 1: "send_header (decrypt_reply (length plain)) s = (ok, s1)" by fastforce
  have d: "data_sent s1 = data_sent s" using data_sent_header [of "decrypt_reply (length plain)" s] 1 by simp
  obtain k where k: "data_sent (snd (write_all plain s1)) = data_sent s1 @ [Out_data plain k]"
    using data_sent_write by blast
  show ?thesis
    using 1 d k by (cases ok) (auto simp: decrypt_finish_def Let_def)
qed

lemma decrypt_body_data:
  "data_sent (decrypt_body env req n s) = data_sent s
    \<or> (\<exists>plain k. data_sent (decrypt_body env req n s) = data_sent s @ [Out_data plain k]
        \<and> (hd_get req ''file_id'' [] \<noteq> [] \<longrightarrow> record_matches env (hd_get req ''file_id'' []) plain s))"
proof (cases "cipher_from_string (hd_get req ''cipher'' [])")
  case None
  then show ?thesis by (simp add: decrypt_body_def)
next
  case (Some cipher)
  obtain rd s1 where r: "read_exact n s = (rd, s1)" by fastforce
  have s1: "data_sent s1 = data_sent s" "io_fs s1 = io_fs s" "s_hashes_dir s1 = s_hashes_dir s"
    using r by (auto simp: read_exact_def data_sent_def split: if_splits)
  show ?thesis
  proof (cases rd)
    case None
    with Some r s1 show ?thesis by (simp add: decrypt_body_def)
  next
    case (Some ct)
    note rd = this
    show ?thesis
    proof (cases "request_key req s1")
      case (Inl m)
      with \<open>cipher_from_string _ = Some cipher\<close> r rd s1 show ?thesis by (simp add: decrypt_body_def)
    next
      case (Inr k)
      note rk = this
      show ?thesis
      proof (cases "decrypt_data env cipher (hd_get req ''file_id'' []) ct k s1")
        case (Inl m)
        with \<open>cipher_from_string _ = Some cipher\<close> r rd rk s1 show ?thesis by (simp add: decrypt_body_def)
      next
        case (Inr plain)
        let ?i = "integrity_check env (hd_get req ''username'' []) (hd_get req ''file_id'' []) (hd_get req ''hash'' []) plain s1"
        have b: "decrypt_body env req n s = (case ?i of Inl s \<Rightarrow> s | Inr s \<Rightarrow>
            decrypt_finish env (hd_get req ''username'' []) (hd_get req ''file_id'' []) n (hd_get req ''cipher'' []) plain s)"
          using \<open>cipher_from_string _ = Some cipher\<close> r rd rk Inr by (simp add: decrypt_body_def Let_def)
        have m: "record_matches env f plain s1 = record_matches env f plain s" for f
          using s1 by (simp add: record_matches_def hash_path_def)
        have id: "case ?i of Inl s' \<Rightarrow> data_sent s' = data_sent s1
           | Inr s' \<Rightarrow> data_sent s' = data_sent s1 \<and> (hd_get req ''file_id'' [] \<noteq> [] \<longrightarrow>
               record_matches env (hd_get req ''file_id'' []) plain s1)"
          by (rule integrity_data)
        show ?thesis
        proof (cases ?i)
          case (Inl s2)
          with b id s1 show ?thesis by simp
        next
          case (Inr s2)
          with b id s1 m show ?thesis
            using decrypt_finish_data [of env "hd_get req ''username'' []" "hd_get req ''file_id'' []" n
                "hd_get req ''cipher'' []" plain s2] by auto
        qed
      qed
    qed
  qed
qed

text \<open>The files the server writes on its own account, besides users, keys and hash records.\<close>

definition aux_files :: "srv \<Rightarrow> path set" where
  "aux_files s = insert (s_binding_db_path s) (monitor_files (s_monitor s) s)"

lemma same_files_mono: "same_files A a b \<Longrightarrow> A \<subseteq> B \<Longrightarrow> same_files B a b"
  by (auto simp: same_files_def)

lemma register_files: "same_files {s_binding_db_path s} s (register_client c l s)"
  by (auto simp: register_client_def now_epoch_sec_def save_binding_policy_def same_files_def write_keeps write_fs_other
      split: option.splits)

lemma enforce_true_files:
  "fst (enforce_client_binding req u op s) \<Longrightarrow> same_files (aux_files s) s (snd (enforce_client_binding req u op s))"
  using register_files [of s "request_client_id req" "hd_get req ''client_host'' ''unknown''"]
  by (auto simp: enforce_client_binding_def Let_def aux_files_def intro: same_files_mono split: if_splits)

lemma mon_success_files: "same_files (monitor_files (s_monitor s) s) s (mon_success env u s)"
  using login_files(1) [of "s_monitor s" s "e_monitor env" u]
  by (simp add: mon_success_def case_prod_unfold same_files_def)

lemma enforce_true_hashes:
  "fst (enforce_client_binding req u op s) \<Longrightarrow> s_hashes_dir (snd (enforce_client_binding req u op s)) = s_hashes_dir s
    \<and> s_keys_dir (snd (enforce_client_binding req u op s)) = s_keys_dir s"
  by (auto simp: enforce_client_binding_def Let_def register_client_def now_epoch_sec_def save_binding_policy_def
      split: if_splits option.splits)

text \<open>
  The state in which the body of an operation runs: the request passed the policy, the account
  was not locked, the password was right, and no other file than the server's own was written.
\<close>

lemma body_state:
  assumes e: "enforce_client_binding req u op s = (True, s1)"
    and l: "is_locked u (s_monitor s1) s1 = (None, s2)"
    and m: "is_locked u (s_monitor (mon_success env u s2)) (mon_success env u s2) = (r, s3)"
  shows "s_users s2 = s_users s" "not_locked u s" "policy_allows s (request_client_id req)"
    "data_sent s3 = data_sent s" "s_hashes_dir s3 = s_hashes_dir s" "same_files (aux_files s) s s3"
proof -
  have s1: "s_users s1 = s_users s" "s_monitor s1 = s_monitor s" "io_time s1 = io_time s" "data_sent s1 = data_sent s"
    "s_hashes_dir s1 = s_hashes_dir s" "same_files (aux_files s) s s1"
    using enforce_fields [of req u op s] data_sent_enforce [of req u op s] enforce_true_files [of req u op s]
      enforce_true_hashes [of req u op s] e by simp_all
  have s2: "s_users s2 = s_users s1" "s_monitor s2 = s_monitor s1" "data_sent s2 = data_sent s1"
    "s_hashes_dir s2 = s_hashes_dir s1" "io_fs s2 = io_fs s1" "io_audit s2 = io_audit s1"
    using locked_fields [of u "s_monitor s1" s1] data_sent_effects(4) [of u "s_monitor s1" s1] l
    by (auto simp: is_locked_def now_epoch_sec_def)
  let ?s = "mon_success env u s2"
  have s3: "data_sent s3 = data_sent ?s" "s_hashes_dir s3 = s_hashes_dir ?s" "io_fs s3 = io_fs ?s" "io_audit s3 = io_audit ?s"
    using locked_fields [of u "s_monitor ?s" ?s] data_sent_effects(4) [of u "s_monitor ?s" ?s] m
    by (auto simp: is_locked_def now_epoch_sec_def)
  show "s_users s2 = s_users s" using s1 s2 by simp
  show "policy_allows s (request_client_id req)" using enforce_decision [of req u op s] e by simp
  have "not_locked u s1" using is_locked_None [of u s1 s1] l by simp
  then show "not_locked u s" unfolding not_locked_def s1(2,3) .
  show "data_sent s3 = data_sent s" "s_hashes_dir s3 = s_hashes_dir s" using s1 s2 s3 by simp_all
  have "monitor_files (s_monitor s2) s2 = monitor_files (s_monitor s) s"
    using s1 s2 by (simp add: monitor_files_def same_files_def)
  then have sub: "monitor_files (s_monitor s2) s2 \<subseteq> aux_files s"
    unfolding aux_files_def by blast
  have "same_files (aux_files s) s2 ?s"
    by (rule same_files_mono [OF mon_success_files sub])
  moreover have "same_files (aux_files s) s s2" "same_files (aux_files s) ?s s3"
    using s1 s2 s3 by (auto simp: same_files_def)
  ultimately show "same_files (aux_files s) s s3" by (blast intro: same_files_trans)
qed

lemma decrypt_data_only:
  "data_sent (handle_decrypt env req s) = data_sent s
    \<or> (\<exists>plain k. data_sent (handle_decrypt env req s) = data_sent s @ [Out_data plain k]
        \<and> authenticated env req s \<and> odd (user_permissions (s_users s) (hd_get req ''username'' []) div 2)
        \<and> (hd_get req ''file_id'' [] \<noteq> [] \<and> hash_path (hd_get req ''file_id'' []) s \<notin> aux_files s \<longrightarrow>
             record_matches env (hd_get req ''file_id'' []) plain s))"
proof -
  let ?u = "hd_get req ''username'' []" and ?f = "hd_get req ''file_id'' []"
  obtain n where n: "header_size req ''file_size'' = Some n \<or> data_sent (handle_decrypt env req s) = data_sent s"
    by (cases "header_size req ''file_size''") (auto simp: handle_decrypt_def)
  obtain ok s1 where e: "enforce_client_binding req ?u ''decrypt'' s = (ok, s1)" by fastforce
  have d1: "data_sent s1 = data_sent s" using data_sent_enforce [of req ?u "''decrypt''" s] e by simp
  obtain r s2 where l: "is_locked ?u (s_monitor s1) s1 = (r, s2)" by fastforce
  have d2: "data_sent s2 = data_sent s" using data_sent_effects(4) [of ?u "s_monitor s1" s1] l d1 by simp
  let ?s = "mon_success env ?u s2"
  obtain r' s3 where m: "is_locked ?u (s_monitor ?s) ?s = (r', s3)" by fastforce
  have d3: "data_sent s3 = data_sent s" using data_sent_effects(4) [of ?u "s_monitor ?s" ?s] m d2 by simp
  show ?thesis
  proof (cases "header_size req ''file_size'' = Some n \<and> n \<le> s_max_file_bytes s \<and> ok \<and> r = None \<and> r' = None
      \<and> verify_user (e_kdf env) (s_users s2) ?u (hd_get req ''password'' []) \<and> odd (user_permissions (s_users s2) ?u div 2)")
    case False
    then have "data_sent (handle_decrypt env req s) = data_sent s"
      using n e l m d1 d2 d3
      by (cases ok; cases r; cases r') (auto simp: handle_decrypt_def Let_def)
    then show ?thesis by blast
  next
    case True
    then have h: "handle_decrypt env req s = decrypt_body env req n s3"
      using e l m by (simp add: handle_decrypt_def Let_def)
    note b = body_state [of req ?u "''decrypt''" s s1 s2 env r' s3]
    have b: "s_users s2 = s_users s" "not_locked ?u s" "policy_allows s (request_client_id req)"
      "data_sent s3 = data_sent s" "s_hashes_dir s3 = s_hashes_dir s" "same_files (aux_files s) s s3"
      using b e l m True by auto
    have auth: "authenticated env req s" "odd (user_permissions (s_users s) ?u div 2)"
      using True b by (auto simp: authenticated_def)
    have rec: "record_matches env ?f plain s" if "record_matches env ?f plain s3" "hash_path ?f s \<notin> aux_files s" for plain
      using that b by (simp add: record_matches_def hash_path_def same_files_def load_hash_record_def read_file_def)
    show ?thesis
      using decrypt_body_data [of env req n s3] b(4) auth rec unfolding h by auto
  qed
qed

lemma encrypt_data_only:
  "data_sent (handle_encrypt env req s) = data_sent s
    \<or> (authenticated env req s \<and> odd (user_permissions (s_users s) (hd_get req ''username'' [])))"
proof -
  let ?u = "hd_get req ''username'' []"
  obtain n where n: "header_size req ''file_size'' = Some n \<or> data_sent (handle_encrypt env req s) = data_sent s"
    by (cases "header_size req ''file_size''") (auto simp: handle_encrypt_def Let_def)
  obtain ok s1 where e: "enforce_client_binding req ?u ''encrypt'' s = (ok, s1)" by fastforce
  have d1: "data_sent s1 = data_sent s" using data_sent_enforce [of req ?u "''encrypt''" s] e by simp
  obtain r s2 where l: "is_locked ?u (s_monitor s1) s1 = (r, s2)" by fastforce
  have d2: "data_sent s2 = data_sent s" using data_sent_effects(4) [of ?u "s_monitor s1" s1] l d1 by simp
  let ?s = "mon_success env ?u s2"
  obtain r' s3 where m: "is_locked ?u (s_monitor ?s) ?s = (r', s3)" by fastforce
  have d3: "data_sent s3 = data_sent s" using data_sent_effects(4) [of ?u "s_monitor ?s" ?s] m d2 by simp
  show ?thesis
  proof (cases "header_size req ''file_size'' = Some n \<and> n \<le> s_max_file_bytes s \<and> ok \<and> r = None \<and> r' = None
      \<and> verify_user (e_kdf env) (s_users s2) ?u (hd_get req ''password'' []) \<and> odd (user_permissions (s_users s2) ?u)")
    case False
    then have "data_sent (handle_encrypt env req s) = data_sent s"
      using n e l m d1 d2 d3
      by (cases ok; cases r; cases r') (auto simp: handle_encrypt_def Let_def)
    then show ?thesis by blast
  next
    case True
    then show ?thesis
      using body_state [of req ?u "''encrypt''" s s1 s2 env r' s3] e l m by (auto simp: authenticated_def)
  qed
qed

section \<open>The user database\<close>

lemma random_hex_fields [simp]:
  "s_users (snd (random_hex n s)) = s_users s" "c_trace (snd (random_hex n s)) = c_trace s"
  "s_hashes_dir (snd (random_hex n s)) = s_hashes_dir s"
  by (simp_all add: random_hex_def case_prod_unfold)

lemma read_exact_users [simp]: "s_users (snd (read_exact n s)) = s_users s"
  by (simp add: read_exact_def)

lemma refuse_users [simp]:
  "s_users (refuse_locked n what u r s) = s_users s" "s_users (refuse_auth what u s) = s_users s"
  by (simp_all add: refuse_locked_def refuse_auth_def)

lemma encrypt_finish_users [simp]: "s_users (encrypt_finish env u c h ks fn n hex r k s) = s_users s"
  by (simp add: encrypt_finish_def Let_def case_prod_unfold split: bool.split)

lemma encrypt_body_users [simp]: "s_users (encrypt_body env u c h ks fn n s) = s_users s"
  by (simp add: encrypt_body_def Let_def case_prod_unfold split: option.split sum.split bool.split)

lemma integrity_users:
  "case integrity_check env u f h plain s of Inl s' \<Rightarrow> s_users s' = s_users s | Inr s' \<Rightarrow> s_users s' = s_users s"
  by (auto simp: integrity_check_def Let_def split: option.splits sum.splits)

lemma decrypt_finish_users [simp]: "s_users (decrypt_finish env u f n c plain s) = s_users s"
  by (simp add: decrypt_finish_def Let_def case_prod_unfold split: bool.split)

lemma decrypt_body_users [simp]: "s_users (decrypt_body env req n s) = s_users s"
proof -
  have i: "s_users (case integrity_check env u f h plain s1 of Inl s' \<Rightarrow> s' | Inr s' \<Rightarrow> decrypt_finish env u f n c plain s')
      = s_users s1" for u f h plain s1 c
    using integrity_users [of s1 env u f h plain] by (auto split: sum.splits)
  show ?thesis
    by (simp add: decrypt_body_def Let_def case_prod_unfold i split: option.split sum.split)
qed

lemma handle_encrypt_users [simp]: "s_users (handle_encrypt env req s) = s_users s"
  by (simp add: handle_encrypt_def Let_def case_prod_unfold split: option.split bool.split)

lemma handle_decrypt_users [simp]: "s_users (handle_decrypt env req s) = s_users s"
  by (simp add: handle_decrypt_def Let_def case_prod_unfold split: option.split bool.split)

lemma handle_auth_check_users [simp]: "s_users (handle_auth_check env req s) = s_users s"
  by (simp add: handle_auth_check_def Let_def case_prod_unfold split: option.split bool.split)

lemma save_users_state:
  "s_users (snd (save_users env s)) = s_users s" "s_users_db_path (snd (save_users env s)) = s_users_db_path s"
  by (simp_all add: save_users_def Let_def next_wout_def case_prod_unfold)

lemma save_users_synced:
  "io_fs (snd (save_users env s)) (s_users_db_path s)
    = (if fst (save_users env s) then Some (bytes_of (users_text (s_users s))) else io_fs s (s_users_db_path s))"
  using users_save_atomic [of "io_wout s (io_writes s)" "e_renamed env (io_writes s)" "s_users_db_path s" "s_users s" "io_fs s"]
  by (simp add: save_users_def Let_def next_wout_def case_prod_unfold)

text \<open>The result of the part of \<open>handle_change_password\<close> that changes the database.\<close>

definition replace_users :: "env \<Rightarrow> bool \<times> users \<times> rng \<Rightarrow> srv \<Rightarrow> bool \<times> srv" where
  "replace_users env c s = (case c of (ok, users, rng) \<Rightarrow>
     let s' = s\<lparr>s_users := users, s_rng := rng\<rparr> in
     (case (if ok then save_users env s' else (False, s')) of
        (False, s1) \<Rightarrow> (False, s1\<lparr>s_users := s_users s\<rparr>) | (True, s1) \<Rightarrow> (True, s1)))"

lemma replace_users_cases:
  assumes "replace_users env (ok, us, rng) s = (saved, s')"
  shows "s_users s' = (if saved then us else s_users s)" "saved \<Longrightarrow> ok" "s_users_db_path s' = s_users_db_path s"
    "io_fs s' (s_users_db_path s) = (if saved then Some (bytes_of (users_text us)) else io_fs s (s_users_db_path s))"
proof -
  let ?s = "s\<lparr>s_users := us, s_rng := rng\<rparr>"
  obtain b s1 where 1: "save_users env ?s = (b, s1)" by fastforce
  note f = save_users_state [of env ?s] save_users_synced [of env ?s]
  show "s_users s' = (if saved then us else s_users s)" "saved \<Longrightarrow> ok" "s_users_db_path s' = s_users_db_path s"
    "io_fs s' (s_users_db_path s) = (if saved then Some (bytes_of (users_text us)) else io_fs s (s_users_db_path s))"
    using assms 1 f by (cases ok; cases b; simp add: replace_users_def; auto)+
qed

lemma change_password_replace:
  assumes "enforce_client_binding req u ''change_password'' s = (True, s1)" "u = hd_get req ''username'' []"
    "is_locked u (s_monitor s1) s1 = (None, s2)" "verify_user (e_kdf env) (s_users s2) u (hd_get req ''password'' [])"
  shows "handle_change_password env req s =
     (let s3 = mon_success env u s2 in
      case replace_users env (upsert (e_kdf env) (s_users s3) u (hd_get req ''new_password'' []) (s_rng s3)) s3 of
        (False, s4) \<Rightarrow> send_error ''Cannot save password change'' s4
      | (True, s4) \<Rightarrow> send_ok ''Password updated'' (io_event ''change_password'' u ''ok'' s4))"
  using assms
  by (simp add: handle_change_password_def replace_users_def Let_def split: prod.split bool.split)

lemma send_ok_fields [simp]:
  "s_users (send_ok m s) = s_users s" "io_fs (send_ok m s) = io_fs s" "s_users_db_path (send_ok m s) = s_users_db_path s"
  by (simp_all add: send_ok_def)

lemma change_password_users:
  "s_users (handle_change_password env req s) = s_users s
    \<or> (\<exists>rng us rng'. upsert (e_kdf env) (s_users s) (hd_get req ''username'' []) (hd_get req ''new_password'' []) rng = (True, us, rng')
         \<and> s_users (handle_change_password env req s) = us \<and> authenticated env req s)"
proof -
  let ?u = "hd_get req ''username'' []"
  obtain ok s1 where e: "enforce_client_binding req ?u ''change_password'' s = (ok, s1)" by fastforce
  obtain r s2 where l: "is_locked ?u (s_monitor s1) s1 = (r, s2)" by fastforce
  have u: "s_users s1 = s_users s" "s_users s2 = s_users s"
    using enforce_fields(1) [of req ?u "''change_password''" s] locked_fields(4) [of ?u "s_monitor s1" s1] e l by simp_all
  show ?thesis
  proof (cases "ok \<and> r = None \<and> verify_user (e_kdf env) (s_users s2) ?u (hd_get req ''password'' [])")
    case False
    then have "s_users (handle_change_password env req s) = s_users s"
      using e l u by (cases ok; cases r) (auto simp: handle_change_password_def Let_def)
    then show ?thesis ..
  next
    case True
    let ?s = "mon_success env ?u s2"
    obtain b us rng' where up: "upsert (e_kdf env) (s_users ?s) ?u (hd_get req ''new_password'' []) (s_rng ?s) = (b, us, rng')"
      using prod_cases3 by blast
    obtain saved s4 where rp: "replace_users env (b, us, rng') ?s = (saved, s4)" by fastforce
    have h: "handle_change_password env req s = (case (saved, s4) of
        (False, s4) \<Rightarrow> send_error ''Cannot save password change'' s4
      | (True, s4) \<Rightarrow> send_ok ''Password updated'' (io_event ''change_password'' ?u ''ok'' s4))"
      using change_password_replace [of req ?u s s1 s2 env] e l True up rp by (simp add: Let_def)
    obtain r' s3 where m: "is_locked ?u (s_monitor ?s) ?s = (r', s3)" by fastforce
    have e': "enforce_client_binding req ?u ''change_password'' s = (True, s1)"
      and l': "is_locked ?u (s_monitor s1) s1 = (None, s2)"
      using e l True by simp_all
    have "authenticated env req s"
      using body_state [OF e' l' m] True by (simp add: authenticated_def)
    then show ?thesis
      using h replace_users_cases [OF rp] up u by (cases saved) auto
  qed
qed

lemma upsert_users_ok: "users_ok us \<Longrightarrow> upsert kdf us n pw rng = (b, us', rng') \<Longrightarrow> users_ok us'"
  using upsert_ok [of us kdf n pw rng] by simp

lemma change_password_ok: "users_ok (s_users s) \<Longrightarrow> users_ok (s_users (handle_change_password env req s))"
  using change_password_users [of env req s] upsert_users_ok by metis

section \<open>The administrative operations\<close>

lemma payload_fields [simp]:
  "s_users (send_payload h p s) = s_users s" "s_users (reply_payload h p s) = s_users s"
  "s_users (reply_result r s) = s_users s"
  using same_fields(1) [OF send_payload_state] by (simp_all add: reply_payload_def reply_result_def split: sum.split)

lemma user_change_ok:
  "users_ok (s_users s) \<Longrightarrow> user_change env op req u s = Inr (b, us, rng) \<Longrightarrow> users_ok us"
  using set_permissions_ok [of "s_users s" u] set_blocked_ok [of "s_users s" u] upsert_ok [of "s_users s"]
  by (auto simp: user_change_def Let_def split: if_splits list.splits prod.splits) (metis fst_conv snd_conv)+

lemma update_user_replace:
  assumes "valid_username u" "u = hd_get req ''username'' []"
    "\<not> ((op = ''admin_create_user'' \<and> user_exists (s_users s) u) \<or> (op \<noteq> ''admin_create_user'' \<and> \<not> user_exists (s_users s) u))"
    "user_change env op req u s = Inr c"
  shows "admin_update_user env op req s = (case replace_users (env.truncate env) c s of
        (False, s') \<Rightarrow> send_error ''Cannot save user database'' s'
      | (True, s') \<Rightarrow> send_ok ''User updated'' (io_event op ''admin'' u s'))"
proof -
  obtain ok us rng where c: "c = (ok, us, rng)" by (cases c) auto
  show ?thesis
    using assms unfolding c
    by (cases "op = ''admin_create_user''"; cases "user_exists (s_users s) u")
      (simp_all add: admin_update_user_def replace_users_def Let_def split: prod.split bool.split)
qed

lemma update_user_users:
  "s_users (admin_update_user env op req s) = s_users s
    \<or> (\<exists>rng us. user_change env op req (hd_get req ''username'' []) s = Inr (True, us, rng)
         \<and> s_users (admin_update_user env op req s) = us)"
proof -
  let ?u = "hd_get req ''username'' []"
  show ?thesis
  proof (cases "valid_username ?u \<and> \<not> ((op = ''admin_create_user'' \<and> user_exists (s_users s) ?u)
      \<or> (op \<noteq> ''admin_create_user'' \<and> \<not> user_exists (s_users s) ?u))")
    case False
    then have "s_users (admin_update_user env op req s) = s_users s"
      by (simp add: admin_update_user_def Let_def)
    then show ?thesis ..
  next
    case True
    note ok = this
    show ?thesis
    proof (cases "user_change env op req ?u s")
      case (Inl e)
      with ok have "s_users (admin_update_user env op req s) = s_users s"
        by (simp add: admin_update_user_def Let_def)
      then show ?thesis ..
    next
      case (Inr c)
      obtain b us rng where c: "c = (b, us, rng)" by (cases c) auto
      obtain saved s' where r: "replace_users (env.truncate env) (b, us, rng) s = (saved, s')" by fastforce
      have h: "admin_update_user env op req s = (case (saved, s') of
          (False, s') \<Rightarrow> send_error ''Cannot save user database'' s'
        | (True, s') \<Rightarrow> send_ok ''User updated'' (io_event op ''admin'' ?u s'))"
        using update_user_replace [of ?u req op s env c] ok Inr c r by simp
      show ?thesis using h replace_users_cases [OF r] Inr c by (cases saved) auto
    qed
  qed
qed

lemma update_user_ok: "users_ok (s_users s) \<Longrightarrow> users_ok (s_users (admin_update_user env op req s))"
  using update_user_users [of env op req s] user_change_ok by metis

lemma dump_locks_users [simp]: "s_users (snd (dump_locks n m s)) = s_users (s :: srv)"
  by (rule more_fields(4) [OF monitor_more(5)])

lemma set_binding_users [simp]:
  "s_users (set_binding en s) = s_users s" "s_users (set_client_allowed c a s) = s_users s"
proof -
  show "s_users (set_binding en s) = s_users s" by (simp add: set_binding_def save_binding_keeps)
  obtain t s' where n: "now_epoch_sec s = (t, s')" by fastforce
  then have "s_users s' = s_users s" using now_fields(4) [of s] by simp
  then show "s_users (set_client_allowed c a s) = s_users s"
    by (simp add: set_client_allowed_def Let_def save_binding_keeps n)
qed

lemma unlock_users [simp]: "s_users (snd (snd (unlock_user u m s))) = s_users (s :: srv)"
  by (rule more_fields(4) [OF monitor_more(4)])

lemma users_if:
  "users_ok (s_users a) \<Longrightarrow> users_ok (s_users b) \<Longrightarrow> users_ok (s_users (if c then a else b))"
  by simp

lemma handle_admin_ok:
  assumes "users_ok (s_users s)" shows "users_ok (s_users (handle_admin env ao wp op req s))"
proof -
  have a: "s_users (admin_wifi_change env ao wp req s) = s_users s" "s_users (admin_wifi_scan env s) = s_users s"
    "s_users (admin_wifi_snapshot b s) = s_users s" "s_users (admin_list_users s) = s_users s"
    "s_users (admin_get_alerts req s) = s_users s" "s_users (admin_lines op req s) = s_users s"
    "s_users (admin_get_binding req s) = s_users s" "s_users (admin_set_binding req s) = s_users s"
    "s_users (admin_set_client_allowed req s) = s_users s" for b
    by (simp_all add: admin_wifi_change_def admin_wifi_scan_def admin_wifi_snapshot_def admin_list_users_def
        admin_get_alerts_def admin_lines_def admin_get_binding_def admin_set_binding_def admin_set_client_allowed_def
        Let_def case_prod_unfold split: option.split)
  have "s_users (admin_unlock_user req s) = s_users s"
    using unlock_users [of "hd_get req ''username'' []" "s_monitor s" s]
    by (cases "unlock_user (hd_get req ''username'' []) (s_monitor s) s")
      (simp add: admin_unlock_user_def Let_def split: bool.split)
  note unchanged = a this
  show ?thesis
    unfolding handle_admin_def
    by (intro users_if) (simp_all add: unchanged update_user_ok [OF assms] assms)
qed

lemma handle_request_ok:
  "users_ok (s_users s) \<Longrightarrow> users_ok (s_users (handle_request env ao wp req s))"
  by (simp add: handle_request_def Let_def handle_admin_ok change_password_ok)

lemma handle_session_ok:
  "users_ok (s_users s) \<Longrightarrow> users_ok (s_users (handle_session env ao wp acc s))"
  by (auto simp: handle_session_def handle_request_ok split: option.split)

text \<open>A request for an administrative operation without the token.\<close>

lemma unauthorized_request:
  assumes "is_admin_op (hd_get req ''op'' [])" "\<not> admin_authorized req s"
  shows "handle_request env ao wp req s = send_error ''Unauthorized'' s"
  using assms by (simp add: handle_request_def Let_def)

section \<open>Encryption and decryption through the server\<close>

lemma gost_frame_magic:
  assumes "gost_native_encrypt env c plain rng = (Inr r, rng')"
  shows "take 8 (r_data r) = bytes_of ''ENGOST02'' \<and> 8 \<le> length (r_data r) \<and> r_iv r = [] \<and> r_tag r = []"
proof -
  obtain key nonce ct mac where
    "r = \<lparr>r_data = gost_header c (length plain) @ gost_clear nonce @ ct @ mac, r_key = key, r_iv = [], r_tag = []\<rparr>"
    using assms by (rule gost_encryptE)
  then show ?thesis
    by (simp add: gost_header_def gost_magic_def)
qed

lemma gost_server_decrypt:
  assumes "mgm_law (e_crypto env)" "native_gost (e_crypto env)" "gost_id c \<noteq> 0"
    "engine_encrypt (e_crypto env) c plain rng = (Inr r, rng')"
  shows "decrypt_data env c file_id (r_data r) (r_key r, r_iv r, r_tag r) s = Inr plain"
proof -
  have g: "gost_native_encrypt (e_crypto env) c plain rng = (Inr r, rng')"
    and spec: "\<exists>sp. find_cipher_spec c = Some sp \<and> s_gost sp"
  proof -
    have c: "c = MAGMA \<or> c = KUZNECHIK" using assms(3) by (auto simp: gost_id_def split: if_splits)
    then show sp: "\<exists>sp. find_cipher_spec c = Some sp \<and> s_gost sp"
      by (auto simp: find_cipher_spec_def kCipherSpecs_def)
    then show "gost_native_encrypt (e_crypto env) c plain rng = (Inr r, rng')"
      using assms(2,4) by (auto simp: engine_encrypt_def)
  qed
  have "\<not> is_legacy_gost c (r_data r)"
    using gost_frame_magic [OF g] by (simp add: is_legacy_gost_def)
  then show ?thesis
    using spec assms(2) gost_roundtrip [OF assms(1) g] by (auto simp: decrypt_data_def engine_decrypt_def)
qed

text \<open>The reply does not depend on whether the hash record could be written.\<close>

lemma encrypt_finish_reply:
  "\<exists>fid n. Out_header (encrypt_reply c h fid hex k ks r) n \<in> set (c_trace (encrypt_finish env u c h ks fn sz hex r k s))"
proof -
  obtain fid s1 where 1: "random_hex 16 s = (fid, s1)" by fastforce
  let ?s = "snd (io_write_file (path_join (s_hashes_dir s1) (fid @ ''.hash''))
      (bytes_of (h @ '':'' @ hex @ '':'' @ fn)) s1)"
  obtain ok s2 where 2: "send_header (encrypt_reply c h fid hex k ks r) ?s = (ok, s2)" by fastforce
  then have "\<exists>n. Out_header (encrypt_reply c h fid hex k ks r) n \<in> set (c_trace s2)"
    using send_header_trace [of "encrypt_reply c h fid hex k ks r" ?s] by auto
  then show ?thesis
    using 1 2 by (cases ok) (auto simp: encrypt_finish_def Let_def write_all_trace)
qed

end
