(* ===== verification/DemoServer.thy ===== *)
theory DemoServer
  imports ServerSafety
begin

text \<open>A concrete server and its libraries, on which the properties of sessions are tried.\<close>

section \<open>A concrete server for the witnesses\<close>

definition demo_env :: env where
  "demo_env = \<lparr>e_crypto = demo_crypto, e_kdf = (\<lambda>pw salt i. Some [10]),
     e_monitor = \<lparr>local_hour = (\<lambda>t. 12), round_double = (\<lambda>x. x), show_double = (\<lambda>x. ''x'')\<rparr>,
     e_renamed = (\<lambda>k. True)\<rparr>"

definition demo_srv :: srv where
  "demo_srv = io.extend demo_io
     \<lparr>s_config = [], s_users = demo_users, s_users_db_path = ''users.db'', s_keys_dir = ''keys'', s_hashes_dir = ''hashes'',
      s_admin_token = ''token'', s_binding_db_path = ''binding'', s_monitor = demo_monitor, s_binding_enabled = False,
      s_bindings = [], s_max_header_bytes = 65536, s_max_file_bytes = 100, s_rng = [], c_in = [], c_rets = [1000, 1000],
      c_trace = []\<rparr>"

lemma demo_fields:
  "s_users demo_srv = demo_users" "s_admin_token demo_srv = ''token''" "data_sent demo_srv = []"
  by (simp_all add: demo_srv_def io.defs data_sent_def)

definition demo_admin_env :: admin_env where
  "demo_admin_env = env.extend demo_env
     \<lparr>e_wifi_change = (\<lambda>p. None), e_scan_exchange = (\<lambda>p. None), e_interfaces = None, e_stod = (\<lambda>x. None)\<rparr>"

end
