(* ===== verification/WifiProfile.thy ===== *)
theory WifiProfile
  imports Encoding
begin

unbundle bit_operations_syntax

text \<open>
  The profile of a Wi-Fi network and the two configuration files made from it
  (common/src/wifi_profile.cpp, wifi_config_draft.cpp): the validator of network names, the
  construction of a profile, the Netplan and the supplicant draft, and their readers, which
  accept nothing but what the generator writes.

  PBKDF2-HMAC-SHA1 is a parameter: \<open>None\<close> is a failed derivation, and the key is the first 32
  values of the function it returns. Wiped buffers are byte lists.
\<close>

record wifi_profile =
  ssid_hex :: string
  psk :: "byte list"
  dhcp6 :: "bool option"

type_synonym psk_kdf = "string \<Rightarrow> string \<Rightarrow> (nat \<Rightarrow> byte) option"

section \<open>Network names\<close>

definition utf8_lead :: "nat \<Rightarrow> (nat \<times> nat \<times> nat) option" where
  "utf8_lead first =
     (if first \<ge> 0xc2 \<and> first \<le> 0xdf then Some (first AND 0x1f, 1, 0x80)
      else if first \<ge> 0xe0 \<and> first \<le> 0xef then Some (first AND 0x0f, 2, 0x800)
      else if first \<ge> 0xf0 \<and> first \<le> 0xf4 then Some (first AND 0x07, 3, 0x10000)
      else if first \<ge> 0x80 then None
      else Some (first, 0, 0))"

fun utf8_rest :: "nat \<Rightarrow> nat \<Rightarrow> string \<Rightarrow> (nat \<times> string) option" where
  "utf8_rest point 0 s = Some (point, s)"
| "utf8_rest point (Suc n) [] = None"
| "utf8_rest point (Suc n) (c # s) =
     (let nxt = of_char c :: nat in
      if nxt AND 0xc0 \<noteq> 0x80 then None
      else utf8_rest (push_bit 6 point OR (nxt AND 0x3f)) n s)"

definition point_ok :: "nat \<Rightarrow> nat \<Rightarrow> bool" where
  "point_ok minimum point \<longleftrightarrow>
     \<not> (point < minimum \<or> point > 0x10ffff \<or> (point \<ge> 0xd800 \<and> point \<le> 0xdfff)) \<and>
     \<not> (point < 0x20 \<or> (point \<ge> 0x7f \<and> point \<le> 0x9f) \<or> point = 0x2028 \<or> point = 0x2029) \<and>
     \<not> ((point \<ge> 0xfdd0 \<and> point \<le> 0xfdef) \<or> (point AND 0xffff) \<ge> 0xfffe)"

lemma utf8_rest_length: "utf8_rest p n s = Some (q, s') \<Longrightarrow> length s = n + length s'"
  by (induction p n s rule: utf8_rest.induct) (auto simp: Let_def split: if_splits)

function valid_text_ssid :: "string \<Rightarrow> bool" where
  "valid_text_ssid [] = True"
| "valid_text_ssid (c # s) = (case utf8_lead (of_char c) of
       None \<Rightarrow> False
     | Some (point, remaining, minimum) \<Rightarrow>
         if length s < remaining then False
         else (case utf8_rest point remaining s of
             None \<Rightarrow> False
           | Some (point, s) \<Rightarrow> point_ok minimum point \<and> valid_text_ssid s))"
  by pat_completeness auto
termination
  by (relation "measure length") (auto dest: utf8_rest_length)

section \<open>Profiles\<close>

text \<open>A hexadecimal digit of either case; \<open>None\<close> is the -1 of the code.\<close>

definition hex_value :: "char \<Rightarrow> nat option" where
  "hex_value c = stoi16_char c"

definition make_profile :: "psk_kdf \<Rightarrow> string \<Rightarrow> string \<Rightarrow> string + wifi_profile" where
  "make_profile kdf ssid password =
     (if ssid = [] \<or> length ssid > 32 then Inl ''SSID must contain 1 to 32 bytes''
      else if \<not> valid_text_ssid ssid
      then Inl ''SSID must be valid UTF-8 text without controls, line separators or Unicode noncharacters''
      else if length password = 64 \<and> list_ex (\<lambda>c. hex_value c = None) password
      then Inl ''A 64-character PSK must be hexadecimal''
      else if length password \<noteq> 64 \<and> (length password < 8 \<or> length password > 63)
      then Inl ''WPA2 password must contain 8 to 63 ASCII characters or 64 hexadecimal digits''
      else if length password \<noteq> 64 \<and> list_ex (\<lambda>c. of_char c < (32 :: nat) \<or> of_char c > (126 :: nat)) password
      then Inl ''WPA2 password contains unsupported characters''
      else let hex = bytes_to_hex (bytes_of ssid) in
        if length password = 64
        then Inr \<lparr>ssid_hex = hex, psk = the (hex_pairs password), dhcp6 = None\<rparr>
        else (case kdf password ssid of
            None \<Rightarrow> Inl ''Cannot derive Wi-Fi key''
          | Some key \<Rightarrow> Inr \<lparr>ssid_hex = hex, psk = map key [0..<32], dhcp6 = None\<rparr>))"

section \<open>Drafts\<close>

definition yaml_prefix :: string where
  "yaml_prefix = ''# encoder managed wifi v1'' @ [CHR 0x0A]
     @ ''# Draft only: requires verified WPA2 enforcement before installation.'' @ [CHR 0x0A]
     @ ''network:'' @ [CHR 0x0A] @ ''  version: 2'' @ [CHR 0x0A] @ ''  wifis:'' @ [CHR 0x0A]
     @ ''    wlan0:'' @ [CHR 0x0A] @ ''      renderer: networkd'' @ [CHR 0x0A]
     @ ''      dhcp4: true'' @ [CHR 0x0A] @ ''      access-points:'' @ [CHR 0x0A] @ ''        ''"

definition yaml_auth :: string where
  "yaml_auth = '':'' @ [CHR 0x0A] @ ''          auth:'' @ [CHR 0x0A]
     @ ''            key-management: psk'' @ [CHR 0x0A] @ ''            password: '' @ [CHR 0x22]"

definition wpa_prefix :: string where
  "wpa_prefix = ''# encoder managed WPA2 draft v1'' @ [CHR 0x0A]
     @ ''ctrl_interface=/run/wpa_supplicant'' @ [CHR 0x0A] @ ''update_config=0'' @ [CHR 0x0A]
     @ ''network={'' @ [CHR 0x0A] @ ''  ssid=''"

definition wpa_auth :: string where
  "wpa_auth = [CHR 0x0A] @ ''  proto=RSN'' @ [CHR 0x0A] @ ''  key_mgmt=WPA-PSK'' @ [CHR 0x0A]
     @ ''  pairwise=CCMP'' @ [CHR 0x0A] @ ''  group=CCMP'' @ [CHR 0x0A] @ ''  psk=''"

text \<open>\<open>text.insert(text.find(pattern), extra)\<close> for a pattern that occurs.\<close>

fun insert_before :: "string \<Rightarrow> string \<Rightarrow> string \<Rightarrow> string" where
  "insert_before pattern extra [] = extra"
| "insert_before pattern extra (c # s) =
     (if starts_with pattern (c # s) then extra @ c # s else c # insert_before pattern extra s)"

definition prefix_for :: "bool option \<Rightarrow> string" where
  "prefix_for d = (case d of
       None \<Rightarrow> yaml_prefix
     | Some b \<Rightarrow> insert_before ''      access-points:''
         ((if b then ''      dhcp6: true'' else ''      dhcp6: false'') @ [CHR 0x0A]) yaml_prefix)"

definition with_psk :: "string \<Rightarrow> byte list \<Rightarrow> string \<Rightarrow> byte list" where
  "with_psk prefix key suffix = bytes_of (prefix @ bytes_to_hex (take 32 key) @ suffix)"

definition unhex :: "char \<Rightarrow> nat option" where
  "unhex c = (let n = of_char c :: nat in
     if 48 \<le> n \<and> n \<le> 57 then Some (n - 48)
     else if 97 \<le> n \<and> n \<le> 102 then Some (n - 97 + 10)
     else None)"

text \<open>The loops that turn pairs of digits into characters.\<close>

fun unhex_text :: "string \<Rightarrow> string option" where
  "unhex_text (h # l # rest) = (case (unhex h, unhex l) of
       (Some high, Some low) \<Rightarrow>
         map_option ((#) (char_of_byte (push_bit 4 (word_of_nat high) OR word_of_nat low))) (unhex_text rest)
     | _ \<Rightarrow> None)"
| "unhex_text _ = Some []"

definition quote_text :: "string \<Rightarrow> string" where
  "quote_text s = concat (map (\<lambda>c. if c = CHR 0x5C \<or> c = CHR 0x22 then [CHR 0x5C, c] else [c]) s)"

record wifi_config_draft =
  netplan_yaml :: "byte list"
  supplicant_config :: "byte list"

definition make_wifi_config_draft :: "wifi_profile \<Rightarrow> string + wifi_config_draft" where
  "make_wifi_config_draft profile =
     (let hex = ssid_hex profile;
          refused = Inl ''Cannot generate configuration from an invalid or consumed Wi-Fi profile'' in
      if length (psk profile) \<noteq> 32 \<or> hex = [] \<or> length hex > 64 \<or> length hex mod 2 \<noteq> 0 then refused
      else (case unhex_text hex of
          None \<Rightarrow> refused
        | Some text \<Rightarrow>
            let quoted = [CHR 0x22] @ quote_text text @ [CHR 0x22];
                yaml = prefix_for (dhcp6 profile) @ quoted @ yaml_auth;
                wpa = wpa_prefix @ hex @ wpa_auth
            in Inr \<lparr>netplan_yaml = with_psk yaml (psk profile) [CHR 0x22, CHR 0x0A],
                    supplicant_config = with_psk wpa (psk profile) [CHR 0x0A, CHR 0x7D, CHR 0x0A]\<rparr>))"

text \<open>
  The loop over the quoted name, after its opening quote; \<open>ssid\<close> is what was read so far. The
  result is the name and the text after the closing quote.
\<close>

fun read_quoted :: "string \<Rightarrow> string \<Rightarrow> (string \<times> string) option" where
  "read_quoted ssid [] = None"
| "read_quoted ssid (c # s) =
     (if c = CHR 0x22 then Some (ssid, s)
      else if c = CHR 0x5C then
        (case s of
           [] \<Rightarrow> None
         | d # s' \<Rightarrow>
             if d \<noteq> CHR 0x5C \<and> d \<noteq> CHR 0x22 then None
             else if length (ssid @ [d]) > 32 then None
             else read_quoted (ssid @ [d]) s')
      else if length (ssid @ [c]) > 32 then None
      else read_quoted (ssid @ [c]) s)"

text \<open>The first of the three headers the text starts with.\<close>

definition read_prefix :: "string \<Rightarrow> (bool option \<times> string) option" where
  "read_prefix inp =
     (if starts_with (prefix_for None) inp then Some (None, drop (length (prefix_for None)) inp)
      else if starts_with (prefix_for (Some True)) inp
      then Some (Some True, drop (length (prefix_for (Some True))) inp)
      else if starts_with (prefix_for (Some False)) inp
      then Some (Some False, drop (length (prefix_for (Some False))) inp)
      else None)"

definition read_wifi_config_draft :: "psk_kdf \<Rightarrow> string \<Rightarrow> string + wifi_profile" where
  "read_wifi_config_draft kdf inp =
     (let refused = Inl ''Wi-Fi configuration is not an exact supported encoder-generated draft'' in
      if length inp > 4096 then refused
      else (case read_prefix inp of
          None \<Rightarrow> refused
        | Some (d, remaining) \<Rightarrow>
            if remaining = [] \<or> hd remaining \<noteq> CHR 0x22 then refused
            else (case read_quoted [] (tl remaining) of
                None \<Rightarrow> refused
              | Some (ssid, remaining) \<Rightarrow>
                  if length remaining \<noteq> length yaml_auth + 64 + 2
                     \<or> take (length yaml_auth) remaining \<noteq> yaml_auth
                     \<or> drop (length remaining - 2) remaining \<noteq> [CHR 0x22, CHR 0x0A] then refused
                  else let key = take 64 (drop (length yaml_auth) remaining) in
                    if list_ex (\<lambda>c. unhex c = None) key then refused
                    else (case make_profile kdf ssid key of
                        Inl _ \<Rightarrow> refused
                      | Inr profile \<Rightarrow>
                          let profile = profile\<lparr>dhcp6 := d\<rparr> in
                          (case make_wifi_config_draft profile of
                             Inl _ \<Rightarrow> refused
                           | Inr canonical \<Rightarrow>
                               if netplan_yaml canonical \<noteq> bytes_of inp then refused else Inr profile)))))"

definition read_wifi_supplicant_draft :: "psk_kdf \<Rightarrow> string \<Rightarrow> string + wifi_profile" where
  "read_wifi_supplicant_draft kdf inp =
     (let refused = Inl ''Unsupported or noncanonical encoder WPA2 policy'' in
      if length inp > 4096 \<or> \<not> starts_with wpa_prefix inp then refused
      else (case cut (CHR 0x0A) (drop (length wpa_prefix) inp) of
          None \<Rightarrow> refused
        | Some (line, _) \<Rightarrow>
            if line = [] \<or> length line > 64 \<or> length line mod 2 \<noteq> 0 then refused
            else (case unhex_text line of
                None \<Rightarrow> refused
              | Some ssid \<Rightarrow>
                  let remaining = drop (length line) (drop (length wpa_prefix) inp) in
                  if length remaining \<noteq> length wpa_auth + 64 + 3
                     \<or> take (length wpa_auth) remaining \<noteq> wpa_auth
                     \<or> drop (length remaining - 3) remaining \<noteq> [CHR 0x0A, CHR 0x7D, CHR 0x0A] then refused
                  else let key = take 64 (drop (length wpa_auth) remaining) in
                    if list_ex (\<lambda>c. unhex c = None) key then refused
                    else (case make_profile kdf ssid key of
                        Inl _ \<Rightarrow> refused
                      | Inr profile \<Rightarrow>
                          (case make_wifi_config_draft profile of
                             Inl _ \<Rightarrow> refused
                           | Inr canonical \<Rightarrow>
                               if supplicant_config canonical \<noteq> bytes_of inp then refused else Inr profile)))))"

section \<open>The validator accepts UTF-8 text\<close>

subsection \<open>The bit operations as arithmetic\<close>

lemma of_char_lt [simp]: "(of_char c :: nat) < 256"
  using nat_of_char_less_256 by simp

lemma top_bits: "n AND 0xc0 = 64 * (n div 64 mod (4 :: nat))"
proof -
  have "n AND push_bit 6 (mask 2) = push_bit 6 (take_bit 2 (drop_bit 6 n))"
    by (rule bit_eqI) (auto simp: bit_simps)
  moreover have "push_bit 6 (mask 2) = (0xc0 :: nat)" by (simp add: mask_numeral push_bit_eq_mult)
  ultimately show ?thesis by (simp only:) (simp add: push_bit_eq_mult take_bit_eq_mod drop_bit_eq_div)
qed

lemma cont_bits:
  assumes "n < 256"
  shows "(n AND 0xc0 = 0x80) \<longleftrightarrow> 0x80 \<le> n \<and> n < (0xc0 :: nat)"
proof -
  have "n div 64 mod 4 = n div 64" using assms by simp
  then have "(n AND 0xc0 = 0x80) \<longleftrightarrow> n div 64 = 2" by (simp add: top_bits)
  also have "\<dots> \<longleftrightarrow> 0x80 \<le> n \<and> n < 0xc0" by linarith
  finally show ?thesis .
qed

lemma low_bits: "n AND 0x3f = n mod (64 :: nat)" "n AND 0x1f = n mod (32 :: nat)" "n AND 0x0f = n mod (16 :: nat)"
  "n AND 0x07 = n mod (8 :: nat)" "n AND 0xffff = n mod (65536 :: nat)"
  using take_bit_eq_mask [of 6 n] take_bit_eq_mask [of 5 n] take_bit_eq_mask [of 4 n]
    take_bit_eq_mask [of 3 n] take_bit_eq_mask [of 16 n]
  by (simp_all add: mask_numeral take_bit_eq_mod)

lemma join_bits: "push_bit 6 p OR (n AND 0x3f) = 64 * p + n mod (64 :: nat)"
proof -
  have m: "n AND 0x3f = take_bit 6 n" for n :: nat by (simp add: low_bits take_bit_eq_mod)
  have "push_bit 6 p OR take_bit 6 n = push_bit 6 p + take_bit 6 n"
    by (rule disjunctive_add_eq_or [symmetric]) (auto simp: bit_eq_iff bit_simps)
  then show ?thesis unfolding m by (simp add: push_bit_eq_mult take_bit_eq_mod)
qed

lemma mod_window: "k * d \<le> m \<Longrightarrow> m < k * d + d \<Longrightarrow> m mod d = m - k * (d :: nat)"
  by (metis add_diff_inverse_nat less_diff_conv2 linorder_not_less mod_less mod_mult_self3 nat_add_left_cancel_less)

text \<open>The reference: the encoding of one code point, and the code points a name may have.\<close>

definition utf8_enc :: "nat \<Rightarrow> nat list" where
  "utf8_enc p =
     (if p < 0x80 then [p]
      else if p < 0x800 then [0xc0 + p div 64, 0x80 + p mod 64]
      else if p < 0x10000 then [0xe0 + p div 4096, 0x80 + p div 64 mod 64, 0x80 + p mod 64]
      else [0xf0 + p div 262144, 0x80 + p div 4096 mod 64, 0x80 + p div 64 mod 64, 0x80 + p mod 64])"

definition utf8_char :: "nat \<Rightarrow> string" where
  "utf8_char p = map char_of (utf8_enc p)"

definition text_point :: "nat \<Rightarrow> bool" where
  "text_point p \<longleftrightarrow> p \<le> 0x10ffff \<and> p \<ge> 0x20 \<and> p \<notin> {0x7f..0x9f} \<and> p \<notin> {0xd800..0xdfff}
     \<and> p \<noteq> 0x2028 \<and> p \<noteq> 0x2029 \<and> p \<notin> {0xfdd0..0xfdef} \<and> p mod 65536 < 65534"

lemma point_ok_iff: "point_ok m p \<longleftrightarrow> m \<le> p \<and> text_point p"
  by (auto simp: point_ok_def text_point_def low_bits)

lemma utf8_rest_step:
  "utf8_rest p (Suc n) (c # s) = (let m = of_char c in
     if 0x80 \<le> m \<and> m < (0xc0::nat) then utf8_rest (64 * p + (m - 0x80)) n s else None)"
proof -
  have "m mod 64 = m - 128" if "0x80 \<le> m \<and> m < (0xc0::nat)" for m
    using that mod_window [of 2 64 m] by simp
  then show ?thesis by (simp add: cont_bits join_bits Let_def)
qed

lemma utf8_lead_cases:
  assumes "utf8_lead n = Some (p, r, m)"
  shows "n < 0x80 \<and> p = n \<and> r = 0 \<and> m = 0 \<or> 0xc2 \<le> n \<and> n \<le> 0xdf \<and> p = n - 0xc0 \<and> r = 1 \<and> m = 0x80
    \<or> 0xe0 \<le> n \<and> n \<le> 0xef \<and> p = n - 0xe0 \<and> r = 2 \<and> m = 0x800
    \<or> 0xf0 \<le> n \<and> n \<le> 0xf4 \<and> p = n - 0xf0 \<and> r = 3 \<and> m = 0x10000"
proof -
  have "n mod 32 = n - 192" if "194 \<le> n" "n \<le> 223" using that mod_window [of 6 32 n] by simp
  moreover have "n mod 16 = n - 224" if "224 \<le> n" "n \<le> 239" using that mod_window [of 14 16 n] by simp
  moreover have "n mod 8 = n - 240" if "240 \<le> n" "n \<le> 244" using that mod_window [of 30 8 n] by simp
  ultimately show ?thesis
    using assms by (auto simp: utf8_lead_def low_bits split: if_splits)
qed

lemma utf8_lead_simps:
  "q < 0x80 \<Longrightarrow> utf8_lead q = Some (q, 0, 0)"
  "2 \<le> q \<Longrightarrow> q < 32 \<Longrightarrow> utf8_lead (0xc0 + q) = Some (q, 1, 0x80)"
  "q < 16 \<Longrightarrow> utf8_lead (0xe0 + q) = Some (q, 2, 0x800)"
  "q < 5 \<Longrightarrow> utf8_lead (0xf0 + q) = Some (q, 3, 0x10000)"
  using mod_window [of 6 32 "0xc0 + q"] mod_window [of 14 16 "0xe0 + q"] mod_window [of 30 8 "0xf0 + q"]
  by (simp_all add: utf8_lead_def low_bits)

lemma digits64:
  assumes "b < (64 :: nat)"
  shows "(64 * a + b) div 64 = a" "(64 * a + b) mod 64 = b" "(64 * a + b) div 4096 = a div 64"
    "(64 * a + b) div 262144 = a div 64 div 64"
proof -
  show "(64 * a + b) div 64 = a" "(64 * a + b) mod 64 = b" using assms by simp_all
  then show "(64 * a + b) div 4096 = a div 64" "(64 * a + b) div 262144 = a div 64 div 64"
    using div_mult2_eq [of "64 * a + b" 64 64] div_mult2_eq [of "64 * a + b" 64 4096] div_mult2_eq [of a 64 64]
    by simp_all
qed

lemma join64: "64 * (p div 64) + p mod 64 = (p :: nat)"
  by simp

lemma utf8_cont:
  assumes "m < 64"
  shows "utf8_rest p (Suc n) (char_of (0x80 + m :: nat) # s) = utf8_rest (64 * p + m) n s"
  using assms by (simp add: utf8_rest_step Let_def del: utf8_rest.simps(3))

lemma utf8_conts:
  "a < (64 :: nat) \<Longrightarrow> utf8_rest p 1 (char_of (0x80 + a) # s) = Some (64 * p + a, s)"
  "a < (64 :: nat) \<Longrightarrow> b < (64 :: nat) \<Longrightarrow>
    utf8_rest p 2 (char_of (0x80 + a) # char_of (0x80 + b) # s) = Some (64 * (64 * p + a) + b, s)"
  "a < (64 :: nat) \<Longrightarrow> b < (64 :: nat) \<Longrightarrow> c < (64 :: nat) \<Longrightarrow>
    utf8_rest p 3 (char_of (0x80 + a) # char_of (0x80 + b) # char_of (0x80 + c) # s)
      = Some (64 * (64 * (64 * p + a) + b) + c, s)"
  unfolding One_nat_def numeral_2_eq_2 numeral_3_eq_3
  by (simp_all only: utf8_cont utf8_rest.simps(1))

lemma valid_ssid_lead:
  assumes "n < 256" "utf8_lead n = Some (p, r, m)" "utf8_rest p r s = Some (q, s')"
  shows "valid_text_ssid (char_of n # s) \<longleftrightarrow> point_ok m q \<and> valid_text_ssid s'"
  using assms by (simp add: utf8_rest_length)

lemma utf8_step:
  assumes "text_point p"
  shows "valid_text_ssid (utf8_char p @ s) = valid_text_ssid s"
proof -
  have j: "64 * (p div 64) + p mod 64 = p" "64 * (64 * (p div 4096) + p div 64 mod 64) + p mod 64 = p"
    "64 * (64 * (64 * (p div 262144) + p div 4096 mod 64) + p div 64 mod 64) + p mod 64 = p"
    using div_mult2_eq [of p 64 64] div_mult2_eq [of p 64 4096] div_mult2_eq [of "p div 64" 64 64]
      div_mult_mod_eq [of "p div 64" 64] div_mult_mod_eq [of "p div 4096" 64] by simp_all
  have m: "p mod 64 < 64" "p div 64 mod 64 < 64" "p div 4096 mod 64 < 64" by simp_all
  consider "p < 0x80" | "0x80 \<le> p" "p < 0x800" | "0x800 \<le> p" "p < 0x10000" | "0x10000 \<le> p" by linarith
  then show ?thesis
  proof cases
    case 1
    then have e: "utf8_char p @ s = char_of p # s" by (simp add: utf8_char_def utf8_enc_def)
    show ?thesis unfolding e
      using 1 assms valid_ssid_lead [of p p 0 0 s p s] by (simp add: utf8_lead_simps point_ok_iff)
  next
    case 2
    then have l: "2 \<le> p div 64" "p div 64 < 32" by linarith+
    have e: "utf8_char p @ s = char_of (0xc0 + p div 64) # char_of (0x80 + p mod 64) # s"
      using 2 by (simp add: utf8_char_def utf8_enc_def)
    show ?thesis unfolding e
      using 2 l assms
      by (subst valid_ssid_lead [OF _ utf8_lead_simps(2) utf8_conts(1)]) (simp_all only: m j point_ok_iff, simp_all)
  next
    case 3
    then have l: "p div 4096 < 16" by linarith
    have e: "utf8_char p @ s = char_of (0xe0 + p div 4096) # char_of (0x80 + p div 64 mod 64) # char_of (0x80 + p mod 64) # s"
      using 3 by (simp add: utf8_char_def utf8_enc_def)
    show ?thesis unfolding e
      using 3 l assms
      by (subst valid_ssid_lead [OF _ utf8_lead_simps(3) utf8_conts(2)]) (simp_all only: m j point_ok_iff, simp_all)
  next
    case 4
    have l: "p div 262144 < 5" using assms unfolding text_point_def by linarith
    have e: "utf8_char p @ s = char_of (0xf0 + p div 262144) # char_of (0x80 + p div 4096 mod 64)
        # char_of (0x80 + p div 64 mod 64) # char_of (0x80 + p mod 64) # s"
      using 4 by (simp add: utf8_char_def utf8_enc_def)
    show ?thesis unfolding e
      using 4 l assms
      by (subst valid_ssid_lead [OF _ utf8_lead_simps(4) utf8_conts(3)]) (simp_all only: m j point_ok_iff, simp_all)
  qed
qed

lemma utf8_rest_split:
  assumes "utf8_rest p n s = Some (q, s')"
  shows "\<exists>ms. length ms = n \<and> (\<forall>m \<in> set ms. m < 64) \<and> s = map (\<lambda>m. char_of (0x80 + m)) ms @ s'
     \<and> q = fold (\<lambda>m p. 64 * p + m) ms p"
  using assms
proof (induction n arbitrary: p s)
  case (Suc n)
  then obtain c t where s: "s = c # t" by (cases s) auto
  let ?m = "of_char c - 0x80 :: nat"
  have c: "0x80 \<le> (of_char c :: nat)" "of_char c < (0xc0 :: nat)" and r: "utf8_rest (64 * p + ?m) n t = Some (q, s')"
    using Suc.prems by (auto simp: s utf8_rest_step Let_def simp del: utf8_rest.simps(3) split: if_splits)
  from Suc.IH [OF r] obtain ms where "length ms = n" "\<forall>m \<in> set ms. m < 64"
    "t = map (\<lambda>m. char_of (0x80 + m)) ms @ s'" "q = fold (\<lambda>m p. 64 * p + m) ms (64 * p + ?m)" by blast
  with c show ?case by (intro exI [of _ "?m # ms"]) (auto simp: s)
qed simp

lemma valid_split:
  assumes "utf8_lead n = Some (p, r, m)" "utf8_rest p r s = Some (q, s')" "point_ok m q" "n < 256"
  shows "char_of n # s = utf8_char q @ s' \<and> text_point q"
proof -
  from utf8_rest_split [OF assms(2)] obtain ms where ms: "length ms = r" "\<forall>m \<in> set ms. m < 64"
    "s = map (\<lambda>m. char_of (0x80 + m)) ms @ s'" "q = fold (\<lambda>m p. 64 * p + m) ms p" by blast
  have q: "m \<le> q" "text_point q" using assms(3) by (simp_all add: point_ok_iff)
  have "char_of n # s = utf8_char q @ s'"
    using utf8_lead_cases [OF assms(1)]
  proof (elim disjE conjE)
    assume "n < 0x80" "p = n" "r = 0"
    then show ?thesis using ms by (simp add: utf8_char_def utf8_enc_def)
  next
    assume n: "0xc2 \<le> n" "n \<le> 0xdf" "p = n - 0xc0" and r: "r = 1" and m: "m = 0x80"
    from ms r obtain a where a: "ms = [a]" "a < 64" by (cases ms) auto
    have "q = 64 * p + a" using a ms by simp
    moreover from this have "q < 0x800" using n a by linarith
    ultimately show ?thesis using n a q m ms(3) by (simp add: utf8_char_def utf8_enc_def digits64)
  next
    assume n: "0xe0 \<le> n" "n \<le> 0xef" "p = n - 0xe0" and r: "r = 2" and m: "m = 0x800"
    from ms(1) r obtain a b where a: "ms = [a, b]" by (auto simp: length_Suc_conv numeral_2_eq_2)
    then have l: "a < 64" "b < 64" using ms(2) by simp_all
    have e: "q = 64 * (64 * p + a) + b" using a ms by simp
    have "p \<le> 15" using n by simp
    then have "64 * p + a \<le> 1023" using l by simp
    then have "q < 0x10000" using l e by simp
    moreover have "q div 4096 = p" "q div 64 mod 64 = a" "q mod 64 = b" by (simp_all only: e digits64 l)
    ultimately show ?thesis using n a q m ms(3) by (simp add: utf8_char_def utf8_enc_def)
  next
    assume n: "0xf0 \<le> n" "n \<le> 0xf4" "p = n - 0xf0" and r: "r = 3" and m: "m = 0x10000"
    from ms(1) r obtain a b c where a: "ms = [a, b, c]" by (auto simp: length_Suc_conv numeral_3_eq_3)
    then have l: "a < 64" "b < 64" "c < 64" using ms(2) by simp_all
    have e: "q = 64 * (64 * (64 * p + a) + b) + c" using a ms by simp
    have "q div 262144 = p" "q div 4096 mod 64 = a" "q div 64 mod 64 = b" "q mod 64 = c"
      by (simp_all only: e digits64 l)
    then show ?thesis using n a q m ms(3) by (simp add: utf8_char_def utf8_enc_def)
  qed
  with q show ?thesis by simp
qed

lemma valid_text_ssid_iff:
  "valid_text_ssid s \<longleftrightarrow> (\<exists>ps. (\<forall>p \<in> set ps. text_point p) \<and> s = concat (map utf8_char ps))"
proof
  show "valid_text_ssid s \<Longrightarrow> \<exists>ps. (\<forall>p \<in> set ps. text_point p) \<and> s = concat (map utf8_char ps)"
  proof (induction s rule: valid_text_ssid.induct)
    case (2 c s)
    from "2.prems" obtain p r m where l: "utf8_lead (of_char c) = Some (p, r, m)"
      by (cases "utf8_lead (of_char c)") auto
    with "2.prems" have n: "\<not> length s < r" by (auto split: if_splits)
    from "2.prems" l n obtain q s' where "utf8_rest p r s = Some (q, s')" "point_ok m q" "valid_text_ssid s'"
      by (cases "utf8_rest p r s") auto
    note * = l n this
    from valid_split [OF *(1,3,4)] have "c # s = utf8_char q @ s'" "text_point q" by simp_all
    moreover from "2.IH" [OF *(1) refl refl *(2,3) refl] *(5) obtain ps where
      "\<forall>p \<in> set ps. text_point p" "s' = concat (map utf8_char ps)" by blast
    ultimately show ?case by (intro exI [of _ "q # ps"]) simp
  qed (auto intro: exI [of _ "[]"])
  have "(\<forall>p \<in> set ps. text_point p) \<Longrightarrow> valid_text_ssid (concat (map utf8_char ps))" for ps
    by (induction ps) (simp_all add: utf8_step)
  then show "\<exists>ps. (\<forall>p \<in> set ps. text_point p) \<and> s = concat (map utf8_char ps) \<Longrightarrow> valid_text_ssid s" by blast
qed

section \<open>Round trips of the drafts\<close>

lemma unhex_digit: "n < 16 \<Longrightarrow> unhex (kHex ! n) = Some n"
proof -
  have "list_all (\<lambda>i. unhex (kHex ! i) = Some i) [0..<16]" by code_simp
  then show "n < 16 \<Longrightarrow> unhex (kHex ! n) = Some n" by (simp add: list_all_iff)
qed

lemma unhex_text_byte: "unhex_text (hex_byte b @ s) = map_option ((#) (char_of_byte b)) (unhex_text s)"
proof -
  have "push_bit 4 (word_of_nat (unat (drop_bit 4 b AND 0xF))) OR word_of_nat (unat (b AND 0xF)) = b"
    using join_nibbles [of b] by (simp only: of_nat_unat ucast_id)
  then show ?thesis
    unfolding hex_byte_def
    by (simp only: append.simps unhex_text.simps unhex_digit nibble_lt option.case prod.case)
qed

lemma unhex_text_hex [codec]: "unhex_text (bytes_to_hex bs) = Some (string_of bs)"
  by (induction bs) (simp_all add: bytes_to_hex_def unhex_text_byte)

lemma hex_chars: "c \<in> set (bytes_to_hex bs) \<Longrightarrow> unhex c \<noteq> None \<and> hex_value c \<noteq> None \<and> c \<noteq> CHR 0x0A"
proof -
  have "list_all (\<lambda>i. kHex ! i \<noteq> CHR 0x0A) [0..<16]" by code_simp
  then have "n < 16 \<Longrightarrow> kHex ! n \<noteq> CHR 0x0A" for n by (simp add: list_all_iff)
  then show "c \<in> set (bytes_to_hex bs) \<Longrightarrow> unhex c \<noteq> None \<and> hex_value c \<noteq> None \<and> c \<noteq> CHR 0x0A"
    by (auto simp: bytes_to_hex_def hex_byte_def hex_value_def unhex_digit kHex_digit nibble_lt)
qed

lemma hex_pairs_length: "hex_pairs s = Some bs \<Longrightarrow> length bs = length s div 2"
  by (induction s arbitrary: bs rule: hex_pairs.induct) (auto split: option.splits)

lemma hex_pairs_total: "\<forall>c \<in> set s. hex_value c \<noteq> None \<Longrightarrow> hex_pairs s \<noteq> None"
  by (induction s rule: hex_pairs.induct) (auto simp: hex_value_def split: option.splits)

lemma read_quoted_quote [codec]:
  "length ssid + length s \<le> 32 \<Longrightarrow> read_quoted ssid (quote_text s @ CHR 0x22 # r) = Some (ssid @ s, r)"
  by (induction s arbitrary: ssid) (auto simp: quote_text_def)

text \<open>The three headers, written out around the optional line.\<close>

definition yaml_head :: string where
  "yaml_head = ''# encoder managed wifi v1'' @ [CHR 0x0A]
     @ ''# Draft only: requires verified WPA2 enforcement before installation.'' @ [CHR 0x0A]
     @ ''network:'' @ [CHR 0x0A] @ ''  version: 2'' @ [CHR 0x0A] @ ''  wifis:'' @ [CHR 0x0A]
     @ ''    wlan0:'' @ [CHR 0x0A] @ ''      renderer: networkd'' @ [CHR 0x0A]
     @ ''      dhcp4: true'' @ [CHR 0x0A]"

definition yaml_line :: "bool option \<Rightarrow> string" where
  "yaml_line d = (case d of None \<Rightarrow> []
     | Some b \<Rightarrow> (if b then ''      dhcp6: true'' else ''      dhcp6: false'') @ [CHR 0x0A])"

lemma prefix_for_eq:
  "prefix_for d = yaml_head @ yaml_line d @ ''      access-points:'' @ [CHR 0x0A] @ ''        ''"
  by (cases d) (simp_all add: prefix_for_def yaml_prefix_def yaml_head_def yaml_line_def starts_with_def)

lemma starts_with_same [simp]: "starts_with (a @ x) (a @ y) \<longleftrightarrow> starts_with x y"
  by (simp add: starts_with_def)

lemma prefixes_differ:
  "\<not> starts_with (prefix_for None) (prefix_for (Some b) @ r)"
  "\<not> starts_with (prefix_for (Some True)) (prefix_for (Some False) @ r)"
  unfolding prefix_for_eq append_assoc starts_with_same
  by (simp_all add: yaml_line_def starts_with_def)

lemma read_prefix_for [codec]: "read_prefix (prefix_for d @ r) = Some (d, r)"
proof (cases d)
  case (Some b)
  then show ?thesis by (cases b) (simp_all add: read_prefix_def prefixes_differ starts_with_append)
qed (simp add: read_prefix_def starts_with_append)

lemma prefix_length: "length (prefix_for d) \<le> 300"
  by (cases d) (simp_all add: prefix_for_eq yaml_head_def yaml_line_def)

lemma template_lengths: "length yaml_auth \<le> 100" "length wpa_auth \<le> 100" "length wpa_prefix \<le> 150"
  by (simp_all add: yaml_auth_def wpa_auth_def wpa_prefix_def)

definition profile_ok :: "wifi_profile \<Rightarrow> bool" where
  "profile_ok p \<longleftrightarrow> (\<exists>ssid. ssid_hex p = bytes_to_hex (bytes_of ssid) \<and> ssid \<noteq> [] \<and> length ssid \<le> 32
     \<and> valid_text_ssid ssid) \<and> length (psk p) = 32"

lemma make_profile_ok:
  assumes "make_profile kdf ssid password = Inr p"
  shows "profile_ok p \<and> dhcp6 p = None \<and> ssid_hex p = bytes_to_hex (bytes_of ssid)"
proof -
  have "length (the (hex_pairs password)) = 32" if "length password = 64" "\<not> list_ex (\<lambda>c. hex_value c = None) password"
    using that hex_pairs_total [of password] by (cases "hex_pairs password") (auto simp: list_ex_iff hex_pairs_length)
  then show ?thesis
    using assms by (auto simp: make_profile_def Let_def profile_ok_def split: if_splits option.splits)
qed

lemma make_profile_hex:
  assumes "ssid \<noteq> []" "length ssid \<le> 32" "valid_text_ssid ssid" "length key = 32"
  shows "make_profile kdf ssid (bytes_to_hex key) = Inr \<lparr>ssid_hex = bytes_to_hex (bytes_of ssid), psk = key, dhcp6 = None\<rparr>"
proof -
  have "\<not> list_ex (\<lambda>c. hex_value c = None) (bytes_to_hex key)" by (auto simp: list_ex_iff dest: hex_chars)
  with assms show ?thesis by (simp add: make_profile_def Let_def hex_pairs_hex)
qed

lemma quote_length: "length (quote_text s) \<le> 2 * length s"
  by (induction s) (simp_all add: quote_text_def)

lemma draft_of:
  assumes "ssid_hex p = bytes_to_hex (bytes_of ssid)" "ssid \<noteq> []" "length ssid \<le> 32" "length (psk p) = 32"
  shows "make_wifi_config_draft p = Inr
    \<lparr>netplan_yaml = bytes_of (prefix_for (dhcp6 p) @ CHR 0x22 # quote_text ssid @ CHR 0x22 # yaml_auth
        @ bytes_to_hex (psk p) @ [CHR 0x22, CHR 0x0A]),
     supplicant_config = bytes_of (wpa_prefix @ bytes_to_hex (bytes_of ssid) @ wpa_auth
        @ bytes_to_hex (psk p) @ [CHR 0x0A, CHR 0x7D, CHR 0x0A])\<rparr>"
proof -
  have "bytes_to_hex (bytes_of ssid) \<noteq> []"
    using assms(2) length_bytes_to_hex [of "bytes_of ssid"] by force
  then show ?thesis
    using assms by (simp add: make_wifi_config_draft_def Let_def unhex_text_hex with_psk_def)
qed

lemma read_yaml_draft:
  assumes "ssid_hex p = bytes_to_hex (bytes_of ssid)" "ssid \<noteq> []" "length ssid \<le> 32" "length (psk p) = 32"
    "valid_text_ssid ssid" "make_wifi_config_draft p = Inr d"
  shows "read_wifi_config_draft kdf (string_of (netplan_yaml d)) = Inr p"
proof -
  let ?key = "bytes_to_hex (psk p)"
  let ?rest = "yaml_auth @ ?key @ [CHR 0x22, CHR 0x0A]"
  let ?s = "prefix_for (dhcp6 p) @ CHR 0x22 # quote_text ssid @ CHR 0x22 # ?rest"
  have d: "string_of (netplan_yaml d) = ?s" "netplan_yaml d = bytes_of ?s"
    using assms(6) draft_of [OF assms(1-4)] by auto
  have "length ?s \<le> 300 + 64 + 100 + 64 + 4"
    using prefix_length [of "dhcp6 p"] quote_length [of ssid] template_lengths(1) assms(3,4) by simp
  then have len: "\<not> length ?s > 4096" by simp
  have q: "read_quoted [] (quote_text ssid @ CHR 0x22 # ?rest) = Some (ssid, ?rest)"
    using read_quoted_quote [of "[]" ssid ?rest] assms(3) by simp
  have k: "\<not> list_ex (\<lambda>c. unhex c = None) ?key" by (auto simp: list_ex_iff dest: hex_chars)
  have key: "take 64 (drop (length yaml_auth) ?rest) = ?key" using assms(4) by simp
  have p: "\<lparr>ssid_hex = bytes_to_hex (bytes_of ssid), psk = psk p, dhcp6 = dhcp6 p\<rparr> = p" using assms(1) by simp
  show ?thesis
    unfolding d(1) read_wifi_config_draft_def Let_def
    using len q k key assms(4,6) d(2) p make_profile_hex [OF assms(2,3,5,4), of kdf]
    by (simp add: read_prefix_for)
qed

lemma read_supplicant_draft:
  assumes "ssid_hex p = bytes_to_hex (bytes_of ssid)" "ssid \<noteq> []" "length ssid \<le> 32" "length (psk p) = 32"
    "valid_text_ssid ssid" "make_wifi_config_draft p = Inr d"
  shows "read_wifi_supplicant_draft kdf (string_of (supplicant_config d)) = Inr (p\<lparr>dhcp6 := None\<rparr>)"
proof -
  let ?key = "bytes_to_hex (psk p)" and ?hex = "bytes_to_hex (bytes_of ssid)"
  let ?rest = "wpa_auth @ ?key @ [CHR 0x0A, CHR 0x7D, CHR 0x0A]"
  let ?s = "wpa_prefix @ ?hex @ ?rest"
  have d: "string_of (supplicant_config d) = ?s" "supplicant_config d = bytes_of ?s"
    using assms(6) draft_of [OF assms(1-4)] by auto
  have "length ?s \<le> 150 + 64 + 100 + 64 + 3"
    using template_lengths(2,3) assms(3,4) by simp
  then have len: "\<not> length ?s > 4096" by simp
  obtain w where w: "wpa_auth = CHR 0x0A # w" by (simp add: wpa_auth_def)
  have "CHR 0x0A \<notin> set ?hex" using hex_chars by blast
  then have c: "cut (CHR 0x0A) (?hex @ ?rest) = Some (?hex, w @ ?key @ [CHR 0x0A, CHR 0x7D, CHR 0x0A])"
    by (simp add: w cut_append)
  have ne: "?hex \<noteq> []" using assms(2) length_bytes_to_hex [of "bytes_of ssid"] by force
  have k: "\<not> list_ex (\<lambda>c. unhex c = None) ?key" by (auto simp: list_ex_iff dest: hex_chars)
  obtain y where y: "make_wifi_config_draft \<lparr>ssid_hex = ?hex, psk = psk p, dhcp6 = None\<rparr> =
      Inr \<lparr>netplan_yaml = y, supplicant_config = bytes_of ?s\<rparr>"
    using draft_of [of "\<lparr>ssid_hex = ?hex, psk = psk p, dhcp6 = None\<rparr>" ssid] assms(2-4) by simp
  show ?thesis
    unfolding d(1) read_wifi_supplicant_draft_def Let_def
    using len c ne k assms(1,3,4) y make_profile_hex [OF assms(2,3,5,4), of kdf]
    by (simp add: starts_with_append unhex_text_hex)
qed

lemma read_draft_only:
  assumes "read_wifi_config_draft kdf s = Inr p"
  shows "profile_ok p \<and> (\<exists>d. make_wifi_config_draft p = Inr d \<and> netplan_yaml d = bytes_of s)"
proof -
  from assms obtain ssid key q d where "make_profile kdf ssid key = Inr q" "p = q\<lparr>dhcp6 := d\<rparr>"
    "\<exists>d. make_wifi_config_draft p = Inr d \<and> netplan_yaml d = bytes_of s"
    unfolding read_wifi_config_draft_def Let_def
    by (auto split: if_splits option.splits prod.splits sum.splits)
  then show ?thesis using make_profile_ok [of kdf ssid key q] by (auto simp: profile_ok_def)
qed

lemma read_supplicant_only:
  assumes "read_wifi_supplicant_draft kdf s = Inr p"
  shows "profile_ok p \<and> dhcp6 p = None \<and> (\<exists>d. make_wifi_config_draft p = Inr d \<and> supplicant_config d = bytes_of s)"
proof -
  from assms obtain ssid key where "make_profile kdf ssid key = Inr p"
    "\<exists>d. make_wifi_config_draft p = Inr d \<and> supplicant_config d = bytes_of s"
    unfolding read_wifi_supplicant_draft_def Let_def
    by (auto split: if_splits option.splits prod.splits sum.splits)
  then show ?thesis using make_profile_ok [of kdf ssid key p] by (auto simp: profile_ok_def)
qed

lemma read_draft_iff:
  "read_wifi_config_draft kdf s = Inr p \<longleftrightarrow>
    profile_ok p \<and> (\<exists>d. make_wifi_config_draft p = Inr d \<and> netplan_yaml d = bytes_of s)"
proof
  assume "profile_ok p \<and> (\<exists>d. make_wifi_config_draft p = Inr d \<and> netplan_yaml d = bytes_of s)"
  then show "read_wifi_config_draft kdf s = Inr p"
    unfolding profile_ok_def by (metis read_yaml_draft string_of_bytes_of)
qed (rule read_draft_only)

lemma read_supplicant_iff:
  "read_wifi_supplicant_draft kdf s = Inr p \<longleftrightarrow>
    profile_ok p \<and> dhcp6 p = None \<and> (\<exists>d. make_wifi_config_draft p = Inr d \<and> supplicant_config d = bytes_of s)"
proof
  assume a: "profile_ok p \<and> dhcp6 p = None \<and> (\<exists>d. make_wifi_config_draft p = Inr d \<and> supplicant_config d = bytes_of s)"
  then obtain d ssid where "make_wifi_config_draft p = Inr d" "supplicant_config d = bytes_of s"
    "ssid_hex p = bytes_to_hex (bytes_of ssid)" "ssid \<noteq> []" "length ssid \<le> 32" "length (psk p) = 32" "valid_text_ssid ssid"
    unfolding profile_ok_def by blast
  moreover have "p\<lparr>dhcp6 := None\<rparr> = p" using a by simp
  ultimately show "read_wifi_supplicant_draft kdf s = Inr p"
    using read_supplicant_draft [of p ssid d kdf] by simp
qed (rule read_supplicant_only)

text \<open>The text of the Netplan file, as the contract of an encoder and decoder.\<close>

definition yaml_text :: "wifi_profile \<Rightarrow> string" where
  "yaml_text p = (case make_wifi_config_draft p of Inl _ \<Rightarrow> [] | Inr d \<Rightarrow> string_of (netplan_yaml d))"

lemma draft_exists: "profile_ok p \<Longrightarrow> \<exists>d. make_wifi_config_draft p = Inr d"
  unfolding profile_ok_def using draft_of by blast

lemma read_yaml_text [codec]:
  assumes "profile_ok p"
  shows "read_wifi_config_draft kdf (yaml_text p) = Inr p"
proof -
  from draft_exists [OF assms] obtain d where "make_wifi_config_draft p = Inr d" by blast
  with assms show ?thesis by (simp add: read_draft_iff yaml_text_def)
qed

definition read_yaml :: "psk_kdf \<Rightarrow> string \<Rightarrow> wifi_profile option" where
  "read_yaml kdf s = (case read_wifi_config_draft kdf s of Inl _ \<Rightarrow> None | Inr p \<Rightarrow> Some p)"

interpretation draft: reversible yaml_text "read_yaml kdf" profile_ok for kdf
  by unfold_locales (simp add: read_yaml_text read_yaml_def)

section \<open>Properties\<close>

text \<open>The hand-written check of network names accepts exactly the texts that are UTF-8 encodings,
  of shortest form, of code points that are no surrogates, controls, line separators or
  noncharacters; the reference is the encoder, which shares nothing with the checker.\<close>

theorem ssid_is_utf8_text:
  "valid_text_ssid s \<longleftrightarrow> (\<exists>ps. (\<forall>p \<in> set ps. text_point p) \<and> s = concat (map utf8_char ps))"
  by (rule valid_text_ssid_iff)

theorem ssid_is_utf8_text_witness: "\<not> valid_text_ssid [char_of (0xc0 :: nat), char_of (0x80 :: nat)]"
proof
  assume "valid_text_ssid [char_of (0xc0 :: nat), char_of (0x80 :: nat)]"
  then show False using ssid_is_utf8_text [of "[char_of (0xc0 :: nat), char_of (0x80 :: nat)]"]
    by (simp add: utf8_lead_def)
qed

text \<open>C33: The readers of the two configuration files accept exactly what the generator writes: a text
  is read as a profile when, and only when, the profile is a well-formed one and the text is, byte
  for byte, the file generated from it. So reading back a generated file loses nothing, and a file
  that was edited in any way is refused.\<close>

theorem drafts_exact:
  "(read_wifi_config_draft kdf s = Inr p \<longleftrightarrow>
     profile_ok p \<and> (\<exists>d. make_wifi_config_draft p = Inr d \<and> netplan_yaml d = bytes_of s))
   \<and> (read_wifi_supplicant_draft kdf s = Inr p \<longleftrightarrow>
     profile_ok p \<and> dhcp6 p = None \<and> (\<exists>d. make_wifi_config_draft p = Inr d \<and> supplicant_config d = bytes_of s))"
  by (simp add: read_draft_iff read_supplicant_iff)

end
