(* ===== verification/WifiLink.thy ===== *)
theory WifiLink
  imports WifiProfile
begin

text \<open>
  The assessment of a Wi-Fi connection (common/src/wifi_link_probe.cpp): from the supplicant's
  status text and the addresses of the interface it decides whether the requested network is
  ready. The status is split into lines at every line feed; a field that was seen is an entry of
  an association list, a field that was not is the empty text, as \<open>std::map::operator[]\<close> gives.
\<close>

datatype wifi_link = Link_Pending | Link_Ready | Link_Failed

section \<open>The network's name in the status\<close>

definition hex_of_char :: "char \<Rightarrow> string" where
  "hex_of_char c = hex_byte (byte_of c)"

text \<open>\<open>ssid_hex\<close>: one escape of the supplicant, then the loop with the result so far.\<close>

fun ssid_escape :: "string \<Rightarrow> (char \<times> string) option" where
  "ssid_escape [] = None"
| "ssid_escape (e # s) =
     (if e = CHR 0x5C then Some (CHR 0x5C, s)
      else if e = CHR 0x22 then Some (CHR 0x22, s)
      else if e = CHR ''n'' then Some (CHR 0x0A, s)
      else if e = CHR ''r'' then Some (CHR 0x0D, s)
      else if e = CHR ''t'' then Some (CHR 0x09, s)
      else if e = CHR ''e'' then Some (CHR 0x1B, s)
      else if e = CHR ''x'' then
        (case s of
           h # l # s' \<Rightarrow> (case (hex_value h, hex_value l) of
               (Some high, Some low) \<Rightarrow> Some (char_of (16 * high + low), s')
             | _ \<Rightarrow> None)
         | _ \<Rightarrow> None)
      else None)"

lemma ssid_escape_length: "ssid_escape s = Some (c, s') \<Longrightarrow> length s' < length s"
  by (cases s) (auto split: if_splits list.splits option.splits)

function ssid_hex_loop :: "string \<Rightarrow> string \<Rightarrow> string option" where
  "ssid_hex_loop result [] = (if result = [] then None else Some result)"
| "ssid_hex_loop result (c # s) =
     (if c = CHR 0x5C then
        (case ssid_escape s of
           None \<Rightarrow> None
         | Some (c, s) \<Rightarrow> let result = result @ hex_of_char c in
             if length result > 64 then None else ssid_hex_loop result s)
      else let result = result @ hex_of_char c in
        if length result > 64 then None else ssid_hex_loop result s)"
  by pat_completeness auto
termination
  by (relation "measure (\<lambda>(result, s). length s)") (auto dest: ssid_escape_length)

definition connected_ssid_hex :: "string \<Rightarrow> string option" where
  "connected_ssid_hex encoded = ssid_hex_loop [] encoded"

section \<open>The address\<close>

text \<open>
  One number of the address: the digits read so far, their count and value. The fourth digit
  stops the loop with a failure.
\<close>

fun ipv4_digits :: "nat \<Rightarrow> nat \<Rightarrow> string \<Rightarrow> (nat \<times> nat \<times> string) option" where
  "ipv4_digits n part (c # s) =
     (if is_digit c then (if n \<ge> 3 then None else ipv4_digits (n + 1) (part * 10 + digit_val c) s)
      else Some (n, part, c # s))"
| "ipv4_digits n part [] = Some (n, part, [])"

definition ipv4_part :: "string \<Rightarrow> (nat \<times> string) option" where
  "ipv4_part ip = (case ipv4_digits 0 0 ip of
       None \<Rightarrow> None
     | Some (n, part, rest) \<Rightarrow>
         if n = 0 \<or> part > 255 \<or> (n > 1 \<and> hd ip = CHR ''0'') then None else Some (part, rest))"

text \<open>The four rounds of the loop: the first three end with a dot.\<close>

fun ipv4_parts :: "nat \<Rightarrow> string \<Rightarrow> (nat list \<times> string) option" where
  "ipv4_parts 0 ip = Some ([], ip)"
| "ipv4_parts (Suc k) ip = (case ipv4_part ip of
       None \<Rightarrow> None
     | Some (part, rest) \<Rightarrow>
         if k = 0 then Some ([part], rest)
         else (case rest of
             [] \<Rightarrow> None
           | c # rest \<Rightarrow> if c \<noteq> CHR ''.'' then None
               else map_option (\<lambda>(ps, r). (part # ps, r)) (ipv4_parts k rest)))"

definition usable_ipv4 :: "string \<Rightarrow> bool" where
  "usable_ipv4 ip = (case ipv4_parts 4 ip of
       None \<Rightarrow> False
     | Some (parts, rest) \<Rightarrow> rest = [] \<and> parts ! 0 \<noteq> 0 \<and> parts ! 0 \<noteq> 127 \<and> parts ! 0 < 224
         \<and> \<not> (parts ! 0 = 169 \<and> parts ! 1 = 254))"

section \<open>The assessment\<close>

definition wifi_keys :: "string list" where
  "wifi_keys = [''wpa_state'', ''ssid'', ''key_mgmt'', ''pairwise_cipher'', ''group_cipher'', ''ip_address'']"

text \<open>The loop over the lines of a status that ends in a line feed, so that a line end is always found.\<close>

function status_fields :: "string \<Rightarrow> (string \<times> string) list \<Rightarrow> string + (string \<times> string) list" where
  "status_fields status seen =
     (if status = [] then Inr seen
      else (case cut (CHR 0x0A) status of
          None \<Rightarrow> Inr seen
        | Some (line, status) \<Rightarrow>
            if list_ex (\<lambda>c. of_char c < (32 :: nat) \<or> of_char c = (127 :: nat)) line
            then Inl ''Invalid Wi-Fi status characters''
            else (case cut (CHR ''='') line of
                None \<Rightarrow> Inl ''Invalid Wi-Fi status line''
              | Some (key, v) \<Rightarrow>
                  if key \<notin> set wifi_keys then status_fields status seen
                  else if length v > 256 \<or> map_of seen key \<noteq> None
                  then Inl ''Duplicate or oversized Wi-Fi status field''
                  else status_fields status ((key, v) # seen))))"
  by pat_completeness auto
termination
  by (relation "measure (\<lambda>(status, seen). length status)") (auto dest: cut_length)

definition pending_states :: "string list" where
  "pending_states = [''DISCONNECTED'', ''INACTIVE'', ''SCANNING'', ''AUTHENTICATING'', ''ASSOCIATING'',
     ''ASSOCIATED'', ''4WAY_HANDSHAKE'', ''GROUP_HANDSHAKE'']"

definition assess_wifi_link :: "wifi_profile \<Rightarrow> string \<Rightarrow> string list \<Rightarrow> wifi_link \<times> string" where
  "assess_wifi_link target status interface_ipv4 =
     (if length (psk target) \<noteq> 32 \<or> ssid_hex target = []
      then (Link_Failed, ''Invalid or consumed target profile'')
      else if status = [] \<or> length status > 8192 \<or> last status \<noteq> CHR 0x0A
      then (Link_Failed, ''Missing, oversized or incomplete Wi-Fi status'')
      else (case status_fields status [] of
          Inl e \<Rightarrow> (Link_Failed, e)
        | Inr seen \<Rightarrow>
            let field = (\<lambda>k. alookup seen k []); state = field ''wpa_state'' in
            if state \<in> set pending_states then (Link_Pending, ''Waiting for Wi-Fi authentication'')
            else if state \<noteq> ''COMPLETED'' then (Link_Failed, ''Wi-Fi interface disabled or unknown state'')
            else (case connected_ssid_hex (field ''ssid'') of
                None \<Rightarrow> (Link_Failed, ''Invalid connected network identity'')
              | Some actual \<Rightarrow>
                  if actual \<noteq> ssid_hex target then (Link_Pending, ''Waiting for the requested network'')
                  else if field ''key_mgmt'' \<noteq> ''WPA2-PSK'' \<or> field ''pairwise_cipher'' \<noteq> ''CCMP''
                    \<or> field ''group_cipher'' \<noteq> ''CCMP''
                  then (Link_Failed, ''Connected network does not meet WPA2-CCMP policy'')
                  else let ip = field ''ip_address'' in
                    if \<not> usable_ipv4 ip \<or> ip \<notin> set interface_ipv4
                    then (Link_Pending, ''Waiting for a usable IPv4 address on wlan0'')
                    else (Link_Ready, ''Requested WPA2 network and local IPv4 are ready''))))"

section \<open>Decimal texts\<close>

text \<open>Decimal texts without leading zeros are the ones \<open>show_nat\<close> writes.\<close>

definition plain_decimal :: "string \<Rightarrow> bool" where
  "plain_decimal s \<longleftrightarrow> s \<noteq> [] \<and> (\<forall>c \<in> set s. is_digit c) \<and> (length s > 1 \<longrightarrow> hd s \<noteq> CHR ''0'')"

lemma digit_char_val: "is_digit c \<Longrightarrow> digit_char (digit_val c) = c"
  by (simp add: is_digit_def digit_char_def digit_val_def)

lemma digit_val_lt: "is_digit c \<Longrightarrow> digit_val c < 10"
  unfolding is_digit_def digit_val_def by linarith

lemma digit_char_zero: "n < 10 \<Longrightarrow> digit_char n = CHR ''0'' \<longleftrightarrow> n = 0"
proof -
  have "digit_char 0 = CHR ''0''" by code_simp
  then show "n < 10 \<Longrightarrow> digit_char n = CHR ''0'' \<longleftrightarrow> n = 0"
    by (metis digit_char_facts(2) zero_less_numeral)
qed

lemma digit_zero: "is_digit c \<Longrightarrow> c \<noteq> CHR ''0'' \<Longrightarrow> digit_val c > 0"
  by (metis digit_char_val digit_char_zero digit_val_lt gr0I)

lemma digits_val_pos:
  "s \<noteq> [] \<Longrightarrow> \<forall>c \<in> set s. is_digit c \<Longrightarrow> hd s \<noteq> CHR ''0'' \<Longrightarrow> digits_val s > 0"
proof (induction s rule: rev_induct)
  case (snoc c s)
  then show ?case
    by (cases "s = []") (auto simp: digits_val_snoc digits_val_def digit_zero)
qed simp

lemma show_digits_val: "plain_decimal s \<Longrightarrow> show_nat (digits_val s) = s"
proof (induction s rule: rev_induct)
  case (snoc c s)
  then have c: "is_digit c" by (simp add: plain_decimal_def)
  show ?case
  proof (cases "s = []")
    case True
    then show ?thesis using c
      by (subst show_nat.simps) (simp add: digits_val_snoc digits_val_def digit_char_val digit_val_lt)
  next
    case False
    then have s: "plain_decimal s" "hd s \<noteq> CHR ''0''" "\<forall>c \<in> set s. is_digit c"
      using snoc.prems by (auto simp: plain_decimal_def)
    then have "digits_val s > 0" using digits_val_pos False by blast
    with snoc.IH [OF s(1)] c show ?thesis
      by (subst show_nat.simps) (simp add: digits_val_snoc digit_char_val digit_val_lt)
  qed
qed (simp add: plain_decimal_def)

lemma show_nat_plain: "plain_decimal (show_nat n)"
proof -
  have "length (show_nat n) > 1 \<Longrightarrow> hd (show_nat n) \<noteq> CHR ''0''" for n
  proof (induction n rule: show_nat.induct)
    case (1 n)
    then have n: "\<not> n < 10" by (metis One_nat_def length_Cons less_irrefl list.size(3) show_nat.simps)
    then have e: "show_nat n = show_nat (n div 10) @ [digit_char (n mod 10)]" by (subst show_nat.simps) simp
    show ?case
    proof (cases "n div 10 < 10")
      case True
      moreover have "n div 10 > 0" using n by (simp add: div_greater_zero_iff)
      ultimately show ?thesis
        by (subst e, subst show_nat.simps) (simp add: digit_char_zero)
    next
      case False
      then have "length (show_nat (n div 10)) > 1" by (subst show_nat.simps) simp
      with 1 n have "hd (show_nat (n div 10)) \<noteq> CHR ''0''" by blast
      then show ?thesis by (subst e) simp
    qed
  qed
  then show ?thesis by (simp add: plain_decimal_def show_nat_digits)
qed

text \<open>The parser of one number is exactly \<open>show_nat\<close> read backwards.\<close>

lemma ipv4_digits_run:
  "\<forall>c \<in> set ds. is_digit c \<Longrightarrow> n + length ds \<le> 3 \<Longrightarrow> r = [] \<or> \<not> is_digit (hd r)
    \<Longrightarrow> ipv4_digits n part (ds @ r) = Some (n + length ds, foldl (\<lambda>a c. 10 * a + digit_val c) part ds, r)"
proof (induction ds arbitrary: n part)
  case Nil
  then show ?case by (cases r) auto
qed (simp add: algebra_simps)

lemma ipv4_digits_split:
  "ipv4_digits n part s = Some (m, q, r) \<Longrightarrow> n \<le> 3 \<Longrightarrow> \<exists>ds. s = ds @ r \<and> (\<forall>c \<in> set ds. is_digit c)
    \<and> m = n + length ds \<and> m \<le> 3 \<and> q = foldl (\<lambda>a c. 10 * a + digit_val c) part ds \<and> (r = [] \<or> \<not> is_digit (hd r))"
proof (induction n part s rule: ipv4_digits.induct)
  case (1 n part c s)
  show ?case
  proof (cases "is_digit c")
    case True
    with 1 obtain ds where "s = ds @ r" "\<forall>c \<in> set ds. is_digit c" "m = n + 1 + length ds" "m \<le> 3"
      "q = foldl (\<lambda>a c. 10 * a + digit_val c) (part * 10 + digit_val c) ds" "r = [] \<or> \<not> is_digit (hd r)"
      by (auto split: if_splits)
    with True show ?thesis by (intro exI [of _ "c # ds"]) (auto simp: algebra_simps)
  next
    case False
    with 1 show ?thesis by (intro exI [of _ "[]"]) auto
  qed
qed auto

lemma show_nat_length:
  assumes "n < 256" shows "length (show_nat n) \<le> 3"
proof -
  have "length (show_nat m) = 1" if "m < 10" for m using that by (subst show_nat.simps) simp
  moreover have "n div 10 div 10 < 10" using assms by linarith
  ultimately show ?thesis
    by (subst show_nat.simps, subst show_nat.simps) simp
qed

lemma ipv4_part_iff:
  "ipv4_part s = Some (p, r) \<longleftrightarrow> p < 256 \<and> s = show_nat p @ r \<and> (r = [] \<or> \<not> is_digit (hd r))"
proof
  assume "ipv4_part s = Some (p, r)"
  then obtain n where n: "ipv4_digits 0 0 s = Some (n, p, r)" "n \<noteq> 0" "p \<le> 255" "n > 1 \<longrightarrow> hd s \<noteq> CHR ''0''"
    by (auto simp: ipv4_part_def split: option.splits if_splits)
  from ipv4_digits_split [OF n(1)] obtain ds where ds: "s = ds @ r" "\<forall>c \<in> set ds. is_digit c" "n = length ds"
    "p = digits_val ds" "r = [] \<or> \<not> is_digit (hd r)" by (auto simp: digits_val_def)
  then have "plain_decimal ds" using n by (auto simp: plain_decimal_def)
  from show_digits_val [OF this] ds n(3) show "p < 256 \<and> s = show_nat p @ r \<and> (r = [] \<or> \<not> is_digit (hd r))" by simp
next
  assume a: "p < 256 \<and> s = show_nat p @ r \<and> (r = [] \<or> \<not> is_digit (hd r))"
  then have l: "length (show_nat p) \<le> 3" by (simp add: show_nat_length)
  have "ipv4_digits 0 0 s = Some (length (show_nat p), p, r)"
    using a l show_nat_digits [of p] digits_val_show_nat [of p]
    by (simp add: ipv4_digits_run digits_val_def)
  with a show_nat_plain [of p] show "ipv4_part s = Some (p, r)"
    by (simp add: ipv4_part_def plain_decimal_def)
qed

fun dotted :: "nat list \<Rightarrow> string" where
  "dotted [] = []"
| "dotted [p] = show_nat p"
| "dotted (p # ps) = show_nat p @ CHR ''.'' # dotted ps"

lemma dotted_Cons: "ps \<noteq> [] \<Longrightarrow> dotted (p # ps) = show_nat p @ CHR ''.'' # dotted ps"
  by (cases ps) auto

lemma ipv4_parts_split:
  "ipv4_parts (Suc k) ip = Some (ps, r) \<Longrightarrow> length ps = Suc k \<and> (\<forall>p \<in> set ps. p < 256) \<and> ip = dotted ps @ r"
proof (induction k arbitrary: ip ps)
  case 0
  then show ?case by (auto simp: ipv4_part_iff split: option.splits)
next
  case (Suc k)
  then obtain p ip' qs where "ipv4_part ip = Some (p, CHR ''.'' # ip')" "ipv4_parts (Suc k) ip' = Some (qs, r)" "ps = p # qs"
    by (auto split: option.splits list.splits if_splits simp del: ipv4_parts.simps(2) simp: ipv4_parts.simps(2) [of "Suc k"])
  moreover from this Suc.IH [of ip' qs] have "length qs = Suc k" "\<forall>p \<in> set qs. p < 256" "ip' = dotted qs @ r"
    by simp_all
  moreover from this(1) have "dotted (p # qs) = show_nat p @ CHR ''.'' # dotted qs"
    by (intro dotted_Cons) auto
  ultimately show ?case by (simp add: ipv4_part_iff)
qed

lemma ipv4_parts_dotted:
  "length ps = Suc k \<Longrightarrow> \<forall>p \<in> set ps. p < 256 \<Longrightarrow> ipv4_parts (Suc k) (dotted ps) = Some (ps, [])"
proof (induction k arbitrary: ps)
  case 0
  then obtain p where "ps = [p]" "p < 256" by (auto simp: length_Suc_conv)
  moreover from this have "ipv4_part (show_nat p) = Some (p, [])" by (simp add: ipv4_part_iff)
  ultimately show ?case by simp
next
  case (Suc k)
  then obtain p qs where ps: "ps = p # qs" "length qs = Suc k" by (cases ps) auto
  have "ipv4_part (dotted ps) = Some (p, CHR ''.'' # dotted qs)"
    using Suc.prems ps by (subst ps(1), subst dotted_Cons) (auto simp: ipv4_part_iff is_digit_def)
  with Suc.IH [OF ps(2)] Suc.prems ps show ?case by simp
qed

lemma usable_ipv4_iff:
  "usable_ipv4 ip \<longleftrightarrow> (\<exists>a b c d. ip = dotted [a, b, c, d]
     \<and> a < 256 \<and> b < 256 \<and> c < 256 \<and> d < 256 \<and> a \<noteq> 0 \<and> a \<noteq> 127 \<and> a < 224 \<and> \<not> (a = 169 \<and> b = 254))"
proof
  have four: "(4 :: nat) = Suc (Suc (Suc (Suc 0)))" by simp
  assume "usable_ipv4 ip"
  then obtain ps where ps: "ipv4_parts (Suc (Suc (Suc (Suc 0)))) ip = Some (ps, [])" "ps ! 0 \<noteq> 0" "ps ! 0 \<noteq> 127"
    "ps ! 0 < 224" "\<not> (ps ! 0 = 169 \<and> ps ! 1 = 254)"
    unfolding usable_ipv4_def four by (auto split: option.splits simp del: ipv4_parts.simps)
  from ipv4_parts_split [OF ps(1)] obtain a b c d where "ps = [a, b, c, d]" "\<forall>p \<in> set ps. p < 256" "ip = dotted ps"
    by (auto simp: length_Suc_conv)
  with ps(2-5) show "\<exists>a b c d. ip = dotted [a, b, c, d]
     \<and> a < 256 \<and> b < 256 \<and> c < 256 \<and> d < 256 \<and> a \<noteq> 0 \<and> a \<noteq> 127 \<and> a < 224 \<and> \<not> (a = 169 \<and> b = 254)"
    by (intro exI [of _ a] exI [of _ b] exI [of _ c] exI [of _ d]) simp
next
  have four: "(4 :: nat) = Suc (Suc (Suc (Suc 0)))" by simp
  assume "\<exists>a b c d. ip = dotted [a, b, c, d]
     \<and> a < 256 \<and> b < 256 \<and> c < 256 \<and> d < 256 \<and> a \<noteq> 0 \<and> a \<noteq> 127 \<and> a < 224 \<and> \<not> (a = 169 \<and> b = 254)"
  then show "usable_ipv4 ip"
    unfolding usable_ipv4_def four by (auto simp: ipv4_parts_dotted simp del: ipv4_parts.simps dotted.simps)
qed

section \<open>What a ready link means\<close>

text \<open>The status has the line \<open>k=v\<close>.\<close>

definition status_says :: "string \<Rightarrow> string \<Rightarrow> string \<Rightarrow> bool" where
  "status_says status k v \<longleftrightarrow> (k @ CHR ''='' # v) \<in> set (getlines (CHR 0x0A) status)"

lemma wifi_keys_plain: "k \<in> set wifi_keys \<Longrightarrow> CHR ''='' \<notin> set k"
  by (auto simp: wifi_keys_def)

declare status_fields.simps [simp del]

lemma status_fields_says:
  assumes "status_fields status seen = Inr res" "status = [] \<or> last status = CHR 0x0A"
  shows "(\<forall>k v. map_of res k = Some v \<longleftrightarrow> map_of seen k = Some v \<or> (k \<in> set wifi_keys \<and> status_says status k v))
    \<and> (\<forall>k v. k \<in> set wifi_keys \<and> status_says status k v \<longrightarrow> map_of seen k = None)"
  using assms
proof (induction status seen rule: status_fields.induct)
  case (1 status seen)
  show ?case
  proof (cases "status = []")
    case True
    with "1.prems" show ?thesis by (simp add: status_fields.simps status_says_def)
  next
    case False
    then have "CHR 0x0A \<in> set status" using "1.prems"(2) last_in_set by metis
    then obtain line rest where c: "cut (CHR 0x0A) status = Some (line, rest)"
      using cut_None_iff [of "CHR 0x0A" status] by (cases "cut (CHR 0x0A) status") auto
    then have s: "status = line @ CHR 0x0A # rest" "CHR 0x0A \<notin> set line" using cut_SomeD by blast+
    have r: "rest = [] \<or> last rest = CHR 0x0A" using "1.prems"(2) s(1) by (auto split: if_splits)
    have ctl: "\<not> list_ex (\<lambda>c. of_char c < (32 :: nat) \<or> of_char c = (127 :: nat)) line"
      using "1.prems"(1) False c by (subst (asm) status_fields.simps) (auto split: if_splits)
    then obtain key v where kv: "cut (CHR ''='') line = Some (key, v)"
      using "1.prems"(1) False c by (subst (asm) status_fields.simps) (auto split: option.splits)
    then have l: "line = key @ CHR ''='' # v" "CHR ''='' \<notin> set key" using cut_SomeD by blast+
    have says: "status_says status k u \<longleftrightarrow> (k = key \<and> u = v) \<or> status_says rest k u" if "k \<in> set wifi_keys" for k u
    proof -
      have "k @ CHR ''='' # u = key @ CHR ''='' # v \<longleftrightarrow> k = key \<and> u = v"
        using wifi_keys_plain [OF that] l(2) by (metis cut_append option.inject prod.inject)
      then show ?thesis unfolding status_says_def s(1) getlines_line [OF s(2)] by (simp add: l(1))
    qed
    show ?thesis
    proof (cases "key \<in> set wifi_keys")
      case False
      with "1.prems"(1) \<open>status \<noteq> []\<close> c ctl kv have "status_fields rest seen = Inr res"
        by (subst (asm) status_fields.simps) auto
      from "1.IH"(1) [OF \<open>status \<noteq> []\<close> c refl ctl kv refl False this r] says False
      show ?thesis by blast
    next
      case True
      with "1.prems"(1) \<open>status \<noteq> []\<close> c ctl kv have n: "\<not> (length v > 256 \<or> map_of seen key \<noteq> None)"
        and e: "status_fields rest ((key, v) # seen) = Inr res"
        by (subst (asm) status_fields.simps, auto split: if_splits)+
      from True have t: "\<not> key \<notin> set wifi_keys" by simp
      from "1.IH"(2) [OF \<open>status \<noteq> []\<close> c refl ctl kv refl t n e r] says True n
      show ?thesis by (auto split: if_splits) 
    qed
  qed
qed

lemma ready_link:
  assumes "fst (assess_wifi_link target status ips) = Link_Ready"
  shows "\<exists>enc ip. status_says status ''wpa_state'' ''COMPLETED'' \<and> status_says status ''ssid'' enc
      \<and> connected_ssid_hex enc = Some (ssid_hex target) \<and> status_says status ''key_mgmt'' ''WPA2-PSK''
      \<and> status_says status ''pairwise_cipher'' ''CCMP'' \<and> status_says status ''group_cipher'' ''CCMP''
      \<and> status_says status ''ip_address'' ip \<and> usable_ipv4 ip \<and> ip \<in> set ips
      \<and> (\<forall>k v v'. k \<in> set wifi_keys \<longrightarrow> status_says status k v \<longrightarrow> status_says status k v' \<longrightarrow> v = v')"
proof -
  from assms obtain seen enc where s: "last status = CHR 0x0A" "status_fields status [] = Inr seen"
    "alookup seen ''wpa_state'' [] = ''COMPLETED''" "alookup seen ''ssid'' [] = enc"
    "connected_ssid_hex enc = Some (ssid_hex target)" "alookup seen ''key_mgmt'' [] = ''WPA2-PSK''"
    "alookup seen ''pairwise_cipher'' [] = ''CCMP''" "alookup seen ''group_cipher'' [] = ''CCMP''"
    "usable_ipv4 (alookup seen ''ip_address'' [])" "alookup seen ''ip_address'' [] \<in> set ips"
    by (auto simp: assess_wifi_link_def Let_def split: if_splits sum.splits option.splits)
  from status_fields_says [OF s(2)] s(1) have m: "\<And>k v. map_of seen k = Some v \<longleftrightarrow> k \<in> set wifi_keys \<and> status_says status k v"
    by auto
  have look: "alookup seen k [] = v \<Longrightarrow> v \<noteq> [] \<Longrightarrow> status_says status k v" for k v
    using m by (auto simp: alookup_def split: option.splits)
  have "enc \<noteq> []" using s(5) by (auto simp: connected_ssid_hex_def)
  moreover have "alookup seen ''ip_address'' [] \<noteq> []"
  proof
    have e: "\<not> usable_ipv4 []" by code_simp
    assume "alookup seen ''ip_address'' [] = []"
    with e s(9) show False by simp
  qed
  ultimately have "status_says status ''ssid'' enc" "status_says status ''ip_address'' (alookup seen ''ip_address'' [])"
    using look s(4) by blast+
  moreover have "k \<in> set wifi_keys \<Longrightarrow> status_says status k v \<Longrightarrow> status_says status k v' \<Longrightarrow> v = v'" for k v v'
    using m by (metis option.inject)
  ultimately show ?thesis
    using s look by blast
qed

section \<open>Properties\<close>

text \<open>C30: A link is reported ready only when the supplicant's status has a line for each of the six
  fields, each with one value, and they say: authentication completed, on a network whose name
  decodes to the requested one, with WPA2-PSK and CCMP for both ciphers, and an address that is a
  usable IPv4 address and one of the interface's own. So no forged second line can hide a wrong
  value.\<close>

theorem link_ready_means:
  assumes "fst (assess_wifi_link target status ips) = Link_Ready"
  shows "\<exists>enc ip. status_says status ''wpa_state'' ''COMPLETED'' \<and> status_says status ''ssid'' enc
      \<and> connected_ssid_hex enc = Some (ssid_hex target) \<and> status_says status ''key_mgmt'' ''WPA2-PSK''
      \<and> status_says status ''pairwise_cipher'' ''CCMP'' \<and> status_says status ''group_cipher'' ''CCMP''
      \<and> status_says status ''ip_address'' ip \<and> usable_ipv4 ip \<and> ip \<in> set ips
      \<and> (\<forall>k v v'. k \<in> set wifi_keys \<longrightarrow> status_says status k v \<longrightarrow> status_says status k v' \<longrightarrow> v = v')"
  using assms by (rule ready_link)

definition demo_profile :: wifi_profile where
  "demo_profile = \<lparr>ssid_hex = bytes_to_hex (bytes_of ''home''), psk = replicate 32 7, dhcp6 = None\<rparr>"

definition demo_link_status :: string where
  "demo_link_status = concat (map (\<lambda>l. l @ [CHR 0x0A]) [''wpa_state=COMPLETED'', ''ssid=home'', ''mode=station'',
     ''key_mgmt=WPA2-PSK'', ''pairwise_cipher=CCMP'', ''group_cipher=CCMP'', ''ip_address=10.0.0.7''])"

theorem link_ready_means_witness: "\<exists>enc. connected_ssid_hex enc = Some (ssid_hex demo_profile)"
proof -
  have "fst (assess_wifi_link demo_profile demo_link_status [''10.0.0.7'']) = Link_Ready" by code_simp
  from link_ready_means [OF this] show ?thesis by blast
qed

text \<open>The hand-written check of an address accepts exactly the dotted decimal form, without
  leading zeros, of four numbers below 256 that are no loopback, link-local, multicast or
  unspecified address.\<close>

theorem usable_ipv4_exact:
  "usable_ipv4 ip \<longleftrightarrow> (\<exists>a b c d. ip = dotted [a, b, c, d]
     \<and> a < 256 \<and> b < 256 \<and> c < 256 \<and> d < 256 \<and> a \<noteq> 0 \<and> a \<noteq> 127 \<and> a < 224 \<and> \<not> (a = 169 \<and> b = 254))"
  by (rule usable_ipv4_iff)

end
