(* ===== verification/WifiChange.thy ===== *)
theory WifiChange
  imports WifiLink
begin

text \<open>
  The guarded change of the Wi-Fi network (common/src/wifi_change.cpp, wifi_session.cpp,
  wifi_rpc.cpp): the transaction with its confirmation ticket and deadline, the session that owns
  one transaction, and the text protocol of the privileged helper.

  The virtual class \<open>WifiChangeBackend\<close> is a record of functions on a state \<open>'b\<close>, so that every
  theorem here holds for any backend. The clock is an argument of each operation (nanoseconds of
  the steady clock), and what \<open>RAND_bytes\<close> gives a start is \<open>None\<close> or the 32 first values of a
  function.
\<close>

datatype wifi_change_state = Idle | Connecting | AwaitingConfirmation | Committed | RolledBack | RecoveryRequired

record 'b wifi_backend =
  ethernet_recovery_available :: "'b \<Rightarrow> bool \<times> 'b"
  be_prepare :: "wifi_profile \<Rightarrow> nat \<Rightarrow> 'b \<Rightarrow> bool \<times> 'b"
  be_activate :: "'b \<Rightarrow> bool \<times> 'b"
  be_probe :: "'b \<Rightarrow> wifi_link \<times> 'b"
  be_commit :: "'b \<Rightarrow> bool \<times> 'b"
  be_rollback :: "'b \<Rightarrow> bool \<times> 'b"

type_synonym random32 = "(nat \<Rightarrow> byte) option"

section \<open>The transaction\<close>

record 'b wifi_change =
  ch_backend :: 'b
  ch_state :: wifi_change_state
  ch_deadline :: int
  ch_ticket :: string
  ch_message :: string

definition new_change :: "'b \<Rightarrow> 'b wifi_change" where
  "new_change b = \<lparr>ch_backend = b, ch_state = Idle, ch_deadline = 0, ch_ticket = [], ch_message = []\<rparr>"

definition seconds :: "int \<Rightarrow> int" where
  "seconds n = n * 1000000000"

definition pending :: "wifi_change_state \<Rightarrow> bool" where
  "pending st \<longleftrightarrow> st = Connecting \<or> st = AwaitingConfirmation"

definition change_revert :: "'b wifi_backend \<Rightarrow> string \<Rightarrow> 'b wifi_change \<Rightarrow> 'b wifi_change" where
  "change_revert B reason c = (case be_rollback B (ch_backend c) of (ok, b) \<Rightarrow>
     c\<lparr>ch_backend := b, ch_state := (if ok then RolledBack else RecoveryRequired),
       ch_message := (if ok then reason else ''Rollback failed; recovery required''), ch_ticket := []\<rparr>)"

definition change_destroy :: "'b wifi_backend \<Rightarrow> 'b wifi_change \<Rightarrow> 'b wifi_change" where
  "change_destroy B c =
     (let c = (if pending (ch_state c) then change_revert B ''Connection owner closed'' c else c)
      in c\<lparr>ch_ticket := []\<rparr>)"

definition change_start ::
  "'b wifi_backend \<Rightarrow> wifi_profile \<Rightarrow> int \<Rightarrow> random32 \<Rightarrow> 'b wifi_change \<Rightarrow> bool \<times> 'b wifi_change" where
  "change_start B profile now random c =
     (if ch_state c \<noteq> Idle then (False, c)
      else if length (psk profile) \<noteq> 32 \<or> ssid_hex profile = []
      then (False, c\<lparr>ch_message := ''Invalid or consumed Wi-Fi profile''\<rparr>)
      else case ethernet_recovery_available B (ch_backend c) of (eth, b) \<Rightarrow>
        let c = c\<lparr>ch_backend := b\<rparr> in
        if \<not> eth then (False, c\<lparr>ch_message := ''Ethernet recovery connection required''\<rparr>)
        else (case random of
            None \<Rightarrow> (False, c\<lparr>ch_message := ''Cannot create confirmation ticket''\<rparr>)
          | Some rnd \<Rightarrow>
              let c = c\<lparr>ch_ticket := ch_ticket c @ bytes_to_hex (map rnd [0..<32]),
                        ch_deadline := now + seconds 90, ch_state := Connecting\<rparr> in
              (case be_prepare B profile 90 (ch_backend c) of
                 (False, b) \<Rightarrow> (False, change_revert B ''Recovery preparation failed'' (c\<lparr>ch_backend := b\<rparr>))
               | (True, b) \<Rightarrow> (case be_activate B b of
                     (False, b) \<Rightarrow> (False, change_revert B ''Connection activation failed'' (c\<lparr>ch_backend := b\<rparr>))
                   | (True, b) \<Rightarrow> (True, c\<lparr>ch_backend := b,
                       ch_message := ''Connecting; explicit confirmation required within 90 seconds''\<rparr>)))))"

definition change_tick :: "'b wifi_backend \<Rightarrow> int \<Rightarrow> 'b wifi_change \<Rightarrow> 'b wifi_change" where
  "change_tick B now c =
     (if \<not> pending (ch_state c) then c
      else if now \<ge> ch_deadline c then change_revert B ''Confirmation timed out'' c
      else case ethernet_recovery_available B (ch_backend c) of (eth, b) \<Rightarrow>
        let c = c\<lparr>ch_backend := b\<rparr> in
        if \<not> eth then change_revert B ''Ethernet recovery connection lost'' c
        else case be_probe B (ch_backend c) of (link, b) \<Rightarrow>
          let c = c\<lparr>ch_backend := b\<rparr> in
          if link = Link_Failed then change_revert B ''Target connection failed'' c
          else c\<lparr>ch_state := (if link = Link_Ready then AwaitingConfirmation else Connecting),
                 ch_message := (if link = Link_Ready then ''Target connected; awaiting confirmation''
                                else ''Connecting'')\<rparr>)"

definition change_confirm ::
  "'b wifi_backend \<Rightarrow> string \<Rightarrow> int \<Rightarrow> 'b wifi_change \<Rightarrow> bool \<times> 'b wifi_change" where
  "change_confirm B ticket now c =
     (let c = change_tick B now c in
      if ch_state c \<noteq> AwaitingConfirmation \<or> ticket \<noteq> ch_ticket c then (False, c)
      else case be_commit B (ch_backend c) of (ok, b) \<Rightarrow>
        let c = c\<lparr>ch_backend := b\<rparr> in
        if \<not> ok then (False, change_revert B ''Cannot persist target connection'' c)
        else (True, c\<lparr>ch_state := Committed, ch_message := ''Connection confirmed'', ch_ticket := []\<rparr>))"

definition change_cancel :: "'b wifi_backend \<Rightarrow> 'b wifi_change \<Rightarrow> 'b wifi_change" where
  "change_cancel B c = (if pending (ch_state c) then change_revert B ''Connection cancelled'' c else c)"

section \<open>The session\<close>

record 'b wifi_session =
  ws_change :: "'b wifi_change"
  ws_ticket :: string

definition new_session :: "'b \<Rightarrow> 'b wifi_session" where
  "new_session b = \<lparr>ws_change = new_change b, ws_ticket = []\<rparr>"

definition authorized :: "'b wifi_session \<Rightarrow> string \<Rightarrow> bool" where
  "authorized s ticket \<longleftrightarrow> length (ws_ticket s) = 64 \<and> ticket = ws_ticket s"

text \<open>The result is the ticket handed out, \<open>None\<close> when the start was refused.\<close>

definition session_start ::
  "'b wifi_backend \<Rightarrow> wifi_profile \<Rightarrow> int \<Rightarrow> random32 \<Rightarrow> 'b wifi_session \<Rightarrow> string option \<times> 'b wifi_session" where
  "session_start B profile now random s =
     (if ch_state (ws_change s) \<noteq> Idle \<or> ws_ticket s \<noteq> [] then (None, s)
      else case change_start B profile now random (ws_change s) of
          (False, c) \<Rightarrow> (None, s\<lparr>ws_change := c\<rparr>)
        | (True, c) \<Rightarrow> (Some (take 64 (ch_ticket c)), s\<lparr>ws_change := c, ws_ticket := take 64 (ch_ticket c)\<rparr>))"

text \<open>
  The three requests give the state they report, \<open>None\<close> when the call returned false (the callers
  ignore the state then).
\<close>

definition session_status ::
  "'b wifi_backend \<Rightarrow> string \<Rightarrow> int \<Rightarrow> 'b wifi_session \<Rightarrow> wifi_change_state option \<times> 'b wifi_session" where
  "session_status B ticket now s =
     (if \<not> authorized s ticket then (None, s)
      else let c = change_tick B now (ws_change s) in (Some (ch_state c), s\<lparr>ws_change := c\<rparr>))"

definition session_confirm ::
  "'b wifi_backend \<Rightarrow> string \<Rightarrow> int \<Rightarrow> 'b wifi_session \<Rightarrow> wifi_change_state option \<times> 'b wifi_session" where
  "session_confirm B ticket now s =
     (if \<not> authorized s ticket then (None, s)
      else if ch_state (ws_change s) = Committed then (Some Committed, s)
      else case change_confirm B ticket now (ws_change s) of (ok, c) \<Rightarrow>
        (if ok then Some (ch_state c) else None, s\<lparr>ws_change := c\<rparr>))"

definition session_cancel ::
  "'b wifi_backend \<Rightarrow> string \<Rightarrow> 'b wifi_session \<Rightarrow> wifi_change_state option \<times> 'b wifi_session" where
  "session_cancel B ticket s =
     (if \<not> authorized s ticket then (None, s)
      else let c = change_cancel B (ws_change s) in (Some (ch_state c), s\<lparr>ws_change := c\<rparr>))"

definition session_tick :: "'b wifi_backend \<Rightarrow> int \<Rightarrow> 'b wifi_session \<Rightarrow> 'b wifi_session" where
  "session_tick B now s = s\<lparr>ws_change := change_tick B now (ws_change s)\<rparr>"

definition session_finished :: "'b wifi_session \<Rightarrow> bool" where
  "session_finished s \<longleftrightarrow> ch_state (ws_change s) = Committed \<or> ch_state (ws_change s) = RolledBack"

section \<open>The helper's protocol\<close>

text \<open>
  \<open>rpc_idle\<close> is the state of the world while there is no session; a session carries it in its
  backend. The factory makes a backend on the current world, or fails.
\<close>

record 'b wifi_rpc =
  rpc_idle :: 'b
  rpc_session :: "'b wifi_session option"

definition hex_field :: "string \<Rightarrow> nat \<Rightarrow> nat \<Rightarrow> bool" where
  "hex_field v mn mx \<longleftrightarrow> mn \<le> length v \<and> length v \<le> mx \<and> length v mod 2 = 0
     \<and> list_all (\<lambda>c. unhex c \<noteq> None) v"

definition state_name :: "wifi_change_state \<Rightarrow> string" where
  "state_name s = (case s of
       Connecting \<Rightarrow> ''connecting''
     | AwaitingConfirmation \<Rightarrow> ''ready''
     | Committed \<Rightarrow> ''committed''
     | RolledBack \<Rightarrow> ''rolled_back''
     | RecoveryRequired \<Rightarrow> ''recovery_required''
     | _ \<Rightarrow> ''rejected'')"

fun split_on :: "char \<Rightarrow> string \<Rightarrow> string list" where
  "split_on d [] = [[]]"
| "split_on d (c # s) =
     (if c = d then [] # split_on d s
      else case split_on d s of [] \<Rightarrow> [[c]] | f # fs \<Rightarrow> (c # f) # fs)"

definition rpc_world :: "'b wifi_backend \<Rightarrow> 'b wifi_rpc \<Rightarrow> 'b" where
  "rpc_world B r = (case rpc_session r of
       None \<Rightarrow> rpc_idle r
     | Some s \<Rightarrow> ch_backend (change_destroy B (ws_change s)))"

definition rpc_start ::
  "'b wifi_backend \<Rightarrow> ('b \<Rightarrow> 'b option) \<Rightarrow> psk_kdf \<Rightarrow> int \<Rightarrow> random32 \<Rightarrow> string \<Rightarrow> string \<Rightarrow> 'b wifi_rpc
     \<Rightarrow> string \<times> 'b wifi_rpc" where
  "rpc_start B factory kdf now random ssid_field key_field r =
     (if (case rpc_session r of None \<Rightarrow> False | Some s \<Rightarrow> \<not> session_finished s)
         \<or> \<not> hex_field ssid_field 2 64 \<or> \<not> hex_field key_field 64 64 then (''rejected'', r)
      else (case make_profile kdf (the (unhex_text ssid_field)) key_field of
          Inl _ \<Rightarrow> (''rejected'', r)
        | Inr profile \<Rightarrow>
            let world = rpc_world B r in
            (case factory world of
               None \<Rightarrow> (''rejected'', \<lparr>rpc_idle = world, rpc_session = None\<rparr>)
             | Some b \<Rightarrow> (case session_start B profile now random (new_session b) of
                   (None, s) \<Rightarrow> (''recovery_required'', r\<lparr>rpc_session := Some s\<rparr>)
                 | (Some ticket, s) \<Rightarrow> (''connecting|'' @ ticket, r\<lparr>rpc_session := Some s\<rparr>)))))"

definition rpc_handle ::
  "'b wifi_backend \<Rightarrow> ('b \<Rightarrow> 'b option) \<Rightarrow> psk_kdf \<Rightarrow> int \<Rightarrow> random32 \<Rightarrow> string \<Rightarrow> 'b wifi_rpc
     \<Rightarrow> string \<times> 'b wifi_rpc" where
  "rpc_handle B factory kdf now random packet r =
     (if length packet > 256 \<or> CHR 0x00 \<in> set packet then (''error'', r)
      else let fs = split_on (CHR 0x7C) packet in
        if length fs = 3 \<and> fs ! 0 = ''start'' then rpc_start B factory kdf now random (fs ! 1) (fs ! 2) r
        else if length fs \<noteq> 2 \<or> \<not> hex_field (fs ! 1) 64 64 then (''error'', r)
        else (case rpc_session r of
            None \<Rightarrow> (''error'', r)
          | Some s \<Rightarrow>
              (case (if fs ! 0 = ''status'' then session_status B (fs ! 1) now s
                     else if fs ! 0 = ''confirm'' then session_confirm B (fs ! 1) now s
                     else if fs ! 0 = ''cancel'' then session_cancel B (fs ! 1) s
                     else (None, s)) of
                 (None, s) \<Rightarrow> (''error'', r\<lparr>rpc_session := Some s\<rparr>)
               | (Some st, s) \<Rightarrow> (state_name st, r\<lparr>rpc_session := Some s\<rparr>))))"

definition rpc_tick :: "'b wifi_backend \<Rightarrow> int \<Rightarrow> 'b wifi_rpc \<Rightarrow> 'b wifi_rpc" where
  "rpc_tick B now r = (case rpc_session r of
       None \<Rightarrow> r
     | Some s \<Rightarrow> r\<lparr>rpc_session := Some (session_tick B now s)\<rparr>)"

section \<open>The calls a transaction makes\<close>

datatype wifi_call = C_ethernet bool | C_prepare bool | C_activate bool | C_probe wifi_link
  | C_commit bool | C_rollback bool

definition traced :: "'b wifi_backend \<Rightarrow> ('b \<times> wifi_call list) wifi_backend" where
  "traced B = \<lparr>
     ethernet_recovery_available = (\<lambda>(b, t). case ethernet_recovery_available B b of (r, b) \<Rightarrow> (r, b, t @ [C_ethernet r])),
     be_prepare = (\<lambda>p n (b, t). case be_prepare B p n b of (r, b) \<Rightarrow> (r, b, t @ [C_prepare r])),
     be_activate = (\<lambda>(b, t). case be_activate B b of (r, b) \<Rightarrow> (r, b, t @ [C_activate r])),
     be_probe = (\<lambda>(b, t). case be_probe B b of (r, b) \<Rightarrow> (r, b, t @ [C_probe r])),
     be_commit = (\<lambda>(b, t). case be_commit B b of (r, b) \<Rightarrow> (r, b, t @ [C_commit r])),
     be_rollback = (\<lambda>(b, t). case be_rollback B b of (r, b) \<Rightarrow> (r, b, t @ [C_rollback r]))\<rparr>"

text \<open>
  The protocol of one transaction with its backend, as an automaton over the calls. \<open>P_failed\<close> can
  only be left by a rollback, \<open>P_ready\<close> is reached only by a probe that was preceded by a check of
  the Ethernet connection, and nothing follows an end.
\<close>

datatype phase = P_fresh | P_prepared | P_active | P_checked | P_ready | P_failed | P_end wifi_change_state

fun phase_step :: "wifi_call \<Rightarrow> phase option \<Rightarrow> phase option" where
  "phase_step (C_ethernet ok) (Some P_fresh) = Some P_fresh"
| "phase_step (C_prepare ok) (Some P_fresh) = Some (if ok then P_prepared else P_failed)"
| "phase_step (C_activate ok) (Some P_prepared) = Some (if ok then P_active else P_failed)"
| "phase_step (C_ethernet ok) (Some P_active) = Some (if ok then P_checked else P_failed)"
| "phase_step (C_ethernet ok) (Some P_ready) = Some (if ok then P_checked else P_failed)"
| "phase_step (C_probe l) (Some P_checked) =
     Some (case l of Link_Ready \<Rightarrow> P_ready | Link_Pending \<Rightarrow> P_active | Link_Failed \<Rightarrow> P_failed)"
| "phase_step (C_commit ok) (Some P_ready) = Some (if ok then P_end Committed else P_failed)"
| "phase_step (C_rollback ok) (Some P_active) = Some (P_end (if ok then RolledBack else RecoveryRequired))"
| "phase_step (C_rollback ok) (Some P_ready) = Some (P_end (if ok then RolledBack else RecoveryRequired))"
| "phase_step (C_rollback ok) (Some P_failed) = Some (P_end (if ok then RolledBack else RecoveryRequired))"
| "phase_step _ _ = None"

definition phase_run :: "wifi_call list \<Rightarrow> phase option" where
  "phase_run t = fold phase_step t (Some P_fresh)"

lemma phase_run_append [simp]: "phase_run (t @ cs) = fold phase_step cs (phase_run t)"
  by (simp add: phase_run_def)

definition phase_of :: "wifi_change_state \<Rightarrow> phase" where
  "phase_of st = (case st of Idle \<Rightarrow> P_fresh | Connecting \<Rightarrow> P_active | AwaitingConfirmation \<Rightarrow> P_ready | _ \<Rightarrow> P_end st)"

datatype change_op = Op_start wifi_profile int random32 | Op_tick int | Op_confirm string int | Op_cancel | Op_destroy

definition run_op :: "'b wifi_backend \<Rightarrow> change_op \<Rightarrow> 'b wifi_change \<Rightarrow> 'b wifi_change" where
  "run_op B op c = (case op of
       Op_start p now rnd \<Rightarrow> snd (change_start B p now rnd c)
     | Op_tick now \<Rightarrow> change_tick B now c
     | Op_confirm ticket now \<Rightarrow> snd (change_confirm B ticket now c)
     | Op_cancel \<Rightarrow> change_cancel B c
     | Op_destroy \<Rightarrow> change_destroy B c)"

text \<open>A transaction and the operations on it, in any order.\<close>

inductive change_reachable :: "'b wifi_backend \<Rightarrow> 'b \<Rightarrow> 'b wifi_change \<Rightarrow> bool" for B b where
  created: "change_reachable B b (new_change b)"
| operated: "change_reachable B b c \<Longrightarrow> change_reachable B b (run_op B op c)"

definition in_phase :: "('b \<times> wifi_call list) wifi_change \<Rightarrow> bool" where
  "in_phase c \<longleftrightarrow> phase_run (snd (ch_backend c)) = Some (phase_of (ch_state c))"

lemma traced_calls [simp]:
  "ethernet_recovery_available (traced B) x = (case ethernet_recovery_available B (fst x) of (r, b) \<Rightarrow> (r, b, snd x @ [C_ethernet r]))"
  "be_prepare (traced B) p n x = (case be_prepare B p n (fst x) of (r, b) \<Rightarrow> (r, b, snd x @ [C_prepare r]))"
  "be_activate (traced B) x = (case be_activate B (fst x) of (r, b) \<Rightarrow> (r, b, snd x @ [C_activate r]))"
  "be_probe (traced B) x = (case be_probe B (fst x) of (l, b) \<Rightarrow> (l, b, snd x @ [C_probe l]))"
  "be_commit (traced B) x = (case be_commit B (fst x) of (r, b) \<Rightarrow> (r, b, snd x @ [C_commit r]))"
  "be_rollback (traced B) x = (case be_rollback B (fst x) of (r, b) \<Rightarrow> (r, b, snd x @ [C_rollback r]))"
  by (simp_all add: traced_def split: prod.split)

lemma phase_of_simps [simp]:
  "phase_of Idle = P_fresh" "phase_of Connecting = P_active" "phase_of AwaitingConfirmation = P_ready"
  "phase_of Committed = P_end Committed" "phase_of RolledBack = P_end RolledBack"
  "phase_of RecoveryRequired = P_end RecoveryRequired"
  by (simp_all add: phase_of_def)

lemma revert_phase [simp]:
  assumes "phase_run (snd (ch_backend c)) \<in> {Some P_active, Some P_ready, Some P_failed}"
  shows "phase_run (snd (ch_backend (change_revert (traced B) r c))) = Some (phase_of (ch_state (change_revert (traced B) r c)))"
  using assms by (auto simp: change_revert_def split: prod.splits)

lemma start_phase: "in_phase c \<Longrightarrow> in_phase (snd (change_start (traced B) p now rnd c))"
  by (auto simp: change_start_def Let_def in_phase_def split: prod.splits option.splits bool.splits)

lemma pending_cases: "pending st \<Longrightarrow> (st = Connecting \<Longrightarrow> P) \<Longrightarrow> (st = AwaitingConfirmation \<Longrightarrow> P) \<Longrightarrow> P"
  by (auto simp: pending_def)

lemma tick_phase: "in_phase c \<Longrightarrow> in_phase (change_tick (traced B) now c)"
  by (auto simp: change_tick_def Let_def in_phase_def split: prod.splits wifi_link.splits elim!: pending_cases)

lemma confirm_phase:
  assumes "in_phase c" shows "in_phase (snd (change_confirm (traced B) tk now c))"
  using tick_phase [OF assms, of B now]
  by (auto simp: change_confirm_def Let_def in_phase_def split: prod.splits)

lemma cancel_phase: "in_phase c \<Longrightarrow> in_phase (change_cancel (traced B) c)"
  by (auto simp: change_cancel_def in_phase_def elim!: pending_cases)

lemma destroy_phase: "in_phase c \<Longrightarrow> in_phase (change_destroy (traced B) c)"
  by (auto simp: change_destroy_def Let_def in_phase_def elim!: pending_cases)

lemma reachable_phase: "change_reachable (traced B) (b, []) c \<Longrightarrow> in_phase c"
proof (induction rule: change_reachable.induct)
  case created
  show ?case by (simp add: in_phase_def new_change_def phase_of_def phase_run_def)
next
  case (operated c op)
  then show ?case
    by (cases op) (simp_all add: run_op_def start_phase tick_phase confirm_phase cancel_phase destroy_phase)
qed

text \<open>The ticket lives as long as the transaction is pending.\<close>

definition ticket_ok :: "'b wifi_change \<Rightarrow> bool" where
  "ticket_ok c \<longleftrightarrow> (if pending (ch_state c) then length (ch_ticket c) = 64 else ch_ticket c = [])"

lemma revert_ends [simp]:
  "\<not> pending (ch_state (change_revert B r c))" "ch_ticket (change_revert B r c) = []"
  "ch_deadline (change_revert B r c) = ch_deadline c"
  by (auto simp: change_revert_def pending_def split: prod.splits)

lemma pending_simps [simp]:
  "pending Connecting" "pending AwaitingConfirmation" "\<not> pending Idle" "\<not> pending Committed"
  "\<not> pending RolledBack" "\<not> pending RecoveryRequired"
  by (simp_all add: pending_def)

lemma tick_ticket: "ticket_ok c \<Longrightarrow> ticket_ok (change_tick B now c)"
  by (simp add: change_tick_def ticket_ok_def Let_def split: prod.splits)

lemma reachable_ticket: "change_reachable B b c \<Longrightarrow> ticket_ok c"
proof (induction rule: change_reachable.induct)
  case created
  show ?case by (simp add: ticket_ok_def new_change_def)
next
  case (operated c op)
  have start: "ticket_ok (snd (change_start B p now rnd c))" for p now rnd
    using operated.IH by (simp add: change_start_def ticket_ok_def Let_def split: prod.splits option.splits bool.splits)
  have confirm: "ticket_ok (snd (change_confirm B tk now c))" for tk now
    using tick_ticket [OF operated.IH, of B now]
    by (simp add: change_confirm_def ticket_ok_def Let_def split: prod.splits)
  have "ticket_ok (change_cancel B c)" "ticket_ok (change_destroy B c)"
    using operated.IH by (simp_all add: change_cancel_def change_destroy_def Let_def ticket_ok_def)
  with tick_ticket [OF operated.IH] start confirm show ?case
    by (cases op) (simp_all add: run_op_def)
qed

lemma phase_none [simp]: "fold phase_step cs None = None"
  by (induction cs) simp_all

lemma phase_prefix: "phase_run (u @ v) = Some ph \<Longrightarrow> \<exists>q. phase_run u = Some q \<and> fold phase_step v (Some q) = Some ph"
  by (cases "phase_run u") simp_all

fun_cases phase_stepE: "phase_step c q = Some ph"

lemma phase_last:
  "phase_run (u @ [c]) = Some P_ready \<Longrightarrow> c = C_probe Link_Ready \<and> phase_run u = Some P_checked"
  "phase_run (u @ [c]) = Some P_checked \<Longrightarrow> c = C_ethernet True"
  by (auto elim!: phase_stepE split: if_splits wifi_link.splits)

lemma ready_calls:
  assumes "phase_run u = Some P_ready"
  shows "\<exists>w. u = w @ [C_ethernet True, C_probe Link_Ready]"
proof (cases u rule: rev_cases)
  case Nil
  with assms show ?thesis by (simp add: phase_run_def)
next
  case (snoc v c)
  with assms phase_last(1) have c: "c = C_probe Link_Ready" "phase_run v = Some P_checked" by blast+
  show ?thesis
  proof (cases v rule: rev_cases)
    case Nil
    with c show ?thesis by (simp add: phase_run_def)
  next
    case (snoc w d)
    with c phase_last(2) have "d = C_ethernet True" by blast
    with snoc c(1) \<open>u = v @ [c]\<close> show ?thesis by simp
  qed
qed

text \<open>Beyond the first phases the network was activated, and before that the recovery prepared.\<close>

lemma phase_history:
  "phase_run u = Some q \<Longrightarrow>
     (q \<notin> {P_fresh, P_failed} \<and> \<not> (\<exists>st. q = P_end st) \<longrightarrow> C_prepare True \<in> set u)
   \<and> (q \<in> {P_active, P_checked, P_ready} \<longrightarrow> C_activate True \<in> set u)"
proof (induction u arbitrary: q rule: rev_induct)
  case Nil
  then show ?case by (simp add: phase_run_def)
next
  case (snoc c u)
  then obtain q' where q': "phase_run u = Some q'" "phase_step c (Some q') = Some q"
    using phase_prefix [of u "[c]" q] by auto
  from q'(2) snoc.IH [OF q'(1)] show ?case
    by (cases rule: phase_stepE) (auto split: if_splits wifi_link.splits)
qed

definition failing :: "wifi_call \<Rightarrow> bool" where
  "failing c \<longleftrightarrow> c \<in> {C_prepare False, C_activate False, C_probe Link_Failed, C_commit False}"

lemma failing_step: "failing c \<Longrightarrow> phase_step c q = Some ph \<Longrightarrow> ph = P_failed"
  by (auto simp: failing_def elim!: phase_stepE)

lemma end_final: "fold phase_step v (Some (P_end st)) = Some ph \<Longrightarrow> v = []"
  by (cases v) auto

lemma failed_calls:
  assumes "fold phase_step v (Some P_failed) = Some ph" "ph \<noteq> P_failed"
  shows "\<exists>ok. v = [C_rollback ok]"
proof (cases v)
  case (Cons c w)
  with assms obtain ok st where "c = C_rollback ok" "phase_step c (Some P_failed) = Some (P_end st)"
    by (cases c) auto
  with assms Cons have "w = []" using end_final by (cases ok) auto
  with Cons \<open>c = C_rollback ok\<close> show ?thesis by simp
qed (use assms in simp)

lemma phase_of_not_failed [simp]: "phase_of st \<noteq> P_failed"
  by (cases st) simp_all

lemma reachable_commit:
  assumes "change_reachable (traced B) (b, []) c" "snd (ch_backend c) = u @ C_commit ok # v"
  shows "C_prepare True \<in> set u \<and> C_activate True \<in> set u \<and> (\<exists>w. u = w @ [C_ethernet True, C_probe Link_Ready])"
proof -
  from reachable_phase [OF assms(1)] assms(2) obtain q q' where
    "phase_run u = Some q" "phase_step (C_commit ok) (Some q) = Some q'"
    using phase_prefix [of u "C_commit ok # v"] by (cases "phase_step (C_commit ok) (phase_run u)") (auto simp: in_phase_def)
  then have "phase_run u = Some P_ready" by (auto elim!: phase_stepE)
  then show ?thesis using ready_calls phase_history [of u P_ready] by auto
qed

lemma reachable_failure:
  assumes "change_reachable (traced B) (b, []) c" "snd (ch_backend c) = u @ x # v" "failing x"
  shows "\<exists>ok. v = [C_rollback ok]"
proof -
  from reachable_phase [OF assms(1)] assms(2) obtain q where
    "phase_run (u @ [x]) = Some q" "fold phase_step v (Some q) = Some (phase_of (ch_state c))"
    using phase_prefix [of "u @ [x]" v] by (auto simp: in_phase_def)
  moreover from this(1) have "q = P_failed" using failing_step [OF assms(3)] by simp
  ultimately show ?thesis using failed_calls by simp
qed

text \<open>The deadline is fixed by the start; once a transaction has ended it stays ended.\<close>

definition ended :: "'b wifi_change \<Rightarrow> bool" where
  "ended c \<longleftrightarrow> \<not> pending (ch_state c) \<and> ch_state c \<noteq> Idle"

lemma revert_ended [simp]: "ended (change_revert B r c)"
  by (auto simp: ended_def change_revert_def split: prod.splits)

lemma revert_not_idle [simp]: "ch_state (change_revert B r c) \<noteq> Idle"
  by (auto simp: change_revert_def split: prod.splits)

lemma ended_tick [simp]: "ended c \<Longrightarrow> change_tick B now c = c"
  by (simp add: change_tick_def ended_def)

lemma ended_stays:
  assumes "ended c" shows "ended (run_op B op c) \<and> ch_state (run_op B op c) = ch_state c"
proof -
  have "ch_state c \<noteq> AwaitingConfirmation" "ch_state c \<noteq> Idle" "\<not> pending (ch_state c)"
    using assms by (auto simp: ended_def)
  then show ?thesis using assms
    by (cases op) (auto simp: run_op_def change_start_def change_confirm_def change_cancel_def change_destroy_def
        Let_def ended_def)
qed

lemma tick_deadline: "ch_deadline (change_tick B now c) = ch_deadline c"
  by (simp add: change_tick_def Let_def split: prod.split)

lemma tick_pending: "pending (ch_state c) \<Longrightarrow> ended (change_tick B now c) \<or> pending (ch_state (change_tick B now c))"
  by (auto simp: change_tick_def Let_def split: prod.splits)

lemma live_stays:
  assumes "pending (ch_state c)" "ch_deadline c = d"
  shows "ended (run_op B op c) \<or> (pending (ch_state (run_op B op c)) \<and> ch_deadline (run_op B op c) = d)"
proof (cases op)
  case (Op_confirm tk now)
  have "ended (change_tick B now c) \<or> pending (ch_state (change_tick B now c)) \<and> ch_deadline (change_tick B now c) = d"
    using tick_pending [OF assms(1)] assms(2) by (auto simp: tick_deadline)
  then show ?thesis
    by (auto simp: Op_confirm run_op_def change_confirm_def Let_def ended_def split: prod.splits)
next
  case (Op_tick now)
  then show ?thesis using tick_pending [OF assms(1)] assms(2) by (auto simp: run_op_def tick_deadline)
qed (use assms in \<open>auto simp: run_op_def change_start_def change_cancel_def change_destroy_def Let_def ended_def\<close>)

lemma run_ended: "ended c \<Longrightarrow> ended (fold (run_op B) ops c) \<and> ch_state (fold (run_op B) ops c) = ch_state c"
  by (induction ops arbitrary: c) (simp_all add: ended_stays)

definition at_time :: "change_op \<Rightarrow> int \<Rightarrow> bool" where
  "at_time op now \<longleftrightarrow> op = Op_tick now \<or> (\<exists>tk. op = Op_confirm tk now)"

lemma late_op_ends:
  assumes "pending (ch_state c)" "at_time op now" "now \<ge> ch_deadline c"
  shows "ended (run_op B op c) \<and> ch_state (run_op B op c) \<noteq> Committed"
proof -
  have t: "change_tick B now c = change_revert B ''Confirmation timed out'' c"
    using assms by (simp add: change_tick_def)
  have "ch_state (change_revert B r c) \<notin> {AwaitingConfirmation, Committed}" for r
    by (auto simp: change_revert_def split: prod.splits)
  with t assms(2) show ?thesis
    by (auto simp: at_time_def run_op_def change_confirm_def Let_def)
qed

lemma run_past_deadline:
  assumes "pending (ch_state c)" "op \<in> set ops" "at_time op now" "now \<ge> ch_deadline c"
  shows "ended (fold (run_op B) ops c)"
  using assms(1,2,4)
proof (induction ops arbitrary: c)
  case (Cons op' ops)
  show ?case
  proof (cases "ended (run_op B op' c)")
    case True
    then show ?thesis by (simp add: run_ended)
  next
    case False
    with live_stays [OF Cons.prems(1) refl] have live: "pending (ch_state (run_op B op' c))"
      "ch_deadline (run_op B op' c) = ch_deadline c" by blast+
    have "op \<noteq> op'" using late_op_ends [OF Cons.prems(1) assms(3) Cons.prems(3)] False by blast
    with Cons live show ?thesis by simp
  qed
qed simp

section \<open>The helper\<close>

datatype rpc_event = Ev_packet int random32 string | Ev_tick int

fun rpc_run ::
  "'b wifi_backend \<Rightarrow> ('b \<Rightarrow> 'b option) \<Rightarrow> psk_kdf \<Rightarrow> rpc_event list \<Rightarrow> 'b wifi_rpc \<Rightarrow> string list \<times> 'b wifi_rpc" where
  "rpc_run B factory kdf [] r = ([], r)"
| "rpc_run B factory kdf (Ev_packet now random packet # evs) r =
     (case rpc_handle B factory kdf now random packet r of (resp, r) \<Rightarrow>
      case rpc_run B factory kdf evs r of (resps, r) \<Rightarrow> (resp # resps, r))"
| "rpc_run B factory kdf (Ev_tick now # evs) r = rpc_run B factory kdf evs (rpc_tick B now r)"

lemma split_on_not_Nil [simp]: "split_on d s \<noteq> []"
  by (induction s) (auto split: list.split)

lemma split_on_one: "split_on d s = [a] \<Longrightarrow> s = a"
  by (induction s arbitrary: a) (auto split: if_splits list.splits)

lemma split_on_two: "split_on d s = [a, b] \<Longrightarrow> s = a @ d # b"
  by (induction s arbitrary: a) (auto split: if_splits list.splits dest: split_on_one)

lemma wrong_ticket:
  assumes "\<not> authorized s ticket"
  shows "session_status B ticket now s = (None, s)" "session_confirm B ticket now s = (None, s)"
    "session_cancel B ticket s = (None, s)"
  using assms by (simp_all add: session_status_def session_confirm_def session_cancel_def)

lemma same_session: "rpc_session r = Some s \<Longrightarrow> r\<lparr>rpc_session := Some s\<rparr> = r"
  by simp

lemma rpc_without_ticket:
  assumes "rpc_session r = Some s" "\<not> session_finished s"
    "\<forall>op. packet = op @ CHR 0x7C # ws_ticket s \<longrightarrow> length (ws_ticket s) \<noteq> 64"
  shows "rpc_handle B factory kdf now random packet r = (''error'', r)
    \<or> rpc_handle B factory kdf now random packet r = (''rejected'', r)"
proof (cases "length (split_on (CHR 0x7C) packet) = 2")
  case True
  then obtain a b where fs: "split_on (CHR 0x7C) packet = [a, b]" by (auto simp: length_Suc_conv numeral_2_eq_2)
  then have "\<not> authorized s b" using assms(3) split_on_two [OF fs] by (auto simp: authorized_def)
  then show ?thesis using assms(1) fs
    by (simp add: rpc_handle_def Let_def wrong_ticket same_session)
next
  case False
  then show ?thesis using assms(1,2) by (auto simp: rpc_handle_def rpc_start_def Let_def)
qed

definition rpc_refused :: "'b wifi_rpc \<Rightarrow> bool" where
  "rpc_refused r \<longleftrightarrow> (\<exists>s. rpc_session r = Some s \<and> ch_state (ws_change s) = Idle \<and> ws_ticket s = [])"

lemma refused_tick: "rpc_refused r \<Longrightarrow> rpc_tick B now r = r"
  by (auto simp: rpc_refused_def rpc_tick_def session_tick_def change_tick_def)

lemma refused_packet:
  assumes "rpc_refused r"
  shows "rpc_handle B factory kdf now random packet r \<in> {(''error'', r), (''rejected'', r)}"
proof -
  from assms obtain s where s: "rpc_session r = Some s" "ch_state (ws_change s) = Idle" "ws_ticket s = []"
    by (auto simp: rpc_refused_def)
  then show ?thesis using rpc_without_ticket [of r s packet] by (simp add: session_finished_def)
qed

lemma refused_run: "rpc_refused r \<Longrightarrow> set (fst (rpc_run B factory kdf evs r)) \<subseteq> {''error'', ''rejected''}"
proof (induction evs)
  case (Cons e evs)
  show ?case
  proof (cases e)
    case (Ev_packet now random packet)
    with Cons refused_packet [OF Cons.prems, of B factory kdf now random packet]
    show ?thesis by (auto split: prod.splits)
  next
    case (Ev_tick now)
    with Cons show ?thesis by (simp add: refused_tick)
  qed
qed simp

lemma refused_start:
  assumes "rpc_session r = None" "hex_field f 2 64" "hex_field k 64 64"
    "make_profile kdf (the (unhex_text f)) k = Inr p" "factory (rpc_idle r) = Some b"
    "fst (ethernet_recovery_available B b) = False"
  shows "fst (rpc_start B factory kdf now random f k r) = ''recovery_required''
    \<and> rpc_refused (snd (rpc_start B factory kdf now random f k r))"
  using assms
  by (auto simp: rpc_start_def rpc_world_def session_start_def change_start_def new_session_def new_change_def
      rpc_refused_def Let_def split: prod.splits bool.splits)

section \<open>Properties\<close>

definition demo_backend :: "unit wifi_backend" where
  "demo_backend = \<lparr>ethernet_recovery_available = (\<lambda>b. (True, b)), be_prepare = (\<lambda>p n b. (True, b)),
     be_activate = (\<lambda>b. (True, b)), be_probe = (\<lambda>b. (Link_Ready, b)), be_commit = (\<lambda>b. (True, b)),
     be_rollback = (\<lambda>b. (True, b))\<rparr>"

definition demo_start :: change_op where
  "demo_start = Op_start demo_profile 5 (Some (\<lambda>i. 0))"

text \<open>C25: Whatever is called on a transaction, in any order and with any answers of the backend: the
  new configuration is committed only right after a check of the Ethernet connection and a probe
  that found the target ready, in a transaction whose recovery was prepared and whose target was
  activated; and a failed preparation, activation, probe or commit is followed by exactly one call, the
  rollback.\<close>

theorem change_calls:
  assumes "change_reachable (traced B) (b, []) c"
  shows "(\<forall>u ok v. snd (ch_backend c) = u @ C_commit ok # v \<longrightarrow>
      C_prepare True \<in> set u \<and> C_activate True \<in> set u \<and> (\<exists>w. u = w @ [C_ethernet True, C_probe Link_Ready]))
    \<and> (\<forall>u x v. snd (ch_backend c) = u @ x # v \<longrightarrow> failing x \<longrightarrow> (\<exists>ok. v = [C_rollback ok]))"
  using reachable_commit [OF assms] reachable_failure [OF assms] by blast

theorem change_calls_witness:
  "\<exists>w. [C_ethernet True, C_prepare True, C_activate True, C_ethernet True, C_probe Link_Ready]
     = w @ [C_ethernet True, C_probe Link_Ready]"
proof -
  let ?ticket = "bytes_to_hex (map (\<lambda>i. 0) [0..<32])"
  let ?c = "run_op (traced demo_backend) (Op_confirm ?ticket 7)
      (run_op (traced demo_backend) demo_start (new_change ((), [])))"
  have r: "change_reachable (traced demo_backend) ((), []) ?c"
    by (intro change_reachable.intros)
  have "snd (ch_backend ?c) = [C_ethernet True, C_prepare True, C_activate True, C_ethernet True, C_probe Link_Ready]
      @ C_commit True # []"
    by (simp add: run_op_def demo_start_def change_start_def change_confirm_def change_tick_def new_change_def
        demo_backend_def demo_profile_def bytes_to_hex_def hex_byte_def seconds_def)
  with change_calls [OF r] show ?thesis by blast
qed

text \<open>C26: A transaction that was started ends: any sequence of operations on it that holds a tick or a
  confirmation at least ninety seconds after the start leaves it committed, rolled back or marked
  for recovery, and no operation after the end changes that; the deadline is never moved.\<close>

theorem change_ends:
  assumes "change_start B profile t0 random (new_change b) = (True, c)"
    "op \<in> set ops" "at_time op now" "now \<ge> t0 + seconds 90"
  shows "ended (fold (run_op B) ops c) \<and> ch_state (fold (run_op B) (ops @ later) c) = ch_state (fold (run_op B) ops c)"
proof -
  have "pending (ch_state c)" "ch_deadline c = t0 + seconds 90"
    using assms(1) by (auto simp: change_start_def Let_def new_change_def split: prod.splits option.splits bool.splits if_splits)
  with run_past_deadline [of c op ops now B] assms(2-4) have "ended (fold (run_op B) ops c)" by simp
  then show ?thesis using run_ended [of "fold (run_op B) ops c" B later] by simp
qed

theorem change_ends_witness:
  "ended (fold (run_op demo_backend) [Op_tick 6, Op_tick (5 + seconds 90)] (snd (change_start demo_backend demo_profile 5 (Some (\<lambda>i. 0)) (new_change ()))))"
proof -
  have "fst (change_start demo_backend demo_profile 5 (Some (\<lambda>i. 0)) (new_change ()))"
    by (simp add: change_start_def new_change_def demo_backend_def demo_profile_def bytes_to_hex_def hex_byte_def)
  then have "change_start demo_backend demo_profile 5 (Some (\<lambda>i. 0)) (new_change ())
      = (True, snd (change_start demo_backend demo_profile 5 (Some (\<lambda>i. 0)) (new_change ())))"
    by (metis (full_types) prod.collapse)
  from change_ends [OF this, of "Op_tick (5 + seconds 90)" "[Op_tick 6, Op_tick (5 + seconds 90)]" "5 + seconds 90" "[]"]
  show ?thesis by (simp add: at_time_def)
qed

text \<open>C27: While a change is going on, a packet that does not end in its ticket is answered with an
  error and changes nothing: neither the session nor, through the backend, the machine.\<close>

theorem rpc_needs_ticket:
  assumes "rpc_session r = Some s" "\<not> session_finished s" "length (ws_ticket s) = 64"
    "\<forall>op. packet \<noteq> op @ CHR 0x7C # ws_ticket s"
  shows "rpc_handle B factory kdf now random packet r \<in> {(''error'', r), (''rejected'', r)}"
  using rpc_without_ticket [OF assms(1,2)] assms(3,4) by blast

theorem rpc_needs_ticket_witness:
  "rpc_handle demo_backend Some (\<lambda>p s. None) 7 None ''status|guess''
     \<lparr>rpc_idle = (), rpc_session = Some \<lparr>ws_change = new_change (), ws_ticket = replicate 64 CHR ''a''\<rparr>\<rparr>
   \<in> {(''error'', \<lparr>rpc_idle = (), rpc_session = Some \<lparr>ws_change = new_change (), ws_ticket = replicate 64 CHR ''a''\<rparr>\<rparr>),
      (''rejected'', \<lparr>rpc_idle = (), rpc_session = Some \<lparr>ws_change = new_change (), ws_ticket = replicate 64 CHR ''a''\<rparr>\<rparr>)}"
proof (rule rpc_needs_ticket)
  show "rpc_session \<lparr>rpc_idle = (), rpc_session = Some \<lparr>ws_change = new_change (), ws_ticket = replicate 64 CHR ''a''\<rparr>\<rparr>
      = Some \<lparr>ws_change = new_change (), ws_ticket = replicate 64 CHR ''a''\<rparr>" by simp
  have "length ''status|guess'' \<noteq> length (p @ CHR 0x7C # replicate 64 CHR ''a'')" for p :: string by simp
  then show "\<forall>p. ''status|guess'' \<noteq> p @ CHR 0x7C # ws_ticket \<lparr>ws_change = new_change (), ws_ticket = replicate 64 CHR ''a''\<rparr>"
    by (metis wifi_session.select_convs(2))
qed (simp_all add: session_finished_def new_change_def)

text \<open>A start that is refused because the Ethernet recovery connection is missing is answered with
  \<open>recovery_required\<close> although nothing was changed, and it is final: the session object stays behind
  in its initial state, which does not count as finished, so that every later packet, whatever it
  is and whenever it comes, is answered with an error or refused until the helper is restarted.\<close>

theorem refused_start_is_final:
  assumes "rpc_session r = None" "hex_field f 2 64" "hex_field k 64 64"
    "make_profile kdf (the (unhex_text f)) k = Inr p" "factory (rpc_idle r) = Some b"
    "fst (ethernet_recovery_available B b) = False"
  shows "fst (rpc_start B factory kdf now random f k r) = ''recovery_required''
    \<and> set (fst (rpc_run B factory kdf evs (snd (rpc_start B factory kdf now random f k r)))) \<subseteq> {''error'', ''rejected''}"
  using refused_start [of r f k kdf p factory b B now random] assms
    refused_run [of "snd (rpc_start B factory kdf now random f k r)" B factory kdf evs] by simp

definition demo_key :: string where
  "demo_key = bytes_to_hex (replicate 32 0)"

theorem refused_start_is_final_witness:
  "fst (rpc_start (demo_backend\<lparr>ethernet_recovery_available := (\<lambda>b. (False, b))\<rparr>) Some (\<lambda>p s. None) 7 None
     (bytes_to_hex (bytes_of ''A'')) demo_key \<lparr>rpc_idle = (), rpc_session = None\<rparr>) = ''recovery_required''"
proof -
  have h: "hex_field (bytes_to_hex bs) (2 * length bs) n" if "2 * length bs \<le> n" for bs n
    using that hex_chars [of _ bs] by (auto simp: hex_field_def list_all_iff)
  have "hex_field (bytes_to_hex (bytes_of ''A'')) 2 64" "hex_field demo_key 64 64"
    using h [of "bytes_of ''A''" 64] h [of "replicate 32 0" 64] by (simp_all add: demo_key_def)
  moreover have "valid_text_ssid ''A''" by (simp add: utf8_lead_def point_ok_iff text_point_def)
  then have "make_profile (\<lambda>p s. None) (the (unhex_text (bytes_to_hex (bytes_of ''A'')))) demo_key
      = Inr \<lparr>ssid_hex = bytes_to_hex (bytes_of ''A''), psk = replicate 32 0, dhcp6 = None\<rparr>"
    unfolding demo_key_def unhex_text_hex by (simp add: make_profile_hex)
  ultimately show ?thesis
    by (intro conjunct1 [OF refused_start_is_final [where b = "()"]]) simp_all
qed

end
