(* ===== verification/WifiIpc.thy ===== *)
theory WifiIpc
  imports WifiChange
begin

text \<open>
  The packets between the server and the Wi-Fi helper (server/src/wifi_change_ipc.cpp) and the helper
  itself (wifi_change_helper.cpp): the checks of its start, and its loop, which lets a pending change
  expire and serves one packet at a time. Sockets are given by the results of the system calls; the
  credentials of a peer are its user number, \<open>None\<close> when they cannot be read.
\<close>

section \<open>Packets\<close>

definition peer_is :: "nat option \<Rightarrow> nat \<Rightarrow> bool" where
  "peer_is credentials expected \<longleftrightarrow> credentials = Some expected"

text \<open>\<open>pk_data\<close> is the packet that is received, in its real size; \<open>None\<close> for an error.\<close>

record packet_io =
  pk_poll :: int
  pk_in :: bool
  pk_data :: "string option"

definition read_packet :: "packet_io \<Rightarrow> string option" where
  "read_packet io =
     (if pk_poll io \<le> 0 \<or> \<not> pk_in io then None
      else (case pk_data io of
          None \<Rightarrow> None
        | Some d \<Rightarrow> if d = [] \<or> length d > 1024 then None else Some d))"

text \<open>\<open>wc_answer\<close>: what arrives on the connection after a packet was sent on it.\<close>

record change_conn =
  wc_socket :: bool
  wc_connect :: bool
  wc_peer :: "nat option"
  wc_send :: int
  wc_answer :: "string \<Rightarrow> packet_io"

text \<open>The response and the packets that were sent.\<close>

definition request_wifi_change :: "string \<Rightarrow> change_conn \<Rightarrow> string option \<times> string list" where
  "request_wifi_change packet conn =
     (if packet = [] \<or> length packet > 1024 then (None, [])
      else if \<not> wc_socket conn \<or> \<not> wc_connect conn \<or> \<not> peer_is (wc_peer conn) 0 then (None, [])
      else if wc_send conn \<noteq> int (length packet) then (None, [packet])
      else (read_packet (wc_answer conn packet), [packet]))"

text \<open>The handler gives no response when it throws; \<open>sent\<close> is the result of sending the response.\<close>

definition serve_wifi_change_packet ::
  "nat option \<Rightarrow> nat \<Rightarrow> packet_io \<Rightarrow> (string \<Rightarrow> 'r \<Rightarrow> string option \<times> 'r) \<Rightarrow> int \<Rightarrow> 'r \<Rightarrow> bool \<times> string list \<times> 'r" where
  "serve_wifi_change_packet credentials allowed_uid io handler sent r =
     (if \<not> peer_is credentials allowed_uid then (False, [], r)
      else (case read_packet io of
          None \<Rightarrow> (False, [], r)
        | Some request \<Rightarrow> (case handler request r of (answer, r) \<Rightarrow>
            let response = (case answer of None \<Rightarrow> ''error'' | Some a \<Rightarrow> a) in
            if response = [] \<or> length response > 1024 then (False, [], r)
            else (sent = int (length response), [response], r))))"

section \<open>The helper\<close>

text \<open>What the helper finds when it is started; \<open>hs_uid\<close> is the user it serves.\<close>

record helper_start =
  hs_root :: bool
  hs_pid :: string
  hs_listen_pid :: "string option"
  hs_listen_fds :: "string option"
  hs_seqpacket :: bool
  hs_listening :: bool
  hs_uid :: "nat option"
  hs_ethernet :: "string \<Rightarrow> bool"

text \<open>\<open>main\<close> up to its loop: the exit code, or the user and the address of the Ethernet interface.\<close>

definition helper_setup :: "helper_start \<Rightarrow> string list \<Rightarrow> nat + nat \<times> string" where
  "helper_setup st args =
     (if args = [''--version''] then Inl 0
      else if \<not> hs_root st \<or> length args \<noteq> 2 \<or> args ! 0 \<noteq> ''--ethernet-address'' then Inl 2
      else if hs_listen_pid st \<noteq> Some (hs_pid st) \<or> hs_listen_fds st \<noteq> Some ''1'' then Inl 2
      else if \<not> hs_seqpacket st \<or> \<not> hs_listening st then Inl 2
      else (case hs_uid st of
          None \<Rightarrow> Inl 2
        | Some uid \<Rightarrow>
            if uid = 0 then Inl 2
            else if \<not> hs_ethernet st (args ! 1) then Inl 2 else Inr (uid, args ! 1)))"

text \<open>One round of the loop: the times of the tick and of the handler, and the results of the calls.\<close>

record helper_round =
  hr_now :: int
  hr_poll :: int
  hr_in :: bool
  hr_accept :: int
  hr_peer :: "nat option"
  hr_packet :: packet_io
  hr_later :: int
  hr_random :: random32
  hr_sent :: int

text \<open>\<open>Inl\<close> when the loop is left with exit code 1.\<close>

definition helper_step ::
  "'b wifi_backend \<Rightarrow> ('b \<Rightarrow> 'b option) \<Rightarrow> psk_kdf \<Rightarrow> nat \<Rightarrow> helper_round \<Rightarrow> 'b wifi_rpc \<Rightarrow> 'b wifi_rpc + 'b wifi_rpc" where
  "helper_step B factory kdf uid rd r =
     (let r = rpc_tick B (hr_now rd) r in
      if hr_poll rd \<le> 0 then Inr r
      else if \<not> hr_in rd then Inl r
      else if hr_accept rd < 0 then Inr r
      else (case serve_wifi_change_packet (hr_peer rd) uid (hr_packet rd)
            (\<lambda>packet r. map_prod Some id (rpc_handle B factory kdf (hr_later rd) (hr_random rd) packet r)) (hr_sent rd) r of
          (ok, out, r) \<Rightarrow> Inr r))"

fun helper_run ::
  "'b wifi_backend \<Rightarrow> ('b \<Rightarrow> 'b option) \<Rightarrow> psk_kdf \<Rightarrow> nat \<Rightarrow> helper_round list \<Rightarrow> 'b wifi_rpc \<Rightarrow> 'b wifi_rpc + 'b wifi_rpc" where
  "helper_run B factory kdf uid [] r = Inr r"
| "helper_run B factory kdf uid (rd # rds) r = (case helper_step B factory kdf uid rd r of
       Inl r \<Rightarrow> Inl r | Inr r \<Rightarrow> helper_run B factory kdf uid rds r)"

section \<open>No change is overdue\<close>

text \<open>A session whose change is pending past its deadline at the time \<open>now\<close>.\<close>

definition overdue :: "int \<Rightarrow> 'b wifi_rpc \<Rightarrow> bool" where
  "overdue now r \<longleftrightarrow> (\<exists>s. rpc_session r = Some s \<and> pending (ch_state (ws_change s)) \<and> ch_deadline (ws_change s) \<le> now)"

lemma revert_not_pending [simp]: "\<not> pending (ch_state (change_revert B reason c))"
  by (simp add: change_revert_def pending_def split: prod.split)

definition in_time :: "int \<Rightarrow> 'b wifi_change \<Rightarrow> bool" where
  "in_time now c \<longleftrightarrow> (pending (ch_state c) \<longrightarrow> now < ch_deadline c)"

lemma in_time_revert [simp]: "in_time now (change_revert B reason c)"
  by (simp add: in_time_def)

lemma tick_in_time: "in_time now (change_tick B now c)"
  by (auto simp: change_tick_def in_time_def Let_def split: prod.split)

lemma tick_keeps_time: "in_time now c \<Longrightarrow> in_time now (change_tick B later c)"
  by (auto simp: change_tick_def in_time_def Let_def pending_def split: prod.split)

lemma confirm_keeps_time: "in_time now c \<Longrightarrow> in_time now (snd (change_confirm B ticket later c))"
  using tick_keeps_time [of now c B later]
  by (auto simp: change_confirm_def Let_def in_time_def pending_def split: prod.split)

lemma cancel_keeps_time: "in_time now c \<Longrightarrow> in_time now (change_cancel B c)"
  by (simp add: change_cancel_def)

lemma start_in_time: "now \<le> later \<Longrightarrow> ch_state c = Idle \<Longrightarrow> in_time now (snd (change_start B profile later random c))"
  by (auto simp: change_start_def Let_def in_time_def pending_def seconds_def split: prod.split option.split bool.split)

lemma session_start_in_time:
  "now \<le> later \<Longrightarrow> in_time now (ws_change s) \<Longrightarrow> in_time now (ws_change (snd (session_start B profile later random s)))"
  using start_in_time [of now later "ws_change s" B profile random]
  by (auto simp: session_start_def split: prod.split bool.split)

lemma overdue_iff: "\<not> overdue now r \<longleftrightarrow> (\<forall>s. rpc_session r = Some s \<longrightarrow> in_time now (ws_change s))"
  by (auto simp: overdue_def in_time_def not_le)

lemma rpc_tick_in_time: "\<not> overdue now (rpc_tick B now r)"
  using tick_in_time by (auto simp: overdue_iff rpc_tick_def session_tick_def split: option.splits)

lemma rpc_start_in_time:
  assumes "\<not> overdue now r" "now \<le> later"
  shows "\<not> overdue now (snd (rpc_start B factory kdf later random ssid_field key_field r))"
proof -
  have new: "in_time now (ws_change (snd (session_start B profile later random (new_session b))))" for profile b
    using assms(2) by (intro session_start_in_time) (simp_all add: new_session_def new_change_def in_time_def pending_def)
  show ?thesis
    using assms(1) new
    by (auto simp: rpc_start_def Let_def overdue_iff split: option.splits sum.splits prod.splits if_splits)
      (metis new snd_conv)+
qed


lemma rpc_handle_in_time:
  assumes "\<not> overdue now r" "now \<le> later"
  shows "\<not> overdue now (snd (rpc_handle B factory kdf later random packet r))"
proof -
  let ?fs = "split_on (CHR 0x7C) packet"
  show ?thesis
  proof (cases "length packet > 256 \<or> CHR 0x00 \<in> set packet")
    case True
    with assms(1) show ?thesis by (auto simp: rpc_handle_def)
  next
    case False
    note short = False
    show ?thesis
    proof (cases "length ?fs = 3 \<and> ?fs ! 0 = ''start''")
      case True
      with short rpc_start_in_time [OF assms] show ?thesis by (simp add: rpc_handle_def Let_def)
    next
      case False
      show ?thesis
      proof (cases "rpc_session r")
        case None
        with assms(1) short False show ?thesis by (auto simp: rpc_handle_def Let_def)
      next
        case (Some s)
        with assms(1) have s: "in_time now (ws_change s)" by (simp add: overdue_iff)
        have "in_time now (ws_change (snd (session_status B t later s)))"
          "in_time now (ws_change (snd (session_confirm B t later s)))"
          "in_time now (ws_change (snd (session_cancel B t s)))" for t
          using s tick_keeps_time [OF s] confirm_keeps_time [OF s] cancel_keeps_time [OF s]
          by (auto simp: session_status_def session_confirm_def session_cancel_def Let_def split: prod.split)
            (metis confirm_keeps_time [OF s] snd_conv)
        then have "in_time now (ws_change (snd (if ?fs ! 0 = ''status'' then session_status B (?fs ! 1) later s
                     else if ?fs ! 0 = ''confirm'' then session_confirm B (?fs ! 1) later s
                     else if ?fs ! 0 = ''cancel'' then session_cancel B (?fs ! 1) s
                     else (None, s))))"
          using s by simp
        with assms(1) short False Some show ?thesis
          by (auto simp: rpc_handle_def Let_def overdue_iff split: prod.split option.split)
      qed
    qed
  qed
qed

lemma serve_handler:
  "snd (snd (serve_wifi_change_packet credentials uid io handler sent r)) = r
    \<or> (\<exists>request. read_packet io = Some request \<and> credentials = Some uid
        \<and> snd (snd (serve_wifi_change_packet credentials uid io handler sent r)) = snd (handler request r))"
  by (auto simp: serve_wifi_change_packet_def peer_is_def Let_def split: option.split prod.split)

lemma helper_step_in_time:
  assumes "helper_step B factory kdf uid rd r = Inr r'" "hr_now rd \<le> hr_later rd"
  shows "\<not> overdue (hr_now rd) r'"
proof -
  let ?r = "rpc_tick B (hr_now rd) r"
  let ?h = "\<lambda>packet r. map_prod Some id (rpc_handle B factory kdf (hr_later rd) (hr_random rd) packet r)"
  note t = rpc_tick_in_time [of "hr_now rd" B r]
  from assms(1) have "r' = ?r \<or> r' = snd (snd (serve_wifi_change_packet (hr_peer rd) uid (hr_packet rd) ?h (hr_sent rd) ?r))"
    by (auto simp: helper_step_def Let_def split: if_splits prod.splits)
  moreover have "\<not> overdue (hr_now rd) (snd (?h request ?r))" for request
    using rpc_handle_in_time [OF t assms(2)] by simp
  ultimately show ?thesis using t serve_handler [of "hr_peer rd" uid "hr_packet rd" ?h "hr_sent rd" ?r] by metis
qed

lemma helper_run_append:
  "helper_run B factory kdf uid (rds @ rds') r = (case helper_run B factory kdf uid rds r of
     Inl r \<Rightarrow> Inl r | Inr r \<Rightarrow> helper_run B factory kdf uid rds' r)"
  by (induction rds arbitrary: r) (auto split: sum.split)

section \<open>Replies\<close>

lemma rpc_reply_size:
  "fst (rpc_handle B factory kdf now random packet r) \<noteq> [] \<and> length (fst (rpc_handle B factory kdf now random packet r)) \<le> 1024"
proof -
  have n: "state_name st \<noteq> [] \<and> length (state_name st) \<le> 1024" for st by (cases st) (simp_all add: state_name_def)
  have t: "session_start B profile now random s = (Some ticket, s') \<Longrightarrow> length ticket \<le> 64" for profile s ticket s'
    by (auto simp: session_start_def split: prod.splits bool.splits if_splits)
  have s: "fst (rpc_start B factory kdf now random f k r) \<noteq> [] \<and> length (fst (rpc_start B factory kdf now random f k r)) \<le> 1024" for f k
    by (auto simp: rpc_start_def Let_def split: sum.split option.split prod.split dest!: t)
  show ?thesis using n s by (auto simp: rpc_handle_def Let_def split: option.split prod.split)
qed

section \<open>Properties\<close>

text \<open>C28: The helper never leaves a change pending past its deadline: whatever packets it was sent
  before, after every round of its loop no session has a change that is still pending at the time
  the round began and whose ninety seconds were over by then.\<close>

theorem helper_never_overdue:
  assumes "helper_run B factory kdf uid (rds @ [rd]) r = Inr r'" "hr_now rd \<le> hr_later rd"
  shows "\<not> overdue (hr_now rd) r'"
proof -
  obtain r1 where "helper_step B factory kdf uid rd r1 = Inr r'"
    using assms(1) by (auto simp: helper_run_append split: sum.splits)
  then show ?thesis using helper_step_in_time assms(2) by blast
qed

text \<open>C29: A request of the server reaches the session unchanged and its answer comes back unchanged,
  with exactly the effect of one call of \<open>handle\<close>; the server hands a packet (which may hold a
  ticket) only to a process of root, and the helper serves only the user it was set up for.\<close>

theorem change_packets_refine_rpc:
  assumes "packet \<noteq> []" "length packet \<le> 1024"
    and conn: "wc_socket conn" "wc_connect conn" "wc_send conn = int (length packet)"
    and helper: "serve_wifi_change_packet (Some uid') uid \<lparr>pk_poll = 1, pk_in = True, pk_data = Some packet\<rparr>
        (\<lambda>packet r. map_prod Some id (rpc_handle B factory kdf now random packet r)) sent r = (ok, out, r')"
      "wc_answer conn packet = \<lparr>pk_poll = 1, pk_in = True, pk_data = (if out = [] then None else Some (hd out))\<rparr>"
  shows "request_wifi_change packet conn
      = (if wc_peer conn \<noteq> Some 0 then (None, [])
         else (if uid' = uid then Some (fst (rpc_handle B factory kdf now random packet r)) else None, [packet]))
    \<and> r' = (if uid' = uid then snd (rpc_handle B factory kdf now random packet r) else r)"
proof -
  note size = rpc_reply_size [of B factory kdf now random packet r]
  obtain reply r2 where h: "rpc_handle B factory kdf now random packet r = (reply, r2)" by fastforce
  have "uid' = uid \<Longrightarrow> out = [reply] \<and> r' = r2" "uid' \<noteq> uid \<Longrightarrow> out = [] \<and> r' = r"
    using helper(1) assms(1,2) size h
    by (auto simp: serve_wifi_change_packet_def peer_is_def read_packet_def Let_def)
  then show ?thesis
    using assms(1,2) conn helper(2) size h
    by (cases "uid' = uid") (simp_all add: request_wifi_change_def peer_is_def read_packet_def not_le)
qed

section \<open>A concrete exchange\<close>

definition demo_rpc :: "unit wifi_rpc" where
  "demo_rpc = \<lparr>rpc_idle = (), rpc_session = None\<rparr>"

definition demo_round :: helper_round where
  "demo_round = \<lparr>hr_now = 5, hr_poll = 1, hr_in = True, hr_accept = 4, hr_peer = Some 1000,
     hr_packet = \<lparr>pk_poll = 1, pk_in = True, pk_data = Some ''status|x''\<rparr>, hr_later = 6, hr_random = None, hr_sent = 5\<rparr>"

theorem helper_never_overdue_witness:
  "\<exists>r'. helper_run demo_backend Some (\<lambda>p s. None) 1000 [demo_round, demo_round] demo_rpc = Inr r' \<and> \<not> overdue 5 r'"
proof -
  have r: "helper_run demo_backend Some (\<lambda>p s. None) 1000 [demo_round, demo_round] demo_rpc = Inr demo_rpc"
    by (simp add: helper_step_def demo_round_def demo_rpc_def rpc_tick_def serve_wifi_change_packet_def peer_is_def read_packet_def
        rpc_handle_def hex_field_def Let_def)
  with helper_never_overdue [of demo_backend Some "\<lambda>p s. None" 1000 "[demo_round]" demo_round demo_rpc demo_rpc]
  show ?thesis by (simp add: demo_round_def)
qed

theorem change_packets_refine_rpc_witness:
  "request_wifi_change ''status|x'' \<lparr>wc_socket = True, wc_connect = True, wc_peer = Some 0, wc_send = 8,
      wc_answer = (\<lambda>p. \<lparr>pk_poll = 1, pk_in = True, pk_data = Some ''error''\<rparr>)\<rparr> = (Some ''error'', [''status|x''])"
proof -
  have h: "rpc_handle demo_backend Some (\<lambda>p s. None) 7 None ''status|x'' demo_rpc = (''error'', demo_rpc)"
    by (simp add: rpc_handle_def hex_field_def Let_def)
  have s: "serve_wifi_change_packet (Some 1000) 1000 \<lparr>pk_poll = 1, pk_in = True, pk_data = Some ''status|x''\<rparr>
        (\<lambda>packet r. map_prod Some id (rpc_handle demo_backend Some (\<lambda>p s. None) 7 None packet r)) 5 demo_rpc
      = (True, [''error''], demo_rpc)"
    by (simp add: serve_wifi_change_packet_def peer_is_def read_packet_def h Let_def)
  show ?thesis
    using change_packets_refine_rpc [OF _ _ _ _ _ s, of "\<lparr>wc_socket = True, wc_connect = True, wc_peer = Some 0, wc_send = 8,
      wc_answer = (\<lambda>p. \<lparr>pk_poll = 1, pk_in = True, pk_data = Some ''error''\<rparr>)\<rparr>"] h by simp
qed

end
