(* ===== verification/WifiJournal.thy ===== *)
theory WifiJournal
  imports WifiProfile
begin

text \<open>
  The files that make a change of the Wi-Fi network survive a crash: the recovery journal
  (server/src/wifi_journal.cpp), the managed configuration files (server/src/netplan_files.cpp)
  and the recovery worker (server/src/wifi_recovery_worker.cpp).

  The world holds the three managed files, the history of their contents (one entry per rename or
  removal: the states a crash can leave behind), and what the operating system answers: \<open>w_ok n\<close>
  is the outcome of the \<open>n\<close>-th check (one check stands for the conditions of one \<open>if\<close> on a
  descriptor), \<open>w_io n\<close> the results of the calls of the \<open>n\<close>-th loop of reads or writes, \<open>w_clock n\<close>
  the \<open>n\<close>-th reading of the boot identity and of the boot clock. Each operation takes the journal's
  lock for its whole duration, so operations of different processes do not interleave.
\<close>

section \<open>The world and fallible actions\<close>

record disk =
  d_journal :: "byte list option"
  d_netplan :: "byte list option"
  d_policy :: "byte list option"

record world =
  w_disk :: disk
  w_history :: "disk list"
  w_ok :: "nat \<Rightarrow> bool"
  w_checks :: nat
  w_io :: "nat \<Rightarrow> int option list"
  w_loops :: nat
  w_clock :: "nat \<Rightarrow> string \<times> (int \<times> int) option"
  w_reads :: nat

type_synonym 'a act = "world \<Rightarrow> (string + 'a) \<times> world"

definition ret :: "'a \<Rightarrow> 'a act" where
  "ret v w = (Inr v, w)"

definition refuse :: "string \<Rightarrow> 'a act" where
  "refuse message w = (Inl message, w)"

definition andthen :: "'a act \<Rightarrow> ('a \<Rightarrow> 'b act) \<Rightarrow> 'b act" where
  "andthen f g w = (case f w of (Inl e, w) \<Rightarrow> (Inl e, w) | (Inr v, w) \<Rightarrow> g v w)"

definition require :: "bool \<Rightarrow> string \<Rightarrow> unit act" where
  "require b message = (if b then ret () else refuse message)"

definition sys_ok :: "string \<Rightarrow> unit act" where
  "sys_ok message w = (if w_ok w (w_checks w) then Inr () else Inl message, w\<lparr>w_checks := w_checks w + 1\<rparr>)"

text \<open>
  A loop of \<open>read\<close> or \<open>write\<close> over \<open>n\<close> bytes: \<open>None\<close> is EINTR, a result that is not positive ends
  it. The value is the number of bytes transferred.
\<close>

fun transfer :: "int option list \<Rightarrow> nat \<Rightarrow> nat \<Rightarrow> nat" where
  "transfer [] n k = k"
| "transfer (r # rs) n k =
     (if k \<ge> n then k
      else case r of
        None \<Rightarrow> transfer rs n k
      | Some i \<Rightarrow> if i \<le> 0 then k else transfer rs n (k + min (nat i) (n - k)))"

definition sys_loop :: "nat \<Rightarrow> string \<Rightarrow> unit act" where
  "sys_loop n message w =
     (if transfer (w_io w (w_loops w)) n 0 = n then Inr () else Inl message, w\<lparr>w_loops := w_loops w + 1\<rparr>)"

definition look :: "(disk \<Rightarrow> 'a) \<Rightarrow> 'a act" where
  "look f w = (Inr (f (w_disk w)), w)"

definition update_disk :: "(disk \<Rightarrow> disk) \<Rightarrow> unit act" where
  "update_disk f w = (Inr (), w\<lparr>w_disk := f (w_disk w), w_history := w_history w @ [f (w_disk w)]\<rparr>)"

section \<open>The journal\<close>

datatype recovery_phase = J_Pending | J_Committed | J_Restored

record recovery_record =
  rr_phase :: recovery_phase
  rr_exists :: bool
  rr_transaction :: string
  rr_boot :: string
  rr_deadline :: nat
  rr_previous :: "byte list"

definition hex_string :: "string \<Rightarrow> nat \<Rightarrow> bool" where
  "hex_string text n \<longleftrightarrow> length text = n \<and> list_all (\<lambda>c. unhex c \<noteq> None) text"

text \<open>Four dashes at their places, and 32 digits.\<close>

definition boot_valid :: "string \<Rightarrow> bool" where
  "boot_valid boot \<longleftrightarrow> length boot = 36
     \<and> list_all (\<lambda>i. boot ! i = CHR ''-'') [8, 13, 18, 23]
     \<and> hex_string (map ((!) boot) (filter (\<lambda>i. i \<notin> {8, 13, 18, 23}) [0..<36])) 32"

definition max_backup :: nat where
  "max_backup = 65536"

definition record_valid :: "recovery_record \<Rightarrow> bool" where
  "record_valid r \<longleftrightarrow> hex_string (rr_transaction r) 32 \<and> boot_valid (rr_boot r) \<and> rr_deadline r > 0
     \<and> length (rr_previous r) \<le> max_backup \<and> (rr_exists r \<or> rr_previous r = [])"

fun put_be :: "nat \<Rightarrow> nat \<Rightarrow> byte list" where
  "put_be v 0 = []"
| "put_be v (Suc n) = put_be (v div 256) n @ [word_of_nat v]"

definition get_be :: "byte list \<Rightarrow> nat" where
  "get_be bs = foldl (\<lambda>v b. v * 256 + unat b) 0 bs"

definition phase_byte :: "recovery_phase \<Rightarrow> byte" where
  "phase_byte p = (case p of J_Pending \<Rightarrow> 1 | J_Committed \<Rightarrow> 2 | J_Restored \<Rightarrow> 3)"

definition byte_phase :: "byte \<Rightarrow> recovery_phase option" where
  "byte_phase b = (if b = 1 then Some J_Pending else if b = 2 then Some J_Committed
     else if b = 3 then Some J_Restored else None)"

definition magic :: "byte list" where
  "magic = bytes_of ''ENCWIFI1''"

text \<open>\<open>EVP_Digest\<close> with SHA-256 is the parameter \<open>sha\<close>; \<open>checksum\<close> checks its length.\<close>

type_synonym sha = "byte list \<Rightarrow> byte list option"

definition checksum :: "sha \<Rightarrow> byte list \<Rightarrow> byte list option" where
  "checksum sha data = (case sha data of None \<Rightarrow> None | Some d \<Rightarrow> if length d = 32 then Some d else None)"

definition record_body :: "recovery_record \<Rightarrow> byte list" where
  "record_body r = magic @ [phase_byte (rr_phase r), if rr_exists r then 1 else 0]
     @ bytes_of (rr_transaction r) @ bytes_of (rr_boot r) @ put_be (rr_deadline r) 8
     @ put_be (length (rr_previous r)) 4 @ rr_previous r"

text \<open>What \<open>load\<close> makes of the bytes of the journal.\<close>

definition parse_record :: "sha \<Rightarrow> byte list \<Rightarrow> string + recovery_record" where
  "parse_record sha b =
     (let body = take (length b - 32) b in
      if take 8 b \<noteq> magic \<or> unat (b ! 9) > 1 \<or> get_be (take 4 (drop 86 b)) \<noteq> length b - 90 - 32
         \<or> checksum sha body \<noteq> Some (drop (length b - 32) b)
      then Inl ''Corrupted recovery journal''
      else case byte_phase (b ! 8) of
          None \<Rightarrow> Inl ''Invalid recovery journal fields''
        | Some ph \<Rightarrow>
            let r = \<lparr>rr_phase = ph, rr_exists = b ! 9 \<noteq> 0, rr_transaction = string_of (take 32 (drop 10 b)),
                     rr_boot = string_of (take 36 (drop 42 b)), rr_deadline = get_be (take 8 (drop 78 b)),
                     rr_previous = drop 90 body\<rparr>
            in if record_valid r then Inr r else Inl ''Invalid recovery journal fields'')"

definition journal_open :: "unit act" where
  "journal_open =
     andthen (sys_ok ''Recovery directory must be private and owned by the helper'') (\<lambda>_.
     sys_ok ''Recovery journal unsafe or busy'')"

definition journal_load :: "sha \<Rightarrow> recovery_record option act" where
  "journal_load sha =
     andthen (sys_ok ''Cannot open recovery journal'') (\<lambda>_.
     andthen (look d_journal) (\<lambda>stored.
       (case stored of
          None \<Rightarrow> ret None
        | Some bytes \<Rightarrow>
            andthen (sys_ok ''Unsafe or invalid recovery journal'') (\<lambda>_.
            andthen (require (90 + 32 \<le> length bytes \<and> length bytes \<le> 90 + max_backup + 32)
              ''Unsafe or invalid recovery journal'') (\<lambda>_.
            andthen (sys_loop (length bytes) ''Truncated recovery journal'') (\<lambda>_.
            andthen (sys_ok ''Recovery journal changed during read'') (\<lambda>_.
            (case parse_record sha bytes of Inl e \<Rightarrow> refuse e | Inr r \<Rightarrow> ret (Some r)))))))))"

definition journal_save :: "sha \<Rightarrow> recovery_record \<Rightarrow> unit act" where
  "journal_save sha r =
     andthen (require (record_valid r) ''Invalid recovery record'') (\<lambda>_.
     (case checksum sha (record_body r) of
        None \<Rightarrow> refuse ''Cannot checksum recovery journal''
      | Some digest \<Rightarrow>
          let bytes = record_body r @ digest in
          andthen (sys_ok ''Cannot create recovery journal'') (\<lambda>_.
          andthen (sys_loop (length bytes) ''Cannot persist recovery journal'') (\<lambda>_.
          andthen (sys_ok ''Cannot persist recovery journal'') (\<lambda>_.
          andthen (sys_ok ''Cannot persist recovery journal'') (\<lambda>_.
          andthen (update_disk (\<lambda>d. d\<lparr>d_journal := Some bytes\<rparr>)) (\<lambda>_.
          sys_ok ''Recovery journal durability uncertain'')))))))"

definition journal_begin :: "sha \<Rightarrow> recovery_record \<Rightarrow> unit act" where
  "journal_begin sha r =
     andthen (journal_load sha) (\<lambda>previous.
       if (case previous of None \<Rightarrow> False | Some p \<Rightarrow> rr_phase p = J_Pending)
       then refuse ''Unresolved recovery transaction exists''
       else if rr_phase r \<noteq> J_Pending then refuse ''New transaction must be pending''
       else journal_save sha r)"

definition journal_commit :: "sha \<Rightarrow> string \<Rightarrow> string \<Rightarrow> nat \<Rightarrow> unit act" where
  "journal_commit sha transaction boot now =
     andthen (journal_load sha) (\<lambda>record.
       (case record of
          None \<Rightarrow> refuse ''Recovery transaction cannot be committed''
        | Some r \<Rightarrow>
            if rr_phase r \<noteq> J_Pending \<or> rr_transaction r \<noteq> transaction \<or> rr_boot r \<noteq> boot \<or> now \<ge> rr_deadline r
            then refuse ''Recovery transaction cannot be committed''
            else journal_save sha (r\<lparr>rr_phase := J_Committed, rr_previous := []\<rparr>)))"

text \<open>\<open>RecoveryOutcome\<close>; \<open>Failed\<close> is the error, with its message.\<close>

datatype recovery_outcome = Nothing | Waiting | Restored

text \<open>\<open>try { ok = f(); } catch (...) { ok = false; }\<close> followed by the test of \<open>ok\<close>.\<close>

definition succeeds :: "bool act \<Rightarrow> string \<Rightarrow> unit act" where
  "succeeds f message w = (case f w of (r, w) \<Rightarrow> (if r = Inr True then Inr () else Inl message, w))"

definition restore_pending :: "sha \<Rightarrow> recovery_record \<Rightarrow> (recovery_record \<Rightarrow> bool act) \<Rightarrow> recovery_outcome act" where
  "restore_pending sha r restore =
     andthen (succeeds (restore r) ''Recovery failed; pending journal retained'') (\<lambda>_.
     andthen (journal_save sha (r\<lparr>rr_phase := J_Restored, rr_previous := []\<rparr>)) (\<lambda>_. ret Restored))"

definition recover_due ::
  "sha \<Rightarrow> string \<Rightarrow> nat \<Rightarrow> (recovery_record \<Rightarrow> bool act) \<Rightarrow> recovery_outcome act" where
  "recover_due sha boot now restore =
     andthen (require (boot_valid boot) ''Invalid current boot identity'') (\<lambda>_.
     andthen (journal_load sha) (\<lambda>record.
       (case record of
          None \<Rightarrow> ret Nothing
        | Some r \<Rightarrow>
            if rr_phase r \<noteq> J_Pending then ret Nothing
            else if rr_boot r = boot \<and> now < rr_deadline r then ret Waiting
            else restore_pending sha r restore)))"

definition journal_cancel ::
  "sha \<Rightarrow> string \<Rightarrow> string \<Rightarrow> (recovery_record \<Rightarrow> bool act) \<Rightarrow> recovery_outcome act" where
  "journal_cancel sha transaction boot restore =
     andthen (require (hex_string transaction 32 \<and> boot_valid boot) ''Invalid cancellation identity'') (\<lambda>_.
     andthen (journal_load sha) (\<lambda>record.
       (case record of
          None \<Rightarrow> refuse ''Recovery transaction cannot be cancelled''
        | Some r \<Rightarrow>
            if rr_transaction r \<noteq> transaction \<or> rr_boot r \<noteq> boot \<or> rr_phase r = J_Committed
            then refuse ''Recovery transaction cannot be cancelled''
            else if rr_phase r = J_Restored then ret Nothing
            else restore_pending sha r restore)))"

text \<open>
  The boot identity is read as 36 characters and a line feed; the time is seconds and nanoseconds,
  computed in 64 bits.
\<close>

definition recovery_clock :: "(string \<times> nat) act" where
  "recovery_clock w =
     (case w_clock w (w_reads w) of (text, time) \<Rightarrow>
      (if length text \<noteq> 37 \<or> text ! 36 \<noteq> CHR 0x0A then Inl ''Cannot read boot identity''
       else if \<not> boot_valid (take 36 text) then Inl ''Cannot read recovery clock''
       else (case time of
           None \<Rightarrow> Inl ''Cannot read recovery clock''
         | Some (sec, nsec) \<Rightarrow>
             if sec < 0 then Inl ''Cannot read recovery clock''
             else Inr (take 36 text, nat ((sec * 1000 + nsec div 1000000) mod 2 ^ 64))),
       w\<lparr>w_reads := w_reads w + 1\<rparr>))"

section \<open>The journal's format\<close>

lemma length_put_be [simp]: "length (put_be v n) = n"
  by (induction n arbitrary: v) simp_all

lemma get_be_snoc: "get_be (bs @ [b]) = get_be bs * 256 + unat b"
  by (simp add: get_be_def)

lemma get_put_be [codec]: "v < 256 ^ n \<Longrightarrow> get_be (put_be v n) = v"
proof (induction n arbitrary: v)
  case 0
  then show ?case by (simp add: get_be_def)
next
  case (Suc n)
  then have "v div 256 < 256 ^ n" by (simp add: div_less_iff_less_mult mult.commute)
  with Suc.IH show ?case by (simp add: get_be_snoc unat_of_nat)
qed

lemma put_get_be [codec]: "put_be (get_be bs) (length bs) = bs"
proof (induction bs rule: rev_induct)
  case (snoc b bs)
  have "(get_be bs * 256 + unat b) div 256 = get_be bs" using unat_byte_lt [of b] by simp
  moreover have "(word_of_nat (get_be bs * 256 + unat b) :: byte) = b"
    by (rule byte_eqI) (simp add: unat_byte_lt)
  ultimately show ?case using snoc by (simp add: get_be_snoc)
qed simp

lemma get_be_lt: "get_be bs < 256 ^ length bs"
proof (induction bs rule: rev_induct)
  case (snoc b bs)
  have "get_be (bs @ [b]) < (get_be bs + 1) * 256" by (simp add: get_be_snoc)
  also have "\<dots> \<le> 256 ^ length bs * 256" using snoc by (intro mult_right_mono) simp_all
  finally show ?case by simp
qed (simp add: get_be_def)

lemma phase_byte_inv [codec]: "byte_phase (phase_byte p) = Some p"
  by (cases p) (simp_all add: phase_byte_def byte_phase_def)

lemma byte_phase_inv: "byte_phase b = Some p \<Longrightarrow> phase_byte p = b"
  by (auto simp: phase_byte_def byte_phase_def split: if_splits)

definition record_fits :: "recovery_record \<Rightarrow> bool" where
  "record_fits r \<longleftrightarrow> record_valid r \<and> rr_deadline r < 2 ^ 64"

lemma record_lengths:
  assumes "record_valid r"
  shows "length (bytes_of (rr_transaction r)) = 32" "length (bytes_of (rr_boot r)) = 36" "length magic = 8"
    "length (rr_previous r) \<le> 65536"
  using assms by (simp_all add: record_valid_def hex_string_def boot_valid_def magic_def max_backup_def)

lemma length_record_body: "record_valid r \<Longrightarrow> length (record_body r) = 90 + length (rr_previous r)"
  by (simp add: record_body_def record_lengths del: length_bytes_of)

lemma checksum_length: "checksum sha b = Some d \<Longrightarrow> length d = 32"
  by (auto simp: checksum_def split: option.splits if_splits)

text \<open>The fields of a body, as the reader takes them out.\<close>

lemma record_parts:
  assumes "record_valid r"
  shows "take 8 (record_body r @ d) = magic" "(record_body r @ d) ! 8 = phase_byte (rr_phase r)"
    "(record_body r @ d) ! 9 = (if rr_exists r then 1 else 0)"
    "take 32 (drop 10 (record_body r @ d)) = bytes_of (rr_transaction r)"
    "take 36 (drop 42 (record_body r @ d)) = bytes_of (rr_boot r)"
    "take 8 (drop 78 (record_body r @ d)) = put_be (rr_deadline r) 8"
    "take 4 (drop 86 (record_body r @ d)) = put_be (length (rr_previous r)) 4"
    "drop 90 (record_body r) = rr_previous r"
  using record_lengths [OF assms]
  by (simp_all add: record_body_def nth_append del: length_bytes_of)

lemma record_eta:
  "rr_exists r \<Longrightarrow> \<lparr>rr_phase = rr_phase r, rr_exists = True, rr_transaction = rr_transaction r, rr_boot = rr_boot r,
     rr_deadline = rr_deadline r, rr_previous = rr_previous r\<rparr> = r"
  "\<not> rr_exists r \<Longrightarrow> \<lparr>rr_phase = rr_phase r, rr_exists = False, rr_transaction = rr_transaction r, rr_boot = rr_boot r,
     rr_deadline = rr_deadline r, rr_previous = rr_previous r\<rparr> = r"
  by (cases r, simp)+

lemma parse_record_body [codec]:
  assumes "record_fits r" "checksum sha (record_body r) = Some d"
  shows "parse_record sha (record_body r @ d) = Inr r"
proof -
  have v: "record_valid r" using assms(1) by (simp add: record_fits_def)
  have d: "length d = 32" by (rule checksum_length [OF assms(2)])
  have "get_be (put_be (length (rr_previous r)) 4) = length (rr_previous r)"
    using record_lengths(4) [OF v] by (intro get_put_be) simp
  moreover have "get_be (put_be (rr_deadline r) 8) = rr_deadline r"
    using assms(1) by (intro get_put_be) (simp add: record_fits_def)
  ultimately show ?thesis
    using assms(2) v d
    by (simp add: parse_record_def Let_def record_parts record_parts(1-7) [OF v, of "[]", simplified] length_record_body
        phase_byte_inv record_eta)
qed

lemma list_pieces:
  assumes "90 \<le> length b"
  shows "b = take 8 b @ [b ! 8, b ! 9] @ take 32 (drop 10 b) @ take 36 (drop 42 b) @ take 8 (drop 78 b)
     @ take 4 (drop 86 b) @ drop 90 b"
proof -
  have "b = take 8 b @ drop 8 b" by simp
  also have "drop 8 b = b ! 8 # drop 9 b" using assms Cons_nth_drop_Suc [of 8 b] by simp
  also have "drop 9 b = b ! 9 # drop 10 b" using assms Cons_nth_drop_Suc [of 9 b] by simp
  also have "drop 10 b = take 32 (drop 10 b) @ drop 42 b" using append_take_drop_id [of 32 "drop 10 b"] by simp
  also have "drop 42 b = take 36 (drop 42 b) @ drop 78 b" using append_take_drop_id [of 36 "drop 42 b"] by simp
  also have "drop 78 b = take 8 (drop 78 b) @ drop 86 b" using append_take_drop_id [of 8 "drop 78 b"] by simp
  also have "drop 86 b = take 4 (drop 86 b) @ drop 90 b" using append_take_drop_id [of 4 "drop 86 b"] by simp
  finally show ?thesis by simp
qed

lemma parse_record_only:
  assumes "parse_record sha b = Inr r" "90 + 32 \<le> length b" "length b \<le> 90 + max_backup + 32"
  shows "record_fits r \<and> (\<exists>d. checksum sha (record_body r) = Some d \<and> b = record_body r @ d)"
proof -
  let ?body = "take (length b - 32) b" and ?d = "drop (length b - 32) b"
  from assms(1) obtain ph where p: "take 8 b = magic" "unat (b ! 9) \<le> 1" "get_be (take 4 (drop 86 b)) = length b - 90 - 32"
    "checksum sha ?body = Some ?d" "byte_phase (b ! 8) = Some ph" "record_valid r"
    "r = \<lparr>rr_phase = ph, rr_exists = b ! 9 \<noteq> 0, rr_transaction = string_of (take 32 (drop 10 b)),
       rr_boot = string_of (take 36 (drop 42 b)), rr_deadline = get_be (take 8 (drop 78 b)), rr_previous = drop 90 ?body\<rparr>"
    by (auto simp: parse_record_def Let_def split: if_splits option.splits)
  have n9: "(if b ! 9 \<noteq> 0 then 1 else 0) = b ! 9"
    using p(2) by (metis le_numeral_extra(4) less_one linorder_neqE_nat not_le unat_0 unat_1 word_unat_eq_iff)
  have l8: "put_be (get_be (take 8 (drop 78 b))) 8 = take 8 (drop 78 b)"
    using put_get_be [of "take 8 (drop 78 b)"] assms(2) by simp
  have l4: "put_be (length b - 122) 4 = take 4 (drop 86 b)"
    using put_get_be [of "take 4 (drop 86 b)"] assms(2) p(3) by simp
  have cut: "take k (drop j ?body) = take k (drop j b)" if "k + j \<le> 90" for k j
    using that assms(2) by (simp add: drop_take min_def)
  have "record_body r = ?body"
    using list_pieces [of ?body] assms(2) cut [of 8 0] cut [of 32 10] cut [of 36 42] cut [of 8 78] cut [of 4 86]
    by (simp add: record_body_def p(7) byte_phase_inv [OF p(5)] n9 l8 l4 flip: p(1))
  moreover have "rr_deadline r < 2 ^ 64"
    using get_be_lt [of "take 8 (drop 78 b)"] assms(2) by (simp add: p(7))
  ultimately show ?thesis using p(4,6) by (simp add: record_fits_def)
qed

section \<open>What an action does to the disk\<close>

text \<open>
  \<open>does f \<Phi>\<close>: from every world, \<open>f\<close> only appends states to the history, the last of them is the
  disk, and \<open>\<Phi>\<close> relates the disk before, the states appended and the result. The states appended
  are all a crash during \<open>f\<close> can leave behind.
\<close>

definition does :: "(world \<Rightarrow> 'r \<times> world) \<Rightarrow> (disk \<Rightarrow> disk list \<Rightarrow> 'r \<Rightarrow> bool) \<Rightarrow> bool" where
  "does f \<Phi> \<longleftrightarrow> (\<forall>w. \<exists>ds. w_history (snd (f w)) = w_history w @ ds \<and> w_disk (snd (f w)) = last (w_disk w # ds)
     \<and> \<Phi> (w_disk w) ds (fst (f w)))"

named_theorems acts "what the actions do to the disk"

lemma does_mono: "does f \<Phi> \<Longrightarrow> (\<And>d ds r. \<Phi> d ds r \<Longrightarrow> \<Psi> d ds r) \<Longrightarrow> does f \<Psi>"
  unfolding does_def by blast

lemma does_andthen:
  assumes "does f \<Phi>"
    "\<And>v. does (g v) (\<lambda>d' b r. \<forall>d a. \<Phi> d a (Inr v) \<longrightarrow> d' = last (d # a) \<longrightarrow> \<Psi> d (a @ b) r)"
    "\<And>d a e. \<Phi> d a (Inl e) \<Longrightarrow> \<Psi> d a (Inl e)"
  shows "does (andthen f g) \<Psi>"
  unfolding does_def
proof
  fix w
  from assms(1) obtain a where a: "w_history (snd (f w)) = w_history w @ a" "w_disk (snd (f w)) = last (w_disk w # a)"
    "\<Phi> (w_disk w) a (fst (f w))" unfolding does_def by blast
  show "\<exists>ds. w_history (snd (andthen f g w)) = w_history w @ ds \<and> w_disk (snd (andthen f g w)) = last (w_disk w # ds)
    \<and> \<Psi> (w_disk w) ds (fst (andthen f g w))"
  proof (cases "fst (f w)")
    case (Inl e)
    then have "andthen f g w = (Inl e, snd (f w))" by (cases "f w") (auto simp: andthen_def)
    with Inl a assms(3) show ?thesis by (intro exI [of _ a]) simp
  next
    case (Inr v)
    then have g: "andthen f g w = g v (snd (f w))" by (cases "f w") (auto simp: andthen_def)
    from assms(2) [of v] a(2,3) Inr obtain b where "w_history (snd (g v (snd (f w)))) = w_history (snd (f w)) @ b"
      "w_disk (snd (g v (snd (f w)))) = last (w_disk (snd (f w)) # b)"
      "\<Psi> (w_disk w) (a @ b) (fst (g v (snd (f w))))" unfolding does_def by metis
    with Inr a g show ?thesis by (intro exI [of _ "a @ b"]) (auto split: if_splits)
  qed
qed

text \<open>Actions that leave the disk alone, with what their result says about it.\<close>

definition reads :: "(disk \<Rightarrow> 'r \<Rightarrow> bool) \<Rightarrow> disk \<Rightarrow> disk list \<Rightarrow> 'r \<Rightarrow> bool" where
  "reads R d ds r \<longleftrightarrow> ds = [] \<and> R d r"

lemma does_ret [acts]: "does (ret v) (reads (\<lambda>d r. r = Inr v))"
  by (simp add: does_def reads_def ret_def)

lemma does_refuse [acts]: "does (refuse m) (reads (\<lambda>d r. r = Inl m))"
  by (simp add: does_def reads_def refuse_def)

lemma does_require [acts]: "does (require b m) (reads (\<lambda>d r. r = (if b then Inr () else Inl m)))"
  by (simp add: does_def reads_def require_def ret_def refuse_def)

lemma does_sys_ok [acts]: "does (sys_ok m) (reads (\<lambda>d r. r = Inr () \<or> r = Inl m))"
  by (simp add: does_def reads_def sys_ok_def)

lemma does_sys_loop [acts]: "does (sys_loop n m) (reads (\<lambda>d r. r = Inr () \<or> r = Inl m))"
  by (simp add: does_def reads_def sys_loop_def)

lemma does_look [acts]: "does (look f) (reads (\<lambda>d r. r = Inr (f d)))"
  by (simp add: does_def reads_def look_def)

lemma does_update [acts]: "does (update_disk f) (\<lambda>d ds r. ds = [f d] \<and> r = Inr ())"
  by (simp add: does_def update_disk_def)

lemma does_clock [acts]: "does recovery_clock (reads (\<lambda>d r. True))"
  by (simp add: does_def reads_def recovery_clock_def split: prod.split)

lemma does_then:
  assumes "does f (reads R)" "\<And>v. does (g v) (\<lambda>d ds r. R d (Inr v) \<longrightarrow> \<Psi> d ds r)"
    "\<And>d e. R d (Inl e) \<Longrightarrow> \<Psi> d [] (Inl e)"
  shows "does (andthen f g) \<Psi>"
  using assms(1)
proof (rule does_andthen)
  show "does (g v) (\<lambda>d' b r. \<forall>d a. reads R d a (Inr v) \<longrightarrow> d' = last (d # a) \<longrightarrow> \<Psi> d (a @ b) r)" for v
    using assms(2) by (rule does_mono) (auto simp: reads_def)
qed (auto simp: reads_def assms(3))

text \<open>The same for the checks, whose failure is the only thing they tell.\<close>

lemma does_check:
  assumes "does g \<Psi>" "\<And>d. \<Psi> d [] (Inl m)"
  shows "does (andthen (sys_ok m) (\<lambda>_. g)) \<Psi>" "does (andthen (sys_loop n m) (\<lambda>_. g)) \<Psi>"
  by (rule does_then [OF does_sys_ok] does_then [OF does_sys_loop]; use assms in \<open>auto intro: does_mono\<close>)+

lemma require_then: "andthen (require b m) (\<lambda>_. g) = (if b then g else refuse m)"
  by (rule ext) (simp add: andthen_def require_def ret_def refuse_def)

lemma does_guard:
  assumes "b \<Longrightarrow> does g \<Psi>" "\<And>d. \<not> b \<Longrightarrow> \<Psi> d [] (Inl m)"
  shows "does (andthen (require b m) (\<lambda>_. g)) \<Psi>"
  using assms by (auto simp: require_then reads_def intro: does_mono [OF does_refuse])

lemma does_retI: "(\<And>d. \<Psi> d [] (Inr v)) \<Longrightarrow> does (ret v) \<Psi>"
  by (rule does_mono [OF does_ret]) (simp add: reads_def)

lemma does_refuseI: "(\<And>d. \<Psi> d [] (Inl m)) \<Longrightarrow> does (refuse m) \<Psi>"
  by (rule does_mono [OF does_refuse]) (simp add: reads_def)

lemma does_lookI:
  assumes "\<And>v. does (g v) (\<lambda>d ds r. v = f d \<longrightarrow> \<Psi> d ds r)"
  shows "does (andthen (look f) g) \<Psi>"
  by (rule does_then [OF does_look]) (use assms in simp_all)

lemma does_updateI:
  assumes "does g (\<lambda>d' b r. \<forall>d. d' = f d \<longrightarrow> \<Psi> d (f d # b) r)"
  shows "does (andthen (update_disk f) (\<lambda>_. g)) \<Psi>"
  by (rule does_andthen [OF does_update]) (use assms in \<open>auto intro: does_mono\<close>)

section \<open>What the journal's operations do\<close>

text \<open>The record a disk stores; \<open>None\<close> when there is none or it is damaged.\<close>

definition stored :: "sha \<Rightarrow> disk \<Rightarrow> recovery_record option" where
  "stored sha d = (case d_journal d of
       None \<Rightarrow> None
     | Some b \<Rightarrow>
         if 90 + 32 \<le> length b \<and> length b \<le> 90 + max_backup + 32
         then (case parse_record sha b of Inl _ \<Rightarrow> None | Inr r \<Rightarrow> Some r) else None)"

definition journal_of :: "sha \<Rightarrow> recovery_record \<Rightarrow> byte list option" where
  "journal_of sha r = (case checksum sha (record_body r) of None \<Rightarrow> None | Some d \<Rightarrow> Some (record_body r @ d))"

lemma stored_fits: "stored sha d = Some r \<Longrightarrow> record_fits r"
  using parse_record_only by (fastforce simp: stored_def split: option.splits if_splits sum.splits)

lemma stored_saved:
  assumes "record_fits r" "journal_of sha r = Some b"
  shows "stored sha (d\<lparr>d_journal := Some b\<rparr>) = Some r"
proof -
  from assms(2) obtain c where c: "checksum sha (record_body r) = Some c" "b = record_body r @ c"
    by (auto simp: journal_of_def split: option.splits)
  moreover have "record_valid r" using assms(1) by (simp add: record_fits_def)
  ultimately show ?thesis
    using assms(1) record_lengths(4) [of r]
    by (simp add: stored_def parse_record_body length_record_body checksum_length max_backup_def)
qed

lemma stored_SomeI:
  assumes "Some b = d_journal d" "90 + 32 \<le> length b" "length b \<le> 90 + max_backup + 32" "parse_record sha b = Inr r"
  shows "stored sha d = Some r"
  using assms(1) [symmetric] assms(2-4) by (simp add: stored_def)

lemma stored_NoneI: "None = d_journal d \<Longrightarrow> stored sha d = None"
  by (simp add: stored_def split: option.split)

lemma load_does:
  "does (journal_load sha) (reads (\<lambda>d r. \<forall>x. r = Inr x \<longrightarrow> x = stored sha d \<and> (x = None \<longrightarrow> d_journal d = None)))"
  unfolding journal_load_def
proof (intro does_check does_lookI)
  fix bytes
  show "does (case bytes of None \<Rightarrow> ret None
     | Some bytes \<Rightarrow>
         andthen (sys_ok ''Unsafe or invalid recovery journal'') (\<lambda>_.
         andthen (require (90 + 32 \<le> length bytes \<and> length bytes \<le> 90 + max_backup + 32)
           ''Unsafe or invalid recovery journal'') (\<lambda>_.
         andthen (sys_loop (length bytes) ''Truncated recovery journal'') (\<lambda>_.
         andthen (sys_ok ''Recovery journal changed during read'') (\<lambda>_.
         (case parse_record sha bytes of Inl e \<Rightarrow> refuse e | Inr r \<Rightarrow> ret (Some r)))))))
    (\<lambda>d ds r. bytes = d_journal d \<longrightarrow>
       reads (\<lambda>d r. \<forall>x. r = Inr x \<longrightarrow> x = stored sha d \<and> (x = None \<longrightarrow> d_journal d = None)) d ds r)"
    by (cases bytes) (auto intro!: does_check does_guard does_retI does_refuseI simp: reads_def stored_SomeI stored_NoneI split: sum.split)
qed (simp add: reads_def)

lemma save_does:
  "does (journal_save sha r) (\<lambda>d ds res. ds = [] \<and> isl res
     \<or> (\<exists>b. ds = [d\<lparr>d_journal := Some b\<rparr>] \<and> record_valid r \<and> journal_of sha r = Some b))"
  unfolding journal_save_def Let_def
  by (cases "checksum sha (record_body r)")
    (auto intro!: does_check does_guard does_retI does_refuseI does_updateI does_mono [OF does_sys_ok]
      simp: reads_def journal_of_def)

text \<open>The configuration a record saves, and what its restoration must bring back.\<close>

definition saved :: "recovery_record \<Rightarrow> byte list option" where
  "saved r = (if rr_exists r then Some (rr_previous r) else None)"

text \<open>
  The abstraction: the confirmed configuration is the saved one while a change is pending, and the
  installed one otherwise. Every operation but a commit has to leave it alone, at every crash point.
\<close>

definition change_pending :: "sha \<Rightarrow> disk \<Rightarrow> bool" where
  "change_pending sha d \<longleftrightarrow> (case stored sha d of None \<Rightarrow> False | Some r \<Rightarrow> rr_phase r = J_Pending)"

definition confirmed :: "sha \<Rightarrow> disk \<Rightarrow> byte list option" where
  "confirmed sha d = (case stored sha d of
       Some r \<Rightarrow> if rr_phase r = J_Pending then saved r else d_netplan d
     | None \<Rightarrow> d_netplan d)"

lemma stored_netplan [simp]:
  "stored sha (d\<lparr>d_netplan := x\<rparr>) = stored sha d" "stored sha (d\<lparr>d_policy := x\<rparr>) = stored sha d"
  by (simp_all add: stored_def)

lemma stored_cong: "d_journal d' = d_journal d \<Longrightarrow> stored sha d' = stored sha d"
  by (simp add: stored_def)

lemma does_succeeds:
  assumes "does f \<Phi>"
  shows "does (succeeds f m) (\<lambda>d ds r. if r = Inr () then \<Phi> d ds (Inr True) else r = Inl m \<and> (\<exists>x. \<Phi> d ds x))"
  unfolding does_def
proof
  fix w
  from assms obtain ds where "w_history (snd (f w)) = w_history w @ ds" "w_disk (snd (f w)) = last (w_disk w # ds)"
    "\<Phi> (w_disk w) ds (fst (f w))" unfolding does_def by blast
  then show "\<exists>ds. w_history (snd (succeeds f m w)) = w_history w @ ds \<and> w_disk (snd (succeeds f m w)) = last (w_disk w # ds)
     \<and> (if fst (succeeds f m w) = Inr () then \<Phi> (w_disk w) ds (Inr True)
        else fst (succeeds f m w) = Inl m \<and> (\<exists>x. \<Phi> (w_disk w) ds x))"
    by (intro exI [of _ ds]) (cases "f w", auto simp: succeeds_def)
qed

section \<open>Properties\<close>

text \<open>C32: the journal's format is exact: bytes of an admitted length are read as a record precisely when the
  record is valid, its deadline fits 64 bits and the bytes are the ones the writer produces for it, with
  their checksum.\<close>

theorem journal_format_exact:
  "(90 + 32 \<le> length b \<and> length b \<le> 90 + max_backup + 32 \<and> parse_record sha b = Inr r)
   \<longleftrightarrow> (record_fits r \<and> (\<exists>c. checksum sha (record_body r) = Some c \<and> b = record_body r @ c))"
proof
  assume "record_fits r \<and> (\<exists>c. checksum sha (record_body r) = Some c \<and> b = record_body r @ c)"
  then show "90 + 32 \<le> length b \<and> length b \<le> 90 + max_backup + 32 \<and> parse_record sha b = Inr r"
    using record_lengths(4) [of r]
    by (auto simp: record_fits_def parse_record_body length_record_body checksum_length max_backup_def)
qed (use parse_record_only in blast)

end
