(* ===== verification/NetplanFiles.thy ===== *)
theory NetplanFiles
  imports WifiJournal
begin

text \<open>
  The managed configuration files (server/src/netplan_files.cpp), the recovery worker
  (server/src/wifi_recovery_worker.cpp) and the preparation of the runtime policy
  (server/src/wifi_runtime_policy.cpp). The class \<open>NetplanFiles\<close> manages one of two fixed files; its
  flag tells which. PBKDF2 is a parameter of the readers of drafts, and is never called for a key
  that is written out.
\<close>

section \<open>Managed files\<close>

definition managed :: "bool \<Rightarrow> disk \<Rightarrow> byte list option" where
  "managed supplicant d = (if supplicant then d_policy d else d_netplan d)"

definition put_managed :: "bool \<Rightarrow> byte list option \<Rightarrow> disk \<Rightarrow> disk" where
  "put_managed supplicant v d = (if supplicant then d\<lparr>d_policy := v\<rparr> else d\<lparr>d_netplan := v\<rparr>)"

definition is_draft :: "psk_kdf \<Rightarrow> bool \<Rightarrow> byte list \<Rightarrow> bool" where
  "is_draft kdf supplicant bytes \<longleftrightarrow> bytes \<noteq> [] \<and> length bytes \<le> 4096
     \<and> \<not> isl (if supplicant then read_wifi_supplicant_draft kdf (string_of bytes)
                else read_wifi_config_draft kdf (string_of bytes))"

definition files_open :: "unit act" where
  "files_open = sys_ok ''Unsafe Netplan directory''"

definition files_open_supplicant :: "unit act" where
  "files_open_supplicant = andthen files_open (\<lambda>_. sys_ok ''Runtime Wi-Fi policy directory must be private'')"

text \<open>\<open>backup\<close>: the bytes of the file, or that there is none.\<close>

definition files_backup :: "psk_kdf \<Rightarrow> bool \<Rightarrow> byte list option act" where
  "files_backup kdf supplicant =
     andthen (sys_ok ''Cannot open managed Wi-Fi configuration'') (\<lambda>_.
     andthen (look (managed supplicant)) (\<lambda>stored.
       (case stored of
          None \<Rightarrow> ret None
        | Some bytes \<Rightarrow>
            andthen (sys_ok ''Unsafe managed Wi-Fi configuration'') (\<lambda>_.
            andthen (require (bytes \<noteq> [] \<and> length bytes \<le> 4096) ''Unsafe managed Wi-Fi configuration'') (\<lambda>_.
            andthen (sys_loop (length bytes) ''Incomplete Wi-Fi configuration backup'') (\<lambda>_.
            andthen (sys_ok ''Refusing noncanonical Wi-Fi configuration'') (\<lambda>_.
            andthen (require (is_draft kdf supplicant bytes) ''Refusing noncanonical Wi-Fi configuration'') (\<lambda>_.
            ret (Some bytes)))))))))"

definition files_replace :: "psk_kdf \<Rightarrow> bool \<Rightarrow> byte list \<Rightarrow> unit act" where
  "files_replace kdf supplicant contents =
     andthen (require (is_draft kdf supplicant contents) ''Unsupported managed Wi-Fi configuration format or size'') (\<lambda>_.
     andthen (files_backup kdf supplicant) (\<lambda>_.
     andthen (sys_ok ''Cannot create managed Wi-Fi temporary file'') (\<lambda>_.
     andthen (sys_loop (length contents) ''Cannot persist managed Wi-Fi configuration'') (\<lambda>_.
     andthen (sys_ok ''Cannot persist managed Wi-Fi configuration'') (\<lambda>_.
     andthen (sys_ok ''Cannot persist managed Wi-Fi configuration'') (\<lambda>_.
     andthen (sys_ok ''Cannot persist managed Wi-Fi configuration'') (\<lambda>_.
     andthen (update_disk (put_managed supplicant (Some contents))) (\<lambda>_.
     sys_ok ''Wi-Fi configuration durability uncertain''))))))))"

definition files_restore :: "psk_kdf \<Rightarrow> bool \<Rightarrow> bool \<Rightarrow> byte list \<Rightarrow> unit act" where
  "files_restore kdf supplicant existed contents =
     (if existed then files_replace kdf supplicant contents
      else andthen (require (contents = []) ''Unexpected backup for absent Wi-Fi configuration'') (\<lambda>_.
        andthen (files_backup kdf supplicant) (\<lambda>current.
        (case current of
           None \<Rightarrow> sys_ok ''Wi-Fi restoration durability uncertain''
         | Some _ \<Rightarrow>
             andthen (sys_ok ''Cannot remove managed Wi-Fi configuration'') (\<lambda>_.
             andthen (update_disk (put_managed supplicant None)) (\<lambda>_.
             sys_ok ''Wi-Fi restoration durability uncertain''))))))"

section \<open>The recovery worker\<close>

text \<open>\<open>reconfigure\<close> is the platform's operation that applies the restored file to the network.\<close>

definition restore_managed :: "psk_kdf \<Rightarrow> bool act \<Rightarrow> recovery_record \<Rightarrow> bool act" where
  "restore_managed kdf reconfigure r =
     andthen files_open (\<lambda>_.
     andthen (files_restore kdf False (rr_exists r) (rr_previous r)) (\<lambda>_. reconfigure))"

definition wifi_recovery_tick :: "sha \<Rightarrow> (recovery_record \<Rightarrow> bool act) \<Rightarrow> recovery_outcome act" where
  "wifi_recovery_tick sha restore =
     andthen journal_open (\<lambda>_.
     andthen recovery_clock (\<lambda>(boot, now). recover_due sha boot now restore))"

definition wifi_managed_recovery_tick :: "sha \<Rightarrow> psk_kdf \<Rightarrow> bool act \<Rightarrow> recovery_outcome act" where
  "wifi_managed_recovery_tick sha kdf reconfigure = wifi_recovery_tick sha (restore_managed kdf reconfigure)"

definition wifi_managed_cancel :: "sha \<Rightarrow> psk_kdf \<Rightarrow> string \<Rightarrow> bool act \<Rightarrow> recovery_outcome act" where
  "wifi_managed_cancel sha kdf transaction reconfigure =
     andthen journal_open (\<lambda>_.
     andthen recovery_clock (\<lambda>(boot, now).
     journal_cancel sha transaction boot (restore_managed kdf reconfigure)))"

definition wifi_managed_commit :: "sha \<Rightarrow> psk_kdf \<Rightarrow> string \<Rightarrow> wifi_profile \<Rightarrow> bool act \<Rightarrow> unit act" where
  "wifi_managed_commit sha kdf transaction target verify_live =
     andthen journal_open (\<lambda>_.
     andthen (journal_load sha) (\<lambda>record.
     andthen recovery_clock (\<lambda>(boot, now).
       (case record of
          None \<Rightarrow> refuse ''Pending Wi-Fi transaction cannot be confirmed''
        | Some r \<Rightarrow>
            if rr_phase r \<noteq> J_Pending \<or> rr_transaction r \<noteq> transaction \<or> rr_boot r \<noteq> boot \<or> now \<ge> rr_deadline r
            then refuse ''Pending Wi-Fi transaction cannot be confirmed''
            else
              andthen files_open (\<lambda>_.
              andthen (files_backup kdf False) (\<lambda>persisted.
              andthen (require (case make_wifi_config_draft target of
                  Inl _ \<Rightarrow> False | Inr expected \<Rightarrow> persisted = Some (netplan_yaml expected))
                ''Persisted Wi-Fi profile does not match the confirmation target'') (\<lambda>_.
              andthen (succeeds verify_live ''Live Wi-Fi confirmation checks failed'') (\<lambda>_.
              andthen (files_backup kdf False) (\<lambda>checked_again.
              andthen (require (case make_wifi_config_draft target of
                  Inl _ \<Rightarrow> False | Inr expected \<Rightarrow> checked_again = Some (netplan_yaml expected))
                ''Wi-Fi candidate changed during confirmation checks'') (\<lambda>_.
              andthen recovery_clock (\<lambda>(boot, now).
              journal_commit sha transaction boot now)))))))))))"

section \<open>The runtime policy\<close>

text \<open>Both directories are opened before either result is looked at.\<close>

definition policy_open :: "unit act" where
  "policy_open w = (case files_open w of (source, w) \<Rightarrow> case files_open_supplicant w of (target, w) \<Rightarrow>
     (case target of Inl e \<Rightarrow> Inl e | Inr _ \<Rightarrow> source, w))"

definition prepare_wifi_runtime_policy :: "psk_kdf \<Rightarrow> bool \<Rightarrow> unit act" where
  "prepare_wifi_runtime_policy kdf check_only =
     andthen policy_open (\<lambda>_.
     andthen (files_backup kdf False) (\<lambda>yaml.
       (case yaml of
          None \<Rightarrow> refuse ''A managed Wi-Fi profile is required before preparing runtime policy''
        | Some yaml \<Rightarrow>
            (case read_wifi_config_draft kdf (string_of yaml) of
               Inl e \<Rightarrow> refuse e
             | Inr profile \<Rightarrow>
                 (case make_wifi_config_draft profile of
                    Inl e \<Rightarrow> refuse e
                  | Inr draft \<Rightarrow>
                      andthen (files_backup kdf True) (\<lambda>_.
                      if check_only then ret ()
                      else andthen (files_backup kdf False) (\<lambda>current.
                        if current \<noteq> Some yaml
                        then refuse ''Managed profile changed during runtime policy preparation''
                        else files_replace kdf True (supplicant_config draft))))))))"

section \<open>What the operations do to the disk\<close>

lemma backup_does:
  "does (files_backup kdf k) (reads (\<lambda>d r. \<forall>x. r = Inr x \<longrightarrow>
     x = managed k d \<and> (\<forall>b. x = Some b \<longrightarrow> is_draft kdf k b)))"
  unfolding files_backup_def
proof (intro does_check does_lookI)
  fix bytes
  show "does (case bytes of None \<Rightarrow> ret None
     | Some bytes \<Rightarrow>
         andthen (sys_ok ''Unsafe managed Wi-Fi configuration'') (\<lambda>_.
         andthen (require (bytes \<noteq> [] \<and> length bytes \<le> 4096) ''Unsafe managed Wi-Fi configuration'') (\<lambda>_.
         andthen (sys_loop (length bytes) ''Incomplete Wi-Fi configuration backup'') (\<lambda>_.
         andthen (sys_ok ''Refusing noncanonical Wi-Fi configuration'') (\<lambda>_.
         andthen (require (is_draft kdf k bytes) ''Refusing noncanonical Wi-Fi configuration'') (\<lambda>_.
         ret (Some bytes)))))))
    (\<lambda>d ds r. bytes = managed k d \<longrightarrow>
       reads (\<lambda>d r. \<forall>x. r = Inr x \<longrightarrow> x = managed k d \<and> (\<forall>b. x = Some b \<longrightarrow> is_draft kdf k b)) d ds r)"
    by (cases bytes) (auto intro!: does_check does_guard does_retI does_refuseI simp: reads_def)
qed (simp add: reads_def)

lemma replace_does:
  "does (files_replace kdf k c) (\<lambda>d ds r. ds = [] \<and> isl r \<or> ds = [put_managed k (Some c) d] \<and> is_draft kdf k c)"
  unfolding files_replace_def
proof (rule does_guard, rule does_then [OF backup_does])
  assume "is_draft kdf k c"
  then show "does (andthen (sys_ok ''Cannot create managed Wi-Fi temporary file'') (\<lambda>_.
     andthen (sys_loop (length c) ''Cannot persist managed Wi-Fi configuration'') (\<lambda>_.
     andthen (sys_ok ''Cannot persist managed Wi-Fi configuration'') (\<lambda>_.
     andthen (sys_ok ''Cannot persist managed Wi-Fi configuration'') (\<lambda>_.
     andthen (sys_ok ''Cannot persist managed Wi-Fi configuration'') (\<lambda>_.
     andthen (update_disk (put_managed k (Some c))) (\<lambda>_.
     sys_ok ''Wi-Fi configuration durability uncertain'')))))))
    (\<lambda>d ds r. (\<forall>x. Inr v = Inr x \<longrightarrow> x = managed k d \<and> (\<forall>b. x = Some b \<longrightarrow> is_draft kdf k b)) \<longrightarrow>
       ds = [] \<and> isl r \<or> ds = [put_managed k (Some c) d] \<and> is_draft kdf k c)" for v
    by (auto intro!: does_check does_updateI does_mono [OF does_sys_ok] simp: reads_def)
qed auto

lemma restore_does:
  "does (files_restore kdf k existed c) (\<lambda>d ds r.
     (ds = [] \<and> (isl r \<or> \<not> existed \<and> c = [] \<and> managed k d = None))
     \<or> (ds = [put_managed k (if existed then Some c else None) d] \<and> (existed \<longrightarrow> is_draft kdf k c)))"
proof (cases existed)
  case True
  then show ?thesis by (auto simp: files_restore_def intro: does_mono [OF replace_does])
next
  case False
  have *: "does (case current of
       None \<Rightarrow> sys_ok ''Wi-Fi restoration durability uncertain''
     | Some _ \<Rightarrow>
         andthen (sys_ok ''Cannot remove managed Wi-Fi configuration'') (\<lambda>_.
         andthen (update_disk (put_managed k None)) (\<lambda>_. sys_ok ''Wi-Fi restoration durability uncertain'')))
      (\<lambda>d ds r. current = managed k d \<longrightarrow>
        (ds = [] \<and> (isl r \<or> managed k d = None)) \<or> ds = [put_managed k None d])" for current
    by (cases current) (auto intro!: does_check does_updateI does_mono [OF does_sys_ok] simp: reads_def)
  show ?thesis using False
    by (simp add: files_restore_def) (rule does_guard, rule does_then [OF backup_does], rule does_mono [OF *], auto)
qed

section \<open>The confirmed configuration survives\<close>

text \<open>A disk the recovery can work with.\<close>

definition disk_ok :: "sha \<Rightarrow> psk_kdf \<Rightarrow> disk \<Rightarrow> bool" where
  "disk_ok sha kdf d \<longleftrightarrow> (d_journal d = None \<or> stored sha d \<noteq> None)
     \<and> (\<forall>b. d_netplan d = Some b \<longrightarrow> is_draft kdf False b)
     \<and> (\<forall>b. confirmed sha d = Some b \<longrightarrow> is_draft kdf False b)"

text \<open>The states \<open>ds\<close> all keep the confirmed configuration of \<open>d\<close>.\<close>

definition keeps_confirmed :: "sha \<Rightarrow> psk_kdf \<Rightarrow> disk \<Rightarrow> disk list \<Rightarrow> bool" where
  "keeps_confirmed sha kdf d ds \<longleftrightarrow> (\<forall>d' \<in> set ds. disk_ok sha kdf d' \<and> confirmed sha d' = confirmed sha d)"

lemma keeps_Nil [simp]: "keeps_confirmed sha kdf d []"
  by (simp add: keeps_confirmed_def)

text \<open>An operation of the platform must not touch the two files; it may prepare the runtime policy.\<close>

definition same_files :: "disk \<Rightarrow> disk list \<Rightarrow> 'r \<Rightarrow> bool" where
  "same_files d ds r \<longleftrightarrow> (\<forall>d' \<in> set ds. d_journal d' = d_journal d \<and> d_netplan d' = d_netplan d)"

lemma same_files_last: "same_files d ds r \<Longrightarrow> d_journal (last (d # ds)) = d_journal d \<and> d_netplan (last (d # ds)) = d_netplan d"
  by (cases ds rule: rev_cases) (simp_all add: same_files_def)

lemma confirmed_cong:
  "d_journal d' = d_journal d \<Longrightarrow> d_netplan d' = d_netplan d
    \<Longrightarrow> confirmed sha d' = confirmed sha d \<and> disk_ok sha kdf d' = disk_ok sha kdf d \<and> stored sha d' = stored sha d
      \<and> change_pending sha d' = change_pending sha d"
  using stored_cong [of d' d sha] by (cases "stored sha d") (simp_all add: confirmed_def disk_ok_def change_pending_def)

lemma same_files_keeps: "same_files d ds r \<Longrightarrow> disk_ok sha kdf d \<Longrightarrow> keeps_confirmed sha kdf d ds"
  unfolding same_files_def keeps_confirmed_def using confirmed_cong by metis

text \<open>While a change is pending, the configuration file may be anything well formed.\<close>

lemma pending_netplan:
  assumes "disk_ok sha kdf d" "change_pending sha d" "\<forall>b. v = Some b \<longrightarrow> is_draft kdf False b"
    "d_journal d' = d_journal d" "d_netplan d' = v"
  shows "disk_ok sha kdf d' \<and> confirmed sha d' = confirmed sha d \<and> change_pending sha d' \<and> stored sha d' = stored sha d"
  using assms stored_cong [OF assms(4), of sha]
  by (cases "stored sha d") (simp_all add: disk_ok_def confirmed_def change_pending_def)

definition drafted :: "psk_kdf \<Rightarrow> byte list option \<Rightarrow> bool" where
  "drafted kdf v \<longleftrightarrow> (\<forall>b. v = Some b \<longrightarrow> is_draft kdf False b)"

definition restoring :: "psk_kdf \<Rightarrow> recovery_record \<Rightarrow> disk \<Rightarrow> disk list \<Rightarrow> bool" where
  "restoring kdf r d ds \<longleftrightarrow> (\<forall>d' \<in> set ds. d_journal d' = d_journal d
     \<and> (d_netplan d' = d_netplan d \<or> (d_netplan d' = saved r \<and> drafted kdf (saved r))))"

lemma restore_managed_does:
  assumes "does reconfigure same_files"
  shows "does (restore_managed kdf reconfigure r)
     (\<lambda>d ds res. restoring kdf r d ds \<and> (\<not> isl res \<longrightarrow> d_netplan (last (d # ds)) = saved r))"
  unfolding restore_managed_def files_open_def
proof (rule does_check, rule does_andthen [OF restore_does])
  fix v :: unit
  show "does reconfigure (\<lambda>d' b res. \<forall>d a.
      (a = [] \<and> (isl (Inr v :: string + unit) \<or> \<not> rr_exists r \<and> rr_previous r = [] \<and> managed False d = None)
       \<or> a = [put_managed False (if rr_exists r then Some (rr_previous r) else None) d]
         \<and> (rr_exists r \<longrightarrow> is_draft kdf False (rr_previous r))) \<longrightarrow> d' = last (d # a) \<longrightarrow>
      restoring kdf r d (a @ b) \<and> (\<not> isl res \<longrightarrow> d_netplan (last (d # a @ b)) = saved r))"
  proof (rule does_mono [OF assms])
    fix d' b and res :: "string + bool"
    assume s: "same_files d' b res"
    show "\<forall>d a.
      (a = [] \<and> (isl (Inr v :: string + unit) \<or> \<not> rr_exists r \<and> rr_previous r = [] \<and> managed False d = None)
       \<or> a = [put_managed False (if rr_exists r then Some (rr_previous r) else None) d]
         \<and> (rr_exists r \<longrightarrow> is_draft kdf False (rr_previous r))) \<longrightarrow> d' = last (d # a) \<longrightarrow>
      restoring kdf r d (a @ b) \<and> (\<not> isl res \<longrightarrow> d_netplan (last (d # a @ b)) = saved r)"
      using same_files_last [OF s] s
      by (auto simp: same_files_def saved_def managed_def put_managed_def restoring_def drafted_def)
  qed
qed (auto simp: put_managed_def saved_def restoring_def drafted_def)

lemma restoring_keeps:
  assumes "restoring kdf r d ds" "disk_ok sha kdf d" "stored sha d = Some r" "rr_phase r = J_Pending"
  shows "keeps_confirmed sha kdf d ds"
proof -
  have p: "change_pending sha d" using assms(3,4) by (simp add: change_pending_def)
  show ?thesis unfolding keeps_confirmed_def
  proof
    fix d' assume "d' \<in> set ds"
    with assms(1) have "d_journal d' = d_journal d" "d_netplan d' = d_netplan d \<or> d_netplan d' = saved r \<and> drafted kdf (saved r)"
      by (auto simp: restoring_def)
    moreover have "drafted kdf (d_netplan d)" using assms(2) by (simp add: disk_ok_def drafted_def)
    ultimately have "drafted kdf (d_netplan d')" "d_journal d' = d_journal d" by auto
    then show "disk_ok sha kdf d' \<and> confirmed sha d' = confirmed sha d"
      using pending_netplan [OF assms(2) p _ _ refl, of d'] by (simp add: drafted_def)
  qed
qed

lemma keeps_append:
  "keeps_confirmed sha kdf d (a @ b) \<longleftrightarrow> keeps_confirmed sha kdf d a \<and> keeps_confirmed sha kdf d b"
  by (auto simp: keeps_confirmed_def)

lemma keeps_last: "keeps_confirmed sha kdf d a \<Longrightarrow> disk_ok sha kdf d
    \<Longrightarrow> disk_ok sha kdf (last (d # a)) \<and> confirmed sha (last (d # a)) = confirmed sha d"
  by (cases a rule: rev_cases) (simp_all add: keeps_confirmed_def)

lemma keeps_trans:
  "keeps_confirmed sha kdf d a \<Longrightarrow> disk_ok sha kdf d \<Longrightarrow> keeps_confirmed sha kdf (last (d # a)) b
    \<Longrightarrow> keeps_confirmed sha kdf d (a @ b)"
  using keeps_last [of sha kdf d a] by (auto simp: keeps_confirmed_def)

definition safely :: "sha \<Rightarrow> psk_kdf \<Rightarrow> disk \<Rightarrow> disk list \<Rightarrow> 'r \<Rightarrow> bool" where
  "safely sha kdf d ds r \<longleftrightarrow> (disk_ok sha kdf d \<longrightarrow> keeps_confirmed sha kdf d ds)"

text \<open>After a restoration the record is marked restored; the file is the confirmed configuration.\<close>

lemma stored_new:
  assumes "stored sha d = Some r" "r' = r\<lparr>rr_phase := ph, rr_previous := []\<rparr>" "record_valid r'" "journal_of sha r' = Some b"
  shows "stored sha (d'\<lparr>d_journal := Some b\<rparr>) = Some r'"
proof (rule stored_saved [OF _ assms(4)])
  show "record_fits r'" using stored_fits [OF assms(1)] assms(2,3) by (simp add: record_fits_def)
qed

lemma confirmed_simps:
  "stored sha d = Some r \<Longrightarrow> confirmed sha d = (if rr_phase r = J_Pending then saved r else d_netplan d)"
  "stored sha d = Some r \<Longrightarrow> change_pending sha d \<longleftrightarrow> rr_phase r = J_Pending"
  "stored sha d = None \<Longrightarrow> confirmed sha d = d_netplan d"
  "stored sha d = None \<Longrightarrow> \<not> change_pending sha d"
  by (simp_all add: confirmed_def change_pending_def)

text \<open>The record of a change that has ended replaces a pending one.\<close>

lemma resolved:
  assumes "stored sha d = Some r" "rr_phase r = J_Pending" "ph \<noteq> J_Pending" "disk_ok sha kdf d"
    "r' = r\<lparr>rr_phase := ph, rr_previous := []\<rparr>" "record_valid r'" "journal_of sha r' = Some b"
    "d_journal d1 = d_journal d" "drafted kdf (d_netplan d1)"
  shows "disk_ok sha kdf (d1\<lparr>d_journal := Some b\<rparr>) \<and> confirmed sha (d1\<lparr>d_journal := Some b\<rparr>) = d_netplan d1
    \<and> \<not> change_pending sha (d1\<lparr>d_journal := Some b\<rparr>)"
proof -
  have "stored sha (d1\<lparr>d_journal := Some b\<rparr>) = Some r'" by (rule stored_new [OF assms(1,5,6,7)])
  then show ?thesis using assms(3,5,9) by (simp add: disk_ok_def confirmed_simps drafted_def)
qed

lemma restore_pending_does:
  assumes "does reconfigure same_files" "rr_phase r = J_Pending"
  shows "does (restore_pending sha r (restore_managed kdf reconfigure)) (\<lambda>d ds res. stored sha d = Some r \<longrightarrow>
     disk_ok sha kdf d \<longrightarrow> keeps_confirmed sha kdf d ds
       \<and> (\<not> isl res \<longrightarrow> d_netplan (last (d # ds)) = confirmed sha d \<and> \<not> change_pending sha (last (d # ds))))"
  unfolding restore_pending_def
proof (rule does_andthen [OF does_succeeds [OF restore_managed_does [OF assms(1)]]])
  fix v :: unit
  let ?r' = "r\<lparr>rr_phase := J_Restored, rr_previous := []\<rparr>"
  have save: "does (andthen (journal_save sha ?r') (\<lambda>_. ret Restored)) (\<lambda>d ds res. (ds = [] \<and> isl res)
     \<or> (\<exists>b. ds = [d\<lparr>d_journal := Some b\<rparr>] \<and> record_valid ?r' \<and> journal_of sha ?r' = Some b))"
    by (rule does_andthen [OF save_does]) (auto intro!: does_retI)
  show "does (andthen (journal_save sha ?r') (\<lambda>_. ret Restored)) (\<lambda>d' b res. \<forall>d a.
     (if Inr v = (Inr () :: string + unit)
      then restoring kdf r d a \<and> (\<not> isl (Inr True :: string + bool) \<longrightarrow> d_netplan (last (d # a)) = saved r)
      else Inr v = (Inl ''Recovery failed; pending journal retained'' :: string + unit)
        \<and> (\<exists>x :: string + bool. restoring kdf r d a \<and> (\<not> isl x \<longrightarrow> d_netplan (last (d # a)) = saved r))) \<longrightarrow>
     d' = last (d # a) \<longrightarrow> stored sha d = Some r \<longrightarrow> disk_ok sha kdf d \<longrightarrow> keeps_confirmed sha kdf d (a @ b)
       \<and> (\<not> isl res \<longrightarrow> d_netplan (last (d # a @ b)) = confirmed sha d \<and> \<not> change_pending sha (last (d # a @ b))))"
  proof (rule does_mono [OF save], intro allI impI)
    fix d' ds' d a and res :: "string + recovery_outcome"
    assume b: "(ds' = [] \<and> isl res) \<or> (\<exists>b. ds' = [d'\<lparr>d_journal := Some b\<rparr>] \<and> record_valid ?r' \<and> journal_of sha ?r' = Some b)"
      and a: "if Inr v = (Inr () :: string + unit)
      then restoring kdf r d a \<and> (\<not> isl (Inr True :: string + bool) \<longrightarrow> d_netplan (last (d # a)) = saved r)
      else Inr v = (Inl ''Recovery failed; pending journal retained'' :: string + unit)
        \<and> (\<exists>x :: string + bool. restoring kdf r d a \<and> (\<not> isl x \<longrightarrow> d_netplan (last (d # a)) = saved r))"
      and d': "d' = last (d # a)" and s: "stored sha d = Some r" and ok: "disk_ok sha kdf d"
    from a have r: "restoring kdf r d a" and n: "d_netplan d' = saved r" by (simp_all add: d')
    have k: "keeps_confirmed sha kdf d a" by (rule restoring_keeps [OF r ok s assms(2)])
    have c: "confirmed sha d = saved r" using s assms(2) by (simp add: confirmed_simps)
    have j: "d_journal d' = d_journal d" using r by (cases a rule: rev_cases) (auto simp: d' restoring_def)
    have dr: "drafted kdf (d_netplan d')" using ok c n by (simp add: disk_ok_def drafted_def)
    show "keeps_confirmed sha kdf d (a @ ds')
       \<and> (\<not> isl res \<longrightarrow> d_netplan (last (d # a @ ds')) = confirmed sha d \<and> \<not> change_pending sha (last (d # a @ ds')))"
      using b
    proof (elim disjE exE conjE)
      fix b assume "ds' = [d'\<lparr>d_journal := Some b\<rparr>]" "record_valid ?r'" "journal_of sha ?r' = Some b"
      then show ?thesis
        using resolved [OF s assms(2) _ ok refl _ _ j dr, of J_Restored b] k c n
        by (simp add: keeps_append) (simp add: keeps_confirmed_def)
    qed (use k in simp)
  qed
qed (use restoring_keeps assms(2) in \<open>auto split: if_splits\<close>)

definition recovering :: "sha \<Rightarrow> psk_kdf \<Rightarrow> disk \<Rightarrow> disk list \<Rightarrow> string + recovery_outcome \<Rightarrow> bool" where
  "recovering sha kdf d ds res \<longleftrightarrow> (disk_ok sha kdf d \<longrightarrow> keeps_confirmed sha kdf d ds
     \<and> (res = Inr Restored \<longrightarrow> d_netplan (last (d # ds)) = confirmed sha d \<and> \<not> change_pending sha (last (d # ds))))"

lemma recovering_Nil: "res \<noteq> Inr Restored \<Longrightarrow> recovering sha kdf d [] res"
  by (simp add: recovering_def)

lemma restore_pending_recovers:
  assumes "does reconfigure same_files" "rr_phase r = J_Pending"
  shows "does (restore_pending sha r (restore_managed kdf reconfigure))
    (\<lambda>d ds res. stored sha d = Some r \<longrightarrow> recovering sha kdf d ds res)"
  by (rule does_mono [OF restore_pending_does [OF assms, where sha = sha and kdf = kdf]]) (auto simp: recovering_def)

lemma recover_due_does:
  assumes "does reconfigure same_files"
  shows "does (recover_due sha boot now (restore_managed kdf reconfigure)) (recovering sha kdf)"
  unfolding recover_due_def
proof (rule does_guard, rule does_then [OF load_does])
  fix found
  show "does (case found of
       None \<Rightarrow> ret Nothing
     | Some r \<Rightarrow>
         if rr_phase r \<noteq> J_Pending then ret Nothing
         else if rr_boot r = boot \<and> now < rr_deadline r then ret Waiting
         else restore_pending sha r (restore_managed kdf reconfigure))
    (\<lambda>d ds r. (\<forall>x. Inr found = Inr x \<longrightarrow> x = stored sha d \<and> (x = None \<longrightarrow> d_journal d = None)) \<longrightarrow> recovering sha kdf d ds r)"
    by (cases found)
      (auto intro!: does_retI recovering_Nil intro: does_mono [OF restore_pending_recovers [OF assms]])
qed (simp_all add: recovering_Nil)

lemma journal_cancel_does:
  assumes "does reconfigure same_files"
  shows "does (journal_cancel sha transaction boot (restore_managed kdf reconfigure)) (recovering sha kdf)"
  unfolding journal_cancel_def
proof (rule does_guard, rule does_then [OF load_does])
  fix found
  show "does (case found of
       None \<Rightarrow> refuse ''Recovery transaction cannot be cancelled''
     | Some r \<Rightarrow>
         if rr_transaction r \<noteq> transaction \<or> rr_boot r \<noteq> boot \<or> rr_phase r = J_Committed
         then refuse ''Recovery transaction cannot be cancelled''
         else if rr_phase r = J_Restored then ret Nothing
         else restore_pending sha r (restore_managed kdf reconfigure))
    (\<lambda>d ds r. (\<forall>x. Inr found = Inr x \<longrightarrow> x = stored sha d \<and> (x = None \<longrightarrow> d_journal d = None)) \<longrightarrow> recovering sha kdf d ds r)"
  proof (cases found)
    case (Some r)
    show ?thesis
    proof (cases "rr_phase r")
      case J_Pending
      then show ?thesis using Some
        by (auto intro!: does_refuseI recovering_Nil intro: does_mono [OF restore_pending_recovers [OF assms]])
    qed (use Some in \<open>auto intro!: does_refuseI does_retI recovering_Nil\<close>)
  qed (auto intro!: does_refuseI recovering_Nil)
qed (simp_all add: recovering_Nil)

lemma open_then:
  assumes "does g \<Psi>" "\<And>d e. \<Psi> d [] (Inl e)"
  shows "does (andthen journal_open (\<lambda>_. g)) \<Psi>"
proof -
  have "does journal_open (reads (\<lambda>d r. True))"
    unfolding journal_open_def by (rule does_check) (auto intro: does_mono [OF does_sys_ok] simp: reads_def)
  then show ?thesis by (rule does_then) (use assms in \<open>auto elim: does_mono\<close>)
qed

lemma clock_then:
  assumes "\<And>boot now. does (g boot now) \<Psi>" "\<And>d e. \<Psi> d [] (Inl e)"
  shows "does (andthen recovery_clock (\<lambda>(boot, now). g boot now)) \<Psi>"
  by (rule does_then [OF does_clock]) (use assms in \<open>auto split: prod.split elim: does_mono\<close>)

lemma recovery_tick_does:
  assumes "does reconfigure same_files"
  shows "does (wifi_managed_recovery_tick sha kdf reconfigure) (recovering sha kdf)"
  unfolding wifi_managed_recovery_tick_def wifi_recovery_tick_def
  by (intro open_then clock_then recover_due_does assms) (simp_all add: recovering_Nil)

lemma managed_cancel_does:
  assumes "does reconfigure same_files"
  shows "does (wifi_managed_cancel sha kdf transaction reconfigure) (recovering sha kdf)"
  unfolding wifi_managed_cancel_def
  by (intro open_then clock_then journal_cancel_does assms) (simp_all add: recovering_Nil)

text \<open>A commit keeps the confirmed configuration until it replaces it by the target, in one step.\<close>

definition committing :: "sha \<Rightarrow> psk_kdf \<Rightarrow> wifi_profile \<Rightarrow> disk \<Rightarrow> disk list \<Rightarrow> string + unit \<Rightarrow> bool" where
  "committing sha kdf target d ds res \<longleftrightarrow> (disk_ok sha kdf d \<longrightarrow>
     (isl res \<and> keeps_confirmed sha kdf d ds
      \<or> (\<exists>a d' y. ds = a @ [d'] \<and> keeps_confirmed sha kdf d a \<and> disk_ok sha kdf d' \<and> \<not> change_pending sha d'
           \<and> make_wifi_config_draft target = Inr y \<and> confirmed sha d' = Some (netplan_yaml y)
           \<and> d_netplan d' = Some (netplan_yaml y))))"

lemma committing_Nil: "committing sha kdf target d [] (Inl e)"
  by (simp add: committing_def)

lemma journal_commit_does:
  "does (journal_commit sha transaction boot now) (\<lambda>d ds res. make_wifi_config_draft target = Inr y \<longrightarrow>
     d_netplan d = Some (netplan_yaml y) \<longrightarrow> committing sha kdf target d ds res)"
  unfolding journal_commit_def
proof (rule does_then [OF load_does])
  fix found
  show "does (case found of
       None \<Rightarrow> refuse ''Recovery transaction cannot be committed''
     | Some r \<Rightarrow>
         if rr_phase r \<noteq> J_Pending \<or> rr_transaction r \<noteq> transaction \<or> rr_boot r \<noteq> boot \<or> now \<ge> rr_deadline r
         then refuse ''Recovery transaction cannot be committed''
         else journal_save sha (r\<lparr>rr_phase := J_Committed, rr_previous := []\<rparr>))
    (\<lambda>d ds res. (\<forall>x. Inr found = Inr x \<longrightarrow> x = stored sha d \<and> (x = None \<longrightarrow> d_journal d = None)) \<longrightarrow>
      make_wifi_config_draft target = Inr y \<longrightarrow> d_netplan d = Some (netplan_yaml y) \<longrightarrow> committing sha kdf target d ds res)"
  proof (cases found)
    case (Some r)
    show ?thesis
    proof (cases "rr_phase r = J_Pending")
      case True
      have "does (journal_save sha (r\<lparr>rr_phase := J_Committed, rr_previous := []\<rparr>)) (\<lambda>d ds res. stored sha d = Some r \<longrightarrow>
        make_wifi_config_draft target = Inr y \<longrightarrow> d_netplan d = Some (netplan_yaml y) \<longrightarrow> committing sha kdf target d ds res)"
      proof (rule does_mono [OF save_does], intro impI)
        fix d ds and res :: "string + unit"
        let ?r' = "r\<lparr>rr_phase := J_Committed, rr_previous := []\<rparr>"
        assume s: "ds = [] \<and> isl res \<or> (\<exists>b. ds = [d\<lparr>d_journal := Some b\<rparr>] \<and> record_valid ?r' \<and> journal_of sha ?r' = Some b)"
          and r: "stored sha d = Some r" and y: "make_wifi_config_draft target = Inr y" "d_netplan d = Some (netplan_yaml y)"
        show "committing sha kdf target d ds res"
          unfolding committing_def
        proof
          assume ok: "disk_ok sha kdf d"
          then have dr: "drafted kdf (d_netplan d)" by (simp add: disk_ok_def drafted_def)
          from s show "isl res \<and> keeps_confirmed sha kdf d ds
            \<or> (\<exists>a d' y. ds = a @ [d'] \<and> keeps_confirmed sha kdf d a \<and> disk_ok sha kdf d' \<and> \<not> change_pending sha d'
               \<and> make_wifi_config_draft target = Inr y \<and> confirmed sha d' = Some (netplan_yaml y)
               \<and> d_netplan d' = Some (netplan_yaml y))"
            using resolved [OF r True _ ok refl _ _ refl dr, of J_Committed] y by auto
        qed
      qed
      then show ?thesis using Some
        by (auto intro!: does_refuseI committing_Nil elim!: does_mono)
    qed (use Some in \<open>auto intro!: does_refuseI committing_Nil\<close>)
  qed (auto intro!: does_refuseI committing_Nil)
qed (auto simp: committing_Nil)

lemma managed_commit_does:
  assumes "does verify_live same_files"
  shows "does (wifi_managed_commit sha kdf transaction target verify_live) (committing sha kdf target)"
  unfolding wifi_managed_commit_def
proof (rule open_then, rule does_then [OF load_does], rule clock_then)
  fix found boot and now :: nat
  let ?rest = "andthen (files_backup kdf False) (\<lambda>checked_again.
              andthen (require (case make_wifi_config_draft target of
                  Inl _ \<Rightarrow> False | Inr expected \<Rightarrow> checked_again = Some (netplan_yaml expected))
                ''Wi-Fi candidate changed during confirmation checks'') (\<lambda>_.
              andthen recovery_clock (\<lambda>(boot, now).
              journal_commit sha transaction boot now)))"
  have rest: "does ?rest (committing sha kdf target)"
  proof (rule does_then [OF backup_does], rule does_guard)
    fix x
    assume c: "case make_wifi_config_draft target of Inl _ \<Rightarrow> False | Inr expected \<Rightarrow> x = Some (netplan_yaml expected)"
    then obtain y where y: "make_wifi_config_draft target = Inr y" "x = Some (netplan_yaml y)"
      by (cases "make_wifi_config_draft target") auto
    show "does (andthen recovery_clock (\<lambda>(boot, now). journal_commit sha transaction boot now))
      (\<lambda>d ds r. (\<forall>x'. Inr x = Inr x' \<longrightarrow> x' = managed False d \<and> (\<forall>b. x' = Some b \<longrightarrow> is_draft kdf False b)) \<longrightarrow>
        committing sha kdf target d ds r)"
      by (rule clock_then, rule does_mono [OF journal_commit_does [of sha transaction _ _ target y kdf]])
        (use y in \<open>auto simp: managed_def committing_Nil\<close>)
  qed (auto simp: committing_Nil)
  have live: "does (andthen (succeeds verify_live ''Live Wi-Fi confirmation checks failed'') (\<lambda>_. ?rest))
      (committing sha kdf target)"
  proof (rule does_andthen [OF does_succeeds [OF assms]])
    fix v :: unit
    show "does ?rest (\<lambda>d' b r. \<forall>d a. (if Inr v = (Inr () :: string + unit) then same_files d a (Inr True :: string + bool)
        else Inr v = (Inl ''Live Wi-Fi confirmation checks failed'' :: string + unit) \<and> (\<exists>x :: string + bool. same_files d a x))
      \<longrightarrow> d' = last (d # a) \<longrightarrow> committing sha kdf target d (a @ b) r)"
    proof (rule does_mono [OF rest], intro allI impI)
      fix d' b d a and r :: "string + unit"
      assume c: "committing sha kdf target d' b r" and d': "d' = last (d # a)"
        and "if Inr v = (Inr () :: string + unit) then same_files d a (Inr True :: string + bool)
        else Inr v = (Inl ''Live Wi-Fi confirmation checks failed'' :: string + unit) \<and> (\<exists>x :: string + bool. same_files d a x)"
      then have s: "same_files d a (Inr True :: string + bool)" by simp
      show "committing sha kdf target d (a @ b) r"
        unfolding committing_def
      proof
        assume ok: "disk_ok sha kdf d"
        have ka: "keeps_confirmed sha kdf d a" by (rule same_files_keeps [OF s ok])
        have ok': "disk_ok sha kdf d'" and e: "confirmed sha d' = confirmed sha d"
          using keeps_last [OF ka ok] d' by simp_all
        have tr: "keeps_confirmed sha kdf d' x \<Longrightarrow> keeps_confirmed sha kdf d (a @ x)" for x
          using keeps_trans [OF ka ok] d' by simp
        from c ok' show "isl r \<and> keeps_confirmed sha kdf d (a @ b)
          \<or> (\<exists>a' d' y. a @ b = a' @ [d'] \<and> keeps_confirmed sha kdf d a' \<and> disk_ok sha kdf d' \<and> \<not> change_pending sha d'
           \<and> make_wifi_config_draft target = Inr y \<and> confirmed sha d' = Some (netplan_yaml y)
           \<and> d_netplan d' = Some (netplan_yaml y))"
          unfolding committing_def using tr by (metis append.assoc)
      qed
    qed
  qed (auto simp: committing_def same_files_keeps)
  have files: "does (andthen files_open (\<lambda>_.
      andthen (files_backup kdf False) (\<lambda>persisted.
      andthen (require (case make_wifi_config_draft target of
          Inl _ \<Rightarrow> False | Inr expected \<Rightarrow> persisted = Some (netplan_yaml expected))
        ''Persisted Wi-Fi profile does not match the confirmation target'') (\<lambda>_.
      andthen (succeeds verify_live ''Live Wi-Fi confirmation checks failed'') (\<lambda>_. ?rest))))) (committing sha kdf target)"
    unfolding files_open_def
    by (rule does_check, rule does_then [OF backup_does], rule does_guard, rule does_mono [OF live])
      (auto simp: committing_Nil)
  show "does (case found of
          None \<Rightarrow> refuse ''Pending Wi-Fi transaction cannot be confirmed''
        | Some r \<Rightarrow>
            if rr_phase r \<noteq> J_Pending \<or> rr_transaction r \<noteq> transaction \<or> rr_boot r \<noteq> boot \<or> now \<ge> rr_deadline r
            then refuse ''Pending Wi-Fi transaction cannot be confirmed''
            else andthen files_open (\<lambda>_.
      andthen (files_backup kdf False) (\<lambda>persisted.
      andthen (require (case make_wifi_config_draft target of
          Inl _ \<Rightarrow> False | Inr expected \<Rightarrow> persisted = Some (netplan_yaml expected))
        ''Persisted Wi-Fi profile does not match the confirmation target'') (\<lambda>_.
      andthen (succeeds verify_live ''Live Wi-Fi confirmation checks failed'') (\<lambda>_. ?rest)))))
    (\<lambda>d ds r. (\<forall>x. Inr found = Inr x \<longrightarrow> x = stored sha d \<and> (x = None \<longrightarrow> d_journal d = None)) \<longrightarrow> committing sha kdf target d ds r)"
    by (cases found) (auto intro!: does_refuseI committing_Nil does_mono [OF files])
qed (auto simp: committing_Nil)

text \<open>A begin saves the installed configuration before anything is changed.\<close>

lemma journal_begin_does:
  assumes "rr_phase r = J_Pending" "rr_deadline r < 2 ^ 64"
  shows "does (journal_begin sha r) (\<lambda>d ds res. disk_ok sha kdf d \<longrightarrow> saved r = d_netplan d \<longrightarrow> keeps_confirmed sha kdf d ds)"
  unfolding journal_begin_def
proof (rule does_then [OF load_does])
  fix found
  show "does (if (case found of None \<Rightarrow> False | Some p \<Rightarrow> rr_phase p = J_Pending)
       then refuse ''Unresolved recovery transaction exists''
       else if rr_phase r \<noteq> J_Pending then refuse ''New transaction must be pending''
       else journal_save sha r)
    (\<lambda>d ds res. (\<forall>x. Inr found = Inr x \<longrightarrow> x = stored sha d \<and> (x = None \<longrightarrow> d_journal d = None)) \<longrightarrow>
      disk_ok sha kdf d \<longrightarrow> saved r = d_netplan d \<longrightarrow> keeps_confirmed sha kdf d ds)"
  proof (cases "case found of None \<Rightarrow> False | Some p \<Rightarrow> rr_phase p = J_Pending")
    case False
    have "keeps_confirmed sha kdf d ds"
      if s: "ds = [] \<and> isl res \<or> (\<exists>b. ds = [d\<lparr>d_journal := Some b\<rparr>] \<and> record_valid r \<and> journal_of sha r = Some b)"
        and f: "found = stored sha d" and ok: "disk_ok sha kdf d" and n: "saved r = d_netplan d"
      for d ds and res :: "string + unit"
    proof -
      have c: "confirmed sha d = d_netplan d" using False f by (auto simp: confirmed_def split: option.splits)
      have "keeps_confirmed sha kdf d [d\<lparr>d_journal := Some b\<rparr>]" if "record_valid r" "journal_of sha r = Some b" for b
      proof -
        have "stored sha (d\<lparr>d_journal := Some b\<rparr>) = Some r"
          using stored_saved [of r sha b d] that assms(2) by (simp add: record_fits_def)
        then show ?thesis using assms(1) c n ok by (simp add: keeps_confirmed_def disk_ok_def confirmed_simps)
      qed
      with s show ?thesis by auto
    qed
    with False show ?thesis using assms(1) by (auto intro!: does_mono [OF save_does])
  qed (auto intro!: does_refuseI)
qed simp

section \<open>The recovery completes\<close>

text \<open>A world in which the machine works: every check passes, every loop transfers its bytes, and the
  clock reads the given boot identity and time.\<close>

definition calm :: "string \<Rightarrow> nat \<Rightarrow> world \<Rightarrow> bool" where
  "calm boot now w \<longleftrightarrow> (\<forall>n. w_ok w n) \<and> (\<forall>n k. k \<le> 70000 \<longrightarrow> transfer (w_io w n) k 0 = k)
     \<and> (\<forall>n. fst (recovery_clock (w\<lparr>w_reads := n\<rparr>)) = Inr (boot, now))"

definition yields :: "string \<Rightarrow> nat \<Rightarrow> 'a act \<Rightarrow> disk \<Rightarrow> 'a \<Rightarrow> disk \<Rightarrow> bool" where
  "yields boot now f d v d' \<longleftrightarrow> (\<forall>w. calm boot now w \<and> w_disk w = d \<longrightarrow>
     (\<exists>w'. f w = (Inr v, w') \<and> calm boot now w' \<and> w_disk w' = d'))"

lemma yields_andthen:
  "yields boot now f d v d1 \<Longrightarrow> yields boot now (g v) d1 u d2 \<Longrightarrow> yields boot now (andthen f g) d u d2"
  unfolding yields_def andthen_def by (metis (no_types, lifting) prod.case sum.case(2))

lemma yields_ret: "yields boot now (ret v) d v d"
  by (simp add: yields_def ret_def)

lemma clock_frame:
  "fst (recovery_clock (w\<lparr>w_checks := a, w_reads := n\<rparr>)) = fst (recovery_clock (w\<lparr>w_reads := n\<rparr>))"
  "fst (recovery_clock (w\<lparr>w_loops := a, w_reads := n\<rparr>)) = fst (recovery_clock (w\<lparr>w_reads := n\<rparr>))"
  "fst (recovery_clock (w\<lparr>w_disk := x, w_history := h, w_reads := n\<rparr>)) = fst (recovery_clock (w\<lparr>w_reads := n\<rparr>))"
  by (simp_all add: recovery_clock_def split: prod.split)

lemma yields_sys_ok: "yields boot now (sys_ok m) d () d"
  by (auto simp: yields_def sys_ok_def calm_def clock_frame)

lemma yields_sys_loop: "n \<le> 70000 \<Longrightarrow> yields boot now (sys_loop n m) d () d"
  by (auto simp: yields_def sys_loop_def calm_def clock_frame)

lemma yields_require: "b \<Longrightarrow> yields boot now (require b m) d () d"
  by (simp add: require_def yields_ret)

lemma yields_look: "yields boot now (look f) d (f d) d"
  by (simp add: yields_def look_def)

lemma yields_update: "yields boot now (update_disk f) d () (f d)"
  by (auto simp: yields_def update_disk_def calm_def clock_frame)

lemma yields_clock: "yields boot now recovery_clock d (boot, now) d"
  unfolding yields_def
proof (intro allI impI)
  fix w assume c: "calm boot now w \<and> w_disk w = d"
  have "w\<lparr>w_reads := w_reads w\<rparr> = w" by simp
  then have r: "fst (recovery_clock w) = Inr (boot, now)" using c unfolding calm_def by metis
  have s: "snd (recovery_clock w) = w\<lparr>w_reads := w_reads w + 1\<rparr>"
    by (simp add: recovery_clock_def split: prod.split)
  show "\<exists>w'. recovery_clock w = (Inr (boot, now), w') \<and> calm boot now w' \<and> w_disk w' = d"
    using c r s by (intro exI [of _ "snd (recovery_clock w)"]) (auto simp: calm_def prod_eq_iff)
qed

lemmas yields_rules = yields_andthen yields_ret yields_sys_ok yields_sys_loop yields_require yields_look
  yields_update yields_clock

lemma yields_load: "stored sha d = Some r \<Longrightarrow> yields boot now (journal_load sha) d (Some r) d"
  unfolding journal_load_def
  by (rule yields_andthen [OF yields_sys_ok], rule yields_andthen [OF yields_look])
    (auto simp: stored_def max_backup_def split: option.splits if_splits sum.splits intro!: yields_rules)

lemma yields_backup: "drafted kdf (d_netplan d) \<Longrightarrow> yields boot now (files_backup kdf False) d (d_netplan d) d"
  unfolding files_backup_def
  by (rule yields_andthen [OF yields_sys_ok], rule yields_andthen [OF yields_look])
    (auto simp: drafted_def managed_def is_draft_def split: option.splits intro!: yields_rules)

lemma yields_replace:
  assumes "drafted kdf (d_netplan d)" "is_draft kdf False c"
  shows "yields boot now (files_replace kdf False c) d () (d\<lparr>d_netplan := Some c\<rparr>)"
proof -
  have "put_managed False (Some c) d = d\<lparr>d_netplan := Some c\<rparr>" by (simp add: put_managed_def)
  then show ?thesis
    unfolding files_replace_def using assms yields_update [of boot now "put_managed False (Some c)" d]
    by (intro yields_andthen [OF yields_require] yields_andthen [OF yields_backup] yields_andthen [OF yields_sys_ok]
        yields_andthen [OF yields_sys_loop] yields_andthen [of _ _ "update_disk _"])
      (auto simp: is_draft_def intro: yields_sys_ok)
qed

lemma yields_restore:
  assumes "drafted kdf (d_netplan d)" "drafted kdf (saved r)" "rr_exists r \<or> rr_previous r = []"
  shows "yields boot now (files_restore kdf False (rr_exists r) (rr_previous r)) d () (d\<lparr>d_netplan := saved r\<rparr>)"
proof (cases "rr_exists r")
  case True
  then show ?thesis using assms yields_replace [OF assms(1), of "rr_previous r"]
    by (simp add: files_restore_def saved_def drafted_def)
next
  case False
  have p: "put_managed False None d = d\<lparr>d_netplan := None\<rparr>" by (simp add: put_managed_def)
  have n: "d_netplan d = None \<Longrightarrow> d\<lparr>d_netplan := None\<rparr> = d" by simp
  show ?thesis using False assms(3) p yields_update [of boot now "put_managed False None" d]
    unfolding files_restore_def saved_def
    by (auto intro!: yields_andthen [OF yields_require] yields_andthen [OF yields_backup [OF assms(1)]]
        yields_andthen [OF yields_sys_ok] yields_andthen [of _ _ "update_disk _"] yields_sys_ok simp: n split: option.split)
qed

lemma yields_save:
  assumes "record_valid r" "checksum sha (record_body r) = Some c"
  shows "yields boot now (journal_save sha r) d () (d\<lparr>d_journal := Some (record_body r @ c)\<rparr>)"
proof -
  have "length (record_body r @ c) \<le> 70000"
    using assms record_lengths(4) [OF assms(1)] by (simp add: length_record_body checksum_length)
  then show ?thesis
    unfolding journal_save_def Let_def using assms
    by (auto intro!: yields_andthen [OF yields_require] yields_andthen [OF yields_sys_ok]
        yields_andthen [OF yields_sys_loop] yields_andthen [OF yields_update] yields_sys_ok)
qed

text \<open>The reconfiguration succeeds whenever the managed file is one of the program's own.\<close>

definition works :: "psk_kdf \<Rightarrow> string \<Rightarrow> nat \<Rightarrow> bool act \<Rightarrow> bool" where
  "works kdf boot now f \<longleftrightarrow> (\<forall>d. drafted kdf (d_netplan d) \<longrightarrow> (\<exists>d'. yields boot now f d True d'))"

lemma yields_succeeds: "yields boot now f d True d' \<Longrightarrow> yields boot now (succeeds f m) d () d'"
  unfolding yields_def succeeds_def by fastforce

lemma recovery_yields:
  assumes "disk_ok sha kdf d" "stored sha d = Some r" "rr_phase r = J_Pending" "boot_valid boot"
    "rr_boot r \<noteq> boot \<or> now \<ge> rr_deadline r" "\<And>b. checksum sha b \<noteq> None" "works kdf boot now reconfigure"
  shows "\<exists>d'. yields boot now (wifi_managed_recovery_tick sha kdf reconfigure) d Restored d'"
proof -
  let ?r' = "r\<lparr>rr_phase := J_Restored, rr_previous := []\<rparr>"
  have v: "record_valid r" using stored_fits [OF assms(2)] by (simp add: record_fits_def)
  have dr: "drafted kdf (d_netplan d)" "drafted kdf (saved r)"
    using assms(1,2,3) by (auto simp: disk_ok_def drafted_def confirmed_simps)
  obtain d2 where d2: "yields boot now reconfigure (d\<lparr>d_netplan := saved r\<rparr>) True d2"
    using assms(7) dr(2) unfolding works_def by fastforce
  have restore: "yields boot now (restore_managed kdf reconfigure r) d True d2"
    unfolding restore_managed_def files_open_def
    using v by (intro yields_andthen [OF yields_sys_ok] yields_andthen [OF yields_restore [OF dr]] d2)
      (simp add: record_valid_def)
  obtain c where c: "checksum sha (record_body ?r') = Some c" using assms(6) by blast
  have v': "record_valid ?r'" using v by (simp add: record_valid_def)
  have "yields boot now (restore_pending sha r (restore_managed kdf reconfigure)) d Restored
      (d2\<lparr>d_journal := Some (record_body ?r' @ c)\<rparr>)"
    unfolding restore_pending_def
    by (intro yields_andthen [OF yields_succeeds [OF restore]] yields_andthen [OF yields_save [OF v' c]] yields_ret)
  then have "yields boot now (recover_due sha boot now (restore_managed kdf reconfigure)) d Restored
      (d2\<lparr>d_journal := Some (record_body ?r' @ c)\<rparr>)"
    unfolding recover_due_def using assms(3,4,5)
    by (intro yields_andthen [OF yields_require] yields_andthen [OF yields_load [OF assms(2)]]) auto
  then show ?thesis
    unfolding wifi_managed_recovery_tick_def wifi_recovery_tick_def journal_open_def
    by (intro exI) (rule yields_andthen [OF yields_andthen [OF yields_sys_ok yields_sys_ok]],
      rule yields_andthen [OF yields_clock], simp)
qed

end
