(* ===== verification/WifiBackend.thy ===== *)
theory WifiBackend
  imports WifiChange NetplanFiles
begin

text \<open>
  The backend of a Wi-Fi change that survives crashes (server/src/wifi_managed_backend.cpp): it
  saves the recovery record before it touches the configuration, and commits or cancels through the
  journal. The class \<open>WifiManagedPlatform\<close> is a record of functions on the world. \<open>m_random\<close> is what
  \<open>RAND_bytes\<close> answers to the one preparation of a backend.
\<close>

record platform =
  ethernet_ready :: "world \<Rightarrow> bool \<times> world"
  preflight :: "wifi_profile \<Rightarrow> world \<Rightarrow> bool \<times> world"
  watchdog_ready :: "world \<Rightarrow> bool \<times> world"
  apply_target :: "wifi_profile \<Rightarrow> world \<Rightarrow> bool \<times> world"
  probe_target :: "wifi_profile \<Rightarrow> world \<Rightarrow> wifi_link \<times> world"
  restore_network :: "world \<Rightarrow> bool \<times> world"

record backend_env =
  be_sha :: sha
  be_kdf :: psk_kdf
  be_platform :: platform

record managed_backend =
  m_world :: world
  m_transaction :: string
  m_error :: string
  m_target :: "wifi_profile option"
  m_candidate :: "byte list"
  m_attempted :: bool
  m_prepared :: bool
  m_activated :: bool
  m_committed :: bool
  m_restored :: bool
  m_random :: "(nat \<Rightarrow> byte) option"

definition new_backend :: "(nat \<Rightarrow> byte) option \<Rightarrow> world \<Rightarrow> managed_backend" where
  "new_backend random w = \<lparr>m_world = w, m_transaction = [], m_error = [], m_target = None, m_candidate = [],
     m_attempted = False, m_prepared = False, m_activated = False, m_committed = False, m_restored = False,
     m_random = random\<rparr>"

definition m_fail :: "string \<Rightarrow> managed_backend \<Rightarrow> bool \<times> managed_backend" where
  "m_fail message m = (False, m\<lparr>m_error := message\<rparr>)"

definition forget_target :: "managed_backend \<Rightarrow> managed_backend" where
  "forget_target m = m\<lparr>m_target := None, m_candidate := []\<rparr>"

text \<open>An action on the files: a failure sets the error and makes the operation return false.\<close>

definition on_files ::
  "'a act \<Rightarrow> ('a \<Rightarrow> managed_backend \<Rightarrow> bool \<times> managed_backend) \<Rightarrow> managed_backend \<Rightarrow> bool \<times> managed_backend" where
  "on_files f k m = (case f (m_world m) of
       (Inl e, w) \<Rightarrow> m_fail e (m\<lparr>m_world := w\<rparr>)
     | (Inr v, w) \<Rightarrow> k v (m\<lparr>m_world := w\<rparr>))"

text \<open>The platform's checks of one condition, in their order, up to the first that fails.\<close>

fun all_of :: "(world \<Rightarrow> bool \<times> world) list \<Rightarrow> world \<Rightarrow> bool \<times> world" where
  "all_of [] w = (True, w)"
| "all_of (f # fs) w = (case f w of (False, w) \<Rightarrow> (False, w) | (True, w) \<Rightarrow> all_of fs w)"

definition checks ::
  "(world \<Rightarrow> bool \<times> world) list \<Rightarrow> string \<Rightarrow> (managed_backend \<Rightarrow> bool \<times> managed_backend) \<Rightarrow> managed_backend
     \<Rightarrow> bool \<times> managed_backend" where
  "checks fs message k m = (case all_of fs (m_world m) of
       (False, w) \<Rightarrow> m_fail message (m\<lparr>m_world := w\<rparr>)
     | (True, w) \<Rightarrow> k (m\<lparr>m_world := w\<rparr>))"

definition safety_checks :: "backend_env \<Rightarrow> wifi_profile \<Rightarrow> (world \<Rightarrow> bool \<times> world) list" where
  "safety_checks env target =
     [ethernet_ready (be_platform env), preflight (be_platform env) target, watchdog_ready (be_platform env)]"

definition m_current :: "recovery_record \<Rightarrow> managed_backend \<Rightarrow> bool \<times> managed_backend" where
  "m_current r m = on_files recovery_clock (\<lambda>(boot, now) m.
     (rr_phase r = J_Pending \<and> rr_transaction r = m_transaction m \<and> rr_boot r = boot \<and> now < rr_deadline r, m)) m"

text \<open>The candidate of a transaction inherits the DHCPv6 policy of the installed file.\<close>

definition inherit_dhcp6 :: "backend_env \<Rightarrow> byte list option \<Rightarrow> managed_backend \<Rightarrow> bool \<times> managed_backend" where
  "inherit_dhcp6 env previous m = (case (previous, m_target m) of
       (Some bytes, Some target) \<Rightarrow>
         (case read_wifi_config_draft (be_kdf env) (string_of bytes) of
            Inl e \<Rightarrow> m_fail e m
          | Inr installed \<Rightarrow>
              let target = target\<lparr>dhcp6 := dhcp6 installed\<rparr>; m = m\<lparr>m_target := Some target\<rparr> in
              (case make_wifi_config_draft target of
                 Inl e \<Rightarrow> m_fail e m
               | Inr inherited \<Rightarrow> (True, m\<lparr>m_candidate := netplan_yaml inherited\<rparr>)))
     | _ \<Rightarrow> (True, m))"

definition m_begin :: "backend_env \<Rightarrow> byte list option \<Rightarrow> nat \<Rightarrow> managed_backend \<Rightarrow> bool \<times> managed_backend" where
  "m_begin env previous lifetime m =
     on_files recovery_clock (\<lambda>(boot, now) m.
       (case m_random m of
          None \<Rightarrow> m_fail ''Cannot create Wi-Fi transaction identity'' m
        | Some rnd \<Rightarrow>
            let transaction = bytes_to_hex (map rnd [0..<16]);
                r = \<lparr>rr_phase = J_Pending, rr_exists = previous \<noteq> None, rr_transaction = transaction,
                     rr_boot = boot, rr_deadline = (now + lifetime * 1000) mod 2 ^ 64,
                     rr_previous = (case previous of None \<Rightarrow> [] | Some bytes \<Rightarrow> bytes)\<rparr>
            in on_files (journal_begin (be_sha env) r) (\<lambda>_.
                 checks [watchdog_ready (be_platform env)] ''Recovery supervisor or transaction is not ready'' (\<lambda>m.
                   (case m_current r m of
                      (False, m) \<Rightarrow> m_fail ''Recovery supervisor or transaction is not ready'' m
                    | (True, m) \<Rightarrow> (True, m\<lparr>m_prepared := True\<rparr>))))
               (m\<lparr>m_transaction := transaction\<rparr>))) m"

definition m_prepare :: "backend_env \<Rightarrow> wifi_profile \<Rightarrow> nat \<Rightarrow> managed_backend \<Rightarrow> bool \<times> managed_backend" where
  "m_prepare env profile lifetime m =
     (if m_attempted m then m_fail ''Wi-Fi backend is single use'' m
      else let m = m\<lparr>m_attempted := True\<rparr> in
        if lifetime = 0 \<or> lifetime > 90 then m_fail ''Invalid recovery lifetime'' m
        else (case make_wifi_config_draft profile of
            Inl e \<Rightarrow> m_fail e m
          | Inr draft \<Rightarrow>
              let m = m\<lparr>m_candidate := netplan_yaml draft\<rparr> in
              (case read_wifi_config_draft (be_kdf env) (string_of (m_candidate m)) of
                 Inl e \<Rightarrow> m_fail e m
               | Inr target \<Rightarrow>
                   checks (safety_checks env target) ''Wi-Fi preparation safety checks failed'' (
                   on_files journal_open (\<lambda>_.
                   on_files (journal_load (be_sha env)) (\<lambda>record m.
                     if (case record of None \<Rightarrow> False | Some r \<Rightarrow> rr_phase r = J_Pending)
                     then m_fail ''Another Wi-Fi transaction is pending'' m
                     else on_files files_open (\<lambda>_.
                          on_files (files_backup (be_kdf env) False) (\<lambda>previous m.
                            (case inherit_dhcp6 env previous m of
                               (False, m) \<Rightarrow> (False, m)
                             | (True, m) \<Rightarrow> m_begin env previous lifetime m))) m)))
                   (m\<lparr>m_target := Some target\<rparr>))))"

text \<open>The steps of an activation once the record was found and the checks passed.\<close>

definition m_install ::
  "backend_env \<Rightarrow> recovery_record \<Rightarrow> wifi_profile \<Rightarrow> managed_backend \<Rightarrow> bool \<times> managed_backend" where
  "m_install env r target =
     on_files files_open (\<lambda>_.
     on_files (files_backup (be_kdf env) False) (\<lambda>before m.
       if (before \<noteq> None) \<noteq> rr_exists r \<or> (case before of None \<Rightarrow> [] | Some b \<Rightarrow> b) \<noteq> rr_previous r
       then m_fail ''Wi-Fi configuration changed after backup'' m
       else (case m_current r m of
           (False, m) \<Rightarrow> (False, m)
         | (True, m) \<Rightarrow>
             on_files (files_replace (be_kdf env) False (m_candidate m)) (\<lambda>_.
             checks [apply_target (be_platform env) target] ''Wi-Fi target application failed'' (\<lambda>m.
               (case files_backup (be_kdf env) False (m_world m) of
                  (Inl _, w) \<Rightarrow> m_fail ''Wi-Fi activation did not preserve the pending candidate'' (m\<lparr>m_world := w\<rparr>)
                | (Inr after, w) \<Rightarrow>
                    let m = m\<lparr>m_world := w\<rparr> in
                    if after \<noteq> Some (m_candidate m)
                    then m_fail ''Wi-Fi activation did not preserve the pending candidate'' m
                    else (case m_current r m of
                        (False, m) \<Rightarrow> m_fail ''Wi-Fi activation did not preserve the pending candidate'' m
                      | (True, m) \<Rightarrow> (True, m\<lparr>m_activated := True\<rparr>))))) m)))"

definition m_activate :: "backend_env \<Rightarrow> managed_backend \<Rightarrow> bool \<times> managed_backend" where
  "m_activate env m = (case m_target m of
       None \<Rightarrow> m_fail ''Wi-Fi activation is not prepared'' m
     | Some target \<Rightarrow>
         if \<not> m_prepared m \<or> m_activated m \<or> m_committed m \<or> m_restored m
         then m_fail ''Wi-Fi activation is not prepared'' m
         else
           on_files journal_open (\<lambda>_.
           on_files (journal_load (be_sha env)) (\<lambda>record m.
             (case record of
                None \<Rightarrow> (False, m)
              | Some r \<Rightarrow> (case m_current r m of
                    (False, m) \<Rightarrow> (False, m)
                  | (True, m) \<Rightarrow>
                      checks (safety_checks env target) ''Wi-Fi activation safety checks failed''
                        (m_install env r target) m)))) m)"

definition m_probe :: "backend_env \<Rightarrow> managed_backend \<Rightarrow> wifi_link \<times> managed_backend" where
  "m_probe env m = (case m_target m of
       None \<Rightarrow> (Link_Failed, m)
     | Some target \<Rightarrow>
         if \<not> m_activated m \<or> m_committed m \<or> m_restored m then (Link_Failed, m)
         else (case watchdog_ready (be_platform env) (m_world m) of
             (False, w) \<Rightarrow> (Link_Failed, m\<lparr>m_world := w\<rparr>)
           | (True, w) \<Rightarrow> (case probe_target (be_platform env) target w of
                 (link, w) \<Rightarrow> (link, m\<lparr>m_world := w\<rparr>))))"

definition verify_live :: "backend_env \<Rightarrow> wifi_profile \<Rightarrow> bool act" where
  "verify_live env target w = (case all_of (safety_checks env target) w of
       (False, w) \<Rightarrow> (Inr False, w)
     | (True, w) \<Rightarrow> (case probe_target (be_platform env) target w of (link, w) \<Rightarrow> (Inr (link = Link_Ready), w)))"

definition m_commit :: "backend_env \<Rightarrow> managed_backend \<Rightarrow> bool \<times> managed_backend" where
  "m_commit env m = (case m_target m of
       None \<Rightarrow> m_fail ''Wi-Fi confirmation is not pending'' m
     | Some target \<Rightarrow>
         if \<not> m_activated m \<or> m_committed m \<or> m_restored m then m_fail ''Wi-Fi confirmation is not pending'' m
         else on_files (wifi_managed_commit (be_sha env) (be_kdf env) (m_transaction m) target (verify_live env target))
                (\<lambda>_ m. (True, forget_target (m\<lparr>m_committed := True\<rparr>))) m)"

definition m_reconfigure :: "backend_env \<Rightarrow> bool act" where
  "m_reconfigure env w = (case restore_network (be_platform env) w of (ok, w) \<Rightarrow> (Inr ok, w))"

definition m_rollback :: "backend_env \<Rightarrow> managed_backend \<Rightarrow> bool \<times> managed_backend" where
  "m_rollback env m =
     (if m_committed m then m_fail ''Committed Wi-Fi transaction cannot be rolled back'' m
      else if m_transaction m = [] \<or> m_restored m then (True, forget_target m)
      else on_files (wifi_managed_cancel (be_sha env) (be_kdf env) (m_transaction m) (m_reconfigure env)) (\<lambda>outcome m.
        if outcome \<noteq> Restored \<and> outcome \<noteq> Nothing then (False, m)
        else (True, forget_target (m\<lparr>m_restored := True\<rparr>))) m)"

definition m_ethernet :: "backend_env \<Rightarrow> managed_backend \<Rightarrow> bool \<times> managed_backend" where
  "m_ethernet env m = (case ethernet_ready (be_platform env) (m_world m) of (ok, w) \<Rightarrow> (ok, m\<lparr>m_world := w\<rparr>))"

text \<open>The class as an instance of the interface of a change.\<close>

definition managed_backend :: "backend_env \<Rightarrow> managed_backend wifi_backend" where
  "managed_backend env = \<lparr>ethernet_recovery_available = m_ethernet env, be_prepare = m_prepare env,
     be_activate = m_activate env, be_probe = m_probe env, be_commit = m_commit env, be_rollback = m_rollback env\<rparr>"

end
