(* ===== verification/WifiPlatform.thy ===== *)
theory WifiPlatform
  imports WifiBackend
begin

text \<open>
  The Linux platform of a Wi-Fi change: the process runner (server/src/wifi_process.cpp), the
  preflight of the Netplan configuration (wifi_netplan_preflight.cpp), the probe of the target
  (wifi_target_probe.cpp), the adapter itself (wifi_linux_platform.cpp) and the check that a request
  comes over the recovery connection (wifi_change_ipc.cpp).

  What the machine answers is in the record \<open>linux\<close>, indexed by the number of checks made so far:
  the interfaces, the outcome of a child process, the installed override of the service, the
  supplicant's status, the answer of the supervisor. The text of the override is made by the build,
  and \<open>inet_pton\<close> is the library's.
\<close>

section \<open>Child processes\<close>

datatype process_outcome = Process_success | Process_failed | Process_timed_out | Process_busy

fun arguments_fit :: "nat \<Rightarrow> string list \<Rightarrow> bool" where
  "arguments_fit used [] = True"
| "arguments_fit used (arg # args) \<longleftrightarrow>
     \<not> (CHR 0x00 \<in> set arg \<or> length arg > 4096 \<or> used + length arg > 4096) \<and> arguments_fit (used + length arg) args"

definition arguments_ok :: "string list \<Rightarrow> int \<Rightarrow> bool" where
  "arguments_ok arguments timeout \<longleftrightarrow>
     \<not> (arguments = [] \<or> length arguments > 16 \<or> hd arguments = [] \<or> hd (hd arguments) \<noteq> CHR ''/''
        \<or> timeout < 1 \<or> timeout > 30000) \<and> arguments_fit 0 arguments"

text \<open>
  The loop that waits for a child: before each attempt to reap it the clock is read. \<open>reap n\<close> is the
  exit code when the \<open>n\<close>-th attempt succeeded. The loop is left by the deadline, so that it ends
  is a property of the clock.
\<close>

partial_function (option) await_child ::
  "int \<Rightarrow> (nat \<Rightarrow> int) \<Rightarrow> (nat \<Rightarrow> int option) \<Rightarrow> nat \<Rightarrow> (process_outcome \<times> int) option" where
  "await_child deadline clock reap n =
     (if clock n \<ge> deadline then Some (Process_timed_out, -1)
      else case reap n of
          Some code \<Rightarrow> Some (if code = 0 then Process_success else Process_failed, code)
        | None \<Rightarrow> await_child deadline clock reap (n + 1))"

text \<open>
  \<open>run\<close>: \<open>busy\<close> is an earlier child that could not be reaped, \<open>signals\<close> the check of the SIGCHLD
  disposition, \<open>forked\<close> the success of \<open>fork\<close>.
\<close>

definition process_run ::
  "bool \<Rightarrow> bool \<Rightarrow> bool \<Rightarrow> (nat \<Rightarrow> int) \<Rightarrow> (nat \<Rightarrow> int option) \<Rightarrow> string list \<Rightarrow> int \<Rightarrow> (process_outcome \<times> int) option" where
  "process_run busy signals forked clock reap arguments timeout =
     (if busy then Some (Process_busy, -1)
      else if \<not> arguments_ok arguments timeout \<or> \<not> signals \<or> \<not> forked then Some (Process_failed, -1)
      else await_child (clock 0 + timeout) clock reap 1)"

lemma await_child_returns:
  assumes "clock (n + k) \<ge> deadline"
  shows "\<exists>out code. await_child deadline clock reap n = Some (out, code)
    \<and> (out = Process_success \<longrightarrow> code = 0 \<and> (\<exists>i. reap i = Some 0 \<and> clock i < deadline))"
  using assms
proof (induction k arbitrary: n)
  case 0
  then show ?case by (subst await_child.simps) simp
next
  case (Suc k)
  from Suc.IH [of "n + 1"] Suc.prems obtain out code where
    "await_child deadline clock reap (n + 1) = Some (out, code)"
    "out = Process_success \<longrightarrow> code = 0 \<and> (\<exists>i. reap i = Some 0 \<and> clock i < deadline)" by auto
  then show ?case by (subst await_child.simps) (auto split: option.split)
qed

section \<open>The adapter\<close>

record interface =
  if_name :: string
  if_ipv4 :: "nat option"
  if_mask :: "nat option"
  if_up :: bool
  if_running :: bool

record linux =
  lx_address :: string
  lx_inet_pton :: "string \<Rightarrow> nat option"
  lx_root :: bool
  lx_expected_override :: "byte list"
  lx_override :: "nat \<Rightarrow> byte list option"
  lx_interfaces :: "nat \<Rightarrow> interface list option"
  lx_run :: "nat \<Rightarrow> process_outcome"
  lx_watchdog :: "nat \<Rightarrow> bool"
  lx_status :: "nat \<Rightarrow> string option"
  lx_addresses :: "nat \<Rightarrow> string list option"
  lx_kdf :: psk_kdf

text \<open>An observation of the machine: the answer at the current index, which then moves on.\<close>

definition observe :: "(nat \<Rightarrow> 'a) \<Rightarrow> world \<Rightarrow> 'a \<times> world" where
  "observe f w = (f (w_checks w), w\<lparr>w_checks := w_checks w + 1\<rparr>)"

definition run_command :: "linux \<Rightarrow> string list \<Rightarrow> int \<Rightarrow> world \<Rightarrow> process_outcome \<times> world" where
  "run_command lx arguments timeout w =
     (if \<not> arguments_ok arguments timeout then (Process_failed, w) else observe (lx_run lx) w)"

datatype service_action = Service_restart | Service_stop

definition wifi_service_action :: "linux \<Rightarrow> service_action \<Rightarrow> world \<Rightarrow> bool \<times> world" where
  "wifi_service_action lx action w =
     (case run_command lx [''/usr/bin/systemctl'', if action = Service_restart then ''restart'' else ''stop'',
        ''netplan-wpa-wlan0.service''] 20000 w of (outcome, w) \<Rightarrow> (outcome = Process_success, w))"

text \<open>The override is read once; a file with other metadata or another size counts as absent.\<close>

definition policy_override_matches :: "linux \<Rightarrow> world \<Rightarrow> bool \<times> world" where
  "policy_override_matches lx w = (case observe (lx_override lx) w of (contents, w) \<Rightarrow>
     (contents = Some (lx_expected_override lx), w))"

definition installation_ready :: "linux \<Rightarrow> world \<Rightarrow> bool \<times> world" where
  "installation_ready lx w = (if lx_root lx then policy_override_matches lx w else (False, w))"

definition recovery_host_ok :: "nat \<Rightarrow> bool" where
  "recovery_host_ok host \<longleftrightarrow> \<not> (host div 2 ^ 24 = 0 \<or> host div 2 ^ 24 = 127 \<or> host div 2 ^ 24 \<ge> 224
     \<or> host div 2 ^ 16 = 0xa9fe)"

definition linux_ethernet_ready :: "linux \<Rightarrow> world \<Rightarrow> bool \<times> world" where
  "linux_ethernet_ready lx w =
     (if length (lx_address lx) > 15 \<or> CHR 0x00 \<in> set (lx_address lx) then (False, w)
      else (case lx_inet_pton lx (lx_address lx) of
          None \<Rightarrow> (False, w)
        | Some host \<Rightarrow>
            if \<not> recovery_host_ok host then (False, w)
            else (case observe (lx_interfaces lx) w of
                (None, w) \<Rightarrow> (False, w)
              | (Some ifs, w) \<Rightarrow>
                  (list_ex (\<lambda>i. if_ipv4 i = Some host \<and> if_name i = ''end1'' \<and> if_up i \<and> if_running i) ifs, w))))"

text \<open>The checker is a file that must be owned and writable by root only; its output is not kept.\<close>

definition wifi_netplan_preflight_at :: "linux \<Rightarrow> string \<Rightarrow> string \<Rightarrow> unit act" where
  "wifi_netplan_preflight_at lx script root =
     andthen (require (script \<noteq> [] \<and> hd script = CHR ''/'' \<and> CHR 0x00 \<notin> set script
         \<and> root \<noteq> [] \<and> hd root = CHR ''/'' \<and> CHR 0x00 \<notin> set root)
       ''Invalid trusted Netplan preflight paths'') (\<lambda>_.
     andthen (sys_ok ''Netplan preflight checker is unavailable'') (\<lambda>_.
     andthen (sys_ok ''Netplan preflight checker ownership or permissions are unsafe'') (\<lambda>_ w.
       (case run_command lx [''/usr/bin/python3'', ''-I'', ''-B'', script, ''--root-dir'', root] 5000 w of
          (outcome, w) \<Rightarrow> (case outcome of
              Process_success \<Rightarrow> Inr ()
            | Process_timed_out \<Rightarrow> Inl ''Netplan preflight timed out''
            | Process_busy \<Rightarrow> Inl ''Previous system check has not terminated''
            | Process_failed \<Rightarrow> Inl ''Netplan scope check failed; configuration was not approved for staging'', w)))))"

definition wifi_netplan_preflight :: "linux \<Rightarrow> unit act" where
  "wifi_netplan_preflight lx =
     andthen (require (lx_root lx) ''Installed Netplan preflight requires the privileged helper'') (\<lambda>_.
     wifi_netplan_preflight_at lx ''/opt/encoder/libexec/netplan_preflight.py'' ''/'')"

definition passes :: "unit act \<Rightarrow> world \<Rightarrow> bool \<times> world" where
  "passes f w = (case f w of (r, w) \<Rightarrow> (r = Inr (), w))"

definition linux_preflight :: "linux \<Rightarrow> wifi_profile \<Rightarrow> world \<Rightarrow> bool \<times> world" where
  "linux_preflight lx target =
     all_of [Pair (length (psk target) = 32), installation_ready lx, passes (wifi_netplan_preflight lx)]"

definition state_directory :: path where
  "state_directory = ''/var/lib/encoder-wifi-recovery''"

definition linux_watchdog_ready :: "linux \<Rightarrow> path \<Rightarrow> world \<Rightarrow> bool \<times> world" where
  "linux_watchdog_ready lx state w = (if state = state_directory then observe (lx_watchdog lx) w else (False, w))"

definition service_action :: "linux \<Rightarrow> service_action \<Rightarrow> world \<Rightarrow> bool \<times> world" where
  "service_action lx action = all_of [installation_ready lx, wifi_service_action lx action]"

definition linux_apply_target :: "linux \<Rightarrow> wifi_profile \<Rightarrow> world \<Rightarrow> bool \<times> world" where
  "linux_apply_target lx target w =
     (case files_open w of
        (Inl _, w) \<Rightarrow> (False, w)
      | (Inr _, w) \<Rightarrow> (case make_wifi_config_draft target of
            Inl _ \<Rightarrow> (False, w)
          | Inr expected \<Rightarrow> (case files_backup (lx_kdf lx) False w of
                (Inl _, w) \<Rightarrow> (False, w)
              | (Inr current, w) \<Rightarrow>
                  if current \<noteq> Some (netplan_yaml expected) then (False, w)
                  else service_action lx Service_restart w)))"

text \<open>The probe asks the supplicant itself, never the published snapshot.\<close>

definition probe_wifi_target :: "linux \<Rightarrow> wifi_profile \<Rightarrow> world \<Rightarrow> wifi_link \<times> world" where
  "probe_wifi_target lx target w =
     (if length (psk target) \<noteq> 32 \<or> ssid_hex target = [] then (Link_Failed, w)
      else (case observe (lx_status lx) w of
          (None, w) \<Rightarrow> (Link_Failed, w)
        | (Some status, w) \<Rightarrow> (case observe (lx_addresses lx) w of
              (None, w) \<Rightarrow> (Link_Failed, w)
            | (Some addresses, w) \<Rightarrow> (fst (assess_wifi_link target status addresses), w))))"

text \<open>The addresses that count as the interface's own; \<open>inet_ntop\<close> gives \<open>None\<close> when it fails.\<close>

definition read_wlan0_addresses :: "(nat \<Rightarrow> string option) \<Rightarrow> interface list option \<Rightarrow> string list option" where
  "read_wlan0_addresses inet_ntop interfaces = (case interfaces of
       None \<Rightarrow> None
     | Some ifs \<Rightarrow>
         those (map (\<lambda>i. inet_ntop (the (if_ipv4 i)))
           (filter (\<lambda>i. if_name i = ''wlan0'' \<and> if_ipv4 i \<noteq> None \<and> if_up i \<and> if_running i) ifs)))"

definition linux_restore_network :: "linux \<Rightarrow> world \<Rightarrow> bool \<times> world" where
  "linux_restore_network lx w =
     (case all_of [installation_ready lx, passes (wifi_netplan_preflight lx)] w of
        (False, w) \<Rightarrow> (False, w)
      | (True, w) \<Rightarrow> (case andthen files_open (\<lambda>_. files_backup (lx_kdf lx) False) w of
            (Inl _, w) \<Rightarrow> (False, w)
          | (Inr restored, w) \<Rightarrow>
              service_action lx (if restored \<noteq> None then Service_restart else Service_stop) w))"

definition linux_platform :: "linux \<Rightarrow> platform" where
  "linux_platform lx = \<lparr>ethernet_ready = linux_ethernet_ready lx, preflight = linux_preflight lx,
     watchdog_ready = linux_watchdog_ready lx state_directory, apply_target = linux_apply_target lx,
     probe_target = probe_wifi_target lx, restore_network = linux_restore_network lx\<rparr>"

section \<open>The recovery connection\<close>

text \<open>
  A change may be requested only over the Ethernet interface: the local address is the interface's
  and the remote one is another host of its subnet. \<open>None\<close> is a socket call that failed or an
  address that is not IPv4; addresses are compared under the mask bit by bit.
\<close>

unbundle bit_operations_syntax

definition wifi_change_recovery_connection ::
  "nat option \<Rightarrow> nat option \<Rightarrow> interface list option \<Rightarrow> bool" where
  "wifi_change_recovery_connection local_addr remote_addr interfaces =
     (case (local_addr, remote_addr, interfaces) of
        (Some l, Some r, Some ifs) \<Rightarrow>
          list_ex (\<lambda>i. if_name i = ''end1'' \<and> if_up i \<and> if_running i \<and>
            (case (if_ipv4 i, if_mask i) of
               (Some addr, Some net) \<Rightarrow> addr = l \<and> net \<noteq> 0 \<and> (r AND net) = (addr AND net) \<and> r \<noteq> addr
             | _ \<Rightarrow> False)) ifs
      | _ \<Rightarrow> False)"

section \<open>Properties\<close>

text \<open>A command run by the helper always returns once the clock passes its deadline; it is reported
  successful only when its arguments are admitted, no other child is left and the child was reaped with
  code 0 before the deadline.\<close>

theorem process_run_returns:
  assumes "clock 0 + timeout \<le> clock (Suc k)"
  shows "\<exists>out code. process_run busy signals forked clock reap arguments timeout = Some (out, code)
    \<and> (out = Process_success \<longrightarrow> code = 0 \<and> \<not> busy \<and> arguments_ok arguments timeout
        \<and> (\<exists>n. reap n = Some 0 \<and> clock n < clock 0 + timeout))"
proof (cases "busy \<or> \<not> arguments_ok arguments timeout \<or> \<not> signals \<or> \<not> forked")
  case False
  then show ?thesis using await_child_returns [of "clock 0 + timeout" clock 1 k reap] assms
    by (auto simp: process_run_def)
qed (auto simp: process_run_def)

theorem process_run_returns_witness:
  "process_run False True True (\<lambda>n. int n) (\<lambda>n. None) [''/bin/true''] 3 = Some (Process_timed_out, -1)"
proof -
  obtain out code where r: "process_run False True True (\<lambda>n. int n) (\<lambda>n. None) [''/bin/true''] 3 = Some (out, code)"
    using process_run_returns [of "\<lambda>n. int n" 3 2] by fastforce
  have "arguments_ok [''/bin/true''] 3" by code_simp
  with r show ?thesis
    by (simp add: process_run_def await_child.simps)
qed

end
