(* ===== verification/WifiCrash.thy ===== *)
theory WifiCrash
  imports WifiPlatform
begin

text \<open>
  What a crash can do to a Wi-Fi change: whatever the backend, the recovery worker and the machine
  do, and wherever they are cut off, the confirmed configuration is kept, and the recovery brings it
  back. The contract of the platform is the locale \<open>quiet_platform\<close>: its operations leave the
  journal and the managed configuration alone. The Linux adapter is an instance.
\<close>

section \<open>The contract of a platform\<close>

locale quiet_platform =
  fixes P :: platform
  assumes ethernet_quiet: "does (ethernet_ready P) same_files"
    and preflight_quiet: "does (preflight P p) same_files"
    and watchdog_quiet: "does (watchdog_ready P) same_files"
    and apply_quiet: "does (apply_target P p) same_files"
    and probe_quiet: "does (probe_target P p) same_files"
    and restore_quiet: "does (restore_network P) same_files"

definition same_disk :: "disk \<Rightarrow> disk list \<Rightarrow> 'r \<Rightarrow> bool" where
  "same_disk d ds r \<longleftrightarrow> ds = []"

lemma same_disk_files: "same_disk d ds r \<Longrightarrow> same_files d ds r"
  by (simp add: same_disk_def same_files_def)

lemma does_pair [intro]: "does (Pair b) same_disk"
  by (simp add: does_def same_disk_def)

lemma does_observe [intro]: "does (observe f) same_disk"
  by (simp add: does_def same_disk_def observe_def)

lemma does_case:
  assumes "does f same_disk" "\<And>r. does (g r) same_disk"
  shows "does (\<lambda>w. case f w of (r, w) \<Rightarrow> g r w) same_disk"
  unfolding does_def same_disk_def
proof
  fix w
  show "\<exists>ds. w_history (snd (case f w of (r, w) \<Rightarrow> g r w)) = w_history w @ ds
    \<and> w_disk (snd (case f w of (r, w) \<Rightarrow> g r w)) = last (w_disk w # ds) \<and> ds = []"
    using assms [unfolded does_def same_disk_def] by (cases "f w") (metis append_Nil2 fst_conv last.simps prod.case snd_conv)
qed

lemma does_all_of:
  assumes "\<forall>f \<in> set fs. does f same_disk"
  shows "does (all_of fs) same_disk"
  using assms
proof (induction fs)
  case Nil
  then show ?case by (simp add: does_def same_disk_def)
next
  case (Cons f fs)
  have "all_of (f # fs) = (\<lambda>w. case f w of (r, w) \<Rightarrow> (if r then all_of fs else Pair False) w)"
    by (rule ext) (auto split: prod.split bool.split)
  with Cons show ?case by (auto intro!: does_case)
qed

lemma does_reads_disk: "does f (reads R) \<Longrightarrow> does f same_disk"
  by (erule does_mono) (simp add: reads_def same_disk_def)

lemma run_command_quiet: "does (run_command lx a t) same_disk"
  by (cases "arguments_ok a t") (simp_all add: run_command_def [abs_def] does_observe does_pair)

lemma installation_quiet: "does (installation_ready lx) same_disk"
proof -
  have "does (policy_override_matches lx) same_disk"
    unfolding policy_override_matches_def by (intro does_case) auto
  then show ?thesis by (cases "lx_root lx") (simp_all add: installation_ready_def [abs_def] does_pair)
qed

lemma service_quiet: "does (service_action lx a) same_disk"
proof -
  have "does (wifi_service_action lx a) same_disk"
    unfolding wifi_service_action_def by (intro does_case run_command_quiet) auto
  then show ?thesis unfolding service_action_def by (intro does_all_of) (simp add: installation_quiet)
qed

lemma does_cond [intro]: "does f same_disk \<Longrightarrow> does g same_disk \<Longrightarrow> does (\<lambda>w. if b then f w else g w) same_disk"
  by (cases b) simp_all

lemma does_andthen_quiet:
  assumes "does f same_disk" "\<And>v. does (g v) same_disk"
  shows "does (andthen f g) same_disk"
  using assms(1) by (rule does_andthen) (auto simp: same_disk_def intro: does_mono [OF assms(2)])

lemma quiet_actions [intro]:
  "does (sys_ok m) same_disk" "does (require b m) same_disk" "does files_open same_disk" "does (files_backup kdf k) same_disk"
  using does_reads_disk [OF does_sys_ok] does_reads_disk [OF does_require] does_reads_disk [OF backup_does]
  by (simp_all add: files_open_def)

lemma preflight_act_quiet: "does (wifi_netplan_preflight lx) same_disk"
proof -
  have "does (\<lambda>w. case run_command lx a t w of (outcome, w) \<Rightarrow> (f outcome, w)) same_disk" for a t and f :: "process_outcome \<Rightarrow> string + unit"
    by (intro does_case run_command_quiet) (auto intro: does_pair)
  then show ?thesis
    unfolding wifi_netplan_preflight_def wifi_netplan_preflight_at_def
    by (intro does_andthen_quiet) auto
qed

lemma passes_quiet: "does f same_disk \<Longrightarrow> does (passes f) same_disk"
  unfolding passes_def by (intro does_case) auto

lemma quiet_iff: "does f same_disk \<longleftrightarrow> (\<forall>w. w_disk (snd (f w)) = w_disk w \<and> w_history (snd (f w)) = w_history w)"
  by (auto simp: does_def same_disk_def)

lemma quietD: "does f same_disk \<Longrightarrow> f w = (r, w') \<Longrightarrow> w_disk w' = w_disk w \<and> w_history w' = w_history w"
  unfolding quiet_iff by (metis snd_conv)

lemma ethernet_disk: "does (linux_ethernet_ready lx) same_disk"
  by (simp add: quiet_iff linux_ethernet_ready_def observe_def split: option.split)

lemma watchdog_disk: "does (linux_watchdog_ready lx s) same_disk"
  by (simp add: quiet_iff linux_watchdog_ready_def observe_def)

lemma probe_disk: "does (probe_wifi_target lx p) same_disk"
  by (simp add: quiet_iff probe_wifi_target_def observe_def split: option.split)

lemma preflight_disk: "does (linux_preflight lx p) same_disk"
  unfolding linux_preflight_def
  by (intro does_all_of) (simp add: does_pair installation_quiet passes_quiet preflight_act_quiet)

lemma apply_disk: "does (linux_apply_target lx p) same_disk"
  unfolding quiet_iff
proof
  fix w
  obtain r1 w1 where 1: "files_open w = (r1, w1)" by (cases "files_open w")
  obtain r2 w2 where 2: "files_backup (lx_kdf lx) False w1 = (r2, w2)" by (cases "files_backup (lx_kdf lx) False w1")
  obtain b w3 where 3: "service_action lx Service_restart w2 = (b, w3)" by (cases "service_action lx Service_restart w2")
  show "w_disk (snd (linux_apply_target lx p w)) = w_disk w \<and> w_history (snd (linux_apply_target lx p w)) = w_history w"
    using quietD [OF quiet_actions(3) 1] quietD [OF quiet_actions(4) 2] quietD [OF service_quiet 3]
    by (simp add: linux_apply_target_def 1 2 3 split: sum.split)
qed

lemma restore_disk: "does (linux_restore_network lx) same_disk"
  unfolding quiet_iff
proof
  fix w
  let ?checks = "all_of [installation_ready lx, passes (wifi_netplan_preflight lx)]"
  let ?read = "andthen files_open (\<lambda>_. files_backup (lx_kdf lx) False)"
  have a: "does ?checks same_disk"
    by (intro does_all_of) (simp add: installation_quiet passes_quiet preflight_act_quiet)
  have b: "does ?read same_disk" by (intro does_andthen_quiet) auto
  obtain r1 w1 where 1: "?checks w = (r1, w1)" by (cases "?checks w")
  obtain r2 w2 where 2: "?read w1 = (r2, w2)" by (cases "?read w1")
  have "w_disk w2 = w_disk w \<and> w_history w2 = w_history w" "w_disk w1 = w_disk w \<and> w_history w1 = w_history w"
    using quietD [OF a 1] quietD [OF b 2] by simp_all
  moreover have "w_disk (snd (service_action lx x w2)) = w_disk w2 \<and> w_history (snd (service_action lx x w2)) = w_history w2" for x
    using service_quiet quiet_iff by blast
  ultimately show "w_disk (snd (linux_restore_network lx w)) = w_disk w \<and> w_history (snd (linux_restore_network lx w)) = w_history w"
    by (cases r1; cases r2) (simp_all only: linux_restore_network_def 1 2 prod.case sum.case bool.case snd_conv)
qed

interpretation linux: quiet_platform "linux_platform lx" for lx
  by unfold_locales
    (simp_all add: linux_platform_def does_mono [OF ethernet_disk same_disk_files] does_mono [OF watchdog_disk same_disk_files]
      does_mono [OF probe_disk same_disk_files] does_mono [OF preflight_disk same_disk_files]
      does_mono [OF apply_disk same_disk_files] does_mono [OF restore_disk same_disk_files])

section \<open>The operations of the backend\<close>

text \<open>From the world \<open>w\<close> to \<open>w'\<close>, every state of the disk kept the confirmed configuration.\<close>

definition safe_to :: "sha \<Rightarrow> psk_kdf \<Rightarrow> world \<Rightarrow> world \<Rightarrow> bool" where
  "safe_to sha kdf w w' \<longleftrightarrow> (\<exists>ds. w_history w' = w_history w @ ds \<and> w_disk w' = last (w_disk w # ds)
     \<and> (disk_ok sha kdf (w_disk w) \<longrightarrow> keeps_confirmed sha kdf (w_disk w) ds))"

lemma safe_refl [simp]: "safe_to sha kdf w w"
  by (simp add: safe_to_def)

lemma safe_trans [trans]:
  assumes "safe_to sha kdf w w1" "safe_to sha kdf w1 w2" shows "safe_to sha kdf w w2"
proof -
  from assms(1) obtain a where a: "w_history w1 = w_history w @ a" "w_disk w1 = last (w_disk w # a)"
    "disk_ok sha kdf (w_disk w) \<longrightarrow> keeps_confirmed sha kdf (w_disk w) a" unfolding safe_to_def by blast
  from assms(2) obtain b where b: "w_history w2 = w_history w1 @ b" "w_disk w2 = last (w_disk w1 # b)"
    "disk_ok sha kdf (w_disk w1) \<longrightarrow> keeps_confirmed sha kdf (w_disk w1) b" unfolding safe_to_def by blast
  show ?thesis unfolding safe_to_def
  proof (intro exI conjI impI)
    show "w_history w2 = w_history w @ a @ b" "w_disk w2 = last (w_disk w # a @ b)" using a b by auto
    assume ok: "disk_ok sha kdf (w_disk w)"
    with a have k: "keeps_confirmed sha kdf (w_disk w) a" by simp
    have "disk_ok sha kdf (w_disk w1)" using keeps_last [OF k ok] a(2) by simp
    with b k ok a(2) show "keeps_confirmed sha kdf (w_disk w) (a @ b)" by (intro keeps_trans) auto
  qed
qed

lemma safe_does:
  assumes "does f \<Phi>" "f w = (r, w')"
    "\<And>ds. \<Phi> (w_disk w) ds r \<Longrightarrow> disk_ok sha kdf (w_disk w) \<Longrightarrow> keeps_confirmed sha kdf (w_disk w) ds"
  shows "safe_to sha kdf w w'"
proof -
  from assms(1) obtain ds where "w_history (snd (f w)) = w_history w @ ds" "w_disk (snd (f w)) = last (w_disk w # ds)"
    "\<Phi> (w_disk w) ds (fst (f w))" unfolding does_def by blast
  with assms(2,3) show ?thesis unfolding safe_to_def by (intro exI [of _ ds]) simp
qed

lemma reads_result:
  assumes "does f (reads R)" "f w = (r, w')"
  shows "safe_to sha kdf w w' \<and> w_disk w' = w_disk w \<and> R (w_disk w) r"
proof -
  from assms(1) have "w_history (snd (f w)) = w_history w" "w_disk (snd (f w)) = w_disk w" "R (w_disk w) (fst (f w))"
    unfolding does_def reads_def by auto
  with assms(2) show ?thesis by (simp add: safe_to_def)
qed

text \<open>What a platform operation leaves: the two files.\<close>

definition files_same :: "world \<Rightarrow> world \<Rightarrow> bool" where
  "files_same w w' \<longleftrightarrow> d_journal (w_disk w') = d_journal (w_disk w) \<and> d_netplan (w_disk w') = d_netplan (w_disk w)"

lemma quiet_result:
  assumes "does f same_files" "f w = (r, w')"
  shows "safe_to sha kdf w w' \<and> files_same w w'"
proof -
  from assms(1) obtain ds where "w_disk (snd (f w)) = last (w_disk w # ds)" "same_files (w_disk w) ds (fst (f w))"
    unfolding does_def by blast
  then have "files_same w w'" using same_files_last [of "w_disk w" ds "fst (f w)"] assms(2) by (simp add: files_same_def)
  moreover have "safe_to sha kdf w w'" using same_files_keeps by (rule safe_does [OF assms])
  ultimately show ?thesis by simp
qed

lemma all_of_result:
  assumes "\<forall>f \<in> set fs. does f same_files" "all_of fs w = (r, w')"
  shows "safe_to sha kdf w w' \<and> files_same w w'"
  using assms
proof (induction fs arbitrary: w)
  case (Cons f fs)
  obtain b w1 where f: "f w = (b, w1)" by (cases "f w")
  have "does f same_files" using Cons.prems(1) by simp
  from quiet_result [OF this f] have 1: "safe_to sha kdf w w1 \<and> files_same w w1" .
  show ?case
  proof (cases b)
    case True
    with Cons f have "safe_to sha kdf w1 w' \<and> files_same w1 w'" by simp
    with 1 show ?thesis using safe_trans by (auto simp: files_same_def)
  qed (use 1 f Cons.prems(2) in simp)
qed (simp add: files_same_def)

lemma on_filesI:
  assumes "\<And>v w. f (m_world m) = (Inr v, w) \<Longrightarrow> Q (k v (m\<lparr>m_world := w\<rparr>))"
    "\<And>e w. f (m_world m) = (Inl e, w) \<Longrightarrow> Q (False, m\<lparr>m_world := w, m_error := e\<rparr>)"
  shows "Q (on_files f k m)"
  using assms by (cases "f (m_world m)"; cases "fst (f (m_world m))") (auto simp: on_files_def m_fail_def)

lemma checksI:
  assumes "\<And>w. all_of fs (m_world m) = (True, w) \<Longrightarrow> Q (k (m\<lparr>m_world := w\<rparr>))"
    "\<And>w. all_of fs (m_world m) = (False, w) \<Longrightarrow> Q (False, m\<lparr>m_world := w, m_error := msg\<rparr>)"
  shows "Q (checks fs msg k m)"
  using assms by (cases "all_of fs (m_world m)"; cases "fst (all_of fs (m_world m))") (auto simp: checks_def m_fail_def)

definition safe_op :: "backend_env \<Rightarrow> world \<Rightarrow> 'r \<times> managed_backend \<Rightarrow> bool" where
  "safe_op env w out \<longleftrightarrow> safe_to (be_sha env) (be_kdf env) w (m_world (snd out))"

lemma current_result:
  assumes "m_current r m = (b, m')"
  shows "safe_to sha kdf (m_world m) (m_world m') \<and> w_disk (m_world m') = w_disk (m_world m) \<and> (b \<longrightarrow> rr_phase r = J_Pending)
    \<and> m_candidate m' = m_candidate m \<and> m_target m' = m_target m"
proof -
  have q: "recovery_clock (m_world m) = (x, w) \<Longrightarrow> safe_to sha kdf (m_world m) w \<and> w_disk w = w_disk (m_world m)" for x w
    using reads_result [OF does_clock] by blast
  from assms show ?thesis
    by (auto simp: m_current_def on_files_def m_fail_def dest!: q split: prod.splits sum.splits)
qed

text \<open>Rules for the steps of an operation that began in the world \<open>w\<close>.\<close>

lemma step_reads:
  assumes "does f (reads R)" "safe_to (be_sha env) (be_kdf env) w (m_world m)"
    "\<And>v w1. safe_to (be_sha env) (be_kdf env) w w1 \<Longrightarrow> w_disk w1 = w_disk (m_world m) \<Longrightarrow> R (w_disk w1) (Inr v)
       \<Longrightarrow> safe_op env w (k v (m\<lparr>m_world := w1\<rparr>))"
  shows "safe_op env w (on_files f k m)"
proof (rule on_filesI)
  fix v w1 assume "f (m_world m) = (Inr v, w1)"
  from reads_result [OF assms(1) this] assms(2,3) safe_trans show "safe_op env w (k v (m\<lparr>m_world := w1\<rparr>))" by metis
next
  fix e w1 assume "f (m_world m) = (Inl e, w1)"
  from reads_result [OF assms(1) this] assms(2) safe_trans show "safe_op env w (False, m\<lparr>m_world := w1, m_error := e\<rparr>)"
    by (auto simp: safe_op_def)
qed

lemma step_writes:
  assumes "does f \<Phi>" "safe_to (be_sha env) (be_kdf env) w (m_world m)"
    "\<And>ds r. \<Phi> (w_disk (m_world m)) ds r \<Longrightarrow> disk_ok (be_sha env) (be_kdf env) (w_disk (m_world m))
      \<Longrightarrow> keeps_confirmed (be_sha env) (be_kdf env) (w_disk (m_world m)) ds"
    "\<And>v w1. safe_to (be_sha env) (be_kdf env) w w1 \<Longrightarrow> safe_op env w (k v (m\<lparr>m_world := w1\<rparr>))"
  shows "safe_op env w (on_files f k m)"
proof (rule on_filesI)
  fix v w1 assume "f (m_world m) = (Inr v, w1)"
  from safe_does [OF assms(1) this assms(3)] assms(2,4) safe_trans show "safe_op env w (k v (m\<lparr>m_world := w1\<rparr>))" by metis
next
  fix e w1 assume "f (m_world m) = (Inl e, w1)"
  from safe_does [OF assms(1) this assms(3)] assms(2) safe_trans
  show "safe_op env w (False, m\<lparr>m_world := w1, m_error := e\<rparr>)" by (simp add: safe_op_def)
qed

lemma step_checks:
  assumes "\<forall>f \<in> set fs. does f same_files" "safe_to (be_sha env) (be_kdf env) w (m_world m)"
    "\<And>w1. safe_to (be_sha env) (be_kdf env) w w1 \<Longrightarrow> files_same (m_world m) w1 \<Longrightarrow> safe_op env w (k (m\<lparr>m_world := w1\<rparr>))"
  shows "safe_op env w (checks fs msg k m)"
proof (rule checksI)
  fix w1 assume "all_of fs (m_world m) = (True, w1)"
  from all_of_result [OF assms(1) this] assms(2,3) safe_trans show "safe_op env w (k (m\<lparr>m_world := w1\<rparr>))" by metis
next
  fix w1 assume "all_of fs (m_world m) = (False, w1)"
  from all_of_result [OF assms(1) this] assms(2) safe_trans
  show "safe_op env w (False, m\<lparr>m_world := w1, m_error := msg\<rparr>)" by (simp add: safe_op_def)
qed

lemma step_current:
  assumes "safe_to (be_sha env) (be_kdf env) w (m_world m)"
    "\<And>m'. safe_to (be_sha env) (be_kdf env) w (m_world m') \<Longrightarrow> safe_op env w (A m')"
    "\<And>m'. safe_to (be_sha env) (be_kdf env) w (m_world m') \<Longrightarrow> w_disk (m_world m') = w_disk (m_world m)
      \<Longrightarrow> rr_phase r = J_Pending \<Longrightarrow> safe_op env w (B m')"
  shows "safe_op env w (case m_current r m of (False, m) \<Rightarrow> A m | (True, m) \<Rightarrow> B m)"
proof (cases "m_current r m")
  case (Pair b m')
  note c = current_result [OF Pair, of "be_sha env" "be_kdf env"]
  then have s: "safe_to (be_sha env) (be_kdf env) w (m_world m')" using assms(1) safe_trans by blast
  show ?thesis using Pair c assms(2) [OF s] assms(3) [OF s] by (cases b) simp_all
qed

lemma safe_now [simp]: "safe_op env w (b, m) \<longleftrightarrow> safe_to (be_sha env) (be_kdf env) w (m_world m)"
  by (simp add: safe_op_def)

lemma safe_fail [simp]: "safe_op env w (m_fail e m) \<longleftrightarrow> safe_to (be_sha env) (be_kdf env) w (m_world m)"
  by (simp add: safe_op_def m_fail_def)

lemma inherit_world: "inherit_dhcp6 env previous m = (b, m') \<Longrightarrow> m_world m' = m_world m"
  by (auto simp: inherit_dhcp6_def m_fail_def Let_def split: option.splits sum.splits)

lemma doesD:
  assumes "does f \<Phi>" "f w = (r, w')"
  obtains ds where "w_history w' = w_history w @ ds" "w_disk w' = last (w_disk w # ds)" "\<Phi> (w_disk w) ds r"
  using assms unfolding does_def by (metis fst_conv snd_conv)

lemma does_all_of_files:
  assumes "\<forall>f \<in> set fs. does f same_files"
  shows "does (all_of fs) same_files"
  using assms
proof (induction fs)
  case Nil
  then show ?case by (simp add: does_def same_files_def exI [of _ "[]"])
next
  case (Cons f fs)
  show ?case unfolding does_def
  proof
    fix w
    obtain b w1 where 1: "f w = (b, w1)" by (cases "f w")
    obtain c w2 where 2: "all_of fs w1 = (c, w2)" by (cases "all_of fs w1")
    from Cons have q: "does f same_files" "does (all_of fs) same_files" by simp_all
    from doesD [OF q(1) 1] obtain d1 where d1: "w_history w1 = w_history w @ d1" "w_disk w1 = last (w_disk w # d1)"
      "same_files (w_disk w) d1 b" by blast
    from doesD [OF q(2) 2] obtain d2 where d2: "w_history w2 = w_history w1 @ d2" "w_disk w2 = last (w_disk w1 # d2)"
      "same_files (w_disk w1) d2 c" by blast
    have t: "same_files (w_disk w) (d1 @ d2) x" for x :: bool
      using d1(3) d2(3) same_files_last [OF d1(3)] d1(2) by (auto simp: same_files_def)
    show "\<exists>ds. w_history (snd (all_of (f # fs) w)) = w_history w @ ds
      \<and> w_disk (snd (all_of (f # fs) w)) = last (w_disk w # ds) \<and> same_files (w_disk w) ds (fst (all_of (f # fs) w))"
      using d1 d2 t 1 2
      by (cases b; intro exI [of _ "if b then d1 @ d2 else d1"]) (auto simp: same_files_def)
  qed
qed

context quiet_platform
begin

lemma begin_safe:
  assumes P: "be_platform env = P" and w: "safe_to (be_sha env) (be_kdf env) w (m_world m)"
    and prev: "previous = d_netplan (w_disk (m_world m))"
  shows "safe_op env w (m_begin env previous lifetime m)"
  unfolding m_begin_def
proof (rule step_reads [OF does_clock w], clarify)
  fix boot and now :: nat and w1
  assume w1: "safe_to (be_sha env) (be_kdf env) w w1" "w_disk w1 = w_disk (m_world m)"
  let ?r = "\<lambda>t. \<lparr>rr_phase = J_Pending, rr_exists = previous \<noteq> None, rr_transaction = t, rr_boot = boot,
      rr_deadline = (now + lifetime * 1000) mod 2 ^ 64, rr_previous = (case previous of None \<Rightarrow> [] | Some bytes \<Rightarrow> bytes)\<rparr>"
  have saved: "saved (?r t) = previous" for t by (simp add: saved_def split: option.split)
  have "safe_op env w (on_files (journal_begin (be_sha env) (?r t)) (\<lambda>_.
      checks [watchdog_ready (be_platform env)] msg (\<lambda>m. (case m_current (?r t) m of
          (False, m) \<Rightarrow> m_fail msg m | (True, m) \<Rightarrow> (True, m\<lparr>m_prepared := True\<rparr>))))
      (m\<lparr>m_world := w1, m_transaction := t\<rparr>))" for t msg
    using w1 prev saved [of t] P watchdog_quiet
    by (intro step_writes [OF journal_begin_does [where kdf = "be_kdf env"]] step_checks step_current) auto
  then show "safe_op env w (case m_random (m\<lparr>m_world := w1\<rparr>) of
       None \<Rightarrow> m_fail ''Cannot create Wi-Fi transaction identity'' (m\<lparr>m_world := w1\<rparr>)
     | Some rnd \<Rightarrow> let transaction = bytes_to_hex (map rnd [0..<16]); r = ?r transaction
         in on_files (journal_begin (be_sha env) r) (\<lambda>_.
              checks [watchdog_ready (be_platform env)] ''Recovery supervisor or transaction is not ready'' (\<lambda>m.
                (case m_current r m of
                   (False, m) \<Rightarrow> m_fail ''Recovery supervisor or transaction is not ready'' m
                 | (True, m) \<Rightarrow> (True, m\<lparr>m_prepared := True\<rparr>))))
            (m\<lparr>m_world := w1, m_transaction := transaction\<rparr>))"
    using w1 by (simp add: Let_def split: option.split)
qed

lemma safety_quiet: "be_platform env = P \<Longrightarrow> \<forall>f \<in> set (safety_checks env target). does f same_files"
  by (simp add: safety_checks_def ethernet_quiet preflight_quiet watchdog_quiet)

lemma does_journal_open: "does journal_open (reads (\<lambda>d r. True))"
  unfolding journal_open_def by (rule does_check) (auto intro: does_mono [OF does_sys_ok] simp: reads_def)

lemma prepare_safe:
  assumes P: "be_platform env = P"
  shows "safe_op env (m_world m) (m_prepare env profile lifetime m)"
proof -
  have inherit: "safe_op env (m_world m) (case inherit_dhcp6 env previous m' of
         (False, m) \<Rightarrow> (False, m) | (True, m) \<Rightarrow> m_begin env previous lifetime m)"
    if "safe_to (be_sha env) (be_kdf env) (m_world m) (m_world m')" "previous = d_netplan (w_disk (m_world m'))"
    for previous m'
  proof (cases "inherit_dhcp6 env previous m'")
    case (Pair b m2)
    then show ?thesis using inherit_world [OF Pair] that begin_safe [OF P, of "m_world m" m2 previous lifetime]
      by (cases b) simp_all
  qed
  have body: "safe_op env (m_world m) (checks (safety_checks env target) msg (
       on_files journal_open (\<lambda>_.
       on_files (journal_load (be_sha env)) (\<lambda>found m.
         if (case found of None \<Rightarrow> False | Some r \<Rightarrow> rr_phase r = J_Pending) then m_fail msg' m
         else on_files files_open (\<lambda>_.
              on_files (files_backup (be_kdf env) False) (\<lambda>previous m.
                (case inherit_dhcp6 env previous m of (False, m) \<Rightarrow> (False, m)
                 | (True, m) \<Rightarrow> m_begin env previous lifetime m))) m))) m')"
    if "m_world m' = m_world m" for target m' msg msg'
    apply (rule step_checks [OF safety_quiet [OF P]], simp add: that)
    apply (rule step_reads [OF does_journal_open], simp)
    apply (rule step_reads [OF load_does], simp)
    apply (simp only: safe_fail split: if_split, intro conjI impI, simp)
    apply (unfold files_open_def, rule step_reads [OF does_sys_ok], simp)
    apply (rule step_reads [OF backup_does], simp, rule inherit)
     apply (simp_all add: managed_def)
    done
  show ?thesis
    unfolding m_prepare_def Let_def
    by (auto simp: body split: sum.split)
qed

text \<open>The activation: the file is replaced only while the record of the change is pending.\<close>

lemma replace_safe:
  assumes "safe_to (be_sha env) (be_kdf env) w (m_world m)"
    "stored (be_sha env) (w_disk (m_world m)) = Some r" "rr_phase r = J_Pending"
    "\<And>w1. safe_to (be_sha env) (be_kdf env) w w1 \<Longrightarrow> safe_op env w (k () (m\<lparr>m_world := w1\<rparr>))"
  shows "safe_op env w (on_files (files_replace (be_kdf env) False c) k m)"
proof (rule step_writes [OF replace_does assms(1)])
  fix ds and res :: "string + unit"
  let ?d = "w_disk (m_world m)"
  assume "ds = [] \<and> isl res \<or> ds = [put_managed False (Some c) ?d] \<and> is_draft (be_kdf env) False c"
    and ok: "disk_ok (be_sha env) (be_kdf env) ?d"
  then show "keeps_confirmed (be_sha env) (be_kdf env) ?d ds"
    using pending_netplan [OF ok, of "Some c" "?d\<lparr>d_netplan := Some c\<rparr>"] assms(2,3)
    by (auto simp: put_managed_def keeps_confirmed_def confirmed_simps)
qed (use assms(4) in auto)

lemma finish_safe:
  assumes P: "be_platform env = P" and w: "safe_to (be_sha env) (be_kdf env) w (m_world m)"
  shows "safe_op env w (checks [apply_target (be_platform env) target] msg (\<lambda>m.
       (case files_backup (be_kdf env) False (m_world m) of
          (Inl _, w) \<Rightarrow> m_fail msg' (m\<lparr>m_world := w\<rparr>)
        | (Inr after, w) \<Rightarrow>
            let m = m\<lparr>m_world := w\<rparr> in
            if after \<noteq> Some (m_candidate m) then m_fail msg' m
            else (case m_current r m of
                (False, m) \<Rightarrow> m_fail msg' m
              | (True, m) \<Rightarrow> (True, m\<lparr>m_activated := True\<rparr>)))) m)"
proof (rule step_checks [OF _ w])
  fix w1 assume w1: "safe_to (be_sha env) (be_kdf env) w w1"
  obtain x w2 where b: "files_backup (be_kdf env) False w1 = (x, w2)" by (cases "files_backup (be_kdf env) False w1")
  have w2: "safe_to (be_sha env) (be_kdf env) w w2" using reads_result [OF backup_does b] w1 safe_trans by blast
  have "safe_op env w (case m_current r (m\<lparr>m_world := w2\<rparr>) of (False, m) \<Rightarrow> m_fail msg' m
      | (True, m) \<Rightarrow> (True, m\<lparr>m_activated := True\<rparr>))" using w2 by (intro step_current) auto
  with w2 b show "safe_op env w (case files_backup (be_kdf env) False (m_world (m\<lparr>m_world := w1\<rparr>)) of
          (Inl _, w) \<Rightarrow> m_fail msg' (m\<lparr>m_world := w1, m_world := w\<rparr>)
        | (Inr after, w) \<Rightarrow>
            let m = m\<lparr>m_world := w1, m_world := w\<rparr> in
            if after \<noteq> Some (m_candidate m) then m_fail msg' m
            else (case m_current r m of
                (False, m) \<Rightarrow> m_fail msg' m
              | (True, m) \<Rightarrow> (True, m\<lparr>m_activated := True\<rparr>)))"
    by (simp add: Let_def split: sum.split)
qed (simp add: P apply_quiet)

lemma install_safe:
  assumes P: "be_platform env = P" and w: "safe_to (be_sha env) (be_kdf env) w (m_world m)"
    and r: "stored (be_sha env) (w_disk (m_world m)) = Some r" "rr_phase r = J_Pending"
  shows "safe_op env w (m_install env r target m)"
  unfolding m_install_def files_open_def
proof (rule step_reads [OF does_sys_ok w], rule step_reads [OF backup_does])
  fix w1 x w2
  assume "safe_to (be_sha env) (be_kdf env) w w1" "w_disk w1 = w_disk (m_world m)"
    and w2: "safe_to (be_sha env) (be_kdf env) w w2" "w_disk w2 = w_disk (m_world (m\<lparr>m_world := w1\<rparr>))"
  then have d: "w_disk w2 = w_disk (m_world m)" by simp
  have "safe_op env w (case m_current r (m\<lparr>m_world := w2\<rparr>) of
       (False, m) \<Rightarrow> (False, m)
     | (True, m) \<Rightarrow> on_files (files_replace (be_kdf env) False (m_candidate m)) (\<lambda>_.
         checks [apply_target (be_platform env) target] ''Wi-Fi target application failed'' (\<lambda>m.
           (case files_backup (be_kdf env) False (m_world m) of
              (Inl _, w) \<Rightarrow> m_fail ''Wi-Fi activation did not preserve the pending candidate'' (m\<lparr>m_world := w\<rparr>)
            | (Inr after, w) \<Rightarrow>
                let m = m\<lparr>m_world := w\<rparr> in
                if after \<noteq> Some (m_candidate m)
                then m_fail ''Wi-Fi activation did not preserve the pending candidate'' m
                else (case m_current r m of
                    (False, m) \<Rightarrow> m_fail ''Wi-Fi activation did not preserve the pending candidate'' m
                  | (True, m) \<Rightarrow> (True, m\<lparr>m_activated := True\<rparr>))))) m)"
    using w2(1) r d by (intro step_current replace_safe finish_safe P) auto
  then show "safe_op env w (if (x \<noteq> None) \<noteq> rr_exists r \<or> (case x of None \<Rightarrow> [] | Some b \<Rightarrow> b) \<noteq> rr_previous r
       then m_fail ''Wi-Fi configuration changed after backup'' (m\<lparr>m_world := w1, m_world := w2\<rparr>)
       else (case m_current r (m\<lparr>m_world := w1, m_world := w2\<rparr>) of
           (False, m) \<Rightarrow> (False, m)
         | (True, m) \<Rightarrow> on_files (files_replace (be_kdf env) False (m_candidate m)) (\<lambda>_.
             checks [apply_target (be_platform env) target] ''Wi-Fi target application failed'' (\<lambda>m.
               (case files_backup (be_kdf env) False (m_world m) of
                  (Inl _, w) \<Rightarrow> m_fail ''Wi-Fi activation did not preserve the pending candidate'' (m\<lparr>m_world := w\<rparr>)
                | (Inr after, w) \<Rightarrow>
                    let m = m\<lparr>m_world := w\<rparr> in
                    if after \<noteq> Some (m_candidate m)
                    then m_fail ''Wi-Fi activation did not preserve the pending candidate'' m
                    else (case m_current r m of
                        (False, m) \<Rightarrow> m_fail ''Wi-Fi activation did not preserve the pending candidate'' m
                      | (True, m) \<Rightarrow> (True, m\<lparr>m_activated := True\<rparr>))))) m))"
    using w2(1) by simp
qed auto

lemma activate_safe:
  assumes P: "be_platform env = P"
  shows "safe_op env (m_world m) (m_activate env m)"
proof (cases "m_target m")
  case (Some target)
  have "safe_op env (m_world m) (on_files journal_open (\<lambda>_.
      on_files (journal_load (be_sha env)) (\<lambda>found m.
        (case found of
           None \<Rightarrow> (False, m)
         | Some r \<Rightarrow> (case m_current r m of
               (False, m) \<Rightarrow> (False, m)
             | (True, m) \<Rightarrow> checks (safety_checks env target) ''Wi-Fi activation safety checks failed''
                   (m_install env r target) m)))) m)"
  proof (rule step_reads [OF does_journal_open], simp, rule step_reads [OF load_does], simp)
    fix found w1 w2
    assume w2: "safe_to (be_sha env) (be_kdf env) (m_world m) w2"
      and f: "\<forall>x. (Inr found :: string + recovery_record option) = Inr x \<longrightarrow> x = stored (be_sha env) (w_disk w2) \<and> (x = None \<longrightarrow> d_journal (w_disk w2) = None)"
    show "safe_op env (m_world m) (case found of
           None \<Rightarrow> (False, m\<lparr>m_world := w1, m_world := w2\<rparr>)
         | Some r \<Rightarrow> (case m_current r (m\<lparr>m_world := w1, m_world := w2\<rparr>) of
               (False, m) \<Rightarrow> (False, m)
             | (True, m) \<Rightarrow> checks (safety_checks env target) ''Wi-Fi activation safety checks failed''
                   (m_install env r target) m))"
    proof (cases found)
      case (Some r)
      then have s: "stored (be_sha env) (w_disk w2) = Some r" using f by auto
      have "safe_op env (m_world m) (checks (safety_checks env target) msg (m_install env r target) m')"
        if c: "safe_to (be_sha env) (be_kdf env) (m_world m) (m_world m')" "w_disk (m_world m') = w_disk w2"
          "rr_phase r = J_Pending" for m' msg
      proof (rule step_checks [OF safety_quiet [OF P] c(1)])
        fix w3 assume w3: "safe_to (be_sha env) (be_kdf env) (m_world m) w3" "files_same (m_world m') w3"
        then have "stored (be_sha env) (w_disk w3) = Some r"
          using s c(2) stored_cong [of "w_disk w3" "w_disk w2"] by (simp add: files_same_def)
        with c(3) w3(1) show "safe_op env (m_world m) (m_install env r target (m'\<lparr>m_world := w3\<rparr>))"
          by (intro install_safe [OF P]) simp_all
      qed
      with w2 show ?thesis unfolding Some option.case by (intro step_current) simp_all
    qed (use w2 in simp)
  qed
  with Some show ?thesis by (simp add: m_activate_def)
qed (simp add: m_activate_def)

lemma probe_safe:
  assumes P: "be_platform env = P"
  shows "safe_op env (m_world m) (m_probe env m)"
proof (cases "m_target m")
  case (Some target)
  obtain b w1 where 1: "watchdog_ready (be_platform env) (m_world m) = (b, w1)"
    by (cases "watchdog_ready (be_platform env) (m_world m)")
  obtain l w2 where 2: "probe_target (be_platform env) target w1 = (l, w2)"
    by (cases "probe_target (be_platform env) target w1")
  have q: "does (watchdog_ready (be_platform env)) same_files" "does (probe_target (be_platform env) target) same_files"
    using P watchdog_quiet probe_quiet by simp_all
  have a: "safe_to (be_sha env) (be_kdf env) (m_world m) w1" "safe_to (be_sha env) (be_kdf env) w1 w2"
    using quiet_result [OF q(1) 1] quiet_result [OF q(2) 2] by blast+
  from safe_trans [OF this] a(1) Some show ?thesis
    by (cases b) (simp_all add: m_probe_def 1 2)
qed (simp add: m_probe_def)

lemma verify_quiet:
  assumes P: "be_platform env = P"
  shows "does (verify_live env target) same_files"
  unfolding does_def
proof
  fix w
  have c: "does (all_of (safety_checks env target)) same_files" by (intro does_all_of_files safety_quiet P)
  obtain b w1 where 1: "all_of (safety_checks env target) w = (b, w1)" by (cases "all_of (safety_checks env target) w")
  obtain l w2 where 2: "probe_target P target w1 = (l, w2)" by (cases "probe_target P target w1")
  from doesD [OF c 1] obtain d1 where d1: "w_history w1 = w_history w @ d1" "w_disk w1 = last (w_disk w # d1)"
    "same_files (w_disk w) d1 b" by blast
  from doesD [OF probe_quiet 2] obtain d2 where d2: "w_history w2 = w_history w1 @ d2"
    "w_disk w2 = last (w_disk w1 # d2)" "same_files (w_disk w1) d2 l" by blast
  show "\<exists>ds. w_history (snd (verify_live env target w)) = w_history w @ ds
    \<and> w_disk (snd (verify_live env target w)) = last (w_disk w # ds) \<and> same_files (w_disk w) ds (fst (verify_live env target w))"
  proof (cases b)
    case True
    have "same_files (w_disk w) (d1 @ d2) x" for x :: "string + bool"
      using d1(3) d2(3) same_files_last [OF d1(3)] d1(2) by (auto simp: same_files_def)
    with d1 d2 True show ?thesis by (intro exI [of _ "d1 @ d2"]) (auto simp: verify_live_def 1 2 P)
  next
    case False
    with d1 show ?thesis by (intro exI [of _ d1]) (simp add: verify_live_def 1 same_files_def)
  qed
qed

lemma reconfigure_quiet:
  assumes P: "be_platform env = P"
  shows "does (m_reconfigure env) same_files"
proof -
  have "does (\<lambda>w. (Inr (fst (restore_network P w)), snd (restore_network P w)) :: (string + bool) \<times> world) same_files"
    using restore_quiet unfolding does_def same_files_def by simp
  then show ?thesis using P by (simp add: m_reconfigure_def [abs_def] case_prod_beta)
qed

lemma rollback_safe:
  assumes P: "be_platform env = P"
  shows "safe_op env (m_world m) (m_rollback env m)"
proof -
  have "safe_op env (m_world m) (on_files (wifi_managed_cancel (be_sha env) (be_kdf env) (m_transaction m) (m_reconfigure env))
     (\<lambda>outcome m. if outcome \<noteq> Restored \<and> outcome \<noteq> Nothing then (False, m)
        else (True, forget_target (m\<lparr>m_restored := True\<rparr>))) m)"
    by (rule step_writes [OF managed_cancel_does [OF reconfigure_quiet [OF P]]])
      (auto simp: recovering_def forget_target_def)
  then show ?thesis by (auto simp: m_rollback_def forget_target_def)
qed

lemma commit_outcome:
  assumes P: "be_platform env = P" and ok: "disk_ok (be_sha env) (be_kdf env) (w_disk (m_world m))"
    and c: "m_commit env m = (b, m')"
  shows "(\<not> b \<and> safe_op env (m_world m) (b, m'))
    \<or> (\<exists>target ds d y. m_target m = Some target \<and> make_wifi_config_draft target = Inr y
        \<and> w_history (m_world m') = w_history (m_world m) @ ds @ [d] \<and> w_disk (m_world m') = d
        \<and> keeps_confirmed (be_sha env) (be_kdf env) (w_disk (m_world m)) ds \<and> disk_ok (be_sha env) (be_kdf env) d
        \<and> confirmed (be_sha env) d = Some (netplan_yaml y) \<and> d_netplan d = Some (netplan_yaml y)
        \<and> \<not> change_pending (be_sha env) d)"
proof (cases "m_target m = None \<or> \<not> m_activated m \<or> m_committed m \<or> m_restored m")
  case True
  with c show ?thesis by (auto simp: m_commit_def m_fail_def split: option.splits if_splits)
next
  case False
  then obtain target where t: "m_target m = Some target" by auto
  let ?f = "wifi_managed_commit (be_sha env) (be_kdf env) (m_transaction m) target (verify_live env target)"
  obtain r w where f: "?f (m_world m) = (r, w)" by (cases "?f (m_world m)")
  from doesD [OF managed_commit_does [OF verify_quiet [OF P]] f] obtain ds where
    ds: "w_history w = w_history (m_world m) @ ds" "w_disk w = last (w_disk (m_world m) # ds)"
    and k: "committing (be_sha env) (be_kdf env) target (w_disk (m_world m)) ds r" by blast
  have w: "m_world m' = w" "b \<longrightarrow> \<not> isl r"
  proof -
    show "m_world m' = w" "b \<longrightarrow> \<not> isl r"
      using c f t False by (cases r; auto simp add: m_commit_def on_files_def m_fail_def forget_target_def)+
  qed
  show ?thesis
  proof (cases "isl r \<and> keeps_confirmed (be_sha env) (be_kdf env) (w_disk (m_world m)) ds")
    case True
    with w ds show ?thesis by (simp add: safe_to_def)
  next
    case False
    with k ok obtain a d y where "ds = a @ [d]" "keeps_confirmed (be_sha env) (be_kdf env) (w_disk (m_world m)) a"
      "disk_ok (be_sha env) (be_kdf env) d" "\<not> change_pending (be_sha env) d" "make_wifi_config_draft target = Inr y"
      "confirmed (be_sha env) d = Some (netplan_yaml y)" "d_netplan d = Some (netplan_yaml y)"
      unfolding committing_def by blast
    with w ds t show ?thesis by auto
  qed
qed

end
end
