(* ===== verification/WifiSafety.thy ===== *)
theory WifiSafety
  imports WifiCrash
begin

text \<open>
  The Wi-Fi change as a system: a helper process runs a backend on the disk, the recovery supervisor
  ticks on the same disk, and either may be cut off at any state the disk goes through. The
  abstract system has one variable, the confirmed configuration, which only a confirmation changes.
\<close>

section \<open>Runs of the system\<close>

datatype wifi_event =
  Ev_Prepare wifi_profile nat | Ev_Activate | Ev_Probe | Ev_Commit | Ev_Rollback | Ev_Ethernet | Ev_Tick

fun perform :: "backend_env \<Rightarrow> wifi_event \<Rightarrow> managed_backend \<Rightarrow> managed_backend" where
  "perform env (Ev_Prepare profile lifetime) m = snd (m_prepare env profile lifetime m)"
| "perform env Ev_Activate m = snd (m_activate env m)"
| "perform env Ev_Probe m = snd (m_probe env m)"
| "perform env Ev_Commit m = snd (m_commit env m)"
| "perform env Ev_Rollback m = snd (m_rollback env m)"
| "perform env Ev_Ethernet m = snd (m_ethernet env m)"
| "perform env Ev_Tick m =
     m\<lparr>m_world := snd (wifi_managed_recovery_tick (be_sha env) (be_kdf env) (m_reconfigure env) (m_world m))\<rparr>"

text \<open>The profile an event may confirm.\<close>

definition confirms :: "wifi_event \<Rightarrow> managed_backend \<Rightarrow> wifi_profile set" where
  "confirms e m = (if e = Ev_Commit then set_option (m_target m) else {})"

text \<open>
  \<open>wifi_run env w0 T m\<close>: the system gets from the world \<open>w0\<close> to the backend \<open>m\<close>, and the profiles
  whose confirmation was asked are \<open>T\<close>. A crash during an event leaves the disk in one of the
  states the event put it in, and any world of the next start with that disk.
\<close>

inductive wifi_run :: "backend_env \<Rightarrow> world \<Rightarrow> wifi_profile set \<Rightarrow> managed_backend \<Rightarrow> bool" for env w0 where
  start: "wifi_run env w0 {} (new_backend random w0)"
| event: "wifi_run env w0 T m \<Longrightarrow> wifi_run env w0 (T \<union> confirms e m) (perform env e m)"
| crash: "wifi_run env w0 T m \<Longrightarrow> w_history (m_world (perform env e m)) = w_history (m_world m) @ ds \<Longrightarrow>
    d \<in> set (w_disk (m_world m) # ds) \<Longrightarrow> w_disk w = d \<Longrightarrow>
    wifi_run env w0 (T \<union> confirms e m) (new_backend random w)"

section \<open>The abstract system\<close>

text \<open>A step of the confirmed configuration from \<open>c\<close> to \<open>c'\<close> when the profiles \<open>T\<close> may be confirmed.\<close>

definition confirm_step :: "wifi_profile set \<Rightarrow> byte list option \<Rightarrow> byte list option \<Rightarrow> bool" where
  "confirm_step T c c' \<longleftrightarrow> c' = c \<or> (\<exists>t \<in> T. \<exists>y. make_wifi_config_draft t = Inr y \<and> c' = Some (netplan_yaml y))"

lemma confirm_refl [simp]: "confirm_step T c c"
  by (simp add: confirm_step_def)

lemma confirm_trans: "confirm_step S a b \<Longrightarrow> confirm_step T b c \<Longrightarrow> confirm_step (S \<union> T) a c"
  unfolding confirm_step_def by blast

lemma confirm_mono: "confirm_step S a b \<Longrightarrow> confirm_step (S \<union> T) a b"
  unfolding confirm_step_def by blast

text \<open>What an event may do, seen at every state of the disk it goes through.\<close>

definition refines :: "backend_env \<Rightarrow> wifi_profile set \<Rightarrow> world \<Rightarrow> world \<Rightarrow> bool" where
  "refines env T w w' \<longleftrightarrow> (\<exists>ds. w_history w' = w_history w @ ds \<and> w_disk w' = last (w_disk w # ds)
     \<and> (\<forall>d \<in> set ds. disk_ok (be_sha env) (be_kdf env) d
          \<and> confirm_step T (confirmed (be_sha env) (w_disk w)) (confirmed (be_sha env) d)))"

lemma safe_refines:
  assumes "safe_to (be_sha env) (be_kdf env) w w'" "disk_ok (be_sha env) (be_kdf env) (w_disk w)"
  shows "refines env T w w'"
  using assms by (auto simp: safe_to_def refines_def keeps_confirmed_def)

context quiet_platform
begin

lemma tick_safe:
  assumes "be_platform env = P"
  shows "safe_to (be_sha env) (be_kdf env) w (snd (wifi_managed_recovery_tick (be_sha env) (be_kdf env) (m_reconfigure env) w))"
  using safe_does [OF recovery_tick_does [OF reconfigure_quiet [OF assms]], of "be_sha env" "be_kdf env" w, where kdf = "be_kdf env"]
  by (simp add: recovering_def prod_eq_iff)

lemma ethernet_safe:
  assumes "be_platform env = P"
  shows "safe_op env (m_world m) (m_ethernet env m)"
proof -
  obtain b w where e: "ethernet_ready P (m_world m) = (b, w)" by (cases "ethernet_ready P (m_world m)")
  from quiet_result [OF ethernet_quiet e] assms show ?thesis by (simp add: m_ethernet_def e)
qed

lemma commit_refines:
  assumes P: "be_platform env = P" and ok: "disk_ok (be_sha env) (be_kdf env) (w_disk (m_world m))"
  shows "refines env (set_option (m_target m)) (m_world m) (m_world (snd (m_commit env m)))"
proof (cases "m_commit env m")
  case (Pair b m')
  from commit_outcome [OF P ok Pair] show ?thesis
  proof
    assume "\<not> b \<and> safe_op env (m_world m) (b, m')"
    with Pair ok show ?thesis by (simp add: safe_refines)
  next
    assume "\<exists>target ds d y. m_target m = Some target \<and> make_wifi_config_draft target = Inr y
        \<and> w_history (m_world m') = w_history (m_world m) @ ds @ [d] \<and> w_disk (m_world m') = d
        \<and> keeps_confirmed (be_sha env) (be_kdf env) (w_disk (m_world m)) ds \<and> disk_ok (be_sha env) (be_kdf env) d
        \<and> confirmed (be_sha env) d = Some (netplan_yaml y) \<and> d_netplan d = Some (netplan_yaml y)
        \<and> \<not> change_pending (be_sha env) d"
    then obtain target ds d y where *: "m_target m = Some target" "make_wifi_config_draft target = Inr y"
      "w_history (m_world m') = w_history (m_world m) @ ds @ [d]" "w_disk (m_world m') = d"
      "keeps_confirmed (be_sha env) (be_kdf env) (w_disk (m_world m)) ds" "disk_ok (be_sha env) (be_kdf env) d"
      "confirmed (be_sha env) d = Some (netplan_yaml y)" by blast
    show ?thesis unfolding refines_def Pair snd_conv
      by (intro exI [of _ "ds @ [d]"]) (use * in \<open>auto simp: keeps_confirmed_def confirm_step_def\<close>)
  qed
qed

lemma event_refines:
  assumes P: "be_platform env = P" and ok: "disk_ok (be_sha env) (be_kdf env) (w_disk (m_world m))"
  shows "refines env (confirms e m) (m_world m) (m_world (perform env e m))"
proof -
  note op = safe_refines [OF _ ok]
  show ?thesis
  proof (cases e)
    case Ev_Commit
    with commit_refines [OF P ok] show ?thesis by (simp add: confirms_def)
  qed (use op prepare_safe [OF P] activate_safe [OF P] probe_safe [OF P] rollback_safe [OF P] ethernet_safe [OF P]
      tick_safe [OF P] in \<open>auto simp: safe_op_def confirms_def\<close>)
qed

lemma run_confirmed:
  assumes "wifi_run env w0 T m" "be_platform env = P" "disk_ok (be_sha env) (be_kdf env) (w_disk w0)"
  shows "disk_ok (be_sha env) (be_kdf env) (w_disk (m_world m))
    \<and> confirm_step T (confirmed (be_sha env) (w_disk w0)) (confirmed (be_sha env) (w_disk (m_world m)))"
  using assms(1)
proof induction
  case (start random)
  then show ?case using assms(3) by (simp add: new_backend_def)
next
  case (event T m e)
  from event_refines [OF assms(2), of m e] event.IH obtain ds where
    "w_disk (m_world (perform env e m)) = last (w_disk (m_world m) # ds)"
    "\<forall>d \<in> set ds. disk_ok (be_sha env) (be_kdf env) d
          \<and> confirm_step (confirms e m) (confirmed (be_sha env) (w_disk (m_world m))) (confirmed (be_sha env) d)"
    unfolding refines_def by blast
  with event.IH show ?case
    using confirm_trans [of T _ _ "confirms e m"] by (cases "ds = []") (auto intro: confirm_mono)
next
  case (crash T m e ds d w random)
  from event_refines [OF assms(2), of m e] crash have "\<forall>d \<in> set ds. disk_ok (be_sha env) (be_kdf env) d
      \<and> confirm_step (confirms e m) (confirmed (be_sha env) (w_disk (m_world m))) (confirmed (be_sha env) d)"
    unfolding refines_def by auto
  with crash show ?case
    using confirm_trans [of T _ _ "confirms e m"] by (auto simp: new_backend_def intro: confirm_mono)
qed

end

section \<open>A machine that works\<close>

text \<open>How the supervisor reconfigures the network (the callback of wifi_supervisor_main.cpp), and the
  machine on which it succeeds: the process is the administrator's, the override of the service is the
  installed one, and every command that is run succeeds.\<close>

definition linux_reconfigure :: "linux \<Rightarrow> bool act" where
  "linux_reconfigure lx w = (case linux_restore_network lx w of (ok, w) \<Rightarrow> (Inr ok, w))"

definition linux_ready :: "linux \<Rightarrow> bool" where
  "linux_ready lx \<longleftrightarrow> lx_root lx \<and> (\<forall>n. lx_override lx n = Some (lx_expected_override lx)) \<and> (\<forall>n. lx_run lx n = Process_success)"

lemma reconfigure_files: "does (linux_reconfigure lx) same_files"
proof (rule does_mono [OF _ same_disk_files])
  show "does (linux_reconfigure lx) same_disk"
    unfolding quiet_iff by (auto simp: linux_reconfigure_def dest: quietD [OF restore_disk] split: prod.split)
qed

definition settles :: "string \<Rightarrow> nat \<Rightarrow> (world \<Rightarrow> 'r \<times> world) \<Rightarrow> disk \<Rightarrow> 'r \<Rightarrow> bool" where
  "settles boot now f d v \<longleftrightarrow> (\<forall>w. calm boot now w \<and> w_disk w = d \<longrightarrow>
     (\<exists>w'. f w = (v, w') \<and> calm boot now w' \<and> w_disk w' = d))"

lemma settles_observe: "\<forall>n. f n = v \<Longrightarrow> settles boot now (observe f) d v"
  by (auto simp: settles_def observe_def calm_def clock_frame)

lemma settles_case: "settles boot now f d v \<Longrightarrow> settles boot now (g v) d u \<Longrightarrow> settles boot now (\<lambda>w. case f w of (r, w) \<Rightarrow> g r w) d u"
  unfolding settles_def by (metis (no_types, lifting) prod.case)

lemma settles_Pair: "settles boot now (Pair v) d v"
  by (simp add: settles_def)

lemma settles_yields: "settles boot now f d (Inr v) \<longleftrightarrow> yields boot now f d v d"
  by (simp add: settles_def yields_def)

lemma settles_all: "(\<And>f. f \<in> set fs \<Longrightarrow> settles boot now f d True) \<Longrightarrow> settles boot now (all_of fs) d True"
proof (induction fs)
  case (Cons f fs)
  have "all_of (f # fs) = (\<lambda>w. case f w of (r, w) \<Rightarrow> (if r then all_of fs else Pair False) w)"
    by (simp add: fun_eq_iff split: prod.split bool.split)
  moreover have "settles boot now f d True" "settles boot now (all_of fs) d True" using Cons by simp_all
  ultimately show ?case using settles_case [of boot now f d True "\<lambda>r. if r then all_of fs else Pair False" True] by simp
qed (simp add: settles_def)

lemma settles_passes: "yields boot now f d () d \<Longrightarrow> settles boot now (passes f) d True"
  unfolding settles_def yields_def passes_def by fastforce

lemma settles_command:
  assumes "linux_ready lx" "arguments_ok arguments timeout"
  shows "settles boot now (run_command lx arguments timeout) d Process_success"
proof -
  have "run_command lx arguments timeout = observe (lx_run lx)" using assms(2) by (simp add: run_command_def fun_eq_iff)
  then show ?thesis using assms(1) by (simp add: linux_ready_def settles_observe)
qed

lemma settles_installation: "linux_ready lx \<Longrightarrow> settles boot now (installation_ready lx) d True"
  using settles_observe [of "lx_override lx" "Some (lx_expected_override lx)" boot now d]
  by (auto simp: settles_def installation_ready_def policy_override_matches_def linux_ready_def split: prod.split)

lemma settles_preflight:
  assumes "linux_ready lx"
  shows "settles boot now (passes (wifi_netplan_preflight lx)) d True"
proof -
  let ?args = "[''/usr/bin/python3'', ''-I'', ''-B'', ''/opt/encoder/libexec/netplan_preflight.py'', ''--root-dir'', ''/'']"
  have "arguments_ok ?args 5000" by code_simp
  then have c: "settles boot now (run_command lx ?args 5000) d Process_success" by (rule settles_command [OF assms])
  have "yields boot now (\<lambda>w. case run_command lx ?args 5000 w of (outcome, w) \<Rightarrow> (case outcome of
              Process_success \<Rightarrow> Inr ()
            | Process_timed_out \<Rightarrow> Inl ''Netplan preflight timed out''
            | Process_busy \<Rightarrow> Inl ''Previous system check has not terminated''
            | Process_failed \<Rightarrow> Inl ''Netplan scope check failed; configuration was not approved for staging'', w)) d () d"
    using c unfolding settles_def yields_def by fastforce
  then show ?thesis
    using assms unfolding wifi_netplan_preflight_def wifi_netplan_preflight_at_def
    by (intro settles_passes yields_andthen [OF yields_require] yields_andthen [OF yields_sys_ok]) (simp_all add: linux_ready_def)
qed

lemma settles_service:
  assumes "linux_ready lx"
  shows "settles boot now (service_action lx action) d True"
proof -
  let ?args = "[''/usr/bin/systemctl'', if action = Service_restart then ''restart'' else ''stop'', ''netplan-wpa-wlan0.service'']"
  have "arguments_ok [''/usr/bin/systemctl'', ''restart'', ''netplan-wpa-wlan0.service''] 20000"
    "arguments_ok [''/usr/bin/systemctl'', ''stop'', ''netplan-wpa-wlan0.service''] 20000" by code_simp+
  then have "arguments_ok ?args 20000" by simp
  then have "settles boot now (run_command lx ?args 20000) d Process_success" by (rule settles_command [OF assms])
  then have "settles boot now (wifi_service_action lx action) d True"
    unfolding settles_def wifi_service_action_def by fastforce
  then show ?thesis
    using settles_installation [OF assms] unfolding service_action_def by (intro settles_all) auto
qed

lemma linux_works:
  assumes "linux_ready lx"
  shows "works (lx_kdf lx) boot now (linux_reconfigure lx)"
  unfolding works_def
proof (intro allI impI exI)
  fix d :: disk
  assume d: "drafted (lx_kdf lx) (d_netplan d)"
  let ?restored = "d_netplan d"
  have a: "settles boot now (all_of [installation_ready lx, passes (wifi_netplan_preflight lx)]) d True"
    using settles_installation [OF assms] settles_preflight [OF assms] by (intro settles_all) auto
  have b: "settles boot now (andthen files_open (\<lambda>_. files_backup (lx_kdf lx) False)) d (Inr ?restored)"
    unfolding settles_yields files_open_def by (intro yields_andthen [OF yields_sys_ok] yields_backup d)
  have "settles boot now (linux_restore_network lx) d True"
    unfolding settles_def
  proof (intro allI impI)
    fix w assume w: "calm boot now w \<and> w_disk w = d"
    obtain w1 where 1: "all_of [installation_ready lx, passes (wifi_netplan_preflight lx)] w = (True, w1)" "calm boot now w1" "w_disk w1 = d"
      using a w unfolding settles_def by blast
    obtain w2 where 2: "andthen files_open (\<lambda>_. files_backup (lx_kdf lx) False) w1 = (Inr ?restored, w2)" "calm boot now w2" "w_disk w2 = d"
      using b 1 unfolding settles_def by blast
    obtain w3 where "service_action lx (if ?restored \<noteq> None then Service_restart else Service_stop) w2 = (True, w3)" "calm boot now w3" "w_disk w3 = d"
      using settles_service [OF assms] 2 unfolding settles_def by blast
    then show "\<exists>w'. linux_restore_network lx w = (True, w') \<and> calm boot now w' \<and> w_disk w' = d"
      by (simp only: linux_restore_network_def 1(1) 2(1) prod.case bool.case sum.case) blast
  qed
  then show "yields boot now (linux_reconfigure lx) d True d"
    unfolding settles_yields [symmetric] settles_def linux_reconfigure_def by fastforce
qed

section \<open>A machine with a change pending\<close>

definition demo_boot :: string where
  "demo_boot = ''12345678-1234-1234-1234-123456789abc''"

definition demo_sha :: sha where
  "demo_sha data = Some (replicate 32 (of_nat (length data)))"

definition demo_record :: recovery_record where
  "demo_record = \<lparr>rr_phase = J_Pending, rr_exists = False, rr_transaction = replicate 32 (CHR ''0''),
     rr_boot = demo_boot, rr_deadline = 1, rr_previous = []\<rparr>"

definition demo_pending :: world where
  "demo_pending = \<lparr>w_disk = \<lparr>d_journal = Some (record_body demo_record @ replicate 32 (of_nat (length (record_body demo_record)))),
       d_netplan = None, d_policy = None\<rparr>,
     w_history = [], w_ok = (\<lambda>n. True), w_checks = 0, w_io = (\<lambda>n. [Some 70000]), w_loops = 0,
     w_clock = (\<lambda>n. (demo_boot @ [CHR 0x0A], Some (1, 0))), w_reads = 0\<rparr>"

definition demo_linux :: linux where
  "demo_linux = \<lparr>lx_address = ''192.0.2.1'', lx_inet_pton = (\<lambda>a. Some 0xC0000201), lx_root = True,
     lx_expected_override = [], lx_override = (\<lambda>n. Some []), lx_interfaces = (\<lambda>n. None), lx_run = (\<lambda>n. Process_success),
     lx_watchdog = (\<lambda>n. True), lx_status = (\<lambda>n. None), lx_addresses = (\<lambda>n. None), lx_kdf = (\<lambda>p s. None)\<rparr>"

definition demo_wifi_env :: backend_env where
  "demo_wifi_env = \<lparr>be_sha = demo_sha, be_kdf = (\<lambda>p s. None), be_platform = linux_platform demo_linux\<rparr>"

lemma demo_boot_valid: "boot_valid demo_boot"
  by code_simp

lemma demo_fits: "record_fits demo_record"
proof -
  have "unhex (CHR ''0'') \<noteq> None" by code_simp
  then show ?thesis
    using demo_boot_valid by (simp add: record_fits_def record_valid_def demo_record_def hex_string_def max_backup_def list_all_iff)
qed

lemma demo_stored: "stored demo_sha (w_disk demo_pending) = Some demo_record"
  using stored_saved [OF demo_fits, of demo_sha _ "\<lparr>d_journal = None, d_netplan = None, d_policy = None\<rparr>"]
  by (simp add: journal_of_def checksum_def demo_sha_def demo_pending_def)

lemma demo_confirmed: "confirmed demo_sha (w_disk demo_pending) = None"
  by (simp add: confirmed_def demo_stored) (simp add: demo_record_def saved_def)

lemma demo_ok: "disk_ok demo_sha kdf (w_disk demo_pending)"
  by (simp add: disk_ok_def demo_confirmed demo_stored) (simp add: demo_pending_def)

lemma demo_calm: "calm demo_boot 1000 demo_pending"
  unfolding calm_def by (simp add: demo_pending_def recovery_clock_def) (code_simp)

section \<open>Properties\<close>

text \<open>C6: in every run of the Wi-Fi system on the Linux platform, with crashes at any state of the disk and
  restarts in any world with that disk, the disk stays well formed and the confirmed configuration is
  the first one or the configuration of a profile whose confirmation was asked.\<close>

theorem confirmed_survives:
  assumes "be_platform env = linux_platform lx" "wifi_run env w0 T m" "disk_ok (be_sha env) (be_kdf env) (w_disk w0)"
  shows "disk_ok (be_sha env) (be_kdf env) (w_disk (m_world m))
    \<and> (confirmed (be_sha env) (w_disk (m_world m)) = confirmed (be_sha env) (w_disk w0)
       \<or> (\<exists>t \<in> T. \<exists>y. make_wifi_config_draft t = Inr y
            \<and> confirmed (be_sha env) (w_disk (m_world m)) = Some (netplan_yaml y)))"
  using linux.run_confirmed [OF assms(2,1,3)] unfolding confirm_step_def .

theorem confirmed_survives_witness:
  "confirmed demo_sha (w_disk (m_world (perform demo_wifi_env Ev_Tick (new_backend None demo_pending)))) = None"
proof -
  let ?m = "new_backend None demo_pending"
  have e: "be_platform demo_wifi_env = linux_platform demo_linux" "be_sha demo_wifi_env = demo_sha"
    by (simp_all add: demo_wifi_env_def)
  have "wifi_run demo_wifi_env demo_pending ({} \<union> confirms Ev_Tick ?m) (perform demo_wifi_env Ev_Tick ?m)"
    by (rule wifi_run.event) (rule wifi_run.start)
  then have r: "wifi_run demo_wifi_env demo_pending {} (perform demo_wifi_env Ev_Tick ?m)"
    unfolding confirms_def by simp
  have "disk_ok (be_sha demo_wifi_env) (be_kdf demo_wifi_env) (w_disk demo_pending)" using demo_ok e by simp
  from confirmed_survives [OF e(1) r this] show ?thesis unfolding e demo_confirmed by blast
qed

text \<open>On a machine that works, one tick of the supervisor ends a change that is pending past its deadline
  or from an earlier boot: it returns Restored, the installed configuration is the confirmed one, and
  no change is pending.\<close>

theorem recovery_completes:
  assumes "disk_ok sha kdf (w_disk w)" "stored sha (w_disk w) = Some r" "rr_phase r = J_Pending" "boot_valid boot"
    "rr_boot r \<noteq> boot \<or> now \<ge> rr_deadline r" "\<forall>b. checksum sha b \<noteq> None" "calm boot now w"
    "does reconfigure same_files" "works kdf boot now reconfigure"
  shows "\<exists>w'. wifi_managed_recovery_tick sha kdf reconfigure w = (Inr Restored, w')
    \<and> d_netplan (w_disk w') = confirmed sha (w_disk w) \<and> \<not> change_pending sha (w_disk w')
    \<and> confirmed sha (w_disk w') = confirmed sha (w_disk w)"
proof -
  have "\<exists>d'. yields boot now (wifi_managed_recovery_tick sha kdf reconfigure) (w_disk w) Restored d'"
    using recovery_yields [OF assms(1-5) _ assms(9)] assms(6) by blast
  then obtain w' where w': "wifi_managed_recovery_tick sha kdf reconfigure w = (Inr Restored, w')"
    using assms(7) unfolding yields_def by blast
  from doesD [OF recovery_tick_does [OF assms(8)] w'] obtain ds where ds: "w_disk w' = last (w_disk w # ds)"
    "recovering sha kdf (w_disk w) ds (Inr Restored)" by blast
  with assms(1) have "d_netplan (w_disk w') = confirmed sha (w_disk w) \<and> \<not> change_pending sha (w_disk w')"
    by (simp add: recovering_def)
  then show ?thesis using w' by (auto simp: confirmed_def change_pending_def split: option.splits if_splits)
qed

theorem recovery_completes_witness:
  "\<exists>w'. wifi_managed_recovery_tick demo_sha (\<lambda>p s. None) (Pair (Inr True)) demo_pending = (Inr Restored, w')
    \<and> d_netplan (w_disk w') = None \<and> \<not> change_pending demo_sha (w_disk w')"
proof -
  have "works (\<lambda>p s. None) demo_boot 1000 (Pair (Inr True))" by (auto simp: works_def yields_def)
  moreover have "does (Pair (Inr True) :: bool act) same_files" by (simp add: does_def same_files_def)
  ultimately show ?thesis
    using recovery_completes [OF demo_ok demo_stored, of demo_boot 1000 "Pair (Inr True)" "\<lambda>p s. None"]
      demo_boot_valid demo_calm demo_confirmed
    by (auto simp: demo_record_def checksum_def demo_sha_def)
qed

end
