(* ===== verification/WifiSupervisor.thy ===== *)
theory WifiSupervisor
  imports WifiSafety
begin

text \<open>
  The recovery supervisor (server/src/wifi_recovery_supervisor.cpp, wifi_supervisor_main.cpp): its
  start with the lock and the socket, the loop that ticks the recovery every 250 milliseconds and
  answers local clients in bounded batches, and the question other processes ask it
  (\<open>wifi_recovery_supervisor_ready\<close>).

  A directory or file that was opened is given by what \<open>fstat\<close> reports of it; \<open>ob_own\<close> is the
  comparison of the owner with the effective user. Times are nanoseconds of the steady clock.
\<close>

unbundle bit_operations_syntax

section \<open>Directories and sockets\<close>

record dir_obs =
  ob_dev :: nat
  ob_ino :: nat
  ob_own :: bool
  ob_mode :: nat

definition open_directory :: "string \<Rightarrow> bool \<Rightarrow> dir_obs option \<Rightarrow> dir_obs option" where
  "open_directory path private_mode obs =
     (if path = [] \<or> hd path \<noteq> CHR ''/'' \<or> CHR 0x00 \<in> set path then None
      else (case obs of
          None \<Rightarrow> None
        | Some o1 \<Rightarrow> if ob_own o1 \<and> ob_mode o1 AND (if private_mode then 63 else 18) = 0 then Some o1 else None))"

definition same_directory :: "dir_obs \<Rightarrow> dir_obs \<Rightarrow> bool" where
  "same_directory a b \<longleftrightarrow> ob_dev a = ob_dev b \<and> ob_ino a = ob_ino b"

text \<open>The path of the socket must fit into a \<open>sockaddr_un\<close>.\<close>

definition address_ok :: "string \<Rightarrow> bool" where
  "address_ok state \<longleftrightarrow> length (state @ ''/watchdog.sock'') < 108"

definition watch_query :: string where
  "watch_query = ''ENCODER-WATCHDOG-PING-1''"

definition watch_identity :: "dir_obs \<Rightarrow> dir_obs \<Rightarrow> string" where
  "watch_identity state netplan =
     (let value = ''ENCODER-WATCHDOG-READY-1 '' @ show_nat (ob_dev state) @ '' '' @ show_nat (ob_ino state)
        @ '' '' @ show_nat (ob_dev netplan) @ '' '' @ show_nat (ob_ino netplan)
      in if length value < 160 then value else [])"

record socket_obs =
  so_is_socket :: bool
  so_own :: bool
  so_mode :: nat
  so_nlink :: nat

definition private_socket :: "socket_obs \<Rightarrow> bool" where
  "private_socket s \<longleftrightarrow> so_is_socket s \<and> so_own s \<and> so_mode s AND 63 = 0 \<and> so_nlink s = 1"

section \<open>The start\<close>

record lock_obs =
  lk_regular :: bool
  lk_own :: bool
  lk_mode :: nat
  lk_nlink :: nat
  lk_flock :: bool

text \<open>An entry of the socket's name from before: its check and whether it could be removed.\<close>

datatype previous_entry = Entry socket_obs bool | No_entry | Entry_unknown

record supervisor_start =
  su_callbacks :: bool
  su_state :: "dir_obs option"
  su_netplan :: "dir_obs option"
  su_lock :: "lock_obs option"
  su_previous :: previous_entry
  su_bind :: bool
  su_stat :: bool
  su_listen :: bool

definition lock_ok :: "lock_obs option \<Rightarrow> bool" where
  "lock_ok l = (case l of
       None \<Rightarrow> False
     | Some l \<Rightarrow> lk_regular l \<and> lk_own l \<and> lk_mode l AND 63 = 0 \<and> lk_nlink l = 1 \<and> lk_flock l)"

definition supervisor_setup :: "string \<Rightarrow> string \<Rightarrow> supervisor_start \<Rightarrow> string + dir_obs \<times> dir_obs \<times> string" where
  "supervisor_setup state_path netplan_path st =
     (if \<not> su_callbacks st then Inl ''Recovery supervisor callbacks are required''
      else (case (open_directory state_path True (su_state st), open_directory netplan_path False (su_netplan st)) of
          (Some state, Some netplan) \<Rightarrow>
            if \<not> lock_ok (su_lock st) then Inl ''Recovery supervisor already active or lock unsafe''
            else if \<not> address_ok state_path then Inl ''Recovery supervisor socket path too long''
            else (case su_previous st of
                Entry_unknown \<Rightarrow> Inl ''Cannot inspect recovery supervisor socket''
              | prev \<Rightarrow>
                  if (case prev of Entry s removed \<Rightarrow> \<not> private_socket s \<or> \<not> removed | _ \<Rightarrow> False)
                  then Inl ''Unsafe recovery supervisor socket entry''
                  else if \<not> su_bind st then Inl ''Cannot bind recovery supervisor socket''
                  else if \<not> su_stat st then Inl ''Cannot identify recovery supervisor socket''
                  else if \<not> su_listen st then Inl ''Cannot protect recovery supervisor socket''
                  else let response = watch_identity state netplan in
                    if response = [] then Inl ''Cannot identify recovery scope''
                    else Inr (state, netplan, response))
        | _ \<Rightarrow> Inl ''Unsafe recovery supervisor directories''))"

section \<open>The loop\<close>

datatype watch_outcome = Watch_failed | Watch recovery_outcome

datatype watch_event = Observed watch_outcome | Answered string

record watch_client =
  wk_same_uid :: bool
  wk_ready :: bool
  wk_packet :: string

text \<open>What one round of the loop finds; \<open>rd_clients\<close> are the connections that wait to be accepted.\<close>

record watch_round =
  rd_stop :: bool
  rd_now :: int
  rd_state :: "dir_obs option"
  rd_netplan :: "dir_obs option"
  rd_later :: int
  rd_poll :: int
  rd_interrupted :: bool
  rd_broken :: bool
  rd_clients :: "watch_client list"

record supervisor =
  sv_world :: world
  sv_next :: int
  sv_last :: "watch_outcome option"
  sv_log :: "watch_event list"

datatype watch_result = Watch_running | Watch_stopped | Watch_ended string

definition tick_interval :: int where
  "tick_interval = 250000000"

text \<open>A failed tick is not an end: the supervisor keeps trying. \<open>observe\<close> sees the changes only.\<close>

definition supervisor_tick :: "sha \<Rightarrow> psk_kdf \<Rightarrow> bool act \<Rightarrow> int \<Rightarrow> supervisor \<Rightarrow> supervisor" where
  "supervisor_tick sha kdf reconfigure later sv =
     (case wifi_managed_recovery_tick sha kdf reconfigure (sv_world sv) of (res, w) \<Rightarrow>
        let outcome = (case res of Inl e \<Rightarrow> Watch_failed | Inr r \<Rightarrow> Watch r)
        in sv\<lparr>sv_world := w, sv_next := later + tick_interval, sv_last := Some outcome,
              sv_log := sv_log sv @ (if sv_last sv \<noteq> Some outcome then [Observed outcome] else [])\<rparr>)"

text \<open>A client is answered when it is of the same user, sends in time, and sends the query alone.\<close>

definition client_served :: "watch_client \<Rightarrow> bool" where
  "client_served c \<longleftrightarrow> wk_same_uid c \<and> wk_ready c
     \<and> length (wk_packet c) = length watch_query \<and> take (length watch_query) (wk_packet c) = watch_query"

definition serve_clients :: "string \<Rightarrow> watch_client list \<Rightarrow> supervisor \<Rightarrow> supervisor" where
  "serve_clients response clients sv =
     sv\<lparr>sv_log := sv_log sv @ map (\<lambda>c. Answered response) (filter client_served (take 8 clients))\<rparr>"

definition supervisor_round ::
  "sha \<Rightarrow> psk_kdf \<Rightarrow> bool act \<Rightarrow> string \<Rightarrow> string \<Rightarrow> dir_obs \<times> dir_obs \<times> string \<Rightarrow> watch_round \<Rightarrow> supervisor
     \<Rightarrow> watch_result \<times> supervisor" where
  "supervisor_round sha kdf reconfigure state_path netplan_path scope rd sv =
     (case scope of (state, netplan, response) \<Rightarrow>
      if rd_stop rd then (Watch_stopped, sv)
      else if rd_now rd \<ge> sv_next sv
        \<and> \<not> (case (open_directory state_path True (rd_state rd), open_directory netplan_path False (rd_netplan rd)) of
              (Some a, Some b) \<Rightarrow> same_directory a state \<and> same_directory b netplan
            | _ \<Rightarrow> False)
      then (Watch_ended ''Recovery supervisor directory identity changed'', sv)
      else let sv = (if rd_now rd \<ge> sv_next sv then supervisor_tick sha kdf reconfigure (rd_later rd) sv else sv) in
        if rd_poll rd < 0 \<and> \<not> rd_interrupted rd then (Watch_ended ''Recovery supervisor polling failed'', sv)
        else if rd_poll rd \<le> 0 then (Watch_running, sv)
        else if rd_broken rd then (Watch_ended ''Recovery supervisor listener failed'', sv)
        else (Watch_running, serve_clients response (rd_clients rd) sv))"

fun supervisor_loop ::
  "sha \<Rightarrow> psk_kdf \<Rightarrow> bool act \<Rightarrow> string \<Rightarrow> string \<Rightarrow> dir_obs \<times> dir_obs \<times> string \<Rightarrow> watch_round list \<Rightarrow> supervisor
     \<Rightarrow> watch_result \<times> supervisor" where
  "supervisor_loop sha kdf reconfigure state_path netplan_path scope [] sv = (Watch_running, sv)"
| "supervisor_loop sha kdf reconfigure state_path netplan_path scope (rd # rds) sv =
     (case supervisor_round sha kdf reconfigure state_path netplan_path scope rd sv of
        (Watch_running, sv) \<Rightarrow> supervisor_loop sha kdf reconfigure state_path netplan_path scope rds sv
      | stopped \<Rightarrow> stopped)"

text \<open>\<open>start\<close> is the time before the first round, when the first tick is due. A list of rounds is the
  part of the run that was seen: \<open>Watch_running\<close> when the supervisor is still at work after it.\<close>

definition run_wifi_recovery_supervisor ::
  "sha \<Rightarrow> psk_kdf \<Rightarrow> bool act \<Rightarrow> string \<Rightarrow> string \<Rightarrow> supervisor_start \<Rightarrow> int \<Rightarrow> watch_round list \<Rightarrow> world
     \<Rightarrow> watch_result \<times> supervisor" where
  "run_wifi_recovery_supervisor sha kdf reconfigure state_path netplan_path st start rds w =
     (let sv = \<lparr>sv_world = w, sv_next = start, sv_last = None, sv_log = []\<rparr> in
      case supervisor_setup state_path netplan_path st of
        Inl e \<Rightarrow> (Watch_ended e, sv)
      | Inr scope \<Rightarrow> supervisor_loop sha kdf reconfigure state_path netplan_path scope rds sv)"

text \<open>\<open>main\<close>: the exit code, \<open>None\<close> while the supervisor runs.\<close>

definition supervisor_main ::
  "bool \<Rightarrow> bool \<Rightarrow> string list \<Rightarrow> (unit \<Rightarrow> watch_result) \<Rightarrow> nat option" where
  "supervisor_main root handlers args run =
     (if args = [''--version''] then Some 0
      else if args \<noteq> [''--run''] then Some 2
      else if \<not> root then Some 1
      else if \<not> handlers then Some 1
      else (case run () of Watch_running \<Rightarrow> None | Watch_stopped \<Rightarrow> Some 0 | Watch_ended e \<Rightarrow> Some 1))"

definition status_text :: "watch_outcome \<Rightarrow> string" where
  "status_text outcome = (case outcome of
       Watch_failed \<Rightarrow> ''Recovery failed or busy; retrying''
     | Watch Restored \<Rightarrow> ''Recovery completed''
     | Watch Waiting \<Rightarrow> ''Pending confirmation''
     | Watch Nothing \<Rightarrow> ''No pending recovery'')"

section \<open>The question\<close>

record ready_obs =
  ry_state :: "dir_obs option"
  ry_netplan :: "dir_obs option"
  ry_entry :: "socket_obs option"
  ry_connect :: bool
  ry_same_uid :: bool
  ry_sent :: int
  ry_answered :: bool
  ry_reply :: string

definition wifi_recovery_supervisor_ready :: "string \<Rightarrow> string \<Rightarrow> ready_obs \<Rightarrow> bool" where
  "wifi_recovery_supervisor_ready state_path netplan_path obs =
     (case (open_directory state_path True (ry_state obs), open_directory netplan_path False (ry_netplan obs), ry_entry obs) of
        (Some state, Some netplan, Some entry) \<Rightarrow>
          if \<not> private_socket entry \<or> \<not> address_ok state_path \<or> \<not> ry_connect obs \<or> \<not> ry_same_uid obs then False
          else if ry_sent obs \<noteq> int (length watch_query) \<or> \<not> ry_answered obs then False
          else let expected = watch_identity state netplan
            in expected \<noteq> [] \<and> length (ry_reply obs) = length expected
               \<and> take (length expected) (take 160 (ry_reply obs)) = expected
      | _ \<Rightarrow> False)"


section \<open>The identity tells directories apart\<close>

lemma show_nat_space:
  assumes "show_nat m @ CHR '' '' # x = show_nat n @ CHR '' '' # y"
  shows "m = n \<and> x = y"
proof -
  have t: "takeWhile is_digit (show_nat k @ CHR '' '' # z) = show_nat k" "dropWhile is_digit (show_nat k @ CHR '' '' # z) = CHR '' '' # z" for k z
    using show_nat_digits [of k] by (simp_all add: is_digit_def)
  have "show_nat m = show_nat n" "x = y" using assms t by (metis, metis list.inject)
  then show ?thesis using digits_val_show_nat by metis
qed

lemma watch_identity_eq:
  assumes "watch_identity a b = watch_identity c d" "watch_identity a b \<noteq> []"
  shows "same_directory a c \<and> same_directory b d"
proof -
  have "show_nat (ob_dev a) @ CHR '' '' # show_nat (ob_ino a) @ CHR '' '' # show_nat (ob_dev b) @ CHR '' '' # show_nat (ob_ino b) @ CHR '' '' # []
    = show_nat (ob_dev c) @ CHR '' '' # show_nat (ob_ino c) @ CHR '' '' # show_nat (ob_dev d) @ CHR '' '' # show_nat (ob_ino d) @ CHR '' '' # []"
    using assms by (simp add: watch_identity_def Let_def split: if_splits)
  moreover have "show_nat m = show_nat n \<Longrightarrow> m = n" for m n using digits_val_show_nat by metis
  ultimately show ?thesis by (auto simp: same_directory_def dest!: show_nat_space)
qed

section \<open>Rounds\<close>

lemma tick_world: "sv_world (supervisor_tick sha kdf reconfigure later sv) = snd (wifi_managed_recovery_tick sha kdf reconfigure (sv_world sv))"
  by (simp add: supervisor_tick_def Let_def split: prod.split)

lemma round_world:
  "sv_world (snd (supervisor_round sha kdf reconfigure sp np scope rd sv))
     \<in> {sv_world sv, snd (wifi_managed_recovery_tick sha kdf reconfigure (sv_world sv))}"
  by (auto simp: supervisor_round_def Let_def serve_clients_def tick_world split: prod.split)

lemma tick_safe_to:
  assumes "does reconfigure same_files"
  shows "safe_to sha kdf w (snd (wifi_managed_recovery_tick sha kdf reconfigure w))"
  using safe_does [OF recovery_tick_does [OF assms], of sha kdf w, where kdf = kdf]
  by (simp add: recovering_def prod_eq_iff)

lemma loop_safe:
  assumes "does reconfigure same_files"
  shows "safe_to sha kdf (sv_world sv) (sv_world (snd (supervisor_loop sha kdf reconfigure sp np scope rds sv)))"
proof (induction rds arbitrary: sv)
  case (Cons rd rds)
  obtain res sv' where r: "supervisor_round sha kdf reconfigure sp np scope rd sv = (res, sv')" by fastforce
  have s: "safe_to sha kdf (sv_world sv) (sv_world sv')"
    using round_world [of sha kdf reconfigure sp np scope rd sv] tick_safe_to [OF assms] r by auto
  with Cons.IH [of sv'] r show ?case by (cases res) (auto intro: safe_trans)
qed simp

section \<open>Properties\<close>

text \<open>The directories of a start are seen again by a round.\<close>

definition same_scope :: "string \<Rightarrow> string \<Rightarrow> dir_obs \<times> dir_obs \<times> string \<Rightarrow> watch_round \<Rightarrow> bool" where
  "same_scope state_path netplan_path scope rd \<longleftrightarrow>
     (case (open_directory state_path True (rd_state rd), open_directory netplan_path False (rd_netplan rd)) of
        (Some a, Some b) \<Rightarrow> same_directory a (fst scope) \<and> same_directory b (fst (snd scope))
      | _ \<Rightarrow> False)"

text \<open>C7: A supervisor that is started while a change is pending, past its deadline or from an earlier
  boot, ends the change in the first round of its loop, whatever its clients do and even if the round then
  fails: the confirmed configuration is installed and no change is pending. However it goes on after that,
  the confirmed configuration stays the same. It reconfigures the network as the program does, on a machine
  that works: the disk holds a well-formed record and a configuration of the program's own, the system calls
  on the files and the clock succeed (\<open>calm\<close>), SHA-256 can be computed, the service's override is the
  installed one and the commands the program runs succeed (\<open>linux_ready\<close>), and the directories are those
  of the start.\<close>

theorem supervisor_recovers:
  assumes "disk_ok sha (lx_kdf lx) (w_disk w)" "stored sha (w_disk w) = Some r" "rr_phase r = J_Pending" "boot_valid boot"
    "rr_boot r \<noteq> boot \<or> now \<ge> rr_deadline r" "\<forall>b. checksum sha b \<noteq> None" "calm boot now w" "linux_ready lx"
    and start: "supervisor_setup state_path netplan_path st = Inr scope" "start \<le> rd_now rd" "\<not> rd_stop rd"
      "same_scope state_path netplan_path scope rd"
    and run: "run_wifi_recovery_supervisor sha (lx_kdf lx) (linux_reconfigure lx) state_path netplan_path st start [rd] w = (res, sv)"
  shows "d_netplan (w_disk (sv_world sv)) = confirmed sha (w_disk w) \<and> \<not> change_pending sha (w_disk (sv_world sv))
    \<and> sv_last sv = Some (Watch Restored)
    \<and> confirmed sha (w_disk (sv_world (snd (run_wifi_recovery_supervisor sha (lx_kdf lx) (linux_reconfigure lx)
          state_path netplan_path st start (rd # rds) w))))
        = confirmed sha (w_disk w)"
proof -
  let ?sv = "\<lparr>sv_world = w, sv_next = start, sv_last = None, sv_log = []\<rparr>"
  obtain w' where w': "wifi_managed_recovery_tick sha (lx_kdf lx) (linux_reconfigure lx) w = (Inr Restored, w')"
    "d_netplan (w_disk w') = confirmed sha (w_disk w)" "\<not> change_pending sha (w_disk w')"
    using recovery_completes [OF assms(1-7) reconfigure_files linux_works [OF assms(8)]] by blast
  have round: "sv_world (snd (supervisor_round sha (lx_kdf lx) (linux_reconfigure lx) state_path netplan_path scope rd ?sv)) = w'
      \<and> sv_last (snd (supervisor_round sha (lx_kdf lx) (linux_reconfigure lx) state_path netplan_path scope rd ?sv)) = Some (Watch Restored)"
    using start(2-4) w'(1)
    by (auto simp: supervisor_round_def same_scope_def supervisor_tick_def serve_clients_def Let_def split: prod.splits option.splits)
  have "sv_world sv = w' \<and> sv_last sv = Some (Watch Restored)"
    using run round start(1)
    by (auto simp: run_wifi_recovery_supervisor_def Let_def split: prod.splits watch_result.splits)
  moreover have "safe_to sha (lx_kdf lx) w (sv_world (snd (run_wifi_recovery_supervisor sha (lx_kdf lx) (linux_reconfigure lx) state_path netplan_path st start (rd # rds) w)))"
    using loop_safe [OF reconfigure_files, where sha = sha and kdf = "lx_kdf lx" and sv = ?sv and sp = state_path and np = netplan_path
        and scope = scope and rds = "rd # rds" and lx1 = lx] start(1)
    by (simp add: run_wifi_recovery_supervisor_def Let_def)
  then have "confirmed sha (w_disk (sv_world (snd (run_wifi_recovery_supervisor sha (lx_kdf lx) (linux_reconfigure lx) state_path netplan_path st start (rd # rds) w))))
      = confirmed sha (w_disk w)"
    using assms(1) by (fastforce simp: safe_to_def keeps_confirmed_def dest: last_in_set split: if_splits)
  ultimately show ?thesis using w' by simp
qed

text \<open>C31: A process that is told the supervisor is ready talks to one that watches the same two
  directories: a reply made by a supervisor for the directories it was started with is accepted only
  if the asking process sees directories of the same identity, and then by a peer of the same user.\<close>

theorem ready_means_same_directories:
  assumes "wifi_recovery_supervisor_ready state_path netplan_path obs"
    "supervisor_setup state_path' netplan_path' st = Inr (a, b, response)" "ry_reply obs = response"
  shows "ry_same_uid obs \<and> (\<exists>state netplan. ry_state obs = Some state \<and> ry_netplan obs = Some netplan
    \<and> same_directory state a \<and> same_directory netplan b)"
proof -
  obtain x y where xy: "open_directory state_path True (ry_state obs) = Some x"
    "open_directory netplan_path False (ry_netplan obs) = Some y" "ry_same_uid obs"
    and e: "watch_identity x y \<noteq> []" "length response = length (watch_identity x y)"
      "take (length (watch_identity x y)) (take 160 response) = watch_identity x y"
    using assms(1,3) by (auto simp: wifi_recovery_supervisor_ready_def Let_def split: option.splits if_splits)
  have r: "response = watch_identity a b"
    using assms(2) by (auto simp: supervisor_setup_def Let_def split: option.splits if_splits previous_entry.splits)
  have "length (watch_identity x y) < 160" using e(1) by (auto simp: watch_identity_def Let_def split: if_splits)
  with e have "watch_identity x y = watch_identity a b" unfolding r by simp
  from watch_identity_eq [OF this e(1)] have "same_directory x a \<and> same_directory y b" .
  then show ?thesis using xy by (auto simp: open_directory_def split: option.splits if_splits)
qed

section \<open>A concrete supervisor\<close>

definition demo_dir :: dir_obs where
  "demo_dir = \<lparr>ob_dev = 1, ob_ino = 2, ob_own = True, ob_mode = 0\<rparr>"

definition demo_start :: supervisor_start where
  "demo_start = \<lparr>su_callbacks = True, su_state = Some demo_dir, su_netplan = Some demo_dir,
     su_lock = Some \<lparr>lk_regular = True, lk_own = True, lk_mode = 0, lk_nlink = 1, lk_flock = True\<rparr>,
     su_previous = No_entry, su_bind = True, su_stat = True, su_listen = True\<rparr>"

definition demo_watch_round :: watch_round where
  "demo_watch_round = \<lparr>rd_stop = False, rd_now = 7, rd_state = Some demo_dir, rd_netplan = Some demo_dir, rd_later = 8,
     rd_poll = -1, rd_interrupted = False, rd_broken = False, rd_clients = []\<rparr>"

lemma demo_setup: "supervisor_setup ''/s'' ''/n'' demo_start = Inr (demo_dir, demo_dir, ''ENCODER-WATCHDOG-READY-1 1 2 1 2'')"
proof -
  have "watch_identity demo_dir demo_dir = ''ENCODER-WATCHDOG-READY-1 1 2 1 2''" by code_simp
  then show ?thesis
    by (simp add: supervisor_setup_def demo_start_def open_directory_def demo_dir_def lock_ok_def address_ok_def Let_def)
qed

theorem supervisor_recovers_witness:
  "\<not> change_pending demo_sha (w_disk (sv_world (snd (run_wifi_recovery_supervisor demo_sha (lx_kdf demo_linux) (linux_reconfigure demo_linux)
     ''/s'' ''/n'' demo_start 5 [demo_watch_round] demo_pending))))"
proof -
  have "linux_ready demo_linux" by (simp add: linux_ready_def demo_linux_def)
  moreover have "same_scope ''/s'' ''/n'' (demo_dir, demo_dir, ''ENCODER-WATCHDOG-READY-1 1 2 1 2'') demo_watch_round"
    by (simp add: same_scope_def demo_watch_round_def open_directory_def demo_dir_def same_directory_def)
  ultimately show ?thesis
    using supervisor_recovers [OF demo_ok demo_stored _ demo_boot_valid _ _ demo_calm _ demo_setup, where start = 5
        and lx = demo_linux and rd = demo_watch_round and rds = "[]"]
    by (auto simp: demo_record_def checksum_def demo_sha_def demo_watch_round_def prod_eq_iff)
qed

theorem ready_means_same_directories_witness:
  "same_directory demo_dir demo_dir"
proof -
  have "wifi_recovery_supervisor_ready ''/s'' ''/n'' \<lparr>ry_state = Some demo_dir, ry_netplan = Some demo_dir,
      ry_entry = Some \<lparr>so_is_socket = True, so_own = True, so_mode = 0, so_nlink = 1\<rparr>, ry_connect = True, ry_same_uid = True,
      ry_sent = 23, ry_answered = True, ry_reply = ''ENCODER-WATCHDOG-READY-1 1 2 1 2''\<rparr>"
    by code_simp
  from ready_means_same_directories [OF this demo_setup] show ?thesis by simp
qed

end
