(* ===== verification/Client.thy ===== *)
theory Client
  imports Storage Protocol Ciphers AuditLog
begin

text \<open>
  The client's core (client/src/client_core.cpp): the requests it sends, the format in which it
  keeps an encrypted file (a signature, a header and the ciphertext), the older metadata files, and
  encryption and decryption of files, which replace the file in place.

  A connection is given by the outcomes of its set-up, the return values of the writes and by
  \<open>cn_reply\<close>: the bytes the server sends back before it closes, as a function of the bytes it
  received. \<open>ce_order\<close> is the iteration order of \<open>std::unordered_map\<close>, \<open>ce_memory\<close> the size up to
  which a buffer can be allocated, \<open>ce_sha256\<close> the digest of OpenSSL.
\<close>

section \<open>State\<close>

record client_config =
  cc_host :: string
  cc_port :: int
  cc_ca_file :: string
  cc_client_cert :: string
  cc_client_key :: string
  cc_verify_peer :: bool
  cc_default_key_storage :: string
  cc_clipboard_max_bytes :: nat
  cc_decrypt_to_temp :: bool
  cc_demo_mode :: bool
  cc_permissions :: nat

record client_env =
  ce_order :: "header \<Rightarrow> header"
  ce_hostname :: "string option"
  ce_user :: "string option"
  ce_home :: "string option"
  ce_sha256 :: "byte list \<Rightarrow> nat \<Rightarrow> byte"
  ce_memory :: nat

record conn =
  cn_net :: bool
  cn_connect :: "string option"
  cn_tls_init :: "string option"
  cn_handshake :: "string option"
  cn_rets :: "int list"
  cn_reply :: "byte list \<Rightarrow> byte list"

record client =
  cl_fs :: fs
  cl_clock :: "nat \<Rightarrow> int"
  cl_ticks :: nat
  cl_wout :: "nat \<Rightarrow> wout"
  cl_writes :: nat
  cl_removes :: "path \<Rightarrow> bool"
  cl_error :: string

record encrypt_params =
  ep_username :: string
  ep_password :: string
  ep_file_path :: path
  ep_cipher :: cipher
  ep_hash :: hash_alg
  ep_key_storage :: string

record encrypt_result =
  er_ok :: bool
  er_message :: string
  er_file_id :: string
  er_key_id :: string
  er_hash_value :: string
  er_key :: "byte list"
  er_iv :: "byte list"
  er_tag :: "byte list"

record decrypt_params =
  dp_username :: string
  dp_password :: string
  dp_file_path :: path

record decrypt_result =
  dr_ok :: bool
  dr_message :: string
  dr_data :: "byte list"
  dr_original_name :: string
  dr_cipher :: cipher
  dr_hash :: hash_alg
  dr_key_storage :: string
  dr_file_id :: string

definition cl_write_file :: "path \<Rightarrow> byte list \<Rightarrow> client \<Rightarrow> bool \<times> client" where
  "cl_write_file p data c = (case write_file (cl_wout c (cl_writes c)) p data (cl_fs c) of
     (ok, fs) \<Rightarrow> (ok, c\<lparr>cl_fs := fs, cl_writes := cl_writes c + 1\<rparr>))"

definition log_client_error :: "string \<Rightarrow> client \<Rightarrow> client" where
  "log_client_error message c =
     (let line = show_int (cl_clock c (cl_ticks c)) @ '' '' @ message in
      c\<lparr>cl_ticks := cl_ticks c + 1, cl_writes := cl_writes c + 1,
        cl_fs := append_file (cl_wout c (cl_writes c)) ''client.log'' (line @ [CHR 0x0A]) (cl_fs c)\<rparr>)"

text \<open>\<open>fs::remove\<close> with an error code that is ignored.\<close>

definition cl_remove :: "path \<Rightarrow> client \<Rightarrow> client" where
  "cl_remove p c = (if cl_removes c p then c\<lparr>cl_fs := (cl_fs c)(p := None)\<rparr> else c)"

text \<open>\<open>fs::path::filename\<close>: what follows the last slash.\<close>

definition path_filename :: "path \<Rightarrow> string" where
  "path_filename p = rev (takeWhile (\<lambda>x. x \<noteq> CHR ''/'') (rev p))"

section \<open>The identity of the client\<close>

definition env_label :: "string \<Rightarrow> string option \<Rightarrow> string" where
  "env_label def v = (case v of None \<Rightarrow> def | Some s \<Rightarrow> if s = [] then def else s)"

definition host_label :: "client_env \<Rightarrow> string" where
  "host_label env = env_label ''unknown-host'' (ce_hostname env)"

definition user_label :: "client_env \<Rightarrow> string" where
  "user_label env = env_label ''unknown-user'' (ce_user env)"

definition home_label :: "client_env \<Rightarrow> string" where
  "home_label env = env_label [] (ce_home env)"

definition client_id_value :: "client_env \<Rightarrow> string" where
  "client_id_value env =
     (let seed = host_label env @ ''|'' @ user_label env @ ''|'' @ home_label env
      in bytes_to_hex (map (ce_sha256 env (bytes_of seed)) [0..<32]))"

section \<open>A request\<close>

text \<open>\<open>Send_raised\<close>: the buffer for the announced size cannot be allocated and the exception leaves the call.\<close>

datatype sent = Sent header "byte list" | Not_sent | Send_raised

definition give_up :: "string \<Rightarrow> string \<Rightarrow> client \<Rightarrow> sent \<times> client" where
  "give_up logged error c = (Not_sent, (log_client_error logged c)\<lparr>cl_error := error\<rparr>)"

text \<open>The size the reply announces; \<open>None\<close> when it is not a number.\<close>

definition reply_size :: "header \<Rightarrow> nat option" where
  "reply_size resp =
     (let enc_size = hd_get resp ''enc_size'' []; plain_size = hd_get resp ''plain_size'' [] in
      if enc_size \<noteq> [] then stoull enc_size
      else if plain_size \<noteq> [] then stoull plain_size
      else Some 0)"

definition receive_payload :: "client_env \<Rightarrow> header \<Rightarrow> byte list \<Rightarrow> client \<Rightarrow> sent \<times> client" where
  "receive_payload env resp rest c = (case reply_size resp of
       None \<Rightarrow> (Not_sent, c)
     | Some n \<Rightarrow>
         if n = 0 then (Sent resp [], c)
         else if n > ce_memory env then (Send_raised, c)
         else if length rest < n
         then give_up ''read payload failed'' ''Connection lost while receiving the file'' c
         else (Sent resp (take n rest), c))"

definition send_request ::
  "client_env \<Rightarrow> client_config \<Rightarrow> conn \<Rightarrow> header \<Rightarrow> byte list \<Rightarrow> client \<Rightarrow> sent \<times> client" where
  "send_request env cfg conn header payload c =
     (let c = c\<lparr>cl_error := ''Invalid or incomplete server response''\<rparr> in
      if \<not> cn_net conn then give_up ''net_init failed'' ''Network initialization failed'' c
      else (case cn_connect conn of
          Some err \<Rightarrow> give_up (''socket connect failed: '' @ err)
            (''Cannot reach '' @ cc_host cfg @ '':'' @ show_int (cc_port cfg)
              @ ''. Check the address, network and server. '' @ err) c
        | None \<Rightarrow> (case cn_tls_init conn of
            Some err \<Rightarrow> give_up (''tls init failed: '' @ err)
              (''Cannot load TLS configuration. Check the certificate file. '' @ err) c
          | None \<Rightarrow> (case cn_handshake conn of
              Some err \<Rightarrow> give_up (''tls connect failed: '' @ err)
                (''TLS handshake failed. Check the certificate and device clocks. '' @ err) c
            | None \<Rightarrow> (case write_header (cn_rets conn) (ce_order env header) of
                (False, out, rets) \<Rightarrow> give_up ''write header failed'' ''Connection lost while sending the request'' c
              | (True, out, rets) \<Rightarrow> (case write_loop rets payload of
                  (False, out2, rets) \<Rightarrow> give_up ''write payload failed'' ''Connection lost while sending the file'' c
                | (True, out2, rets) \<Rightarrow> (case read_header 65536 (cn_reply conn (out @ out2)) of
                    None \<Rightarrow> give_up ''read header failed''
                      ''Server closed the connection or returned an invalid response'' c
                  | Some (resp, rest) \<Rightarrow> receive_payload env resp rest c)))))))"

section \<open>The file an encryption leaves\<close>

definition kFileMagic :: string where
  "kFileMagic = ''CIPHEATOR'' @ [CHR 0x0A]"

definition set_if :: "string \<Rightarrow> string \<Rightarrow> header \<Rightarrow> header" where
  "set_if key v h = (if v = [] then h else hd_set key v h)"

text \<open>\<open>header.set(name, base64_encode(bytes))\<close> unless there are none.\<close>

definition set_b64 :: "string \<Rightarrow> byte list \<Rightarrow> header \<Rightarrow> header" where
  "set_b64 key bytes h = (if bytes = [] then h else hd_set key (base64_encode bytes) h)"

definition embedded_header :: "cipher \<Rightarrow> hash_alg \<Rightarrow> string \<Rightarrow> encrypt_result \<Rightarrow> header" where
  "embedded_header cipher hash key_storage r =
     (set_b64 ''tag'' (er_tag r) \<circ> set_b64 ''iv'' (er_iv r)
       \<circ> set_if ''hash_value'' (er_hash_value r) \<circ> set_if ''key_id'' (er_key_id r)
       \<circ> set_if ''file_id'' (er_file_id r) \<circ> hd_set ''key_storage'' key_storage
       \<circ> hd_set ''hash'' (hash_to_string hash) \<circ> hd_set ''cipher'' (cipher_to_string cipher)
       \<circ> hd_set ''version'' ''1'') []"

definition write_embedded_file ::
  "client_env \<Rightarrow> path \<Rightarrow> encrypt_params \<Rightarrow> encrypt_result \<Rightarrow> string \<Rightarrow> byte list \<Rightarrow> client
     \<Rightarrow> (string + unit) \<times> client" where
  "write_embedded_file env p params r key_storage enc_data c =
     (let h = embedded_header (ep_cipher params) (ep_hash params) key_storage r in
      if key_storage = ''client'' \<and> er_key r = [] then (Inl ''Missing client key'', c)
      else
        let h = (if key_storage = ''client'' then hd_set ''key'' (base64_encode (er_key r)) h else h);
            header_blob = kFileMagic @ serialize (ce_order env h)
        in (case cl_write_file p (bytes_of header_blob @ enc_data) c of
              (False, c) \<Rightarrow> (Inl ''Failed to write encrypted file'', c)
            | (True, c) \<Rightarrow> (Inr (), c)))"

text \<open>\<open>std::search\<close> for two line feeds.\<close>

fun seek_blank :: "byte list \<Rightarrow> nat option" where
  "seek_blank (a # b # s) = (if a = 0x0A \<and> b = 0x0A then Some 0 else map_option Suc (seek_blank (b # s)))"
| "seek_blank s = None"

datatype embedded_read = Not_embedded "byte list" | Embedded header "byte list" | Embedded_error string

definition read_embedded_file :: "fs \<Rightarrow> path \<Rightarrow> embedded_read" where
  "read_embedded_file fs p = (case read_file fs p of
       None \<Rightarrow> Embedded_error ''Failed to read file''
     | Some file \<Rightarrow>
         if length file < length kFileMagic \<or> take (length kFileMagic) file \<noteq> bytes_of kFileMagic
         then Not_embedded file
         else (case seek_blank (drop (length kFileMagic) file) of
             None \<Rightarrow> Embedded_error ''Invalid embedded header''
           | Some i \<Rightarrow> Embedded (header_parse (string_of (take (i + 2) (drop (length kFileMagic) file))))
               (drop (length kFileMagic + i + 2) file)))"

record metadata =
  md_key_storage :: string
  md_file_id :: string
  md_key_id :: string
  md_hash_value :: string
  md_key_file :: string
  md_cipher :: cipher
  md_hash :: hash_alg
  md_key :: "byte list"
  md_iv :: "byte list"
  md_tag :: "byte list"

text \<open>A field of bytes; an absent or empty one gives no bytes.\<close>

definition b64_field :: "header \<Rightarrow> string \<Rightarrow> byte list option" where
  "b64_field h key = (let v = hd_get h key [] in if v = [] then Some [] else base64_decode_ok v)"

definition extract_metadata_from_header :: "header \<Rightarrow> string + metadata" where
  "extract_metadata_from_header h =
     (case cipher_from_string (hd_get h ''cipher'' []) of
        None \<Rightarrow> Inl ''Invalid cipher in embedded header''
      | Some cipher \<Rightarrow> (case hash_from_string (hd_get h ''hash'' []) of
          None \<Rightarrow> Inl ''Invalid hash in embedded header''
        | Some hash \<Rightarrow> (case b64_field h ''key'' of
            None \<Rightarrow> Inl ''Invalid key in embedded header''
          | Some key \<Rightarrow> (case b64_field h ''iv'' of
              None \<Rightarrow> Inl ''Invalid iv in embedded header''
            | Some iv \<Rightarrow> (case b64_field h ''tag'' of
                None \<Rightarrow> Inl ''Invalid tag in embedded header''
              | Some tag \<Rightarrow> Inr \<lparr>md_key_storage = hd_get h ''key_storage'' ''server'',
                  md_file_id = hd_get h ''file_id'' [], md_key_id = hd_get h ''key_id'' [],
                  md_hash_value = hd_get h ''hash_value'' [], md_key_file = [], md_cipher = cipher,
                  md_hash = hash, md_key = key, md_iv = iv, md_tag = tag\<rparr>)))))"


section \<open>Metadata files and key files of earlier versions\<close>

definition put_line :: "string \<Rightarrow> string \<Rightarrow> string" where
  "put_line key v = key @ ''='' @ v @ [CHR 0x0A]"

definition put_line_if :: "string \<Rightarrow> string \<Rightarrow> string" where
  "put_line_if key v = (if v = [] then [] else put_line key v)"

definition metadata_text :: "path \<Rightarrow> encrypt_params \<Rightarrow> encrypt_result \<Rightarrow> string" where
  "metadata_text file_path params r =
     put_line ''cipher'' (cipher_to_string (ep_cipher params)) @ put_line ''hash'' (hash_to_string (ep_hash params))
     @ put_line ''key_storage'' (ep_key_storage params)
     @ put_line_if ''file_id'' (er_file_id r) @ put_line_if ''key_id'' (er_key_id r)
     @ put_line_if ''hash_value'' (er_hash_value r)
     @ (if er_iv r = [] then [] else put_line ''iv'' (base64_encode (er_iv r)))
     @ (if er_tag r = [] then [] else put_line ''tag'' (base64_encode (er_tag r)))
     @ (if ep_key_storage params = ''client'' then put_line ''key_file'' (file_path @ ''.key'') else [])"

text \<open>The stream is tested when it is opened only.\<close>

definition write_metadata :: "path \<Rightarrow> encrypt_params \<Rightarrow> encrypt_result \<Rightarrow> client \<Rightarrow> bool \<times> client" where
  "write_metadata file_path params r c =
     (case cl_write_file (file_path @ ''.cph'') (bytes_of (metadata_text file_path params r)) c of
        (ok, c') \<Rightarrow> (cl_wout c (cl_writes c) \<noteq> W_noopen, c'))"

text \<open>The loop over the lines; the flags tell whether the cipher and the key storage were given.\<close>

fun read_metadata_lines :: "string list \<Rightarrow> bool \<Rightarrow> bool \<Rightarrow> metadata \<Rightarrow> string + bool \<times> bool \<times> metadata" where
  "read_metadata_lines [] cs ks m = Inr (cs, ks, m)"
| "read_metadata_lines (line # rest) cs ks m =
     (case cut (CHR ''='') line of
        None \<Rightarrow> read_metadata_lines rest cs ks m
      | Some (key, v) \<Rightarrow>
          if key = ''cipher'' then
            (case cipher_from_string v of
               None \<Rightarrow> Inl ''Invalid cipher in metadata''
             | Some x \<Rightarrow> read_metadata_lines rest True ks (m\<lparr>md_cipher := x\<rparr>))
          else if key = ''hash'' then
            (case hash_from_string v of
               None \<Rightarrow> Inl ''Invalid hash in metadata''
             | Some x \<Rightarrow> read_metadata_lines rest cs ks (m\<lparr>md_hash := x\<rparr>))
          else if key = ''key_storage'' then read_metadata_lines rest cs True (m\<lparr>md_key_storage := v\<rparr>)
          else if key = ''file_id'' then read_metadata_lines rest cs ks (m\<lparr>md_file_id := v\<rparr>)
          else if key = ''key_id'' then read_metadata_lines rest cs ks (m\<lparr>md_key_id := v\<rparr>)
          else if key = ''hash_value'' then read_metadata_lines rest cs ks (m\<lparr>md_hash_value := v\<rparr>)
          else if key = ''key_file'' then read_metadata_lines rest cs ks (m\<lparr>md_key_file := v\<rparr>)
          else if key = ''iv'' then
            (case base64_decode_ok v of
               None \<Rightarrow> Inl ''Invalid iv''
             | Some x \<Rightarrow> read_metadata_lines rest cs ks (m\<lparr>md_iv := x\<rparr>))
          else if key = ''tag'' then
            (case base64_decode_ok v of
               None \<Rightarrow> Inl ''Invalid tag''
             | Some x \<Rightarrow> read_metadata_lines rest cs ks (m\<lparr>md_tag := x\<rparr>))
          else read_metadata_lines rest cs ks m)"

text \<open>The cipher is not set before a line gives it; it is not used when none does.\<close>

definition no_metadata :: metadata where
  "no_metadata = \<lparr>md_key_storage = ''server'', md_file_id = [], md_key_id = [], md_hash_value = [], md_key_file = [],
     md_cipher = AES_256_GCM, md_hash = SHA256, md_key = [], md_iv = [], md_tag = []\<rparr>"

definition read_metadata :: "fs \<Rightarrow> path \<Rightarrow> string + metadata" where
  "read_metadata fs file_path = (case read_file fs (file_path @ ''.cph'') of
       None \<Rightarrow> Inl ''Metadata file not found''
     | Some text \<Rightarrow> (case read_metadata_lines (getlines (CHR 0x0A) (string_of text)) False False no_metadata of
           Inl e \<Rightarrow> Inl e
         | Inr (cs, ks, m) \<Rightarrow> if \<not> cs \<or> \<not> ks then Inl ''Incomplete metadata'' else Inr m))"

definition store_key_file :: "path \<Rightarrow> byte list \<Rightarrow> byte list \<Rightarrow> byte list \<Rightarrow> client \<Rightarrow> bool \<times> client" where
  "store_key_file p key iv tag c = cl_write_file p (key_blob (key, iv, tag)) c"

definition load_key_file :: "fs \<Rightarrow> path \<Rightarrow> (byte list \<times> byte list \<times> byte list) option" where
  "load_key_file fs p = (case read_file fs p of None \<Rightarrow> None | Some blob \<Rightarrow> parse_key_blob blob)"

section \<open>Encryption\<close>

datatype outcome = Returned bool | Raised

definition encrypt_request :: "client_env \<Rightarrow> encrypt_params \<Rightarrow> string \<Rightarrow> nat \<Rightarrow> header" where
  "encrypt_request env p key_storage n =
     (hd_set ''file_size'' (show_nat n) \<circ> hd_set ''file_name'' (path_filename (ep_file_path p))
       \<circ> hd_set ''key_storage'' key_storage \<circ> hd_set ''hash'' (hash_to_string (ep_hash p))
       \<circ> hd_set ''cipher'' (cipher_to_string (ep_cipher p)) \<circ> hd_set ''client_host'' (host_label env)
       \<circ> hd_set ''client_id'' (client_id_value env) \<circ> hd_set ''password'' (ep_password p)
       \<circ> hd_set ''username'' (ep_username p) \<circ> hd_set ''op'' ''encrypt'') []"

text \<open>A field of the reply goes to the result even when its text is invalid, which ends the call.\<close>

definition take_b64 ::
  "header \<Rightarrow> string \<Rightarrow> string \<Rightarrow> (byte list \<Rightarrow> encrypt_result \<Rightarrow> encrypt_result) \<Rightarrow> encrypt_result
     \<Rightarrow> bool \<times> encrypt_result" where
  "take_b64 resp key message put r =
     (let v = hd_get resp key [] in
      if v = [] then (True, r)
      else (case base64_decode v of
          (d, True) \<Rightarrow> (True, put d r)
        | (d, False) \<Rightarrow> (False, (put d r)\<lparr>er_message := message\<rparr>)))"

definition take_reply :: "header \<Rightarrow> encrypt_result \<Rightarrow> bool \<times> encrypt_result" where
  "take_reply resp r =
     (let r = r\<lparr>er_file_id := hd_get resp ''file_id'' [], er_hash_value := hd_get resp ''hash_value'' [],
                er_key_id := hd_get resp ''key_id'' []\<rparr> in
      (case take_b64 resp ''key'' ''Invalid key'' (\<lambda>d r. r\<lparr>er_key := d\<rparr>) r of
         (False, r) \<Rightarrow> (False, r)
       | (True, r) \<Rightarrow> (case take_b64 resp ''iv'' ''Invalid iv'' (\<lambda>d r. r\<lparr>er_iv := d\<rparr>) r of
           (False, r) \<Rightarrow> (False, r)
         | (True, r) \<Rightarrow> take_b64 resp ''tag'' ''Invalid tag'' (\<lambda>d r. r\<lparr>er_tag := d\<rparr>) r)))"

definition encrypt_data ::
  "client_env \<Rightarrow> client_config \<Rightarrow> conn \<Rightarrow> encrypt_params \<Rightarrow> byte list \<Rightarrow> bool \<Rightarrow> encrypt_result \<Rightarrow> client
     \<Rightarrow> outcome \<times> encrypt_result \<times> client" where
  "encrypt_data env cfg conn p data write_to_disk r c =
     (let r = r\<lparr>er_ok := False\<rparr>;
          key_storage = (if ep_key_storage p = [] then cc_default_key_storage cfg else ep_key_storage p) in
      (case send_request env cfg conn (encrypt_request env p key_storage (length data)) data c of
         (Send_raised, c) \<Rightarrow> (Raised, r, c)
       | (Not_sent, c) \<Rightarrow> (Returned False, r\<lparr>er_message := cl_error c\<rparr>, log_client_error ''encrypt request failed'' c)
       | (Sent resp enc_data, c) \<Rightarrow>
           if hd_get resp ''status'' [] \<noteq> ''ok'' then
             let m = hd_get resp ''message'' ''Server error''
             in (Returned False, r\<lparr>er_message := m\<rparr>, log_client_error (''encrypt server error: '' @ m) c)
           else (case take_reply resp r of
               (False, r) \<Rightarrow> (Returned False, r, c)
             | (True, r) \<Rightarrow>
                 if \<not> write_to_disk then (Returned True, r\<lparr>er_ok := True\<rparr>, c)
                 else (case write_embedded_file env (ep_file_path p) p r key_storage enc_data c of
                     (Inl e, c) \<Rightarrow> (Returned False, r\<lparr>er_message := e\<rparr>,
                        log_client_error (''encrypt failed to write embedded file: '' @ e) c)
                   | (Inr _, c) \<Rightarrow> (Returned True, r\<lparr>er_ok := True\<rparr>,
                        cl_remove (ep_file_path p @ ''.key'') (cl_remove (ep_file_path p @ ''.cph'') c))))))"

definition encrypt_file ::
  "client_env \<Rightarrow> client_config \<Rightarrow> conn \<Rightarrow> encrypt_params \<Rightarrow> encrypt_result \<Rightarrow> client \<Rightarrow> outcome \<times> encrypt_result \<times> client" where
  "encrypt_file env cfg conn p r c = (case read_file (cl_fs c) (ep_file_path p) of
       None \<Rightarrow> (Returned False, r\<lparr>er_message := ''Failed to read file''\<rparr>,
          log_client_error (''encrypt_file failed to read file: '' @ ep_file_path p) c)
     | Some plaintext \<Rightarrow> encrypt_data env cfg conn p plaintext True r c)"


section \<open>Decryption\<close>

definition dr_fail :: "string \<Rightarrow> string \<Rightarrow> decrypt_result \<Rightarrow> client \<Rightarrow> outcome \<times> decrypt_result \<times> client" where
  "dr_fail logged message r c = (Returned False, r\<lparr>dr_message := message\<rparr>, log_client_error logged c)"

definition decrypt_request :: "client_env \<Rightarrow> decrypt_params \<Rightarrow> metadata \<Rightarrow> nat \<Rightarrow> header" where
  "decrypt_request env p m n =
     ((if md_key_storage m = ''server'' then hd_set ''key_id'' (md_key_id m)
       else set_b64 ''tag'' (md_tag m) \<circ> set_b64 ''iv'' (md_iv m) \<circ> hd_set ''key'' (base64_encode (md_key m)))
       \<circ> set_if ''file_id'' (md_file_id m) \<circ> hd_set ''file_size'' (show_nat n)
       \<circ> hd_set ''hash'' (hash_to_string (md_hash m)) \<circ> hd_set ''cipher'' (cipher_to_string (md_cipher m))
       \<circ> hd_set ''client_host'' (host_label env) \<circ> hd_set ''client_id'' (client_id_value env)
       \<circ> hd_set ''password'' (dp_password p) \<circ> hd_set ''username'' (dp_username p) \<circ> hd_set ''op'' ''decrypt'') []"

text \<open>The metadata, their place and the ciphertext of a file: \<open>True\<close> when they are embedded.\<close>

definition find_metadata :: "fs \<Rightarrow> path \<Rightarrow> (string \<times> string) + bool \<times> metadata \<times> byte list" where
  "find_metadata fs p = (case read_embedded_file fs p of
       Embedded_error e \<Rightarrow> Inl (''decrypt_file failed to read embedded file: '' @ e, e)
     | Embedded h ciphertext \<Rightarrow> (case extract_metadata_from_header h of
           Inl e \<Rightarrow> Inl (''decrypt_file failed to parse embedded metadata: '' @ e, e)
         | Inr m \<Rightarrow> Inr (True, m, ciphertext))
     | Not_embedded ciphertext \<Rightarrow> (case read_metadata fs p of
           Inl e \<Rightarrow> Inl (''decrypt_file failed to read metadata: '' @ e, e)
         | Inr m \<Rightarrow> Inr (False, m, ciphertext)))"

text \<open>The key of a file the client keeps the key of.\<close>

definition find_key :: "fs \<Rightarrow> path \<Rightarrow> bool \<Rightarrow> metadata \<Rightarrow> (string \<times> string) + metadata" where
  "find_key fs p embedded m =
     (if md_key_storage m = ''server'' \<and> md_key_id m = []
      then Inl (''decrypt_file missing key_id for server storage'', ''Missing key_id'')
      else if md_key_storage m = ''client'' then
        if md_key m \<noteq> [] then Inr m
        else if embedded then Inl (''decrypt_file missing embedded key'', ''Missing embedded key'')
        else let key_file = (if md_key_file m = [] then p @ ''.key'' else md_key_file m) in
          (case load_key_file fs key_file of
             None \<Rightarrow> Inl (''decrypt_file failed to load key file: '' @ key_file, ''Failed to load key'')
           | Some (key, iv, tag) \<Rightarrow> Inr (m\<lparr>md_key := key, md_iv := iv, md_tag := tag\<rparr>))
      else if md_key_storage m \<noteq> ''server''
      then Inl (''decrypt_file unknown key storage: '' @ md_key_storage m, ''Unknown key storage'')
      else Inr m)"

text \<open>The request for a decryption and what is made of its answer.\<close>

definition decrypt_send ::
  "client_env \<Rightarrow> client_config \<Rightarrow> conn \<Rightarrow> decrypt_params \<Rightarrow> metadata \<Rightarrow> byte list \<Rightarrow> decrypt_result \<Rightarrow> client
     \<Rightarrow> outcome \<times> decrypt_result \<times> client" where
  "decrypt_send env cfg conn p m ciphertext r c =
     (case send_request env cfg conn (decrypt_request env p m (length ciphertext)) ciphertext c of
        (Send_raised, c) \<Rightarrow> (Raised, r, c)
      | (Not_sent, c) \<Rightarrow> dr_fail ''decrypt request failed'' (cl_error c) r c
      | (Sent resp plaintext, c) \<Rightarrow>
          if hd_get resp ''status'' [] \<noteq> ''ok'' then
            dr_fail (''decrypt server error: '' @ hd_get resp ''message'' ''Server error'')
              (hd_get resp ''message'' ''Server error'') r c
          else (Returned True, r\<lparr>dr_data := plaintext, dr_original_name := path_filename (dp_file_path p),
              dr_cipher := md_cipher m, dr_hash := md_hash m, dr_key_storage := md_key_storage m,
              dr_file_id := md_file_id m, dr_ok := True\<rparr>, c))"

definition decrypt_file ::
  "client_env \<Rightarrow> client_config \<Rightarrow> conn \<Rightarrow> decrypt_params \<Rightarrow> decrypt_result \<Rightarrow> client \<Rightarrow> outcome \<times> decrypt_result \<times> client" where
  "decrypt_file env cfg conn p r c =
     (let r = r\<lparr>dr_ok := False\<rparr> in
      (case find_metadata (cl_fs c) (dp_file_path p) of
         Inl (logged, e) \<Rightarrow> dr_fail logged e r c
       | Inr (embedded, m, ciphertext) \<Rightarrow> (case find_key (cl_fs c) (dp_file_path p) embedded m of
           Inl (logged, e) \<Rightarrow> dr_fail logged e r c
         | Inr m \<Rightarrow> decrypt_send env cfg conn p m ciphertext r c)))"

section \<open>Passwords\<close>

text \<open>\<open>Inl\<close> is the error a call that returned false leaves; \<open>None\<close> an exception.\<close>

definition account_request :: "client_env \<Rightarrow> string \<Rightarrow> string \<Rightarrow> string \<Rightarrow> header" where
  "account_request env op username password =
     (hd_set ''client_host'' (host_label env) \<circ> hd_set ''client_id'' (client_id_value env)
       \<circ> hd_set ''password'' password \<circ> hd_set ''username'' username \<circ> hd_set ''op'' op) []"

definition change_password ::
  "client_env \<Rightarrow> client_config \<Rightarrow> conn \<Rightarrow> string \<Rightarrow> string \<Rightarrow> string \<Rightarrow> client \<Rightarrow> (string + unit) option \<times> client" where
  "change_password env cfg conn username password new_password c =
     (case send_request env cfg conn
          (hd_set ''new_password'' new_password (account_request env ''change_password'' username password)) [] c of
        (Send_raised, c) \<Rightarrow> (None, c)
      | (Not_sent, c) \<Rightarrow> (Some (Inl (cl_error c)), c)
      | (Sent resp out, c) \<Rightarrow>
          if hd_get resp ''status'' [] \<noteq> ''ok'' then (Some (Inl (hd_get resp ''message'' ''Server error'')), c)
          else (Some (Inr ()), c))"

definition authenticate ::
  "client_env \<Rightarrow> client_config \<Rightarrow> conn \<Rightarrow> string \<Rightarrow> string \<Rightarrow> client \<Rightarrow> (string + nat) option \<times> client" where
  "authenticate env cfg conn username password c =
     (case send_request env cfg conn (account_request env ''auth_check'' username password) [] c of
        (Send_raised, c) \<Rightarrow> (None, c)
      | (Not_sent, c) \<Rightarrow> (Some (Inl (cl_error c)), c)
      | (Sent resp out, c) \<Rightarrow>
          if hd_get resp ''status'' [] \<noteq> ''ok''
          then (Some (Inl (hd_get resp ''message'' ''Authentication failed'')), c)
          else let v = hd_get resp ''permissions'' ''3'' in
            if length v \<noteq> 1 \<or> of_char (hd v) < (48 :: nat) \<or> of_char (hd v) > (51 :: nat)
            then (Some (Inl ''Invalid permissions in server response''), c)
            else (Some (Inr (of_char (hd v) - 48)), c))"

end
