(* ===== verification/ClientFiles.thy ===== *)
theory ClientFiles
  imports Client
begin

text \<open>
  What the client leaves on the disk and makes of it later: an encrypted file holds the reply of the
  server exactly, its decryption sends that back, and a failed encryption keeps the plaintext unless
  the writing of the file itself failed.
\<close>

section \<open>What a header carries through a file\<close>

definition clean :: "string \<Rightarrow> bool" where
  "clean v \<longleftrightarrow> trimmed v \<and> CHR 0x0A \<notin> set v"

definition good_key :: "string \<Rightarrow> bool" where
  "good_key k \<longleftrightarrow> k \<noteq> [] \<and> trimmed k \<and> CHR '':'' \<notin> set k \<and> CHR 0x0A \<notin> set k"

lemma field_ok_clean: "good_key k \<Longrightarrow> clean v \<Longrightarrow> field_ok (k, v)"
  by (simp add: good_key_def clean_def field_ok_def)

lemma set_update_sub: "set (AList.update k v m) \<subseteq> insert (k, v) (set m)"
  by (induction m) auto

lemma header_ok_set [intro]: "header_ok h \<Longrightarrow> good_key k \<Longrightarrow> clean v \<Longrightarrow> header_ok (hd_set k v h)"
  using set_update_sub [of k v h] field_ok_clean [of k v] by (auto simp: header_ok_def hd_set_def)

lemma header_ok_Nil [simp]: "header_ok []"
  by (simp add: header_ok_def)

lemma header_ok_set_if [intro]: "header_ok h \<Longrightarrow> good_key k \<Longrightarrow> clean v \<Longrightarrow> header_ok (set_if k v h)"
  by (auto simp: set_if_def)

lemma header_ok_order:
  assumes "mset h' = mset h" "header_ok h"
  shows "header_ok h'" "map_of h' = map_of h"
  using assms dkeys_mset [of h h'] mset_eq_setD [OF assms(1)] by (auto simp: header_ok_def)

lemma clean_solid: "\<forall>c \<in> set v. \<not> is_ws c \<Longrightarrow> clean v"
  unfolding clean_def trimmed_def by (cases "v = []") (auto simp: is_ws_def)

lemma b64_solid: "\<forall>c \<in> set (base64_encode bs). \<not> is_ws c"
proof -
  have "\<forall>i \<in> set [0..<64]. \<not> is_ws (kBase64Alphabet ! i)" by code_simp
  then have "\<not> is_ws (b64_at t k)" for t k by (simp add: b64_at_index)
  moreover have "\<not> is_ws (CHR ''='')" by (simp add: is_ws_def)
  ultimately show ?thesis by (induction bs rule: base64_encode.induct) (simp_all add: Let_def)
qed

lemma clean_b64 [simp]: "clean (base64_encode bs)"
  by (rule clean_solid [OF b64_solid])

lemma good_keys:
  "good_key ''op''" "good_key ''username''" "good_key ''password''" "good_key ''client_id''" "good_key ''client_host''"
  "good_key ''cipher''" "good_key ''hash''" "good_key ''key_storage''" "good_key ''file_name''" "good_key ''file_size''"
  "good_key ''file_id''" "good_key ''key_id''" "good_key ''hash_value''" "good_key ''key''" "good_key ''iv''" "good_key ''tag''"
  "good_key ''version''"
  by (simp_all add: good_key_def trimmed_def is_ws_def)

lemma clean_show_nat [simp]: "clean (show_nat n)"
  using show_nat_digits [of n] by (intro clean_solid) (auto simp: is_digit_def is_ws_def)

lemma clean_cipher [simp]: "clean (cipher_to_string x)"
proof -
  have "list_all (\<lambda>s. list_all (\<lambda>c. \<not> is_ws c) (s_wire_name s)) kCipherSpecs" by code_simp
  then show ?thesis
    using find_cipher_spec_total [of x] by (auto simp: cipher_to_string_def list_all_iff intro!: clean_solid)
qed

lemma clean_hash [simp]: "clean (hash_to_string y)"
  by (cases y) (auto intro!: clean_solid simp: is_ws_def)

lemma clean_words [simp]:
  "clean ''1''" "clean ''encrypt''" "clean ''decrypt''" "clean ''server''" "clean ''client''" "clean []"
  by (auto intro!: clean_solid simp: is_ws_def)

lemma seek_line:
  assumes "0x0A \<notin> set bs"
  shows "seek_blank (bs @ 0x0A # x # s)
     = (if x = 0x0A then Some (length bs) else map_option ((+) (Suc (length bs))) (seek_blank (x # s)))"
  using assms
proof (induction bs)
  case Nil
  then show ?case by (cases "seek_blank (x # s)") auto
next
  case (Cons b bs)
  then have "seek_blank ((b # bs) @ 0x0A # x # s) = map_option Suc (seek_blank (bs @ 0x0A # x # s))"
    by (cases bs) auto
  with Cons show ?case by (auto simp: option.map_comp comp_def)
qed

lemma byte_of_nl [simp]: "byte_of (CHR 0x0A) = 0x0A"
  by code_simp

lemma byte_nl_iff [simp]: "byte_of c = 0x0A \<longleftrightarrow> c = CHR 0x0A"
  using char_of_byte_of byte_of_nl by metis

lemma nl_bytes: "0x0A \<in> set (bytes_of l) \<longleftrightarrow> CHR 0x0A \<in> set l"
  by (induction l) (simp, metis bytes_of_simps(2) list.set_intros(1,2) set_ConsD byte_nl_iff)

text \<open>The lines of a header, none of them empty, end at the first blank line.\<close>

lemma seek_lines:
  assumes "\<forall>l \<in> set ls. l \<noteq> [] \<and> CHR 0x0A \<notin> set l" "ls \<noteq> []"
  shows "seek_blank (bytes_of (concat (map (\<lambda>l. l @ [CHR 0x0A]) ls) @ [CHR 0x0A]) @ rest)
    = Some (length (concat (map (\<lambda>l. l @ [CHR 0x0A]) ls)) - 1)"
  using assms
proof (induction ls)
  case (Cons l ls)
  let ?tail = "bytes_of (concat (map (\<lambda>l. l @ [CHR 0x0A]) ls) @ [CHR 0x0A]) @ rest"
  have l: "0x0A \<notin> set (bytes_of l)" using Cons.prems by (simp add: nl_bytes)
  show ?case
  proof (cases "ls = []")
    case True
    with seek_line [OF l, of "0x0A" rest] show ?thesis by simp
  next
    case False
    then obtain m ms where ls: "ls = m # ms" by (cases ls) auto
    with Cons.prems obtain c cs where m: "m = c # cs" "c \<noteq> CHR 0x0A" by (cases m) auto
    have t: "?tail = byte_of c # tl ?tail" by (simp add: ls m bytes_of_def)
    have ne: "concat (map (\<lambda>l. l @ [CHR 0x0A]) ls) \<noteq> []" by (simp add: ls)
    have "seek_blank (bytes_of l @ 0x0A # ?tail) = map_option ((+) (Suc (length l))) (seek_blank ?tail)"
      using seek_line [OF l, of "byte_of c" "tl ?tail"] m(2) t by simp
    also have "\<dots> = Some (length l + 1 + (length (concat (map (\<lambda>l. l @ [CHR 0x0A]) ls)) - 1))"
      using Cons.IH Cons.prems False by simp
    finally show ?thesis using ne by simp
  qed
qed simp

lemma seek_serialize:
  assumes "header_ok h" "h \<noteq> []"
  shows "seek_blank (bytes_of (serialize h) @ rest) = Some (length (serialize h) - 2)"
proof -
  have "\<forall>l \<in> set (map field_line h). l \<noteq> [] \<and> CHR 0x0A \<notin> set l"
    using assms(1) by (auto simp: header_ok_def field_line_no_nl) (auto simp: field_line_def)
  from seek_lines [OF this, of rest] assms(2) show ?thesis by (simp add: serialize_lines)
qed

lemma get_order: "map_of h = map_of h' \<Longrightarrow> hd_get h k d = hd_get h' k d"
  by (simp add: hd_get_def alookup_def)

lemma get_set [simp]: "hd_get (hd_set k v h) k' d = (if k = k' then v else hd_get h k' d)"
  by (simp add: hd_get_def hd_set_def)

lemma get_set_if [simp]: "hd_get (set_if k v h) k' d = (if k = k' \<and> v \<noteq> [] then v else hd_get h k' d)"
  by (simp add: set_if_def)

lemma get_set_b64 [simp]: "hd_get (set_b64 k bs h) k' d = (if k = k' \<and> bs \<noteq> [] then base64_encode bs else hd_get h k' d)"
  by (simp add: set_b64_def)

lemma get_Nil [simp]: "hd_get [] k d = d"
  by (simp add: hd_get_def alookup_def)

lemma b64_Nil [simp]: "base64_encode bs = [] \<longleftrightarrow> bs = []"
  by (cases bs rule: base64_encode.cases) (simp_all add: Let_def)

lemma b64_ok [simp]: "base64_decode_ok (base64_encode bs) = Some bs"
  by (simp add: base64_decode_ok_def base64_decode_encode)

text \<open>The header of the file an encryption writes, with the key when the client keeps it.\<close>

definition file_header :: "encrypt_params \<Rightarrow> encrypt_result \<Rightarrow> string \<Rightarrow> header" where
  "file_header p r ks = (let h = embedded_header (ep_cipher p) (ep_hash p) ks r in
     if ks = ''client'' then hd_set ''key'' (base64_encode (er_key r)) h else h)"

definition clean_result :: "encrypt_result \<Rightarrow> bool" where
  "clean_result r \<longleftrightarrow> clean (er_file_id r) \<and> clean (er_key_id r) \<and> clean (er_hash_value r)"

lemma header_ok_set_b64 [intro]: "header_ok h \<Longrightarrow> good_key k \<Longrightarrow> header_ok (set_b64 k bs h)"
  by (auto simp: set_b64_def)

lemma set_not_Nil [simp]: "hd_set k v h \<noteq> []" "h \<noteq> [] \<Longrightarrow> set_if k v h \<noteq> []" "h \<noteq> [] \<Longrightarrow> set_b64 k bs h \<noteq> []"
proof -
  show *: "hd_set k v h \<noteq> []" for k v h by (cases h) (auto simp: hd_set_def)
  show "h \<noteq> [] \<Longrightarrow> set_if k v h \<noteq> []" "h \<noteq> [] \<Longrightarrow> set_b64 k bs h \<noteq> []"
    using * by (simp_all add: set_if_def set_b64_def)
qed

lemma file_header_ok:
  assumes "clean_result r" "clean ks"
  shows "header_ok (file_header p r ks)" "file_header p r ks \<noteq> []"
  using assms good_keys unfolding file_header_def embedded_header_def clean_result_def comp_def Let_def
  by (auto intro!: header_ok_set header_ok_set_if header_ok_set_b64)

lemma read_written:
  assumes "header_ok h" "h \<noteq> []" "fs p = Some (bytes_of (kFileMagic @ serialize h) @ enc)"
  shows "\<exists>h'. read_embedded_file fs p = Embedded h' enc \<and> map_of h' = map_of h"
proof -
  have len: "2 \<le> length (serialize h)"
    using assms(2) by (cases h) (auto simp: serialize_def)
  have "length kFileMagic = 10" by (simp add: kFileMagic_def)
  then show ?thesis
    using assms(3) seek_serialize [OF assms(1,2), of enc] len header_roundtrip [OF assms(1)]
    by (simp add: read_embedded_file_def read_file_def)
qed

lemma extract_cong:
  assumes "map_of h = map_of h'"
  shows "extract_metadata_from_header h = extract_metadata_from_header h'"
proof -
  have g: "hd_get h = hd_get h'" using get_order [OF assms] by (intro ext)
  have b: "b64_field h = b64_field h'" unfolding b64_field_def [abs_def] g ..
  show ?thesis unfolding extract_metadata_from_header_def g b ..
qed

lemma extract_file_header:
  "extract_metadata_from_header (file_header p r ks) = Inr \<lparr>md_key_storage = ks, md_file_id = er_file_id r,
     md_key_id = er_key_id r, md_hash_value = er_hash_value r, md_key_file = [], md_cipher = ep_cipher p,
     md_hash = ep_hash p, md_key = (if ks = ''client'' then er_key r else []), md_iv = er_iv r, md_tag = er_tag r\<rparr>"
  by (cases "ks = ''client''") (simp_all add: extract_metadata_from_header_def file_header_def embedded_header_def b64_field_def
      cipher_name_roundtrip hash_name_roundtrip)

lemma write_embedded:
  assumes "write_embedded_file env p params r ks enc c = (Inr (), c')" "cl_wout c (cl_writes c) = W_ok"
  shows "cl_fs c' = (cl_fs c)(p \<mapsto> bytes_of (kFileMagic @ serialize (ce_order env (file_header params r ks))) @ enc)"
    and "ks = ''client'' \<Longrightarrow> er_key r \<noteq> []"
  using assms by (auto simp: write_embedded_file_def file_header_def Let_def cl_write_file_def split: if_splits)

lemma find_written:
  assumes "write_embedded_file env p params r ks enc c = (Inr (), c')" "cl_wout c (cl_writes c) = W_ok"
    "\<And>h. mset (ce_order env h) = mset h" "clean_result r" "clean ks"
    "cl_fs c2 p = cl_fs c' p"
  shows "find_metadata (cl_fs c2) p = Inr (True, \<lparr>md_key_storage = ks, md_file_id = er_file_id r,
     md_key_id = er_key_id r, md_hash_value = er_hash_value r, md_key_file = [], md_cipher = ep_cipher params,
     md_hash = ep_hash params, md_key = (if ks = ''client'' then er_key r else []), md_iv = er_iv r, md_tag = er_tag r\<rparr>, enc)"
proof -
  note ok = file_header_ok [OF assms(4,5), of params]
  note ord = header_ok_order [OF assms(3) ok(1)]
  have ne: "ce_order env (file_header params r ks) \<noteq> []" using ok(2) assms(3) [of "file_header params r ks"] by auto
  have "cl_fs c2 p = Some (bytes_of (kFileMagic @ serialize (ce_order env (file_header params r ks))) @ enc)"
    using write_embedded(1) [OF assms(1,2)] assms(6) by simp
  from read_written [of _ "cl_fs c2" p, OF ord(1) ne this] obtain h' where
    "read_embedded_file (cl_fs c2) p = Embedded h' enc" "map_of h' = map_of (file_header params r ks)"
    using ord(2) by auto
  with extract_cong [OF this(2)] show ?thesis by (simp add: find_metadata_def extract_file_header)
qed

section \<open>What a reply can hold\<close>

lemma set_trim: "set (trim v) \<subseteq> set v"
  unfolding trim_def by (metis order_trans set_dropWhileD set_rev subsetI)

lemma clean_trim: "CHR 0x0A \<notin> set v \<Longrightarrow> clean (trim v)"
  using set_trim [of v] by (auto simp: clean_def trimmed_trim)

lemma parse_lines_clean:
  assumes "\<forall>l \<in> set ls. CHR 0x0A \<notin> set l" "\<forall>(k, v) \<in> set out. clean v"
  shows "\<forall>(k, v) \<in> set (parse_lines ls out). clean v"
  using assms
proof (induction ls arbitrary: out)
  case (Cons l ls)
  show ?case
  proof (cases "l = [] \<or> l = [CHR 0x0D] \<or> cut (CHR '':'') l = None")
    case False
    then obtain k v where kv: "cut (CHR '':'') l = Some (k, v)" by (cases "cut (CHR '':'') l") auto
    from cut_SomeD [OF this] Cons.prems(1) have "clean (trim v)" by (auto intro: clean_trim)
    with Cons.prems(2) have "\<forall>(k', x) \<in> set (hd_set (trim k) (trim v) out). clean x"
      using set_update_sub [of "trim k" "trim v" out] by (auto simp: hd_set_def)
    from Cons.IH [OF _ this] Cons.IH [OF _ Cons.prems(2)] Cons.prems(1) False kv show ?thesis by simp
  next
    case True
    then have "parse_lines (l # ls) out = out \<or> parse_lines (l # ls) out = parse_lines ls out" by auto
    with Cons.IH [of out] Cons.prems show ?thesis by auto
  qed
qed simp

lemma reply_clean: "clean (hd_get (header_parse raw) k d)" if "clean d"
proof -
  have "\<forall>(k, v) \<in> set (header_parse raw). clean v"
    unfolding header_parse_def using getlines_no_delim by (intro parse_lines_clean) auto
  with that show ?thesis by (auto simp: hd_get_def alookup_def dest: map_of_SomeD split: option.split)
qed

lemma sent_reply:
  assumes "send_request env cfg conn header payload c = (Sent resp enc, c1)"
  shows "(\<exists>raw. resp = header_parse raw) \<and> c1 = c\<lparr>cl_error := ''Invalid or incomplete server response''\<rparr>"
  using assms
  by (auto simp: send_request_def receive_payload_def give_up_def read_header_def Let_def
      split: if_splits option.splits prod.splits bool.splits)

text \<open>The result an encryption starts from.\<close>

definition new_result :: encrypt_result where
  "new_result = \<lparr>er_ok = False, er_message = [], er_file_id = [], er_key_id = [], er_hash_value = [],
     er_key = [], er_iv = [], er_tag = []\<rparr>"

lemma take_b64_ok:
  "take_b64 resp k msg put r = (True, r') \<Longrightarrow> \<exists>d. b64_field resp k = Some d \<and> r' = (if d = [] \<and> hd_get resp k [] = [] then r else put d r)"
  by (auto simp: take_b64_def b64_field_def base64_decode_ok_def Let_def split: if_splits prod.splits bool.splits)

lemma take_reply_ok:
  assumes "take_reply resp new_result = (True, r)"
  shows "\<exists>key iv tag. b64_field resp ''key'' = Some key \<and> b64_field resp ''iv'' = Some iv \<and> b64_field resp ''tag'' = Some tag
    \<and> r = \<lparr>er_ok = False, er_message = [], er_file_id = hd_get resp ''file_id'' [], er_key_id = hd_get resp ''key_id'' [],
       er_hash_value = hd_get resp ''hash_value'' [], er_key = key, er_iv = iv, er_tag = tag\<rparr>"
  using assms
  by (auto simp: take_reply_def new_result_def Let_def split: prod.splits bool.splits dest!: take_b64_ok split: if_splits)

definition storage_of :: "client_config \<Rightarrow> encrypt_params \<Rightarrow> string" where
  "storage_of cfg p = (if ep_key_storage p = [] then cc_default_key_storage cfg else ep_key_storage p)"

lemma encrypt_file_ok:
  assumes "encrypt_file env cfg conn p new_result c = (Returned True, r, c')"
  shows "\<exists>data resp enc c1 r1 c2. cl_fs c (ep_file_path p) = Some data
    \<and> send_request env cfg conn (encrypt_request env p (storage_of cfg p) (length data)) data c = (Sent resp enc, c1)
    \<and> hd_get resp ''status'' [] = ''ok'' \<and> take_reply resp new_result = (True, r1)
    \<and> write_embedded_file env (ep_file_path p) p r1 (storage_of cfg p) enc c1 = (Inr (), c2)
    \<and> r = r1\<lparr>er_ok := True\<rparr> \<and> c' = cl_remove (ep_file_path p @ ''.key'') (cl_remove (ep_file_path p @ ''.cph'') c2)"
proof -
  have n: "new_result\<lparr>er_ok := False\<rparr> = new_result" by (simp add: new_result_def)
  from assms show ?thesis
    unfolding encrypt_file_def encrypt_data_def read_file_def n storage_of_def
    by (auto simp: Let_def split: option.splits prod.splits sent.splits if_splits bool.splits sum.splits)
qed

text \<open>The bytes of a request; what the server receives when every write succeeds.\<close>

definition request_bytes :: "client_env \<Rightarrow> header \<Rightarrow> byte list \<Rightarrow> byte list" where
  "request_bytes env header payload = bytes_of (serialize (ce_order env header)) @ payload"

lemma sent_exchange:
  assumes "send_request env cfg conn header payload c = (Sent resp data, c1)"
  shows "\<exists>rest. read_header 65536 (cn_reply conn (request_bytes env header payload)) = Some (resp, data @ rest)
    \<and> reply_size resp = Some (length data) \<and> length data \<le> ce_memory env"
proof -
  obtain out rets out2 rets2 rest where
    w: "write_header (cn_rets conn) (ce_order env header) = (True, out, rets)" "write_loop rets payload = (True, out2, rets2)"
    and r: "read_header 65536 (cn_reply conn (out @ out2)) = Some (resp, rest)"
    "receive_payload env resp rest (c\<lparr>cl_error := ''Invalid or incomplete server response''\<rparr>) = (Sent resp data, c1)"
    using assms
    by (auto simp: send_request_def give_up_def Let_def receive_payload_def
        split: if_splits option.splits prod.splits bool.splits)
  have "out @ out2 = request_bytes env header payload"
    using write_loop_complete [of "cn_rets conn" "bytes_of (serialize (ce_order env header))"] write_loop_complete [of rets payload] w
    by (simp add: request_bytes_def write_header_def)
  moreover have "\<exists>rest'. rest = data @ rest' \<and> reply_size resp = Some (length data) \<and> length data \<le> ce_memory env"
    using r(2) by (auto simp: receive_payload_def give_up_def split: option.splits if_splits intro: append_take_drop_id [symmetric])
  ultimately show ?thesis using r(1) by auto
qed

text \<open>C5: An encrypted file comes back: after \<open>encrypt_file\<close> succeeded, \<open>decrypt_file\<close> on the file it
  left sends the server exactly the ciphertext of the server's reply, all of the bytes the reply's header
  announced and no others, under the same cipher and hash and the file identifier, with the key identifier
  (server storage) or the key itself (client storage), the IV and the tag of that reply, whatever order the
  header fields are written in. Conditions: the write of the file was complete (\<open>W_ok\<close>: a loss after the
  last check of the stream is not seen by the client), the key storage is one of the two kinds the client
  offers, and with server storage the reply named a key (the code does not ask for a non-empty \<open>key_id\<close>).\<close>

theorem encrypted_file_comes_back:
  assumes "\<forall>h. mset (ce_order env h) = mset h" "cl_wout c (cl_writes c) = W_ok"
    "encrypt_file env cfg conn p new_result c = (Returned True, r, c')"
    "storage_of cfg p = ''client'' \<or> storage_of cfg p = ''server'' \<and> er_key_id r \<noteq> []"
    "dp_file_path dp = ep_file_path p"
  shows "\<exists>data resp enc rest m. cl_fs c (ep_file_path p) = Some data
    \<and> read_header 65536 (cn_reply conn (request_bytes env (encrypt_request env p (storage_of cfg p) (length data)) data))
        = Some (resp, enc @ rest) \<and> reply_size resp = Some (length enc)
    \<and> decrypt_file env cfg conn' dp r' c' = decrypt_send env cfg conn' dp m enc (r'\<lparr>dr_ok := False\<rparr>) c'
    \<and> md_cipher m = ep_cipher p \<and> md_hash m = ep_hash p \<and> md_file_id m = hd_get resp ''file_id'' []
    \<and> md_key_storage m = storage_of cfg p \<and> md_key_id m = hd_get resp ''key_id'' []
    \<and> (storage_of cfg p = ''client'' \<longrightarrow> b64_field resp ''key'' = Some (md_key m))
    \<and> b64_field resp ''iv'' = Some (md_iv m) \<and> b64_field resp ''tag'' = Some (md_tag m)"
proof -
  let ?ks = "storage_of cfg p" and ?f = "ep_file_path p"
  from encrypt_file_ok [OF assms(3)] obtain data resp enc c1 r1 c2 where
    d: "cl_fs c ?f = Some data"
    and s: "send_request env cfg conn (encrypt_request env p ?ks (length data)) data c = (Sent resp enc, c1)"
    and t: "take_reply resp new_result = (True, r1)"
    and w: "write_embedded_file env ?f p r1 ?ks enc c1 = (Inr (), c2)"
    and kid: "er_key_id r = er_key_id r1" and c': "c' = cl_remove (?f @ ''.key'') (cl_remove (?f @ ''.cph'') c2)" by auto
  from take_reply_ok [OF t] obtain key iv tag where f: "b64_field resp ''key'' = Some key" "b64_field resp ''iv'' = Some iv"
    "b64_field resp ''tag'' = Some tag" "er_file_id r1 = hd_get resp ''file_id'' []" "er_key_id r1 = hd_get resp ''key_id'' []"
    "er_hash_value r1 = hd_get resp ''hash_value'' []" "er_key r1 = key" "er_iv r1 = iv" "er_tag r1 = tag" by auto
  from sent_reply [OF s] obtain raw where raw: "resp = header_parse raw"
    and c1: "cl_wout c1 (cl_writes c1) = W_ok" using assms(2) by auto
  have cl: "clean_result r1" "clean ?ks"
    using reply_clean [of "[]" raw] assms(4) unfolding clean_result_def f(4-6) raw by auto
  have same: "cl_fs c' ?f = cl_fs c2 ?f" by (simp add: c' cl_remove_def)
  let ?m = "\<lparr>md_key_storage = ?ks, md_file_id = er_file_id r1,
     md_key_id = er_key_id r1, md_hash_value = er_hash_value r1, md_key_file = [], md_cipher = ep_cipher p,
     md_hash = ep_hash p, md_key = (if ?ks = ''client'' then er_key r1 else []), md_iv = er_iv r1, md_tag = er_tag r1\<rparr>"
  have "find_metadata (cl_fs c') ?f = Inr (True, ?m, enc)"
    using find_written [OF w c1 _ cl same] assms(1) by simp
  moreover have "find_key (cl_fs c') ?f True ?m = Inr ?m"
    using assms(4) write_embedded(2) [OF w c1] kid by (auto simp: find_key_def)
  ultimately have "decrypt_file env cfg conn' dp r' c' = decrypt_send env cfg conn' dp ?m enc (r'\<lparr>dr_ok := False\<rparr>) c'"
    by (simp add: decrypt_file_def assms(5))
  with d f sent_exchange [OF s] show ?thesis by fastforce
qed

text \<open>A file other than the log.\<close>

lemma log_other [simp]: "f \<noteq> ''client.log'' \<Longrightarrow> cl_fs (log_client_error m c) f = cl_fs c f"
  by (simp add: log_client_error_def append_file_def Let_def split: wout.split)

lemma give_up_other [simp]: "f \<noteq> ''client.log'' \<Longrightarrow> cl_fs (snd (give_up m e c)) f = cl_fs c f"
  by (simp add: give_up_def)

lemma receive_other: "f \<noteq> ''client.log'' \<Longrightarrow> cl_fs (snd (receive_payload env resp rest c)) f = cl_fs c f"
  by (simp add: receive_payload_def split: option.split)

lemma send_other:
  assumes "f \<noteq> ''client.log''" "send_request env cfg conn header payload c = (x, c1)"
  shows "cl_fs c1 f = cl_fs c f"
proof -
  have "cl_fs (snd (send_request env cfg conn header payload c)) f = cl_fs c f"
    using assms(1) by (simp add: send_request_def Let_def receive_other split: option.split prod.split bool.split)
  with assms(2) show ?thesis by simp
qed

lemma write_embedded_failed:
  assumes "write_embedded_file env f p r ks enc c = (Inl e, c2)"
  shows "cl_fs c2 f = cl_fs c f \<or> e = ''Failed to write encrypted file''
    \<and> (\<exists>n blob. cl_fs c2 f = Some (take n (bytes_of kFileMagic @ blob)))"
proof (cases "ks = ''client'' \<and> er_key r = []")
  case True
  with assms show ?thesis by (simp add: write_embedded_file_def Let_def)
next
  case False
  let ?blob = "bytes_of (serialize (ce_order env (file_header p r ks))) @ enc"
  have w: "cl_write_file f (bytes_of kFileMagic @ ?blob) c = (False, c2)" and e: "e = ''Failed to write encrypted file''"
    using assms False unfolding write_embedded_file_def file_header_def Let_def
    by (auto split: prod.splits bool.splits)
  from w have "cl_fs c2 = snd (write_file (cl_wout c (cl_writes c)) f (bytes_of kFileMagic @ ?blob) (cl_fs c))"
    by (auto simp: cl_write_file_def split: prod.splits)
  with write_file_prefix [of "cl_wout c (cl_writes c)" f "bytes_of kFileMagic @ ?blob" "cl_fs c"] e
  show ?thesis by metis
qed

text \<open>C37: An encryption that fails, for any reason, leaves the user's file as it was, with one
  exception: when the writing of the encrypted file itself fails, the plaintext is already gone and
  a beginning of the encrypted file is in its place. (The log file of the client is excluded.)\<close>

theorem plaintext_kept_on_failure:
  assumes "encrypt_file env cfg conn p r c = (out, r', c')" "out \<noteq> Returned True" "ep_file_path p \<noteq> ''client.log''"
  shows "cl_fs c' (ep_file_path p) = cl_fs c (ep_file_path p)
    \<or> er_message r' = ''Failed to write encrypted file''
      \<and> (\<exists>n blob. cl_fs c' (ep_file_path p) = Some (take n (bytes_of kFileMagic @ blob)))"
proof (cases "cl_fs c (ep_file_path p)")
  case None
  with assms show ?thesis by (auto simp: encrypt_file_def read_file_def)
next
  case (Some data)
  let ?ks = "if ep_key_storage p = [] then cc_default_key_storage cfg else ep_key_storage p"
  obtain x c1 where s: "send_request env cfg conn (encrypt_request env p ?ks (length data)) data c = (x, c1)"
    by (cases "send_request env cfg conn (encrypt_request env p ?ks (length data)) data c")
  note keep = send_other [OF assms(3) s]
  note e = assms(1) [unfolded encrypt_file_def read_file_def Some option.case encrypt_data_def Let_def s]
  show ?thesis
  proof (cases x)
    case (Sent resp enc)
    show ?thesis
    proof (cases "hd_get resp ''status'' [] \<noteq> ''ok'' \<or> \<not> fst (take_reply resp (r\<lparr>er_ok := False\<rparr>))")
      case True
      with e Sent keep assms(3) show ?thesis by (auto split: if_splits prod.splits bool.splits)
    next
      case False
      then obtain r1 where t: "take_reply resp (r\<lparr>er_ok := False\<rparr>) = (True, r1)"
        by (cases "take_reply resp (r\<lparr>er_ok := False\<rparr>)") auto
      obtain y c2 where w: "write_embedded_file env (ep_file_path p) p r1 ?ks enc c1 = (y, c2)"
        by (cases "write_embedded_file env (ep_file_path p) p r1 ?ks enc c1")
      with e Sent t False assms(2) obtain m where y: "y = Inl m" "r' = r1\<lparr>er_message := m\<rparr>"
        "cl_fs c' (ep_file_path p) = cl_fs c2 (ep_file_path p)"
        using assms(3) by (cases y) auto
      from write_embedded_failed [OF w [unfolded y(1)]] y keep show ?thesis by (auto simp del: take_append)
    qed
  qed (use e keep assms(3) in auto)
qed

section \<open>A concrete client\<close>

definition demo_cenv :: client_env where
  "demo_cenv = \<lparr>ce_order = (\<lambda>h. h), ce_hostname = None, ce_user = None, ce_home = None, ce_sha256 = (\<lambda>d i. 0),
     ce_memory = 100\<rparr>"

definition demo_ccfg :: client_config where
  "demo_ccfg = \<lparr>cc_host = ''h'', cc_port = 7443, cc_ca_file = [], cc_client_cert = [], cc_client_key = [],
     cc_verify_peer = True, cc_default_key_storage = ''server'', cc_clipboard_max_bytes = 0, cc_decrypt_to_temp = False,
     cc_demo_mode = False, cc_permissions = 3\<rparr>"

definition demo_params :: encrypt_params where
  "demo_params = \<lparr>ep_username = ''u'', ep_password = ''p'', ep_file_path = ''f'', ep_cipher = AES_256_GCM,
     ep_hash = SHA256, ep_key_storage = []\<rparr>"

definition demo_client :: client where
  "demo_client = \<lparr>cl_fs = [''f'' \<mapsto> [1]], cl_clock = (\<lambda>n. 0), cl_ticks = 0, cl_wout = (\<lambda>n. W_ok), cl_writes = 0,
     cl_removes = (\<lambda>p. True), cl_error = []\<rparr>"

definition demo_reply :: header where
  "demo_reply = [(''status'', ''ok''), (''key_id'', ''k''), (''enc_size'', ''2'')]"

definition demo_conn :: conn where
  "demo_conn = \<lparr>cn_net = True, cn_connect = None, cn_tls_init = None, cn_handshake = None, cn_rets = [1000, 1000],
     cn_reply = (\<lambda>d. bytes_of (serialize demo_reply) @ [7, 8])\<rparr>"

definition demo_dr :: decrypt_result where
  "demo_dr = \<lparr>dr_ok = False, dr_message = [], dr_data = [], dr_original_name = [], dr_cipher = AES_256_GCM, dr_hash = SHA256,
     dr_key_storage = [], dr_file_id = []\<rparr>"

lemma demo_reply_read: "read_header 65536 (bytes_of (serialize demo_reply) @ [7, 8]) = Some (demo_reply, [7, 8])"
proof -
  have "wire_ok demo_reply"
    by (simp add: demo_reply_def wire_ok_def header_ok_def dkeys_def field_ok_def trimmed_def is_ws_def)
  moreover have "length (serialize demo_reply) < 65536" by (simp add: serialize_def demo_reply_def)
  ultimately show ?thesis
    using read_header_serialize [of demo_reply 65536 "[7, 8]"] by (simp add: store_all_def demo_reply_def)
qed

lemma stoull2: "stoull ''2'' = Some 2"
proof -
  have "show_nat 2 = ''2''" by code_simp
  then show ?thesis using scan_int_show_nat [of 2] by (simp add: stoull_def)
qed

lemma demo_sent:
  assumes "length (serialize h) \<le> 1000" "h \<noteq> []" "length data \<le> 1000"
  shows "send_request demo_cenv demo_ccfg demo_conn h data c
     = (Sent demo_reply [7, 8], c\<lparr>cl_error := ''Invalid or incomplete server response''\<rparr>)"
proof -
  have loop: "write_loop (r # rs) bs = (True, bs, rs)" if "bs \<noteq> []" "int (length bs) \<le> r" for r rs and bs :: "byte list"
    using that by (cases bs) auto
  have w1: "write_header (cn_rets demo_conn) h = (True, bytes_of (serialize h), [1000])"
  proof -
    have "bytes_of (serialize h) \<noteq> []" by (simp add: serialize_def)
    from loop [OF this, of 1000 "[1000]"] assms show ?thesis by (simp add: write_header_def demo_conn_def)
  qed
  obtain rets where w2: "write_loop [1000] data = (True, data, rets)" using assms(3) loop [of data 1000 "[]"] by (cases "data = []") auto
  have n: "reply_size demo_reply = Some 2"
    by (simp add: reply_size_def demo_reply_def hd_get_def alookup_def stoull2)
  have k: "cn_net demo_conn" "cn_connect demo_conn = None" "cn_tls_init demo_conn = None" "cn_handshake demo_conn = None"
    "cn_reply demo_conn d = bytes_of (serialize demo_reply) @ [7, 8]" "ce_order demo_cenv h = h" "ce_memory demo_cenv = 100" for d
    by (simp_all add: demo_conn_def demo_cenv_def)
  show ?thesis
    by (simp add: send_request_def k w1 w2 demo_reply_read receive_payload_def n Let_def del: bytes_of_append write_loop.simps)
qed

theorem encrypted_file_comes_back_witness:
  "\<exists>m. decrypt_file demo_cenv demo_ccfg demo_conn \<lparr>dp_username = ''u'', dp_password = ''p'', dp_file_path = ''f''\<rparr> demo_dr
      (snd (snd (encrypt_file demo_cenv demo_ccfg demo_conn demo_params new_result demo_client)))
    = decrypt_send demo_cenv demo_ccfg demo_conn \<lparr>dp_username = ''u'', dp_password = ''p'', dp_file_path = ''f''\<rparr> m [7, 8]
      (demo_dr\<lparr>dr_ok := False\<rparr>) (snd (snd (encrypt_file demo_cenv demo_ccfg demo_conn demo_params new_result demo_client)))
    \<and> md_key_id m = ''k''"
proof -
  let ?e = "encrypt_file demo_cenv demo_ccfg demo_conn demo_params new_result demo_client"
  let ?c = "demo_client\<lparr>cl_error := ''Invalid or incomplete server response''\<rparr>"
  let ?dp = "\<lparr>dp_username = ''u'', dp_password = ''p'', dp_file_path = ''f''\<rparr>"
  have st: "storage_of demo_ccfg demo_params = ''server''" by (simp add: storage_of_def demo_params_def demo_ccfg_def)
  have len: "length (cipher_to_string AES_256_GCM) = 11" "length (show_nat (Suc 0)) = 1" "length (path_filename ''f'') = 1"
    by code_simp+
  have s: "send_request demo_cenv demo_ccfg demo_conn (encrypt_request demo_cenv demo_params ''server'' (Suc 0)) [1] demo_client
      = (Sent demo_reply [7, 8], ?c)"
    by (rule demo_sent) (simp_all add: encrypt_request_def hd_set_def serialize_def demo_params_def client_id_value_def
        demo_cenv_def host_label_def env_label_def Let_def len)
  have t: "take_reply demo_reply (new_result\<lparr>er_ok := False\<rparr>) = (True, new_result\<lparr>er_key_id := ''k''\<rparr>)"
    by (simp add: take_reply_def take_b64_def demo_reply_def hd_get_def alookup_def new_result_def)
  obtain c2 where w: "write_embedded_file demo_cenv ''f'' demo_params (new_result\<lparr>er_key_id := ''k''\<rparr>) ''server'' [7, 8] ?c = (Inr (), c2)"
    by (simp add: write_embedded_file_def cl_write_file_def demo_client_def Let_def)
  have p: "cl_fs demo_client ''f'' = Some [1]" "ep_file_path demo_params = ''f''" "ep_key_storage demo_params = []"
    "cc_default_key_storage demo_ccfg = ''server''" "hd_get demo_reply ''status'' [] = ''ok''"
    by (simp_all add: demo_client_def demo_params_def demo_ccfg_def demo_reply_def hd_get_def alookup_def)
  have e: "fst ?e = Returned True \<and> er_key_id (fst (snd ?e)) = ''k''"
    by (simp add: encrypt_file_def encrypt_data_def read_file_def p s t w)
  then have r: "?e = (Returned True, fst (snd ?e), snd (snd ?e))"
    by (simp add: prod_eq_iff)
  have k: "storage_of demo_ccfg demo_params = ''client'' \<or> storage_of demo_ccfg demo_params = ''server'' \<and> er_key_id (fst (snd ?e)) \<noteq> []"
    using st e by simp
  have "\<forall>h. mset (ce_order demo_cenv h) = mset h" "cl_wout demo_client (cl_writes demo_client) = W_ok"
    by (simp_all add: demo_cenv_def demo_client_def)
  from encrypted_file_comes_back [OF this r k, of ?dp demo_conn demo_dr] obtain data resp enc rest m where
    m: "read_header 65536 (cn_reply demo_conn (request_bytes demo_cenv (encrypt_request demo_cenv demo_params
          (storage_of demo_ccfg demo_params) (length data)) data)) = Some (resp, enc @ rest)"
      "reply_size resp = Some (length enc)"
      "decrypt_file demo_cenv demo_ccfg demo_conn ?dp demo_dr (snd (snd ?e)) = decrypt_send demo_cenv demo_ccfg demo_conn ?dp m enc (demo_dr\<lparr>dr_ok := False\<rparr>) (snd (snd ?e))"
      "md_key_id m = hd_get resp ''key_id'' []"
    unfolding p(2) by auto
  have d: "resp = demo_reply \<and> enc @ rest = [7, 8]"
    using m(1) demo_reply_read by (simp add: demo_conn_def)
  then have "length enc = 2" using m(2) by (simp add: reply_size_def demo_reply_def hd_get_def alookup_def stoull2)
  moreover have "enc = take (length enc) (enc @ rest)" by simp
  ultimately have "enc = [7, 8]" using d by simp
  moreover have "md_key_id m = ''k''" using d m(4) by (simp add: demo_reply_def hd_get_def alookup_def)
  ultimately show ?thesis using m(3) by blast
qed

theorem plaintext_kept_on_failure_witness:
  "cl_fs (snd (snd (encrypt_file demo_cenv demo_ccfg (demo_conn\<lparr>cn_net := False\<rparr>) demo_params new_result demo_client))) ''f'' = Some [1]"
proof -
  let ?e = "encrypt_file demo_cenv demo_ccfg (demo_conn\<lparr>cn_net := False\<rparr>) demo_params new_result demo_client"
  have f: "fst ?e = Returned False" "er_message (fst (snd ?e)) = ''Network initialization failed''"
    by (simp_all add: encrypt_file_def encrypt_data_def send_request_def give_up_def demo_client_def demo_params_def
        read_file_def Let_def)
  from plaintext_kept_on_failure [of demo_cenv demo_ccfg "demo_conn\<lparr>cn_net := False\<rparr>" demo_params new_result demo_client
      "fst ?e" "fst (snd ?e)" "snd (snd ?e)"] f
  show ?thesis by (simp add: demo_params_def demo_client_def)
qed
end
