(* ===== verification/AdminClient.thy ===== *)
theory AdminClient
  imports Client
begin

text \<open>
  The client of the administration port (admin/src/admin_client.cpp). A request goes to the address
  \<open>net\<close> gives a connection for; \<open>cn_timeout\<close> tells whether a timeout of so many milliseconds can
  be set. \<open>Inl\<close> is the error text of a call that returned false.
\<close>

record admin_device =
  ad_name :: string
  ad_host :: string
  ad_port :: int
  ad_token :: string

record admin_conn = conn +
  cn_timeout :: "int \<Rightarrow> bool"

type_synonym admin_net = "string \<Rightarrow> int \<Rightarrow> admin_conn"

definition normalize_host :: "string \<Rightarrow> string" where
  "normalize_host host = (if host = ''0.0.0.0'' \<or> host = ''::'' then ''127.0.0.1'' else host)"

definition admin_timeout :: "header \<Rightarrow> int" where
  "admin_timeout h = (let op = hd_get h ''op'' [] in
     if op = ''admin_wifi_scan'' \<or> op = ''admin_wifi_change'' then 35000 else 5000)"

definition admin_payload :: "header \<Rightarrow> byte list \<Rightarrow> string + string" where
  "admin_payload resp rest =
     (let field = hd_get resp ''payload_size'' [] in
      (case (if field = [] then Some 0 else stoull field) of
         None \<Rightarrow> Inl ''Invalid payload_size''
       | Some n \<Rightarrow>
           if n > 8 * 1024 * 1024 then Inl ''Administrative response exceeds 8 MiB limit''
           else if length rest < n then Inl ''Failed to read payload''
           else Inr (string_of (take n rest))))"

definition admin_send :: "(header \<Rightarrow> header) \<Rightarrow> admin_net \<Rightarrow> admin_device \<Rightarrow> header \<Rightarrow> string + header \<times> string" where
  "admin_send order net device h =
     (let conn = net (normalize_host (ad_host device)) (ad_port device) in
      if \<not> cn_net conn then Inl ''Network init failed''
      else (case cn_connect conn of
          Some e \<Rightarrow> Inl (''Connect failed: '' @ e)
        | None \<Rightarrow>
            if \<not> cn_timeout conn (admin_timeout h) then Inl ''Cannot set network I/O timeout''
            else (case cn_tls_init conn of
                Some e \<Rightarrow> Inl (''TLS init failed: '' @ e)
              | None \<Rightarrow> (case cn_handshake conn of
                    Some e \<Rightarrow> Inl (''TLS connect failed: '' @ e)
                  | None \<Rightarrow> (case write_header (cn_rets conn) (order h) of
                      (False, out, rets) \<Rightarrow> Inl ''Failed to send header''
                    | (True, out, rets) \<Rightarrow> (case read_header 65536 (cn_reply conn out) of
                        None \<Rightarrow> Inl ''Failed to read response''
                      | Some (resp, rest) \<Rightarrow> map_sum id (Pair resp) (admin_payload resp rest)))))))"

text \<open>The common end of every operation: a reply without the status ok is an error.\<close>

definition admin_call :: "(header \<Rightarrow> header) \<Rightarrow> admin_net \<Rightarrow> admin_device \<Rightarrow> header \<Rightarrow> string + header \<times> string" where
  "admin_call order net device h = (case admin_send order net device h of
       Inl e \<Rightarrow> Inl e
     | Inr (resp, payload) \<Rightarrow>
         if hd_get resp ''status'' [] \<noteq> ''ok'' then Inl (hd_get resp ''message'' ''Server error'')
         else Inr (resp, payload))"

definition user_command :: "(header \<Rightarrow> header) \<Rightarrow> admin_net \<Rightarrow> admin_device \<Rightarrow> header \<Rightarrow> string + string" where
  "user_command order net device request =
     map_sum id snd (admin_call order net device (hd_set ''admin_token'' (ad_token device) request))"

definition payload_lines :: "string \<Rightarrow> string list" where
  "payload_lines payload = filter (\<lambda>l. l \<noteq> []) (getlines (CHR 0x0A) payload)"

definition admin_request :: "string \<Rightarrow> admin_device \<Rightarrow> (string \<times> string) list \<Rightarrow> header" where
  "admin_request op device kvs =
     fold (\<lambda>(k, v). hd_set k v) kvs (hd_set ''admin_token'' (ad_token device) (hd_set ''op'' op []))"

text \<open>The number of the last alert stays as it was when the reply has none that can be read.\<close>

definition get_alerts ::
  "(header \<Rightarrow> header) \<Rightarrow> admin_net \<Rightarrow> admin_device \<Rightarrow> nat \<Rightarrow> nat \<Rightarrow> nat \<Rightarrow> string + string list \<times> nat" where
  "get_alerts order net device since_id limit last_id =
     (case admin_call order net device (admin_request ''admin_get_alerts'' device
          [(''since_id'', show_nat since_id), (''limit'', show_nat limit)]) of
        Inl e \<Rightarrow> Inl e
      | Inr (resp, payload) \<Rightarrow>
          let field = hd_get resp ''last_id'' [];
              last_id = (if field = [] then last_id else case stoull field of None \<Rightarrow> last_id | Some i \<Rightarrow> i)
          in Inr (payload_lines payload, last_id))"

definition get_lines ::
  "string \<Rightarrow> (header \<Rightarrow> header) \<Rightarrow> admin_net \<Rightarrow> admin_device \<Rightarrow> nat \<Rightarrow> string + header \<times> string list" where
  "get_lines op order net device limit =
     map_sum id (map_prod id payload_lines)
       (admin_call order net device (admin_request op device [(''limit'', show_nat limit)]))"

definition get_logs :: "(header \<Rightarrow> header) \<Rightarrow> admin_net \<Rightarrow> admin_device \<Rightarrow> nat \<Rightarrow> string + string list" where
  "get_logs order net device limit = map_sum id snd (get_lines ''admin_get_logs'' order net device limit)"

definition get_stats :: "(header \<Rightarrow> header) \<Rightarrow> admin_net \<Rightarrow> admin_device \<Rightarrow> nat \<Rightarrow> string + string list" where
  "get_stats order net device limit = map_sum id snd (get_lines ''admin_get_stats'' order net device limit)"

definition get_locks :: "(header \<Rightarrow> header) \<Rightarrow> admin_net \<Rightarrow> admin_device \<Rightarrow> nat \<Rightarrow> string + string list" where
  "get_locks order net device limit = map_sum id snd (get_lines ''admin_get_locks'' order net device limit)"

definition get_binding :: "(header \<Rightarrow> header) \<Rightarrow> admin_net \<Rightarrow> admin_device \<Rightarrow> nat \<Rightarrow> string + bool \<times> string list" where
  "get_binding order net device limit =
     map_sum id (map_prod (\<lambda>resp. let v = hd_get resp ''binding_enabled'' [] in v = ''1'' \<or> v = ''true'') id)
       (get_lines ''admin_get_binding'' order net device limit)"

definition set_binding_remote :: "(header \<Rightarrow> header) \<Rightarrow> admin_net \<Rightarrow> admin_device \<Rightarrow> bool \<Rightarrow> string + unit" where
  "set_binding_remote order net device enabled =
     map_sum id (\<lambda>_. ()) (admin_call order net device (admin_request ''admin_set_binding'' device
       [(''enabled'', if enabled then ''1'' else ''0'')]))"

definition set_client_allowed_remote ::
  "(header \<Rightarrow> header) \<Rightarrow> admin_net \<Rightarrow> admin_device \<Rightarrow> string \<Rightarrow> bool \<Rightarrow> string + unit" where
  "set_client_allowed_remote order net device client_id allowed =
     map_sum id (\<lambda>_. ()) (admin_call order net device (admin_request ''admin_set_client_allowed'' device
       [(''client_id'', client_id), (''allowed'', if allowed then ''1'' else ''0'')]))"

definition unlock_user_remote :: "(header \<Rightarrow> header) \<Rightarrow> admin_net \<Rightarrow> admin_device \<Rightarrow> string \<Rightarrow> string + unit" where
  "unlock_user_remote order net device username =
     map_sum id (\<lambda>_. ()) (admin_call order net device (admin_request ''admin_unlock_user'' device
       [(''username'', username)]))"

end
