(* ===== verification/EndToEnd.thy ===== *)
theory EndToEnd
  imports ClientFiles AdminClient DemoServer
begin

text \<open>
  A client and a server on the two ends of a connection: what the client sends is what the server
  reads, what the server answers is what the client makes of it. \<open>served\<close> is the server as the
  \<open>cn_reply\<close> of a connection; the client's model and the server's are otherwise unchanged.
\<close>

section \<open>The bytes on the connection\<close>

text \<open>What the server's writes put on the wire: of each message the bytes that went out.\<close>

fun event_bytes :: "out_event \<Rightarrow> byte list" where
  "event_bytes (Out_header h n) = take n (bytes_of (serialize h))"
| "event_bytes (Out_data d n) = take n d"

definition output_bytes :: "srv \<Rightarrow> byte list" where
  "output_bytes s = concat (map event_bytes (c_trace s))"

text \<open>The server in the state \<open>s\<close> as the other end of a connection.\<close>

definition served ::
  "('z) admin_env_scheme \<Rightarrow> bool \<Rightarrow> bool \<Rightarrow> srv \<Rightarrow> byte list \<Rightarrow> byte list" where
  "served env admin_only wifi_path s d =
     output_bytes (handle_session env admin_only wifi_path True (s\<lparr>c_in := d, c_trace := []\<rparr>))"

text \<open>Return values that let \<open>n\<close> bytes through, in whatever pieces.\<close>

definition enough :: "int list \<Rightarrow> nat \<Rightarrow> bool" where
  "enough rs n \<longleftrightarrow> (\<forall>r \<in> set rs. 0 < r) \<and> n \<le> length rs"

lemma enough_less: "enough rs n \<Longrightarrow> m \<le> n \<Longrightarrow> enough rs m"
  by (simp add: enough_def)

lemma enough_write:
  assumes "enough rs (length data + n)"
  shows "\<exists>rs'. write_loop rs data = (True, data, rs') \<and> enough rs' n"
  using assms
proof (induction rs data rule: write_loop.induct)
  case (3 r rs b bs)
  let ?d = "drop (nat r) (b # bs)"
  from 3(2) have r: "0 < r" and e: "enough rs (length bs + n)" by (simp_all add: enough_def)
  then have "enough rs (length ?d + n)" by (auto simp: enough_def)
  with 3(1) r obtain rs' where w: "write_loop rs ?d = (True, ?d, rs')" "enough rs' n" by auto
  moreover have "take (nat r) (b # bs) @ ?d = b # bs" by (rule append_take_drop_id)
  ultimately show ?case using r by (simp del: take_Cons' drop_Cons')
qed (simp_all add: enough_def)

lemma show_nat_short: "n < 10 ^ Suc k \<Longrightarrow> length (show_nat n) \<le> Suc k"
proof (induction k arbitrary: n)
  case 0
  then show ?case by (subst show_nat.simps) simp
next
  case (Suc k)
  show ?case
  proof (cases "n < 10")
    case False
    have "n div 10 < 10 ^ Suc k" using Suc.prems by (simp add: less_mult_imp_div_less)
    from Suc.IH [OF this] False show ?thesis by (subst show_nat.simps) simp
  qed (subst show_nat.simps, simp)
qed

lemma show_u64_length: "n < 2 ^ 64 \<Longrightarrow> length (show_nat n) \<le> 20"
  using show_nat_short [of n 19] by simp

text \<open>The reply with a payload that the administrative operations send.\<close>

lemma send_payload_bytes:
  assumes "c_trace s = []" "enough (c_rets s) (length (serialize h) + length payload)"
  shows "output_bytes (send_payload h payload s) = bytes_of (serialize h) @ bytes_of payload"
proof -
  from enough_write [of "c_rets s" "bytes_of (serialize h)" "length payload"] assms(2)
  obtain rs where 1: "write_loop (c_rets s) (bytes_of (serialize h)) = (True, bytes_of (serialize h), rs)"
    "enough rs (length payload)" by auto
  from enough_write [of rs "bytes_of payload" 0] 1(2)
  obtain rs' where 2: "write_loop rs (bytes_of payload) = (True, bytes_of payload, rs')" by auto
  show ?thesis
    using assms(1) by (auto simp: send_payload_def send_header_def write_header_def write_all_def output_bytes_def 1 2)
qed


section \<open>Requests\<close>

definition wire_value :: "string \<Rightarrow> bool" where
  "wire_value v \<longleftrightarrow> clean v \<and> CHR 0x0D \<notin> set v"

lemma wire_ok_set [intro]: "wire_ok h \<Longrightarrow> good_key k \<Longrightarrow> CHR 0x0D \<notin> set k \<Longrightarrow> wire_value v \<Longrightarrow> wire_ok (hd_set k v h)"
  using set_update_sub [of k v h] by (auto simp: wire_ok_def wire_value_def hd_set_def intro!: header_ok_set [unfolded hd_set_def])

lemma wire_ok_Nil [simp]: "wire_ok []"
  by (simp add: wire_ok_def)

lemma wire_ok_order: "mset h' = mset h \<Longrightarrow> wire_ok h \<Longrightarrow> wire_ok h'"
  using header_ok_order(1) [of h' h] mset_eq_setD [of h' h] by (simp add: wire_ok_def)

lemma wire_solid: "\<forall>c \<in> set v. \<not> is_ws c \<Longrightarrow> wire_value v"
  unfolding wire_value_def by (intro conjI clean_solid) (auto simp: is_ws_def)

lemma wire_show_nat [simp]: "wire_value (show_nat n)"
  using show_nat_digits [of n] by (intro wire_solid) (auto simp: is_digit_def is_ws_def)

lemma wire_words [simp]: "wire_value ''ok''" "wire_value ''admin_get_alerts''"
  by (rule wire_solid, simp add: is_ws_def)+

lemma length_serialize: "length (serialize h) = sum_mset (image_mset (\<lambda>kv. length (field_line kv) + 1) (mset h)) + 1"
  unfolding serialize_lines by (induction h) auto

text \<open>A request without a payload, as the server reads it.\<close>

lemma request_read:
  assumes "wire_ok h" "h \<noteq> []" "mset h' = mset h" "length (serialize h) < n"
  shows "\<exists>req. read_header n (bytes_of (serialize h')) = Some (req, []) \<and> map_of req = map_of h"
proof -
  have w: "wire_ok h'" "h' \<noteq> []" using wire_ok_order [OF assms(3,1)] assms(2,3) by auto
  have "length (serialize h') = length (serialize h)" unfolding length_serialize assms(3) ..
  with read_header_serialize [OF w, of n "[]"] assms(4)
  have "read_header n (bytes_of (serialize h')) = Some (store_all h' [], [])" by simp
  moreover have "map_of (store_all h' []) = map_of h"
    using w(1) header_ok_order(2) [OF assms(3)] assms(1) by (simp add: wire_ok_def header_ok_def map_of_store_all)
  ultimately show ?thesis by blast
qed

text \<open>Alerts are read from lines and written as lines.\<close>

lemma cut_one_line: "cut d l = Some (a, b) \<Longrightarrow> one_line l \<Longrightarrow> one_line a \<and> one_line b"
  by (auto simp: one_line_def dest: cut_SomeD)

lemma parsed_one_line:
  assumes "parse_alert_line l = Some a" "one_line l" shows "one_line (format_alert_line a)"
proof -
  have "one_line (al_type a) \<and> one_line (al_username a) \<and> one_line (al_detail a)"
    using assms by (auto simp: parse_alert_line_def split: option.splits prod.splits dest!: cut_one_line)
  then show ?thesis by (simp add: alert_line_one)
qed

lemma collected_one_line: "\<forall>l \<in> set ls. one_line l \<Longrightarrow> a \<in> set (collect_alerts since ls) \<Longrightarrow> one_line (format_alert_line a)"
  by (induction ls) (auto split: option.splits if_splits intro: parsed_one_line)

lemma alerts_one_line: "a \<in> set (get_alerts_since fs au since limit) \<Longrightarrow> one_line (format_alert_line a)"
  using collected_one_line [of "file_lines fs (a_alert_path au)" a since] getlines_no_delim
  by (auto simp: get_alerts_since_def Let_def file_lines_def one_line_def split: if_splits option.splits dest: in_set_dropD)

lemma payload_lines_payload:
  assumes "\<forall>l \<in> set ls. one_line l \<and> l \<noteq> []"
  shows "payload_lines (lines_payload ls) = ls"
  using assms getlines_concat [of ls "CHR 0x0A" "[]"] by (simp add: payload_lines_def lines_payload_def one_line_def)


section \<open>Alerts\<close>

definition alerts_request :: "admin_device \<Rightarrow> nat \<Rightarrow> nat \<Rightarrow> header" where
  "alerts_request device since limit = admin_request ''admin_get_alerts'' device
     [(''since_id'', show_nat since), (''limit'', show_nat limit)]"

lemma alerts_request_fields:
  "hd_get (alerts_request device since limit) ''op'' [] = ''admin_get_alerts''"
  "hd_get (alerts_request device since limit) ''admin_token'' [] = ad_token device"
  "hd_get (alerts_request device since limit) ''since_id'' [] = show_nat since"
  "hd_get (alerts_request device since limit) ''limit'' [] = show_nat limit"
  "alerts_request device since limit \<noteq> []"
  by (simp_all add: alerts_request_def admin_request_def)

lemma alerts_request_wire: "wire_value (ad_token device) \<Longrightarrow> wire_ok (alerts_request device since limit)"
  unfolding alerts_request_def admin_request_def
  by (auto intro!: wire_ok_set simp: good_key_def trimmed_def is_ws_def)

definition last_alert_id :: "nat \<Rightarrow> alert list \<Rightarrow> nat" where
  "last_alert_id since alerts = unat (fold (\<lambda>a i. if al_id a > i then al_id a else i) alerts (word_of_nat since))"

definition alerts_header :: "nat \<Rightarrow> alert list \<Rightarrow> header" where
  "alerts_header since alerts = hd_set ''last_id'' (show_nat (last_alert_id since alerts))
     (hd_set ''payload_size'' (show_nat (length (lines_payload (map format_alert_line alerts)))) ok_header)"

lemma alerts_header_wire: "wire_ok (alerts_header since alerts)"
  unfolding alerts_header_def ok_header_def
  by (auto intro!: wire_ok_set simp: good_key_def trimmed_def is_ws_def)

lemma alerts_header_length:
  assumes "length (lines_payload (map format_alert_line alerts)) < 2 ^ 64"
  shows "length (serialize (alerts_header since alerts)) < 200"
proof -
  have "last_alert_id since alerts < 2 ^ 64"
    unfolding last_alert_id_def by (rule unat_u64_lt)
  from show_u64_length [OF this] show_u64_length [OF assms] show ?thesis
    by (simp add: alerts_header_def ok_header_def hd_set_def serialize_def)
qed

lemma alerts_served:
  assumes "hd_get req ''op'' [] = ''admin_get_alerts''" "hd_get req ''admin_token'' [] = s_admin_token s" "s_admin_token s \<noteq> []"
    "hd_get req ''since_id'' [] = show_nat since" "hd_get req ''limit'' [] = show_nat limit" "since < 2 ^ 64" "limit < 2 ^ 64"
  shows "handle_request env True wp req s
    = (let alerts = get_alerts_since (io_fs s) (io_audit s) (word_of_nat since) limit
       in send_payload (alerts_header since alerts) (lines_payload (map format_alert_line alerts)) s)"
proof -
  have n: "number_field req ''since_id'' 0 = Some since" "number_field req ''limit'' 100 = Some limit"
    using assms(4-7) by (simp_all add: number_field_def stoull_show_nat)
  have o: "is_admin_op ''admin_get_alerts''" by code_simp
  show ?thesis
    using assms(1-3) o
    by (simp add: handle_request_def handle_admin_def admin_authorized_def admin_get_alerts_def n Let_def
        alerts_header_def last_alert_id_def)
qed

lemma alerts_answer:
  assumes order: "\<forall>h. mset (order h) = mset h"
    and conn: "net (normalize_host (ad_host device)) (ad_port device) = conn"
      "cn_net conn" "cn_connect conn = None" "cn_timeout conn 5000" "cn_tls_init conn = None" "cn_handshake conn = None"
      "enough (cn_rets conn) (length (serialize (alerts_request device since limit)))"
      "cn_reply conn = served env True wp s"
    and server: "ad_token device = s_admin_token s" "s_admin_token s \<noteq> []" "wire_value (s_admin_token s)"
      "length (serialize (alerts_request device since limit)) < s_max_header_bytes s"
      "alerts = get_alerts_since (io_fs s) (io_audit s) (word_of_nat since) limit"
      "length (lines_payload (map format_alert_line alerts)) < 2 ^ 64"
      "enough (c_rets s) (200 + length (lines_payload (map format_alert_line alerts)))"
    and numbers: "since < 2 ^ 64" "limit < 2 ^ 64"
  shows "get_alerts order net device since limit known
    = (if length (lines_payload (map format_alert_line alerts)) > 8 * 1024 * 1024
       then Inl ''Administrative response exceeds 8 MiB limit''
       else Inr (map format_alert_line alerts, last_alert_id since alerts))"
proof -
  let ?h = "alerts_request device since limit" and ?p = "lines_payload (map format_alert_line alerts)"
  have w: "wire_ok ?h" using alerts_request_wire [of device] server(1,3) by simp
  have len: "length (serialize (order ?h)) = length (serialize ?h)"
    unfolding length_serialize order [rule_format] ..
  obtain rets where sent: "write_header (cn_rets conn) (order ?h) = (True, bytes_of (serialize (order ?h)), rets)"
    using enough_write [of "cn_rets conn" "bytes_of (serialize (order ?h))" 0] conn(7) len by (auto simp: write_header_def)
  obtain req where req: "read_header (s_max_header_bytes s) (bytes_of (serialize (order ?h))) = Some (req, [])"
    "map_of req = map_of ?h"
    using request_read [OF w alerts_request_fields(5) order [rule_format] server(4)] by blast
  let ?s = "s\<lparr>c_trace := [], c_in := []\<rparr>"
  have hl: "length (serialize (alerts_header since alerts)) < 200" using server(6) by (intro alerts_header_length) simp
  have "handle_session env True wp True (s\<lparr>c_in := bytes_of (serialize (order ?h)), c_trace := []\<rparr>)
      = handle_request env True wp req ?s"
    by (simp add: handle_session_def req(1))
  also have "\<dots> = send_payload (alerts_header since alerts) ?p ?s"
    using get_order [OF req(2)] alerts_request_fields server numbers by (subst alerts_served [where since = since and limit = limit]) (simp_all add: Let_def)
  finally have "served env True wp s (bytes_of (serialize (order ?h)))
      = output_bytes (send_payload (alerts_header since alerts) ?p ?s)"
    by (simp add: served_def)
  also have "\<dots> = bytes_of (serialize (alerts_header since alerts)) @ bytes_of ?p"
    using hl by (intro send_payload_bytes) (auto intro: enough_less [OF server(7)])
  finally have reply: "cn_reply conn (bytes_of (serialize (order ?h))) = bytes_of (serialize (alerts_header since alerts)) @ bytes_of ?p"
    by (simp add: conn(8))
  have resp: "read_header 65536 (bytes_of (serialize (alerts_header since alerts)) @ bytes_of ?p)
      = Some (store_all (alerts_header since alerts) [], bytes_of ?p)"
    using hl by (intro read_header_serialize alerts_header_wire) (simp_all add: alerts_header_def)
  define resp where "resp = store_all (alerts_header since alerts) []"
  have m: "map_of resp = map_of (alerts_header since alerts)"
    using alerts_header_wire [of since alerts] by (simp add: resp_def wire_ok_def header_ok_def map_of_store_all)
  have f: "hd_get resp ''status'' [] = ''ok''" "hd_get resp ''payload_size'' [] = show_nat (length ?p)"
    "hd_get resp ''last_id'' [] = show_nat (last_alert_id since alerts)"
    using get_order [OF m] by (simp_all add: alerts_header_def ok_header_def)
  have pay: "admin_payload resp (bytes_of ?p)
      = (if length ?p > 8 * 1024 * 1024 then Inl ''Administrative response exceeds 8 MiB limit'' else Inr ?p)"
    using server(6) f(2) by (simp add: admin_payload_def stoull_show_nat)
  have "admin_call order net device ?h
      = (if length ?p > 8 * 1024 * 1024 then Inl ''Administrative response exceeds 8 MiB limit'' else Inr (resp, ?p))"
    using conn(1-6) f(1) pay alerts_request_fields(1)
    by (simp add: admin_call_def admin_send_def sent reply resp resp_def [symmetric] admin_timeout_def Let_def del: conn(1))
  moreover have "payload_lines ?p = map format_alert_line alerts"
    using server(5) alerts_one_line by (intro payload_lines_payload) (auto simp: format_alert_line_def)
  moreover have "stoull (show_nat (last_alert_id since alerts)) = Some (last_alert_id since alerts)"
    unfolding last_alert_id_def by (intro stoull_show_nat unat_u64_lt)
  ultimately show ?thesis
    by (simp add: get_alerts_def alerts_request_def [symmetric] f(3) Let_def)
qed

lemma alerts_over_connection:
  assumes order: "\<forall>h. mset (order h) = mset h"
    and conn: "net (normalize_host (ad_host device)) (ad_port device) = conn"
      "cn_net conn" "cn_connect conn = None" "cn_timeout conn 5000" "cn_tls_init conn = None" "cn_handshake conn = None"
      "enough (cn_rets conn) (length (serialize (alerts_request device since limit)))"
      "cn_reply conn = served env True wp s"
    and server: "ad_token device = s_admin_token s" "s_admin_token s \<noteq> []" "wire_value (s_admin_token s)"
      "length (serialize (alerts_request device since limit)) < s_max_header_bytes s"
      "alerts = get_alerts_since (io_fs s) (io_audit s) (word_of_nat since) limit"
      "length (lines_payload (map format_alert_line alerts)) \<le> 8 * 1024 * 1024"
      "enough (c_rets s) (200 + length (lines_payload (map format_alert_line alerts)))"
    and numbers: "since < 2 ^ 64" "limit < 2 ^ 64"
  shows "get_alerts order net device since limit known = Inr (map format_alert_line alerts, last_alert_id since alerts)"
proof -
  have n: "length (lines_payload (map format_alert_line alerts)) < 2 ^ 64"
    using server(6) by (rule order.strict_trans1) simp
  show ?thesis
    using server(6) alerts_answer [where conn = conn and alerts = alerts and s = s and env = env and wp = wp and net = net and device = device and order = order,
        OF order conn server(1-5) n server(7) numbers] by simp
qed


section \<open>Logging in\<close>

lemma read_loop_extend:
  assumes "read_header_loop inp n nl buf = Some (b, left, rest)" "left \<noteq> 0"
  shows "read_header_loop (inp @ extra) (n + m) nl buf = Some (b, left + m, rest @ extra)"
  using assms(1)
proof (induction inp n nl buf rule: read_header_loop.induct)
  case (3 x inp n nl buf)
  let ?c = "char_of_byte x"
  consider (nl) "?c = CHR 0x0A" | (cr) "?c = CHR 0x0D" | (no) "?c \<noteq> CHR 0x0A" "?c \<noteq> CHR 0x0D" by blast
  then show ?case
  proof cases
    case nl
    with 3 show ?thesis by (cases nl) (simp_all add: Let_def)
  next
    case cr
    with 3 show ?thesis by (simp add: Let_def)
  next
    case no
    with 3 show ?thesis by (simp add: Let_def)
  qed
qed (use assms(2) in simp_all)

lemma read_header_extend:
  assumes "read_header n inp = Some (h, rest)"
  shows "read_header (n + m) (inp @ extra) = Some (h, rest @ extra)"
proof -
  obtain b left where "read_header_loop inp n False [] = Some (b, left, rest)" "left \<noteq> 0" "h = header_parse b"
    using assms by (auto simp: read_header_def split: option.splits if_splits)
  then show ?thesis using read_loop_extend [of inp n False "[]" b left rest extra m] by (simp add: read_header_def)
qed

text \<open>Whatever part of a header arrives: when it is read, it is the whole header.\<close>

lemma read_header_part:
  assumes "wire_ok h" "h \<noteq> []" "read_header n (take k (bytes_of (serialize h))) = Some (resp, rest)"
  shows "map_of resp = map_of h"
proof -
  let ?s = "bytes_of (serialize h)"
  from read_header_extend [OF assms(3), of "length (serialize h) + 1" "drop k ?s"]
  have "read_header (n + (length (serialize h) + 1)) ?s = Some (resp, rest @ drop k ?s)" by simp
  moreover have "read_header (n + (length (serialize h) + 1)) (?s @ []) = Some (store_all h [], [])"
    using assms(1,2) by (intro read_header_serialize) auto
  ultimately have "resp = store_all h []" by simp
  then show ?thesis using assms(1) by (simp add: wire_ok_def header_ok_def map_of_store_all)
qed

text \<open>The one reply to an authentication check.\<close>

definition auth_reply :: "nat \<Rightarrow> header" where
  "auth_reply perms = hd_set ''permissions'' (show_nat perms)
     (hd_set ''message'' ''Authentication successful'' (hd_set ''status'' ''ok'' []))"

lemma wire_show_int [simp]: "wire_value (show_int i)"
proof -
  have "is_digit c \<Longrightarrow> \<not> is_ws c" for c by (auto simp: is_digit_def is_ws_def)
  then show ?thesis using show_nat_digits [of "nat i"] show_nat_digits [of "nat (- i)"]
    by (intro wire_solid) (auto simp: show_int_def is_ws_def)
qed


lemma wire_sentences [simp]:
  "wire_value ''error''" "wire_value ''Authentication successful''" "wire_value ''Authentication failed''"
  "wire_value ''Client is not allowed by binding policy''"
  by (simp_all add: wire_value_def clean_def trimmed_def is_ws_def)

lemma wire_locked [simp]: "wire_value (''Account locked. Try again in '' @ show_int i @ ''s'')"
  using wire_show_int [of i] by (simp add: wire_value_def clean_def trimmed_def is_ws_def del: wire_show_int)

lemma error_header_wire: "wire_value m \<Longrightarrow> wire_ok (error_header m) \<and> error_header m \<noteq> [] \<and> hd_get (error_header m) ''status'' [] = ''error''"
  unfolding error_header_def by (auto intro!: wire_ok_set simp: good_key_def trimmed_def is_ws_def)

lemma auth_reply_wire: "wire_ok (auth_reply perms) \<and> auth_reply perms \<noteq> []"
  unfolding auth_reply_def by (auto intro!: wire_ok_set simp: good_key_def trimmed_def is_ws_def)

lemma locked_trace [simp]: "c_trace (snd (is_locked u m (s :: srv))) = c_trace s"
  by (rule locked_fields)

lemma enforce_trace:
  "fst (enforce_client_binding req u op s) \<Longrightarrow> c_trace (snd (enforce_client_binding req u op s)) = c_trace s"
  by (simp add: enforce_client_binding_def Let_def register_keeps split: if_splits)

lemma auth_check_replies:
  "\<exists>h n. c_trace (handle_auth_check env req s) = c_trace s @ [Out_header h n] \<and> wire_ok h \<and> h \<noteq> []
    \<and> (hd_get h ''status'' [] = ''ok'' \<longrightarrow> authenticated env req s
         \<and> h = auth_reply (user_permissions (s_users s) (hd_get req ''username'' [])))"
proof -
  let ?u = "hd_get req ''username'' []"
  have err: ?thesis if w: "wire_value m" and r: "c_trace s' = c_trace s" "handle_auth_check env req s = send_error m s'" for m s'
  proof -
    obtain n where "c_trace (handle_auth_check env req s) = c_trace s @ [Out_header (error_header m) n]"
      using send_error_trace [of m s'] r by auto
    with error_header_wire [OF w] show ?thesis by (intro exI [of _ "error_header m"] exI [of _ n]) simp
  qed
  obtain ok s1 where e: "enforce_client_binding req ?u ''auth_check'' s = (ok, s1)" by fastforce
  show ?thesis
  proof (cases ok)
    case False
    then obtain s2 where "s1 = send_error ''Client is not allowed by binding policy'' s2" "c_trace s2 = c_trace s"
      using e by (auto simp: enforce_client_binding_def Let_def register_keeps split: if_splits)
    with err [of "''Client is not allowed by binding policy''" s2] False e show ?thesis by (simp add: handle_auth_check_def)
  next
    case True
    with e have e': "enforce_client_binding req ?u ''auth_check'' s = (True, s1)" by simp
    with enforce_trace [of req ?u "''auth_check''" s] have t1: "c_trace s1 = c_trace s" by simp
    obtain l s2 where l: "is_locked ?u (s_monitor s1) s1 = (l, s2)" by fastforce
    then have t2: "c_trace s2 = c_trace s" using locked_trace [of ?u "s_monitor s1" s1] t1 by simp
    show ?thesis
    proof (cases l)
      case (Some i)
      show ?thesis
        by (rule err [OF wire_locked [of i]])
          (simp_all add: handle_auth_check_def refuse_locked_def e l \<open>ok\<close> Some t2 del: wire_locked)
    next
      case None
      have b: "s_users s2 = s_users s" "not_locked ?u s" "policy_allows s (request_client_id req)"
        using body_state(1-3) [of req ?u "''auth_check''" s s1 s2 env, OF e' _ surjective_pairing] l None by simp_all
      show ?thesis
      proof (cases "verify_user (e_kdf env) (s_users s) ?u (hd_get req ''password'' [])")
        case False
        with b(1) show ?thesis
          by (intro err [OF wire_sentences(3), of "io_event ''auth_failed'' ?u ''auth_check'' (mon_failure ?u s2)"])
            (simp_all add: Let_def handle_auth_check_def refuse_auth_def e l \<open>ok\<close> None t2)
      next
        case True
        then have "authenticated env req s" using b by (simp add: authenticated_def)
        with True e l \<open>ok\<close> None t2 b show ?thesis
          by (auto simp: handle_auth_check_def Let_def send_header_trace auth_reply_wire auth_reply_def [symmetric])
      qed
    qed
  qed
qed


lemma show_nat_digit:
  assumes "length (show_nat n) = 1" shows "of_char (hd (show_nat n)) - 48 = n"
proof -
  have "n < 10"
  proof (rule ccontr)
    assume "\<not> n < 10"
    then have "length (show_nat n) = length (show_nat (n div 10)) + 1" by (subst show_nat.simps) simp
    moreover have "show_nat (n div 10) \<noteq> []" by (subst show_nat.simps) simp
    ultimately show False using assms by simp
  qed
  then show ?thesis by (subst show_nat.simps) (simp add: digit_char_def)
qed

lemma wire_client_id [simp]: "wire_value (client_id_value env)"
proof -
  have "\<forall>c \<in> set kHex. \<not> is_ws c" "length kHex = 16" by code_simp+
  then have k: "i < 16 \<Longrightarrow> \<not> is_ws (kHex ! i)" for i by simp
  have "\<forall>c \<in> set (bytes_to_hex bs). \<not> is_ws c" for bs
    by (auto simp: bytes_to_hex_def hex_byte_def intro!: k nibble_lt notI)
  then show ?thesis by (intro wire_solid) (simp add: client_id_value_def Let_def)
qed

lemma client_id_length: "length (client_id_value env) = 64"
  by (simp add: client_id_value_def Let_def del: upt_rec_numeral)

lemma account_request_wire:
  assumes "wire_value op" "wire_value u" "wire_value p" "wire_value (host_label env)"
  shows "wire_ok (account_request env op u p)" "account_request env op u p \<noteq> []"
  using assms unfolding account_request_def comp_def
  by (auto intro!: wire_ok_set simp: good_key_def trimmed_def is_ws_def)

text \<open>The converse: what the server needs to find.\<close>

lemma rets_register [simp]: "c_rets (register_client c l s) = c_rets s"
  by (auto simp: register_client_def now_epoch_sec_def save_binding_policy_def split: option.splits)

lemma auth_check_accepts:
  assumes "policy_allows s (request_client_id req)" "map_of (m_stats (s_monitor s)) (hd_get req ''username'' []) = None"
    "verify_user (e_kdf env) (s_users s) (hd_get req ''username'' []) (hd_get req ''password'' [])"
    "enough (c_rets s) (length (serialize (auth_reply (user_permissions (s_users s) (hd_get req ''username'' [])))))"
  shows "c_trace (handle_auth_check env req s) = c_trace s
    @ [Out_header (auth_reply (user_permissions (s_users s) (hd_get req ''username'' [])))
        (length (serialize (auth_reply (user_permissions (s_users s) (hd_get req ''username'' [])))))]"
proof -
  let ?u = "hd_get req ''username'' []"
  let ?r = "auth_reply (user_permissions (s_users s) ?u)"
  obtain s1 where e: "enforce_client_binding req ?u ''auth_check'' s = (True, s1)"
    using assms(1) enforce_decision [of req ?u "''auth_check''" s] by (cases "enforce_client_binding req ?u ''auth_check'' s") auto
  have s1: "s_users s1 = s_users s" "s_monitor s1 = s_monitor s" "c_trace s1 = c_trace s" "c_rets s1 = c_rets s"
    using enforce_fields [of req ?u "''auth_check''" s] enforce_trace [of req ?u "''auth_check''" s] e
    by (auto simp: enforce_client_binding_def Let_def split: if_splits)
  obtain s2 where l: "is_locked ?u (s_monitor s1) s1 = (None, s2)"
    using assms(2) s1(2) by (simp add: is_locked_def now_epoch_sec_def)
  have s2: "s_users s2 = s_users s" "c_trace s2 = c_trace s" "c_rets s2 = c_rets s"
    using locked_fields [of ?u "s_monitor s1" s1, unfolded l snd_conv] s1 by simp_all
  have r: "c_rets (mon_success env ?u s2) = c_rets s2"
    using more_fields(3) [OF monitor_more(1) [of "e_monitor env" ?u "s_monitor s2" s2]]
    by (simp add: mon_success_def case_prod_unfold)
  from enough_write [of "c_rets s" "bytes_of (serialize ?r)" 0] assms(4)
  obtain rs where "write_loop (c_rets s) (bytes_of (serialize ?r)) = (True, bytes_of (serialize ?r), rs)" by auto
  with e l assms(3) s2 r show ?thesis
    by (simp add: handle_auth_check_def Let_def send_header_trace write_header_def auth_reply_def [symmetric])
qed

lemma show_permissions: "n \<le> 3 \<Longrightarrow> show_nat n = [char_of (48 + n)]"
  by (subst show_nat.simps) (simp add: digit_char_def)

lemma login_works:
  assumes order: "\<forall>h. mset (ce_order cenv h) = mset h" and mem: "0 \<le> ce_memory cenv"
    and conn: "cn_reply conn = served env False wp s" "cn_net conn" "cn_connect conn = None" "cn_tls_init conn = None"
      "cn_handshake conn = None" "enough (cn_rets conn) (length (serialize (account_request cenv ''auth_check'' u p)))"
    and words: "wire_value u" "wire_value p" "wire_value (host_label cenv)"
    and size: "length (serialize (account_request cenv ''auth_check'' u p)) < s_max_header_bytes s"
    and server: "policy_allows s (request_client_id (account_request cenv ''auth_check'' u p))"
      "map_of (m_stats (s_monitor s)) u = None" "verify_user (e_kdf env) (s_users s) u p"
      "user_permissions (s_users s) u \<le> 3" "enough (c_rets s) 100"
  shows "fst (authenticate cenv cfg conn u p c) = Some (Inr (user_permissions (s_users s) u))"
proof -
  let ?h = "account_request cenv ''auth_check'' u p" and ?n = "user_permissions (s_users s) u"
  have op: "wire_value ''auth_check''" by (rule wire_solid) (simp add: is_ws_def)
  note w = account_request_wire [OF op words]
  obtain req where req: "read_header (s_max_header_bytes s) (bytes_of (serialize (ce_order cenv ?h))) = Some (req, [])"
    "map_of req = map_of ?h"
    using request_read [OF w order [rule_format] size] by blast
  let ?s = "s\<lparr>c_trace := [], c_in := []\<rparr>" and ?env = "env.truncate env"
  have g: "hd_get req k d = hd_get ?h k d" for k d using get_order [OF req(2)] .
  have o: "\<not> is_admin_op ''auth_check''" by code_simp
  have opf: "hd_get ?h ''op'' [] = ''auth_check''" "hd_get ?h ''username'' [] = u" "hd_get ?h ''password'' [] = p"
    by (simp_all add: account_request_def)
  have k: "e_kdf ?env = e_kdf env" by (simp add: env.truncate_def)
  have rlen: "length (serialize (auth_reply ?n)) \<le> 100"
    by (simp add: auth_reply_def hd_set_def serialize_def show_permissions [OF server(4)])
  have t: "c_trace (handle_auth_check ?env req ?s) = [Out_header (auth_reply ?n) (length (serialize (auth_reply ?n)))]"
    using auth_check_accepts [of ?s req ?env] server rlen enough_less [OF server(5) rlen]
    by (simp add: g opf k policy_allows_def request_client_id_def)
  have reply: "served env False wp s (bytes_of (serialize (ce_order cenv ?h))) = bytes_of (serialize (auth_reply ?n)) @ []"
    using o by (simp add: served_def handle_session_def req(1) handle_request_def g opf Let_def output_bytes_def t)
  define resp where "resp = store_all (auth_reply ?n) []"
  have resp: "read_header 65536 (bytes_of (serialize (auth_reply ?n)) @ []) = Some (resp, [])"
    unfolding resp_def using auth_reply_wire rlen by (intro read_header_serialize) auto
  have m: "map_of resp = map_of (auth_reply ?n)"
    using auth_reply_wire by (simp add: resp_def wire_ok_def header_ok_def map_of_store_all)
  have f: "hd_get resp ''status'' [] = ''ok''" "hd_get resp ''permissions'' ''3'' = [char_of (48 + ?n)]"
    "reply_size resp = Some 0"
    using get_order [OF m] by (simp_all add: auth_reply_def reply_size_def show_permissions [OF server(4)])
  obtain rs where wr: "write_header (cn_rets conn) (ce_order cenv ?h) = (True, bytes_of (serialize (ce_order cenv ?h)), rs)"
    using enough_write [of "cn_rets conn" "bytes_of (serialize (ce_order cenv ?h))" 0] conn(6)
      length_serialize [of "ce_order cenv ?h"] length_serialize [of ?h] order
    by (auto simp: write_header_def)
  have "send_request cenv cfg conn ?h [] c = (Sent resp [], c\<lparr>cl_error := ''Invalid or incomplete server response''\<rparr>)"
    using conn(2-5) by (simp add: send_request_def wr conn(1) reply resp [simplified] receive_payload_def f Let_def)
  then show ?thesis
    using server(4) by (simp add: authenticate_def f)
qed

text \<open>C2: A client that is told it is logged in was let in by the server: when \<open>authenticate\<close>
  returns permissions over a connection to the server, the binding policy allowed the client, the
  account was not locked, the password verified against the user database, and the permissions are
  those of the account. This holds whatever the order of the fields, the outcomes of the writes on
  both sides and the place where the reply is cut. Conditions: the user name, the password and the
  client's host label are words a header carries unchanged (no line feed or carriage return in them
  and no white space at either end: the server splits the lines and trims the values, so it would
  check other words than the client was given), and the request is shorter than the server's limit
  for headers.\<close>

theorem login_is_checked:
  assumes order: "\<forall>h. mset (ce_order cenv h) = mset h"
    and conn: "cn_reply conn = served env False wp s"
    and words: "wire_value u" "wire_value p" "wire_value (host_label cenv)"
    and size: "length (serialize (account_request cenv ''auth_check'' u p)) < s_max_header_bytes s"
    and ok: "authenticate cenv cfg conn u p c = (Some (Inr perms), c')"
  shows "authenticated (env.truncate env) (account_request cenv ''auth_check'' u p) s
    \<and> perms = user_permissions (s_users s) u"
proof -
  let ?h = "account_request cenv ''auth_check'' u p"
  have op: "wire_value ''auth_check''" by (rule wire_solid) (simp add: is_ws_def)
  note w = account_request_wire [OF op words]
  obtain resp data c1 where sent: "send_request cenv cfg conn ?h [] c = (Sent resp data, c1)"
    and st: "hd_get resp ''status'' [] = ''ok''" and len: "length (hd_get resp ''permissions'' ''3'') = 1"
    and perms: "perms = of_char (hd (hd_get resp ''permissions'' ''3'')) - 48"
    using ok by (auto simp: authenticate_def Let_def split: prod.splits sent.splits if_splits)
  obtain rest where r: "read_header 65536 (served env False wp s (bytes_of (serialize (ce_order cenv ?h)))) = Some (resp, rest)"
    using sent_exchange [OF sent] conn by (auto simp: request_bytes_def)
  obtain req where req: "read_header (s_max_header_bytes s) (bytes_of (serialize (ce_order cenv ?h))) = Some (req, [])"
    "map_of req = map_of ?h"
    using request_read [OF w order [rule_format] size] by blast
  let ?s = "s\<lparr>c_trace := [], c_in := []\<rparr>" and ?env = "env.truncate env"
  have g: "hd_get req k d = hd_get ?h k d" for k d using get_order [OF req(2)] .
  have o: "\<not> is_admin_op ''auth_check''" by code_simp
  have opf: "hd_get ?h ''op'' [] = ''auth_check''" "hd_get ?h ''username'' [] = u" by (simp_all add: account_request_def)
  have "handle_session env False wp True (s\<lparr>c_in := bytes_of (serialize (ce_order cenv ?h)), c_trace := []\<rparr>)
      = handle_auth_check ?env req ?s"
    using o by (simp add: handle_session_def req(1) handle_request_def g opf Let_def)
  with r have r': "read_header 65536 (output_bytes (handle_auth_check ?env req ?s)) = Some (resp, rest)"
    by (simp add: served_def)
  obtain h n where h: "c_trace (handle_auth_check ?env req ?s) = [Out_header h n]" "wire_ok h" "h \<noteq> []"
    "hd_get h ''status'' [] = ''ok'' \<longrightarrow> authenticated ?env req ?s
         \<and> h = auth_reply (user_permissions (s_users ?s) (hd_get req ''username'' []))"
    using auth_check_replies [of ?env req ?s] by auto
  have m: "map_of resp = map_of h"
    using read_header_part [OF h(2,3)] r' by (simp add: output_bytes_def h(1))
  have a: "authenticated ?env req ?s" "h = auth_reply (user_permissions (s_users s) u)"
    using h(4) st get_order [OF m] g opf by simp_all
  have "hd_get resp ''permissions'' ''3'' = show_nat (user_permissions (s_users s) u)"
    using get_order [OF m] by (simp add: a(2) auth_reply_def)
  with len perms show_nat_digit have "perms = user_permissions (s_users s) u" by simp
  moreover have "authenticated ?env ?h s"
  proof -
    have t: "io_time ?s = io_time s" by (cases s) simp
    show ?thesis using a(1) unfolding authenticated_def request_client_id_def policy_allows_def not_locked_def g t by simp
  qed
  ultimately show ?thesis by blast
qed


section \<open>Concrete connections\<close>

definition demo_end :: srv where
  "demo_end = demo_srv\<lparr>c_rets := replicate 300 1000\<rparr>"

definition demo_line :: conn where
  "demo_line = \<lparr>cn_net = True, cn_connect = None, cn_tls_init = None, cn_handshake = None, cn_rets = replicate 300 1000,
     cn_reply = served demo_admin_env False False demo_end\<rparr>"

definition demo_admin_line :: admin_conn where
  "demo_admin_line = conn.extend (demo_line\<lparr>cn_reply := served demo_admin_env True False demo_end\<rparr>)
     \<lparr>cn_timeout = (\<lambda>ms. True)\<rparr>"

lemma demo_enough: "n \<le> 300 \<Longrightarrow> enough (replicate 300 1000) n"
  by (auto simp: enough_def)

lemma demo_end_fields:
  "s_users demo_end = demo_users" "s_admin_token demo_end = ''token''" "s_max_header_bytes demo_end = 65536"
  "c_rets demo_end = replicate 300 1000" "s_binding_enabled demo_end = False" "m_stats (s_monitor demo_end) = []"
  "io_fs demo_end = Map.empty"
  by (simp_all add: demo_end_def demo_srv_def io.defs demo_io_def demo_monitor_def)

definition demo_alert :: "u64 \<Rightarrow> alert" where
  "demo_alert i = \<lparr>al_id = i, al_ts = 5, al_type = ''t'', al_username = ''u'', al_detail = ''d''\<rparr>"

text \<open>A server with one alert at the first call and two at the second.\<close>

definition demo_alerts :: "nat \<Rightarrow> alert list" where
  "demo_alerts n = (if n = 0 then [demo_alert 1] else [demo_alert 1, demo_alert 2])"

definition demo_servers :: "nat \<Rightarrow> srv" where
  "demo_servers n = demo_end\<lparr>io_fs := [''a'' \<mapsto> bytes_of (lines_payload (map format_alert_line (demo_alerts n)))]\<rparr>"

lemma demo_alerts_since: "get_alerts_since (io_fs (demo_servers n)) (io_audit (demo_servers n)) 0 0 = demo_alerts n"
proof -
  have ok: "alert_ok (demo_alert i)" "one_line (format_alert_line (demo_alert i))" for i
    by (simp_all add: alert_ok_def demo_alert_def alert_line_one one_line_def format_alert_line_def)
  have "\<forall>l \<in> set (map format_alert_line (demo_alerts n)). CHR 0x0A \<notin> set l" using ok(2) by (simp add: demo_alerts_def one_line_def)
  from getlines_concat [OF this, of "[]"]
  have "file_lines (io_fs (demo_servers n)) ''a'' = map format_alert_line (demo_alerts n)"
    by (simp add: file_lines_def demo_servers_def lines_payload_def comp_def)
  moreover have "a_alert_path (io_audit (demo_servers n)) = ''a''"
    by (simp add: demo_servers_def demo_end_def demo_srv_def io.defs demo_io_def audit_new_def)
  ultimately show ?thesis
    using alert_roundtrip [OF ok(1)] by (simp add: get_alerts_since_def demo_alerts_def) (simp add: demo_alert_def)
qed

lemma demo_alerts_size: "length (lines_payload (map format_alert_line (demo_alerts n))) \<le> 58"
proof -
  have "length (format_alert_line (demo_alert i)) \<le> 28" for i
    using show_u64_length [OF unat_u64_lt, of i] show_nat_short [of 5 0] by (simp add: format_alert_line_def demo_alert_def show_int_def)
  from this [of 1] this [of 2] show ?thesis by (simp add: demo_alerts_def lines_payload_def)
qed

lemma demo_server_fields:
  "s_admin_token (demo_servers n) = ''token''" "s_max_header_bytes (demo_servers n) = 65536" "c_rets (demo_servers n) = replicate 300 1000"
  by (simp_all add: demo_servers_def demo_end_fields)


lemma demo_verified: "verify_user (e_kdf demo_admin_env) (s_users demo_end) ''bob'' ''x''"
proof -
  have "hex_to_bytes ''00'' = Some [0]" "bytes_to_hex [10] = ''0a''" by code_simp+
  then show ?thesis
    by (simp add: pbkdf2_hash_def demo_end_fields demo_users_def verify_user_def demo_admin_env_def env.defs demo_env_def)
qed

theorem login_is_checked_witness:
  "authenticated (env.truncate demo_admin_env) (account_request demo_cenv ''auth_check'' ''bob'' ''x'') demo_end"
proof -
  have host: "host_label demo_cenv = ''unknown-host''" by (simp add: demo_cenv_def host_label_def env_label_def)
  have w: "wire_value ''bob''" "wire_value ''x''" "wire_value (host_label demo_cenv)"
    unfolding host by (rule wire_solid, simp add: is_ws_def)+
  have "length (serialize (account_request demo_cenv ''auth_check'' ''bob'' ''x'')) = 80 + length (client_id_value demo_cenv)"
    by (simp add: account_request_def hd_set_def serialize_def host)
  then have len: "length (serialize (account_request demo_cenv ''auth_check'' ''bob'' ''x'')) \<le> 300"
    unfolding client_id_length by linarith
  note v = demo_verified
  have pm: "user_permissions (s_users demo_end) ''bob'' = 3" by (simp add: demo_end_fields demo_users_def user_permissions_def)
  have "fst (authenticate demo_cenv demo_ccfg demo_line ''bob'' ''x'' demo_client) = Some (Inr 3)"
    using login_works [of demo_cenv demo_line demo_admin_env False demo_end "''bob''" "''x''" demo_ccfg demo_client]
      w len v pm demo_enough
    by (simp add: demo_line_def demo_end_fields policy_allows_def demo_cenv_def)
  then obtain c where "authenticate demo_cenv demo_ccfg demo_line ''bob'' ''x'' demo_client = (Some (Inr 3), c)"
    by (cases "authenticate demo_cenv demo_ccfg demo_line ''bob'' ''x'' demo_client") auto
  from login_is_checked [OF _ _ w _ this, of demo_admin_env False demo_end] len
  show ?thesis by (simp add: demo_line_def demo_end_fields demo_cenv_def)
qed

end
