(* ===== verification/NetSocket.thy ===== *)
theory NetSocket
  imports Prelude
begin

text \<open>
  Sockets (common/src/net.cpp, as compiled for POSIX systems): \<open>Socket\<close> objects that own a descriptor,
  their moves and destruction, \<open>connect_to\<close> with its deadline over the addresses of a host,
  \<open>listen_on\<close>, \<open>accept\<close> and the bounded waits.

  The results of the system calls on an address are a record; the clock counts nanoseconds. What the
  program does to descriptors is in a trace: which it was given, which it closed, and which it put
  into an \<open>fd_set\<close>, an array of 1024 bits that \<open>FD_SET\<close> writes to without a check.
\<close>

datatype net_event = Opened int | Closed int | Watched int int

type_synonym handle = int

definition fd_setsize :: int where
  "fd_setsize = 1024"

text \<open>The descriptors that were opened and not closed, with multiplicity.\<close>

fun live_step :: "int multiset \<Rightarrow> net_event \<Rightarrow> int multiset" where
  "live_step m (Opened d) = m + {#d#}"
| "live_step m (Closed d) = m - {#d#}"
| "live_step m (Watched d t) = m"

definition live :: "net_event list \<Rightarrow> int multiset" where
  "live tr = foldl live_step {#} tr"

text \<open>Only open descriptors are closed or watched, and only those that fit are watched.\<close>

fun sound :: "int multiset \<Rightarrow> net_event list \<Rightarrow> bool" where
  "sound m [] = True"
| "sound m (Opened d # ev) = sound (m + {#d#}) ev"
| "sound m (Closed d # ev) \<longleftrightarrow> d \<in># m \<and> sound (m - {#d#}) ev"
| "sound m (Watched d t # ev) \<longleftrightarrow> d \<in># m \<and> 0 \<le> d \<and> d < fd_setsize \<and> sound m ev"

section \<open>One socket\<close>

definition sock_valid :: "handle \<Rightarrow> bool" where
  "sock_valid h \<longleftrightarrow> h \<ge> 0"

text \<open>\<open>close\<close>, which is also the destructor; the handle is \<open>-1\<close> afterwards.\<close>

definition sock_close :: "handle \<Rightarrow> net_event list" where
  "sock_close h = (if sock_valid h then [Closed h] else [])"

text \<open>The calls made for one address of the host.\<close>

record attempt =
  at_socket :: int
  at_flags :: int
  at_nonblock :: bool
  at_connect :: int
  at_inprogress :: bool
  at_select :: int
  at_getsockopt :: bool
  at_sockerr :: int
  at_blocking :: bool

definition at_pending :: "attempt \<Rightarrow> bool" where
  "at_pending a \<longleftrightarrow> at_connect a \<noteq> 0 \<and> at_inprogress a"

definition at_connected :: "attempt \<Rightarrow> bool" where
  "at_connected a \<longleftrightarrow>
     (if at_pending a then at_select a > 0 \<and> at_getsockopt a \<and> at_sockerr a = 0 else at_connect a = 0) \<and> at_blocking a"

fun connect_loop :: "int \<Rightarrow> (nat \<Rightarrow> int) \<Rightarrow> nat \<Rightarrow> attempt list \<Rightarrow> handle option \<times> net_event list" where
  "connect_loop deadline clock n [] = (None, [])"
| "connect_loop deadline clock n (a # rest) =
     (let remaining = (deadline - clock n) div 1000000; sock = at_socket a in
      if remaining \<le> 0 then (None, [])
      else if sock < 0 then connect_loop deadline clock (n + 1) rest
      else if at_flags a < 0 \<or> sock \<ge> fd_setsize \<or> \<not> at_nonblock a
      then (case connect_loop deadline clock (n + 1) rest of (h, tr) \<Rightarrow> (h, [Opened sock, Closed sock] @ tr))
      else let waits = (if at_pending a then [Watched sock remaining] else []) in
        if at_connected a then (Some sock, [Opened sock] @ waits)
        else (case connect_loop deadline clock (n + 1) rest of
            (h, tr) \<Rightarrow> (h, [Opened sock] @ waits @ [Closed sock] @ tr)))"

text \<open>\<open>addresses\<close> is the outcome of \<open>getaddrinfo\<close>. The result is the new handle and the error.\<close>

definition connect_to ::
  "string \<Rightarrow> int \<Rightarrow> int \<Rightarrow> attempt list option \<Rightarrow> (nat \<Rightarrow> int) \<Rightarrow> handle \<Rightarrow> string option \<times> handle \<times> net_event list" where
  "connect_to host port timeout_ms addresses clock h =
     (let before = sock_close h in
      if host = [] \<or> port < 1 \<or> port > 65535 \<or> timeout_ms \<le> 0
      then (Some ''Invalid address, port or timeout'', -1, before)
      else (case addresses of
          None \<Rightarrow> (Some ''getaddrinfo failed'', -1, before)
        | Some xs \<Rightarrow> (case connect_loop (clock 0 + timeout_ms * 1000000) clock 1 xs of
              (Some sock, tr) \<Rightarrow> (None, sock, before @ tr)
            | (None, tr) \<Rightarrow> (Some ''Unable to connect'', -1, before @ tr))))"

definition wait_readable :: "int \<Rightarrow> int \<Rightarrow> handle \<Rightarrow> bool \<times> net_event list" where
  "wait_readable timeout_ms selected h =
     (if \<not> sock_valid h \<or> timeout_ms < 0 then (False, [])
      else if h \<ge> fd_setsize then (False, [])
      else (selected > 0, [Watched h timeout_ms]))"

record binding_attempt =
  ba_socket :: int
  ba_bind :: bool
  ba_listen :: bool

fun listen_loop :: "binding_attempt list \<Rightarrow> handle \<times> net_event list" where
  "listen_loop [] = (-1, [])"
| "listen_loop (a # rest) =
     (if ba_socket a < 0 then listen_loop rest
      else if ba_bind a \<and> ba_listen a then (ba_socket a, [Opened (ba_socket a)])
      else (case listen_loop rest of (h, tr) \<Rightarrow> (h, [Opened (ba_socket a), Closed (ba_socket a)] @ tr)))"

definition listen_on :: "binding_attempt list option \<Rightarrow> string option \<times> handle \<times> net_event list" where
  "listen_on addresses = (case addresses of
       None \<Rightarrow> (Some ''getaddrinfo failed'', -1, [])
     | Some xs \<Rightarrow> (case listen_loop xs of
           (h, tr) \<Rightarrow> (if sock_valid h then None else Some ''Unable to bind'', h, tr)))"

text \<open>\<open>client\<close> is what the system call \<open>accept\<close> returns.\<close>

definition sock_accept :: "int \<Rightarrow> handle \<Rightarrow> string option \<times> handle \<times> net_event list" where
  "sock_accept client h =
     (if \<not> sock_valid h then (Some ''Invalid listen socket'', -1, [])
      else if client < 0 then (Some ''accept failed'', -1, [])
      else (None, client, [Opened client]))"

definition set_io_timeout :: "int \<Rightarrow> bool \<Rightarrow> bool \<Rightarrow> handle \<Rightarrow> bool" where
  "set_io_timeout timeout_ms receive_set send_set h \<longleftrightarrow> sock_valid h \<and> timeout_ms > 0 \<and> receive_set \<and> send_set"

definition sock_read :: "int \<Rightarrow> handle \<Rightarrow> int" where
  "sock_read received h = (if \<not> sock_valid h then -1 else received)"

definition sock_write :: "int \<Rightarrow> handle \<Rightarrow> int" where
  "sock_write sent h = (if \<not> sock_valid h then -1 else sent)"

section \<open>A program with sockets\<close>

text \<open>
  The \<open>Socket\<close> objects of a program are a list of handles; an operation names them by position and
  carries the results of the system calls it makes. Objects are created by the default constructor,
  by \<open>listen_on\<close> and \<open>accept\<close> and by moving; a destroyed object is one that was closed.
\<close>

datatype sock_op =
    Sock_new
  | Sock_connect nat string int int "attempt list option" "nat \<Rightarrow> int"
  | Sock_listen "binding_attempt list option"
  | Sock_accept nat int
  | Sock_wait nat int int
  | Sock_move nat
  | Sock_assign nat nat
  | Sock_close nat

fun sock_step :: "sock_op \<Rightarrow> handle list \<times> net_event list \<Rightarrow> handle list \<times> net_event list" where
  "sock_step Sock_new (hs, tr) = (hs @ [-1], tr)"
| "sock_step (Sock_connect i host port timeout addresses clock) (hs, tr) =
     (if i < length hs then case connect_to host port timeout addresses clock (hs ! i) of
        (e, h, ev) \<Rightarrow> (hs[i := h], tr @ ev) else (hs, tr))"
| "sock_step (Sock_listen addresses) (hs, tr) = (case listen_on addresses of (e, h, ev) \<Rightarrow> (hs @ [h], tr @ ev))"
| "sock_step (Sock_accept i client) (hs, tr) =
     (if i < length hs then case sock_accept client (hs ! i) of (e, h, ev) \<Rightarrow> (hs @ [h], tr @ ev) else (hs, tr))"
| "sock_step (Sock_wait i timeout selected) (hs, tr) =
     (if i < length hs then (hs, tr @ snd (wait_readable timeout selected (hs ! i))) else (hs, tr))"
| "sock_step (Sock_move i) (hs, tr) = (if i < length hs then (hs[i := -1] @ [hs ! i], tr) else (hs, tr))"
| "sock_step (Sock_assign i j) (hs, tr) =
     (if i < length hs \<and> j < length hs \<and> i \<noteq> j then (hs[i := hs ! j, j := -1], tr @ sock_close (hs ! i)) else (hs, tr))"
| "sock_step (Sock_close i) (hs, tr) = (if i < length hs then (hs[i := -1], tr @ sock_close (hs ! i)) else (hs, tr))"

definition sock_run :: "sock_op list \<Rightarrow> handle list \<times> net_event list" where
  "sock_run ops = fold sock_step ops ([], [])"

section \<open>Who owns a descriptor\<close>

definition owned :: "handle list \<Rightarrow> int multiset" where
  "owned hs = filter_mset (\<lambda>h. h \<ge> 0) (mset hs)"

definition held :: "handle option \<Rightarrow> int multiset" where
  "held h = (case h of None \<Rightarrow> {#} | Some d \<Rightarrow> {#d#})"

definition of_handle :: "handle \<Rightarrow> int multiset" where
  "of_handle h = (if h \<ge> 0 then {#h#} else {#})"

text \<open>A piece of a trace that opens exactly what it leaves open.\<close>

definition leaves :: "net_event list \<Rightarrow> int multiset \<Rightarrow> bool" where
  "leaves ev m \<longleftrightarrow> (\<forall>before. foldl live_step before ev = before + m \<and> sound before ev)"

lemma sound_append: "sound m (ev @ ev') \<longleftrightarrow> sound m ev \<and> sound (foldl live_step m ev) ev'"
  by (induction m ev rule: sound.induct) auto

lemma leaves_Nil [simp]: "leaves [] {#}"
  by (simp add: leaves_def)

lemma connect_loop_leaves: "connect_loop deadline clock n xs = (h, ev) \<Longrightarrow> leaves ev (held h) \<and> (\<forall>d. h = Some d \<longrightarrow> 0 \<le> d)"
  by (induction deadline clock n xs arbitrary: h ev rule: connect_loop.induct)
    (auto simp: Let_def leaves_def held_def sound_append split: if_splits prod.splits)

lemma connect_leaves:
  assumes "connect_to host port timeout addresses clock h0 = (e, h, ev)"
  shows "\<exists>tr. ev = sock_close h0 @ tr \<and> leaves tr (of_handle h)"
  using assms connect_loop_leaves
  by (fastforce simp: connect_to_def Let_def of_handle_def held_def split: if_splits option.splits prod.splits)

lemma listen_loop_leaves: "listen_loop xs = (h, ev) \<Longrightarrow> leaves ev (of_handle h)"
  by (induction xs arbitrary: h ev rule: listen_loop.induct)
    (auto simp: leaves_def of_handle_def split: if_splits prod.splits)

lemma listen_leaves:
  assumes "listen_on xs = (e, h, ev)" shows "leaves ev (of_handle h)"
proof (cases xs)
  case None
  with assms show ?thesis by (simp add: listen_on_def of_handle_def)
next
  case (Some ys)
  with assms have "listen_loop ys = (h, ev)" by (auto simp: listen_on_def split: prod.splits)
  then show ?thesis by (rule listen_loop_leaves)
qed

lemma accept_leaves: "sock_accept client h0 = (e, h, ev) \<Longrightarrow> leaves ev (of_handle h)"
  by (auto simp: sock_accept_def leaves_def of_handle_def split: if_splits)

lemma owned_append: "owned (hs @ [h]) = owned hs + of_handle h"
  by (simp add: owned_def of_handle_def)

lemma owned_update:
  assumes "i < length hs"
  shows "owned (hs[i := h]) + of_handle (hs ! i) = owned hs + of_handle h"
proof -
  have "hs ! i \<in># mset hs" using assms by simp
  then obtain rest where "mset hs = add_mset (hs ! i) rest" by (meson mset_add)
  then show ?thesis using assms by (simp add: owned_def of_handle_def mset_update)
qed

lemma close_live: "foldl live_step m (sock_close h) = m - of_handle h" "sound m (sock_close h) \<longleftrightarrow> of_handle h \<subseteq># m"
  by (simp_all add: sock_close_def sock_valid_def of_handle_def)

lemma live_events_append: "live (tr @ ev) = foldl live_step (live tr) ev"
  by (simp add: live_def)

definition sock_inv :: "handle list \<times> net_event list \<Rightarrow> bool" where
  "sock_inv s \<longleftrightarrow> live (snd s) = owned (fst s) \<and> sound {#} (snd s)"

lemma sound_live: "sound {#} (tr @ ev) \<longleftrightarrow> sound {#} tr \<and> sound (live tr) ev"
  by (simp add: sound_append live_def)

lemma inv_append: "sock_inv (hs, tr) \<Longrightarrow> leaves ev (of_handle h) \<Longrightarrow> sock_inv (hs @ [h], tr @ ev)"
  by (simp add: sock_inv_def live_events_append sound_live leaves_def owned_append)

lemma owned_member: "i < length hs \<Longrightarrow> of_handle (hs ! i) \<subseteq># owned hs"
  by (auto simp: of_handle_def owned_def)

lemma inv_replace:
  assumes "sock_inv (hs, tr)" "i < length hs" "leaves ev (of_handle h)"
  shows "sock_inv (hs[i := h], tr @ sock_close (hs ! i) @ ev)"
proof -
  have "owned hs - of_handle (hs ! i) + of_handle h = owned (hs[i := h])"
    using owned_update [OF assms(2), of h] owned_member [OF assms(2)]
    by (metis add_diff_cancel_right' multiset_diff_union_assoc union_commute)
  then show ?thesis
    using assms(1,3) owned_member [OF assms(2)]
    by (simp add: sock_inv_def live_events_append close_live leaves_def sound_live sound_append [of "owned hs"])
qed

lemma sock_step_inv: "sock_inv s \<Longrightarrow> sock_inv (sock_step op s)"
proof -
  assume inv: "sock_inv s"
  obtain hs tr where s: "s = (hs, tr)" by fastforce
  note inv = inv [unfolded s]
  show "sock_inv (sock_step op s)"
    unfolding s
  proof (cases op)
    case (Sock_connect i host port timeout addresses clock)
    obtain e h ev where c: "connect_to host port timeout addresses clock (hs ! i) = (e, h, ev)" by (cases "connect_to host port timeout addresses clock (hs ! i)")
    with connect_leaves [OF c] inv_replace [OF inv] Sock_connect inv show "sock_inv (sock_step op (hs, tr))" by auto
  next
    case (Sock_wait i timeout selected)
    have "sock_inv (hs, tr @ snd (wait_readable timeout selected (hs ! i)))" if "i < length hs"
      using inv owned_member [OF that]
      by (auto simp: sock_inv_def live_events_append sound_live wait_readable_def sock_valid_def of_handle_def)
    with inv Sock_wait show "sock_inv (sock_step op (hs, tr))" by simp
  next
    case (Sock_move i)
    have "owned (hs[i := -1] @ [hs ! i]) = owned hs" if "i < length hs"
      using owned_update [OF that, of "-1"] by (simp add: owned_append of_handle_def)
    with inv Sock_move show "sock_inv (sock_step op (hs, tr))" by (simp add: sock_inv_def)
  next
    case (Sock_assign i j)
    have "sock_inv (hs[i := hs ! j, j := -1], tr @ sock_close (hs ! i))" if "i < length hs" "j < length hs" "i \<noteq> j"
    proof -
      from inv_replace [OF inv that(1), of "[]" "-1"] have 1: "sock_inv (hs[i := -1], tr @ sock_close (hs ! i))"
        by (simp add: of_handle_def)
      have "owned (hs[i := hs ! j, j := -1]) = owned (hs[i := -1])"
        using owned_update [of i "hs[i := -1]" "hs ! j"] owned_update [of j "hs[i := hs ! j]" "-1"] that
        by (simp add: of_handle_def)
      with 1 show ?thesis by (simp add: sock_inv_def)
    qed
    with inv Sock_assign show "sock_inv (sock_step op (hs, tr))" by simp
  next
    case Sock_new
    with inv inv_append [OF inv, of "[]" "-1"] show "sock_inv (sock_step op (hs, tr))" by (simp add: of_handle_def)
  next
    case (Sock_listen xs)
    with inv_append [OF inv] listen_leaves show "sock_inv (sock_step op (hs, tr))" by (auto split: prod.splits)
  next
    case (Sock_accept i client)
    with inv inv_append [OF inv] accept_leaves show "sock_inv (sock_step op (hs, tr))" by (auto split: prod.splits)
  next
    case (Sock_close i)
    with inv inv_replace [OF inv, of i "[]" "-1"] show "sock_inv (sock_step op (hs, tr))" by (simp add: of_handle_def)
  qed
qed

text \<open>C19: Every descriptor has one owner: whatever the program does with sockets (connecting over
  several addresses with failures at any call, listening, accepting, moving, assigning, closing),
  the descriptors that are open are exactly those of its \<open>Socket\<close> objects, so none leaks. Only open
  descriptors are closed, so none is closed twice, and only open ones in the range of an \<open>fd_set\<close>
  are ever put into one.\<close>

theorem sockets_own_descriptors:
  assumes "sock_run ops = (hs, tr)"
  shows "live tr = filter_mset (\<lambda>h. h \<ge> 0) (mset hs)
    \<and> (\<forall>before after d. tr = before @ Closed d # after \<longrightarrow> d \<in># live before)
    \<and> (\<forall>before after d t. tr = before @ Watched d t # after \<longrightarrow> d \<in># live before \<and> 0 \<le> d \<and> d < fd_setsize)"
proof -
  have "sock_inv (fold sock_step ops s)" if "sock_inv s" for s
    using that by (induction ops arbitrary: s) (simp_all add: sock_step_inv)
  moreover have "sock_inv ([], [])" by (simp add: sock_inv_def live_def owned_def)
  ultimately have "sock_inv (hs, tr)" using assms by (metis sock_run_def)
  then show ?thesis by (auto simp: sock_inv_def owned_def sound_live)
qed

definition demo_attempt :: attempt where
  "demo_attempt = \<lparr>at_socket = 5, at_flags = 0, at_nonblock = True, at_connect = -1, at_inprogress = True, at_select = 0,
     at_getsockopt = True, at_sockerr = 0, at_blocking = True\<rparr>"

text \<open>The first address of a host does not answer, the second does; the socket is then moved.\<close>

theorem sockets_own_descriptors_witness:
  "live (snd (sock_run [Sock_new, Sock_connect 0 ''h'' 7443 5000
      (Some [demo_attempt, demo_attempt\<lparr>at_socket := 6, at_select := 1\<rparr>]) (\<lambda>n. 0), Sock_move 0])) = {#6#}"
proof -
  have "sock_run [Sock_new, Sock_connect 0 ''h'' 7443 5000
      (Some [demo_attempt, demo_attempt\<lparr>at_socket := 6, at_select := 1\<rparr>]) (\<lambda>n. 0), Sock_move 0]
    = ([-1, 6], [Opened 5, Watched 5 5000, Closed 5, Opened 6, Watched 6 5000])"
    by (simp add: sock_run_def connect_to_def demo_attempt_def at_pending_def at_connected_def fd_setsize_def
        sock_close_def sock_valid_def Let_def)
  from sockets_own_descriptors [OF this] show ?thesis
    unfolding \<open>sock_run _ = _\<close> by simp
qed

end
