(* ===== verification/TlsLayer.thy ===== *)
theory TlsLayer
  imports NetSocket
begin

text \<open>
  The TLS layer (common/src/tls.cpp): contexts and streams over OpenSSL, what is set on them before
  the handshake, and when their objects are freed. OpenSSL is a parameter: whether its objects can be
  made and files loaded, and the result of a handshake as a function of everything that was set on the
  connection. The objects made and freed, and the handshakes with their settings, are in a trace.
\<close>

datatype verify_mode = Verify_none | Verify_peer | Verify_peer_required

text \<open>\<open>ss_host\<close> is the name a certificate is checked against (\<open>SSL_set1_host\<close>).\<close>

record ssl_settings =
  ss_server :: bool
  ss_cert :: "path option"
  ss_key :: "path option"
  ss_ca :: "path option"
  ss_verify :: verify_mode
  ss_min_tls12 :: bool
  ss_sni :: "string option"
  ss_host :: "string option"

datatype tls_event = Ctx_new | Ctx_free | Ssl_new | Ssl_shutdown | Ssl_free | Handshake ssl_settings | Socket_event net_event

record tls_env =
  te_ctx :: bool
  te_cert_file :: "path \<Rightarrow> bool"
  te_key_file :: "path \<Rightarrow> bool"
  te_ca_file :: "path \<Rightarrow> bool"
  te_ssl :: bool
  te_handshake :: "ssl_settings \<Rightarrow> int"
  te_ssl_error :: "int \<Rightarrow> int"
  te_verify_result :: int
  te_verify_text :: "int \<Rightarrow> string option"
  te_errors :: "string list"

definition new_settings :: "bool \<Rightarrow> ssl_settings" where
  "new_settings server = \<lparr>ss_server = server, ss_cert = None, ss_key = None, ss_ca = None, ss_verify = Verify_none,
     ss_min_tls12 = False, ss_sni = None, ss_host = None\<rparr>"

section \<open>Errors\<close>

fun join_errors :: "bool \<Rightarrow> string list \<Rightarrow> string" where
  "join_errors first [] = []"
| "join_errors first (e # es) = (if first then '': '' else '' | '') @ e @ join_errors False es"

definition collect_ssl_errors :: "tls_env \<Rightarrow> string \<Rightarrow> string" where
  "collect_ssl_errors env prefix = prefix @ join_errors True (te_errors env)"

definition verify_result_to_string :: "tls_env \<Rightarrow> int \<Rightarrow> string" where
  "verify_result_to_string env result = (case te_verify_text env result of None \<Rightarrow> ''unknown'' | Some msg \<Rightarrow> msg)"

section \<open>Contexts\<close>

text \<open>The files a context is given; what was set before a failure stays set.\<close>

definition load_ca :: "tls_env \<Rightarrow> path \<Rightarrow> ssl_settings \<Rightarrow> string option \<times> ssl_settings" where
  "load_ca env ca_file s =
     (if ca_file = [] then (None, s)
      else if \<not> te_ca_file env ca_file then (Some ''Failed to load CA file'', s)
      else (None, s\<lparr>ss_ca := Some ca_file\<rparr>))"

definition load_own :: "tls_env \<Rightarrow> string \<Rightarrow> path \<Rightarrow> path \<Rightarrow> ssl_settings \<Rightarrow> string option \<times> ssl_settings" where
  "load_own env whose cert_file key_file s =
     (if \<not> te_cert_file env cert_file then (Some (''Failed to load '' @ whose @ '' certificate''), s)
      else let s = s\<lparr>ss_cert := Some cert_file\<rparr> in
        if \<not> te_key_file env key_file then (Some (''Failed to load '' @ whose @ '' key''), s)
        else (None, s\<lparr>ss_key := Some key_file\<rparr>))"

text \<open>The error, the context object after the call (it stays allocated when a later step fails) and
  the events; what the object held before is overwritten.\<close>

definition init_server ::
  "tls_env \<Rightarrow> path \<Rightarrow> path \<Rightarrow> path \<Rightarrow> bool \<Rightarrow> string option \<times> ssl_settings option \<times> tls_event list" where
  "init_server env cert_file key_file ca_file require_client_cert =
     (if \<not> te_ctx env then (Some ''SSL_CTX_new failed'', None, [])
      else (case load_own env ''server'' cert_file key_file (new_settings True) of
          (Some e, s) \<Rightarrow> (Some e, Some s, [Ctx_new])
        | (None, s) \<Rightarrow> (case load_ca env ca_file s of
            (Some e, s) \<Rightarrow> (Some e, Some s, [Ctx_new])
          | (None, s) \<Rightarrow>
              let s = (if require_client_cert then s\<lparr>ss_verify := Verify_peer_required\<rparr> else s)
              in (None, Some (s\<lparr>ss_min_tls12 := True\<rparr>), [Ctx_new]))))"

definition init_client ::
  "tls_env \<Rightarrow> path \<Rightarrow> path \<Rightarrow> path \<Rightarrow> bool \<Rightarrow> string option \<times> ssl_settings option \<times> tls_event list" where
  "init_client env ca_file cert_file key_file verify_peer =
     (if \<not> te_ctx env then (Some ''SSL_CTX_new failed'', None, [])
      else (case load_ca env ca_file (new_settings False) of
          (Some e, s) \<Rightarrow> (Some e, Some s, [Ctx_new])
        | (None, s) \<Rightarrow>
            (case (if cert_file \<noteq> [] \<and> key_file \<noteq> [] then load_own env ''client'' cert_file key_file s else (None, s)) of
              (Some e, s) \<Rightarrow> (Some e, Some s, [Ctx_new])
            | (None, s) \<Rightarrow>
                (None, Some (s\<lparr>ss_verify := (if verify_peer then Verify_peer else Verify_none), ss_min_tls12 := True\<rparr>),
                 [Ctx_new]))))"

definition ctx_free :: "ssl_settings option \<Rightarrow> tls_event list" where
  "ctx_free ctx = (if ctx = None then [] else [Ctx_free])"

section \<open>Streams\<close>

text \<open>A stream holds its SSL object (here: whether it has one) and its socket.\<close>

record tls_stream =
  ts_ssl :: bool
  ts_handle :: handle

definition stream_close :: "tls_stream \<Rightarrow> tls_stream \<times> tls_event list" where
  "stream_close st =
     (\<lparr>ts_ssl = False, ts_handle = -1\<rparr>,
      (if ts_ssl st then [Ssl_shutdown, Ssl_free] else []) @ map Socket_event (sock_close (ts_handle st)))"

text \<open>\<open>socket_ = std::move(socket)\<close> closes what the stream held before.\<close>

definition stream_accept ::
  "tls_env \<Rightarrow> ssl_settings \<Rightarrow> handle \<Rightarrow> tls_stream \<Rightarrow> string option \<times> tls_stream \<times> tls_event list" where
  "stream_accept env ctx h st =
     (let moved = map Socket_event (sock_close (ts_handle st)); st = st\<lparr>ts_handle := h\<rparr> in
      if \<not> te_ssl env then (Some ''SSL_new failed'', st\<lparr>ts_ssl := False\<rparr>, moved)
      else let st = st\<lparr>ts_ssl := True\<rparr>; rc = te_handshake env ctx; ev = moved @ [Ssl_new, Handshake ctx] in
        if rc \<noteq> 1
        then (case stream_close st of (st, closing) \<Rightarrow>
               (Some (collect_ssl_errors env (''SSL_accept failed (SSL_get_error='' @ show_int (te_ssl_error env rc) @ '')'')),
                st, ev @ closing))
        else (None, st, ev))"

definition stream_connect ::
  "tls_env \<Rightarrow> ssl_settings \<Rightarrow> string \<Rightarrow> handle \<Rightarrow> tls_stream \<Rightarrow> string option \<times> tls_stream \<times> tls_event list" where
  "stream_connect env ctx host h st =
     (let moved = map Socket_event (sock_close (ts_handle st)); st = st\<lparr>ts_handle := h\<rparr> in
      if \<not> te_ssl env then (Some ''SSL_new failed'', st\<lparr>ts_ssl := False\<rparr>, moved)
      else let st = st\<lparr>ts_ssl := True\<rparr>; s = ctx\<lparr>ss_sni := Some host\<rparr>; rc = te_handshake env s;
               ev = moved @ [Ssl_new, Handshake s] in
        if rc \<noteq> 1
        then (case stream_close st of (st, closing) \<Rightarrow>
               (Some (collect_ssl_errors env
                  (''SSL_connect failed (SSL_get_error='' @ show_int (te_ssl_error env rc) @ '')''
                   @ (if te_verify_result env \<noteq> 0
                      then '' verify='' @ verify_result_to_string env (te_verify_result env) else []))),
                st, ev @ closing))
        else (None, st, ev))"

definition stream_read :: "int \<Rightarrow> tls_stream \<Rightarrow> int" where
  "stream_read received st = (if \<not> ts_ssl st then -1 else received)"

definition stream_write :: "int \<Rightarrow> tls_stream \<Rightarrow> int" where
  "stream_write sent st = (if \<not> ts_ssl st then -1 else sent)"

section \<open>A session\<close>

text \<open>
  How both clients use the layer, after the socket \<open>h\<close> is connected: a context, a stream, then the
  exchange, and the destructors of stream, context and socket in this order. The error is that of
  the set-up; the exchange itself makes no objects.
\<close>

definition client_session ::
  "tls_env \<Rightarrow> path \<Rightarrow> path \<Rightarrow> path \<Rightarrow> bool \<Rightarrow> string \<Rightarrow> handle \<Rightarrow> string option \<times> tls_event list" where
  "client_session env ca_file cert_file key_file verify_peer host h =
     (case init_client env ca_file cert_file key_file verify_peer of
        (Some e, ctx, ev) \<Rightarrow> (Some e, ev @ ctx_free ctx @ map Socket_event (sock_close h))
      | (None, ctx, ev) \<Rightarrow>
          (case stream_connect env (the ctx) host h \<lparr>ts_ssl = False, ts_handle = -1\<rparr> of
            (e, st, ev2) \<Rightarrow> (e, ev @ ev2 @ snd (stream_close st) @ ctx_free ctx)))"


fun socket_event :: "tls_event \<Rightarrow> net_event option" where
  "socket_event (Socket_event ev) = Some ev"
| "socket_event _ = None"

definition socket_events :: "tls_event list \<Rightarrow> net_event list" where
  "socket_events ev = List.map_filter socket_event ev"

lemma socket_events_simps [simp]:
  "socket_events [] = []" "socket_events (Socket_event e # ev) = e # socket_events ev"
  "socket_events (Ctx_new # ev) = socket_events ev" "socket_events (Ctx_free # ev) = socket_events ev"
  "socket_events (Ssl_new # ev) = socket_events ev" "socket_events (Ssl_free # ev) = socket_events ev"
  "socket_events (Ssl_shutdown # ev) = socket_events ev" "socket_events (Handshake s # ev) = socket_events ev"
  by (simp_all add: socket_events_def List.map_filter_simps)

text \<open>The settings of the handshakes in a trace, and the objects over a trace: at most one context and one SSL
  object exist at any time, an SSL object only beside its context, a handshake and a shutdown only with an SSL
  object, nothing is freed that does not exist, and at the end nothing is left.\<close>

fun handshakes :: "tls_event list \<Rightarrow> ssl_settings list" where
  "handshakes [] = []"
| "handshakes (Handshake s # ev) = s # handshakes ev"
| "handshakes (_ # ev) = handshakes ev"

fun objects_ok :: "bool \<Rightarrow> bool \<Rightarrow> tls_event list \<Rightarrow> bool" where
  "objects_ok ctx ssl [] = (\<not> ctx \<and> \<not> ssl)"
| "objects_ok ctx ssl (Ctx_new # ev) = (\<not> ctx \<and> objects_ok True ssl ev)"
| "objects_ok ctx ssl (Ctx_free # ev) = (ctx \<and> \<not> ssl \<and> objects_ok False ssl ev)"
| "objects_ok ctx ssl (Ssl_new # ev) = (ctx \<and> \<not> ssl \<and> objects_ok ctx True ev)"
| "objects_ok ctx ssl (Ssl_free # ev) = (ssl \<and> objects_ok ctx False ev)"
| "objects_ok ctx ssl (Ssl_shutdown # ev) = (ssl \<and> objects_ok ctx ssl ev)"
| "objects_ok ctx ssl (Handshake s # ev) = (ssl \<and> objects_ok ctx ssl ev)"
| "objects_ok ctx ssl (Socket_event n # ev) = objects_ok ctx ssl ev"

lemma load_ca_ok: "load_ca env f s = (None, s') \<Longrightarrow> s' = (if f = [] then s else s\<lparr>ss_ca := Some f\<rparr>)"
  by (auto simp: load_ca_def split: if_split_asm)

lemma load_own_ok: "load_own env who c k s = (None, s') \<Longrightarrow> s' = s\<lparr>ss_cert := Some c, ss_key := Some k\<rparr>"
  by (auto simp: load_own_def Let_def split: if_split_asm)

text \<open>What a client's context holds after it was set up.\<close>

definition client_context :: "path \<Rightarrow> path \<Rightarrow> path \<Rightarrow> bool \<Rightarrow> ssl_settings" where
  "client_context ca_file cert_file key_file verify_peer =
     \<lparr>ss_server = False, ss_cert = (if cert_file \<noteq> [] \<and> key_file \<noteq> [] then Some cert_file else None),
      ss_key = (if cert_file \<noteq> [] \<and> key_file \<noteq> [] then Some key_file else None),
      ss_ca = (if ca_file = [] then None else Some ca_file),
      ss_verify = (if verify_peer then Verify_peer else Verify_none), ss_min_tls12 = True, ss_sni = None, ss_host = None\<rparr>"

lemma client_settings:
  assumes "init_client env ca_file cert_file key_file verify_peer = (e, ctx, ev)"
  shows "ev = (if ctx = None then [] else [Ctx_new])"
    and "e = None \<Longrightarrow> ctx = Some (client_context ca_file cert_file key_file verify_peer)"
proof -
  show "ev = (if ctx = None then [] else [Ctx_new])"
    using assms by (auto simp: init_client_def split: if_split_asm prod.splits option.splits)
next
  assume "e = None"
  then obtain s1 s2 where s: "load_ca env ca_file (new_settings False) = (None, s1)"
    "(if cert_file \<noteq> [] \<and> key_file \<noteq> [] then load_own env ''client'' cert_file key_file s1 else (None, s1)) = (None, s2)"
    "ctx = Some (s2\<lparr>ss_verify := (if verify_peer then Verify_peer else Verify_none), ss_min_tls12 := True\<rparr>)"
    using assms by (auto simp: init_client_def simp del: if_split split: if_split_asm prod.splits option.splits)
  note s1 = load_ca_ok [OF s(1)]
  have "s2 = (if cert_file \<noteq> [] \<and> key_file \<noteq> [] then s1\<lparr>ss_cert := Some cert_file, ss_key := Some key_file\<rparr> else s1)"
    using s(2) by (auto split: if_split_asm dest: load_own_ok)
  with s1 s(3) show "ctx = Some (client_context ca_file cert_file key_file verify_peer)"
    by (simp add: client_context_def new_settings_def)
qed

text \<open>C21: A client's connection is set up as the configuration says: either it fails before any handshake, or
  exactly one handshake is made, as a client, with TLS 1.2 or later, with the configured authority, with the
  client's certificate and key when both are configured, with verification of the peer exactly when it is
  configured, the host being sent as the server's name but not set to be compared with the certificate (so the
  name is not checked: see the findings); the set-up returns no error exactly when this handshake succeeded. Whatever
  fails, at most one context and one SSL object are made, each is used only while it exists and is freed
  exactly once, the SSL object before its context, and the connected socket is closed exactly once.\<close>

theorem client_connection_sound:
  assumes "client_session env ca_file cert_file key_file verify_peer host h = (e, ev)" "0 \<le> h"
  shows "objects_ok False False ev \<and> count_list ev Ctx_new \<le> 1 \<and> count_list ev Ssl_new \<le> 1
    \<and> socket_events ev = [Closed h]
    \<and> (handshakes ev = [] \<and> e \<noteq> None
       \<or> (\<exists>s. handshakes ev = [s] \<and> (e = None \<longleftrightarrow> te_handshake env s = 1)
            \<and> \<not> ss_server s \<and> ss_min_tls12 s \<and> ss_sni s = Some host \<and> ss_host s = None
            \<and> ss_verify s = (if verify_peer then Verify_peer else Verify_none)
            \<and> ss_ca s = (if ca_file = [] then None else Some ca_file)
            \<and> ss_cert s = (if cert_file \<noteq> [] \<and> key_file \<noteq> [] then Some cert_file else None)
            \<and> ss_key s = (if cert_file \<noteq> [] \<and> key_file \<noteq> [] then Some key_file else None)))"
proof -
  obtain e1 ctx ev1 where i: "init_client env ca_file cert_file key_file verify_peer = (e1, ctx, ev1)"
    by (cases "init_client env ca_file cert_file key_file verify_peer")
  note c = client_settings [OF i]
  show ?thesis
  proof (cases e1)
    case (Some m)
    with assms i c(1) show ?thesis
      by (cases "ctx = None") (auto simp: client_session_def ctx_free_def sock_close_def sock_valid_def)
  next
    case None
    with assms i c show ?thesis
      by (auto simp: client_session_def client_context_def stream_connect_def stream_close_def ctx_free_def sock_close_def
          sock_valid_def Let_def split: if_splits)
  qed
qed

text \<open>
  What OpenSSL promises for a peer whose certificate is made out for \<open>name\<close> and is trusted under the
  authorities for which \<open>trusted\<close> holds: a verifying client accepts it when it is trusted and, if a
  name was set to be checked, made out for that name.
\<close>

definition peer_law :: "tls_env \<Rightarrow> (path option \<Rightarrow> bool) \<Rightarrow> string \<Rightarrow> bool" where
  "peer_law env trusted name \<longleftrightarrow> (\<forall>s. \<not> ss_server s \<longrightarrow>
     (te_handshake env s = 1 \<longleftrightarrow>
        ss_verify s = Verify_none \<or> trusted (ss_ca s) \<and> (\<forall>host. ss_host s = Some host \<longrightarrow> name = host)))"

text \<open>The name in the server's certificate is never compared with the host: a client that verifies
  its peer completes the handshake with any certificate of the configured authority, whatever name
  it is made out for, and refuses those the authority did not sign.\<close>

theorem certificate_name_unchecked:
  assumes "peer_law env trusted name" "te_ctx env" "te_ssl env" "ca_file \<noteq> []" "te_ca_file env ca_file"
  shows "fst (client_session env ca_file [] [] True host h) = None \<longleftrightarrow> trusted (Some ca_file)"
  using assms
  by (simp add: client_session_def init_client_def load_ca_def stream_connect_def new_settings_def Let_def peer_law_def split: prod.split)

section \<open>A concrete peer\<close>

definition demo_tls :: tls_env where
  "demo_tls = \<lparr>te_ctx = True, te_cert_file = (\<lambda>p. True), te_key_file = (\<lambda>p. True), te_ca_file = (\<lambda>p. True), te_ssl = True,
     te_handshake = (\<lambda>s. if ss_verify s = Verify_none \<or> ss_ca s = Some ''ca'' \<and> (ss_host s = None \<or> ss_host s = Some ''evil'')
       then 1 else -1),
     te_ssl_error = (\<lambda>rc. 1), te_verify_result = 0, te_verify_text = (\<lambda>r. None), te_errors = []\<rparr>"

theorem client_connection_sound_witness:
  "socket_events (snd (client_session demo_tls ''ca'' [] [] True ''h'' 5)) = [Closed 5]"
  using client_connection_sound [of demo_tls "''ca''" "[]" "[]" True "''h''" 5
      "fst (client_session demo_tls ''ca'' [] [] True ''h'' 5)" "snd (client_session demo_tls ''ca'' [] [] True ''h'' 5)"]
  by simp

theorem certificate_name_unchecked_witness:
  "fst (client_session demo_tls ''ca'' [] [] True ''bank'' 5) = None"
proof -
  have "peer_law demo_tls (\<lambda>ca. ca = Some ''ca'') ''evil''"
    by (auto simp: peer_law_def demo_tls_def)
  from certificate_name_unchecked [OF this, of "''ca''" "''bank''" 5] show ?thesis by (simp add: demo_tls_def)
qed

end
