(* ===== verification/GostTool.thy ===== *)
theory GostTool
  imports Storage
begin

text \<open>
  The two stand-alone programs (gost.c and decr.c) that encrypt and decrypt a file with Kuznechik in
  CBC mode: argument checks, key file, the block loops with every early exit, and the padding. A file
  whose length is a multiple of the block is not padded, and the decryption strips whatever looks
  like a padding; the lemmas say exactly what comes back.

  libakrypt is a parameter: its generator (a linear congruential one), whether its contexts can be
  made, the outcome of the \<open>n\<close>-th block operation and the block cipher. So are the outcomes of the
  calls on files: \<open>tl_kept\<close> is the number of bytes of a file that reach the disk when it is closed,
  which neither program checks.
\<close>

abbreviation block_size :: nat where "block_size \<equiv> 16"
abbreviation key_size :: nat where "key_size \<equiv> 32"

record tool_env =
  tl_lib :: bool
  tl_rng :: "nat \<Rightarrow> (nat \<Rightarrow> byte) option"
  tl_ctx :: bool
  tl_set_key :: "byte list \<Rightarrow> bool"
  tl_alloc :: bool
  tl_block_ok :: "nat \<Rightarrow> bool"
  tl_enc :: "byte list \<Rightarrow> byte list \<Rightarrow> byte list"
  tl_dec :: "byte list \<Rightarrow> byte list \<Rightarrow> byte list"
  tl_open_r :: "path \<Rightarrow> bool"
  tl_open_w :: "path \<Rightarrow> bool"
  tl_write_ok :: "path \<Rightarrow> nat \<Rightarrow> bool"
  tl_kept :: "path \<Rightarrow> nat option"

datatype tool_error = Bad_usage | No_library | No_key | No_input | No_output | No_iv | Iv_not_written | No_context
  | Key_not_set | No_memory | Block_failed | Block_not_written | Bad_block_size | No_key_file | Key_not_written | Short_key
  | Short_iv

datatype tool_note = Key_saved path | File_done path | Key_printed "byte list" | Keep_the_key

section \<open>Files\<close>

definition open_input :: "tool_env \<Rightarrow> path \<Rightarrow> fs \<Rightarrow> bool" where
  "open_input env p fs \<longleftrightarrow> tl_open_r env p \<and> fs p \<noteq> None"

text \<open>What a file holds after it is closed.\<close>

definition closed :: "tool_env \<Rightarrow> path \<Rightarrow> byte list \<Rightarrow> byte list" where
  "closed env p out = (case tl_kept env p of None \<Rightarrow> out | Some n \<Rightarrow> take n out)"

text \<open>The \<open>w\<close>-th \<open>fwrite\<close>; nothing to write is always a success.\<close>

definition put :: "tool_env \<Rightarrow> path \<Rightarrow> nat \<Rightarrow> byte list \<Rightarrow> bool" where
  "put env p w data \<longleftrightarrow> data = [] \<or> tl_write_ok env p w"

section \<open>gost.c\<close>

definition generate_random :: "tool_env \<Rightarrow> nat \<Rightarrow> nat \<Rightarrow> byte list option" where
  "generate_random env k n = map_option (\<lambda>f. map f [0..<n]) (tl_rng env k)"

definition padded_block :: "byte list \<Rightarrow> byte list" where
  "padded_block rest = (let b = take block_size rest in
     b @ replicate (block_size - length b) (word_of_nat (block_size - length b)))"

definition xor_block :: "byte list \<Rightarrow> byte list \<Rightarrow> byte list" where
  "xor_block a b = map2 (XOR) a b"

text \<open>The loop over the input; the error and everything written so far.\<close>

function encrypt_blocks ::
  "tool_env \<Rightarrow> path \<Rightarrow> byte list \<Rightarrow> nat \<Rightarrow> byte list \<Rightarrow> byte list \<Rightarrow> byte list \<Rightarrow> tool_error option \<times> byte list" where
  "encrypt_blocks env p key n current_iv rest out =
     (if rest = [] then (None, out)
      else let buffer = xor_block (padded_block rest) current_iv in
        if \<not> tl_block_ok env n then (Some Block_failed, out)
        else let c = tl_enc env key buffer in
          if \<not> put env p (Suc n) c then (Some Block_not_written, out @ c)
          else encrypt_blocks env p key (Suc n) c (drop block_size rest) (out @ c))"
  by pat_completeness auto

termination by (relation "measure (\<lambda>(env, p, key, n, iv, rest, out). length rest)") auto

definition encrypt_body :: "tool_env \<Rightarrow> path \<Rightarrow> byte list \<Rightarrow> byte list \<Rightarrow> tool_error option \<times> byte list" where
  "encrypt_body env output key data =
     (case generate_random env 1 block_size of
        None \<Rightarrow> (Some No_iv, [])
      | Some iv \<Rightarrow>
          if \<not> put env output 0 iv then (Some Iv_not_written, iv)
          else if \<not> tl_ctx env then (Some No_context, iv)
          else if \<not> tl_set_key env key then (Some Key_not_set, iv)
          else if \<not> tl_alloc env then (Some No_memory, iv)
          else encrypt_blocks env output key 0 iv data iv)"

text \<open>The output is opened, and emptied, before the input is read.\<close>

definition tool_encrypt_file :: "tool_env \<Rightarrow> path \<Rightarrow> path \<Rightarrow> byte list \<Rightarrow> fs \<Rightarrow> tool_error option \<times> fs" where
  "tool_encrypt_file env input output key fs =
     (if \<not> open_input env input fs then (Some No_input, fs)
      else if \<not> tl_open_w env output then (Some No_output, fs)
      else let data = the ((fs(output \<mapsto> [])) input) in
        case encrypt_body env output key data of (e, out) \<Rightarrow> (e, fs(output \<mapsto> closed env output out)))"

definition save_key_to_file :: "tool_env \<Rightarrow> byte list \<Rightarrow> path \<Rightarrow> fs \<Rightarrow> tool_error option \<times> fs" where
  "save_key_to_file env key key_file fs =
     (if \<not> tl_open_w env key_file then (Some No_key_file, fs)
      else (if put env key_file 0 key then None else Some Key_not_written, fs(key_file \<mapsto> closed env key_file key)))"

text \<open>\<open>main\<close>: the arguments after the program's name. \<open>Inl\<close> is EXIT_FAILURE.\<close>

definition gost_main :: "tool_env \<Rightarrow> string list \<Rightarrow> fs \<Rightarrow> (tool_error + tool_note list) \<times> fs" where
  "gost_main env args fs =
     (if length args < 2 \<or> length args > 3 then (Inl Bad_usage, fs)
      else if \<not> tl_lib env then (Inl No_library, fs)
      else (case generate_random env 0 key_size of
          None \<Rightarrow> (Inl No_key, fs)
        | Some key \<Rightarrow> (case tool_encrypt_file env (args ! 0) (args ! 1) key fs of
            (Some e, fs) \<Rightarrow> (Inl e, fs)
          | (None, fs) \<Rightarrow>
              if length args = 3 then (case save_key_to_file env key (args ! 2) fs of
                  (Some e, fs) \<Rightarrow> (Inl e, fs)
                | (None, fs) \<Rightarrow> (Inr [Key_saved (args ! 2), File_done (args ! 1), Key_printed key, Keep_the_key], fs))
              else (Inr [File_done (args ! 1), Key_printed key, Keep_the_key], fs))))"

section \<open>decr.c\<close>

definition load_key_from_file :: "tool_env \<Rightarrow> path \<Rightarrow> fs \<Rightarrow> tool_error + byte list" where
  "load_key_from_file env key_file fs =
     (if \<not> open_input env key_file fs then Inl No_key_file
      else let data = the (fs key_file) in
        if length data < key_size then Inl Short_key else Inr (take key_size data))"

text \<open>
  The loop over the ciphertext: a block is written when another byte follows it, and kept as
  \<open>last\<close> otherwise. \<open>n\<close> counts the blocks, \<open>rest\<close> is what the input still holds.
\<close>

function decrypt_blocks ::
  "tool_env \<Rightarrow> path \<Rightarrow> byte list \<Rightarrow> nat \<Rightarrow> byte list \<Rightarrow> byte list \<Rightarrow> byte list \<Rightarrow> byte list
     \<Rightarrow> tool_error option \<times> byte list \<times> byte list" where
  "decrypt_blocks env p key n current_iv rest out last_block =
     (if rest = [] then (None, out, last_block)
      else if length rest < block_size then (Some Bad_block_size, out, last_block)
      else let buffer = take block_size rest; next = drop block_size rest in
        if \<not> tl_block_ok env n then (Some Block_failed, out, last_block)
        else let d = xor_block (tl_dec env key buffer) current_iv in
          if next \<noteq> [] then
            (if \<not> put env p n d then (Some Block_not_written, out @ d, last_block)
             else decrypt_blocks env p key (Suc n) buffer next (out @ d) last_block)
          else decrypt_blocks env p key (Suc n) buffer next out d)"
  by pat_completeness auto

termination by (relation "measure (\<lambda>(env, p, key, n, iv, rest, out, l). length rest)") auto

text \<open>What of the last block is written: all of it, unless it ends in a padding to be removed.\<close>

definition padding_valid :: "byte list \<Rightarrow> nat \<Rightarrow> bool" where
  "padding_valid b n \<longleftrightarrow> (\<forall>i < block_size. block_size - n \<le> i \<longrightarrow> unat (b ! i) = n)"

definition last_part :: "bool \<Rightarrow> byte list \<Rightarrow> byte list" where
  "last_part raw_blocks b =
     (let padding_size = unat (b ! (block_size - 1)) in
      if \<not> raw_blocks \<and> padding_size > 0 \<and> padding_size \<le> block_size
      then (if padding_valid b padding_size then take (block_size - padding_size) b else b)
      else b)"

definition decrypt_body :: "tool_env \<Rightarrow> path \<Rightarrow> byte list \<Rightarrow> bool \<Rightarrow> byte list \<Rightarrow> tool_error option \<times> byte list" where
  "decrypt_body env output key raw_blocks data =
     (if length data < block_size then (Some Short_iv, [])
      else if \<not> tl_ctx env then (Some No_context, [])
      else if \<not> tl_set_key env key then (Some Key_not_set, [])
      else if \<not> tl_alloc env then (Some No_memory, [])
      else (case decrypt_blocks env output key 0 (take block_size data) (drop block_size data) [] [] of
          (Some e, out, last_block) \<Rightarrow> (Some e, out)
        | (None, out, last_block) \<Rightarrow>
            if last_block = [] then (None, out)
            else let part = last_part raw_blocks last_block in
              (if put env output (length data div block_size - 2) part then None else Some Block_not_written, out @ part)))"

definition tool_decrypt_file :: "tool_env \<Rightarrow> path \<Rightarrow> path \<Rightarrow> byte list \<Rightarrow> bool \<Rightarrow> fs \<Rightarrow> tool_error option \<times> fs" where
  "tool_decrypt_file env input output key raw_blocks fs =
     (if \<not> open_input env input fs then (Some No_input, fs)
      else if \<not> tl_open_w env output then (Some No_output, fs)
      else let data = the ((fs(output \<mapsto> [])) input) in
        case decrypt_body env output key raw_blocks data of (e, out) \<Rightarrow> (e, fs(output \<mapsto> closed env output out)))"

definition decr_main :: "tool_env \<Rightarrow> string list \<Rightarrow> fs \<Rightarrow> (tool_error + tool_note list) \<times> fs" where
  "decr_main env args fs =
     (if length args \<noteq> 3 \<and> \<not> (length args = 4 \<and> args ! 3 = ''--raw-blocks'') then (Inl Bad_usage, fs)
      else if \<not> tl_lib env then (Inl No_library, fs)
      else (case load_key_from_file env (args ! 2) fs of
          Inl e \<Rightarrow> (Inl e, fs)
        | Inr key \<Rightarrow> (case tool_decrypt_file env (args ! 0) (args ! 1) key (length args = 4) fs of
            (Some e, fs) \<Rightarrow> (Inl e, fs)
          | (None, fs) \<Rightarrow> (Inr [File_done (args ! 1)], fs))))"


declare encrypt_blocks.simps [simp del] decrypt_blocks.simps [simp del]

section \<open>CBC as a reference\<close>

definition padded :: "byte list \<Rightarrow> byte list" where
  "padded p = (let k = (block_size - length p mod block_size) mod block_size in p @ replicate k (word_of_nat k))"

function cbc :: "(byte list \<Rightarrow> byte list) \<Rightarrow> byte list \<Rightarrow> byte list \<Rightarrow> byte list" where
  "cbc E iv q = (if q = [] then [] else let c = E (xor_block (take block_size q) iv) in c @ cbc E c (drop block_size q))"
  by pat_completeness auto

termination by (relation "measure (\<lambda>(E, iv, q). length q)") auto

declare cbc.simps [simp del]

text \<open>What the decryption makes of the text with its padding, or with bytes that look like one.\<close>

definition unpadded :: "byte list \<Rightarrow> byte list" where
  "unpadded q = (let n = unat (last q) in
     if q \<noteq> [] \<and> 0 < n \<and> n \<le> block_size \<and> drop (length q - n) q = replicate n (last q)
     then take (length q - n) q else q)"

lemma padded_step:
  assumes "rest \<noteq> []"
  shows "padded rest = padded_block rest @ padded (drop block_size rest)"
proof (cases "length rest < block_size")
  case True
  with assms show ?thesis by (simp add: padded_def padded_block_def Let_def)
next
  case False
  then have "length rest mod block_size = (length rest - block_size) mod block_size"
    by (simp add: le_mod_geq)
  with False show ?thesis by (simp add: padded_def padded_block_def Let_def)
qed

lemma length_padded_block [simp]: "length (padded_block rest) = block_size"
  by (simp add: padded_block_def Let_def)

lemma length_xor_block [simp]: "length (xor_block a b) = min (length a) (length b)"
  by (simp add: xor_block_def)

lemma xor_twice: "length a = length b \<Longrightarrow> xor_block (xor_block a b) b = a"
  unfolding xor_block_def by (induction a b rule: list_induct2) (simp_all add: xor.assoc)

lemma length_padded: "length (padded p) mod block_size = 0"
proof -
  obtain k m where l: "length p = block_size * k + m" "m < block_size"
    using mult_div_mod_eq [of block_size "length p"] mod_less_divisor [of block_size "length p"] by (metis zero_less_numeral)
  then have "length p mod block_size = m" by simp
  with l show ?thesis by (cases "m = 0") (simp_all add: padded_def)
qed

lemma encrypt_all:
  assumes "\<And>n. tl_block_ok env n" "\<And>w. tl_write_ok env p w"
  shows "encrypt_blocks env p key n iv rest out = (None, out @ cbc (tl_enc env key) iv (padded rest))"
proof (induction rest arbitrary: n iv out rule: measure_induct_rule [of length])
  case (less rest)
  show ?case
  proof (cases "rest = []")
    case True
    then show ?thesis by (simp add: encrypt_blocks.simps [of _ _ _ _ _ "[]"] cbc.simps [of _ _ "[]"] padded_def)
  next
    case False
    note split = padded_step [OF False]
    have b: "take block_size (padded rest) = padded_block rest" "drop block_size (padded rest) = padded (drop block_size rest)"
      by (simp_all add: split)
    have ne: "padded rest \<noteq> []" using split length_padded_block [of rest] by (cases "padded_block rest") auto
    have "length (drop block_size rest) < length rest" using False by (cases rest) auto
    from less.IH [OF this] show ?thesis
      using False ne
      by (subst encrypt_blocks.simps, subst cbc.simps) (simp add: Let_def put_def assms b)
  qed
qed

text \<open>libakrypt's law: decrypting a block inverts encrypting it.\<close>

definition block_law :: "tool_env \<Rightarrow> byte list \<Rightarrow> bool" where
  "block_law env key \<longleftrightarrow> (\<forall>b. length b = block_size \<longrightarrow>
     length (tl_enc env key b) = block_size \<and> tl_dec env key (tl_enc env key b) = b)"

lemma decrypt_all:
  assumes "\<And>n. tl_block_ok env n" "\<And>w. tl_write_ok env p w" "block_law env key"
    "length iv = block_size" "length q mod block_size = 0" "q \<noteq> []"
  shows "decrypt_blocks env p key n iv (cbc (tl_enc env key) iv q) out l
    = (None, out @ take (length q - block_size) q, drop (length q - block_size) q)"
  using assms(4-6)
proof (induction q arbitrary: n iv out l rule: measure_induct_rule [of length])
  case (less q)
  let ?E = "tl_enc env key"
  have len: "block_size \<le> length q" using less.prems by (intro dvd_imp_le) (auto simp: mod_eq_0_iff_dvd)
  let ?b = "xor_block (take block_size q) iv" and ?q = "drop block_size q"
  have b: "length ?b = block_size" using len less.prems by simp
  from assms(3) b have E: "length (?E ?b) = block_size" "tl_dec env key (?E ?b) = ?b" by (simp_all add: block_law_def)
  have d: "xor_block ?b iv = take block_size q" using len less.prems by (intro xor_twice) simp
  have c: "cbc ?E iv q = ?E ?b @ cbc ?E (?E ?b) ?q" using less.prems by (subst cbc.simps) (simp add: Let_def)
  have ne: "?E ?b \<noteq> []" using E(1) by auto
  show ?case
  proof (cases "?q = []")
    case True
    with len have "length q = block_size" by simp
    with E ne d show ?thesis
      unfolding c True
      by (subst decrypt_blocks.simps) (simp add: Let_def assms cbc.simps [of _ _ "[]"] decrypt_blocks.simps [of _ _ _ _ _ "[]"])
  next
    case False
    have n: "cbc ?E (?E ?b) ?q \<noteq> []"
    proof -
      from False len less.prems have "block_size \<le> length ?q" by simp presburger
      then have "length (?E (xor_block (take block_size ?q) (?E ?b))) = block_size"
        using assms(3) E(1) by (simp add: block_law_def)
      then show ?thesis using False by (subst cbc.simps) (auto simp: Let_def)
    qed
    have m: "length ?q mod block_size = 0" using less.prems len by simp presburger
    have "length ?q < length q" using len False by simp
    from less.IH [OF this E(1) m False]
    have "decrypt_blocks env p key (Suc n) (?E ?b) (cbc ?E (?E ?b) ?q) (out @ take block_size q) l
      = (None, (out @ take block_size q) @ take (length ?q - block_size) ?q, drop (length ?q - block_size) ?q)" .
    moreover have l: "block_size \<le> length ?q" using False m by (intro dvd_imp_le) (auto simp: mod_eq_0_iff_dvd)
    then have "take block_size q @ take (length ?q - block_size) ?q = take (length q - block_size) q"
      using take_add [of block_size "length ?q - block_size" q] by simp
    moreover have "drop (length ?q - block_size) ?q = drop (length q - block_size) q"
      using l by simp
    ultimately show ?thesis using E ne d n
      unfolding c by (subst decrypt_blocks.simps) (simp add: Let_def assms put_def)
  qed
qed


section \<open>What comes back\<close>

lemma padding_valid_iff:
  assumes "length b = block_size" "0 < n" "n \<le> block_size" "n = unat (last b)"
  shows "padding_valid b n \<longleftrightarrow> drop (length b - n) b = replicate n (last b)"
proof
  assume v: "padding_valid b n"
  show "drop (length b - n) b = replicate n (last b)"
  proof (rule nth_equalityI)
    fix i assume "i < length (drop (length b - n) b)"
    then have i: "i < n" using assms by simp
    with v assms have "unat (b ! (length b - n + i)) = unat (last b)" by (auto simp: padding_valid_def)
    then show "drop (length b - n) b ! i = replicate n (last b) ! i" using i assms by (simp add: word_unat_eq_iff)
  qed (use assms in simp)
next
  assume d: "drop (length b - n) b = replicate n (last b)"
  show "padding_valid b n"
    unfolding padding_valid_def
  proof (intro allI impI)
    fix i assume i: "i < block_size" "block_size - n \<le> i"
    then have "b ! i = drop (length b - n) b ! (i - (length b - n))" using assms by simp
    also have "\<dots> = last b" unfolding d using i assms by simp
    finally show "unat (b ! i) = n" using assms by simp
  qed
qed

lemma last_part_unpadded:
  assumes "length b = block_size"
  shows "last_part False b = unpadded b"
proof -
  have b: "b \<noteq> []" "b ! (block_size - 1) = last b" using assms last_conv_nth [of b] by fastforce+
  show ?thesis
  proof (cases "0 < unat (last b) \<and> unat (last b) \<le> block_size")
    case True
    with padding_valid_iff [OF assms, of "unat (last b)"] b assms show ?thesis
      by (simp add: last_part_def unpadded_def Let_def)
  next
    case False
    with b show ?thesis by (auto simp: last_part_def unpadded_def Let_def)
  qed
qed

lemma unpadded_append:
  assumes "length b = block_size"
  shows "unpadded (a @ b) = a @ unpadded b"
proof -
  have "b \<noteq> []" using assms by auto
  moreover have "drop (length (a @ b) - n) (a @ b) = drop (length b - n) b"
    "take (length (a @ b) - n) (a @ b) = a @ take (length b - n) b" if "n \<le> block_size" for n
    using that assms by simp_all
  ultimately show ?thesis
    by (cases "unat (last b) \<le> block_size") (simp_all add: unpadded_def Let_def del: length_append drop_append take_append)
qed

text \<open>A text that had to be padded comes back as it was.\<close>

lemma unpadded_padded:
  assumes "length p mod block_size \<noteq> 0"
  shows "unpadded (padded p) = p"
proof -
  define k where "k = block_size - length p mod block_size"
  have k: "0 < k" "k < block_size" using assms by (simp_all add: k_def)
  then have p: "padded p = p @ replicate k (word_of_nat k)" by (simp add: padded_def k_def Let_def)
  have "unat (word_of_nat k :: byte) = k" using k by (simp add: unat_of_nat)
  then show ?thesis using k by (simp add: p unpadded_def Let_def)
qed

text \<open>An environment in which nothing fails, for the programs' files.\<close>

definition tool_works :: "tool_env \<Rightarrow> bool" where
  "tool_works env \<longleftrightarrow> tl_lib env \<and> tl_rng env 0 \<noteq> None \<and> tl_rng env 1 \<noteq> None \<and> tl_ctx env \<and> tl_alloc env
     \<and> (\<forall>key. tl_set_key env key) \<and> (\<forall>n. tl_block_ok env n) \<and> (\<forall>p. tl_open_r env p \<and> tl_open_w env p)
     \<and> (\<forall>p w. tl_write_ok env p w) \<and> (\<forall>p. tl_kept env p = None)"

lemma encrypt_works:
  assumes "tool_works env" "fs input = Some p" "input \<noteq> output"
  shows "\<exists>iv. length iv = block_size \<and> tool_encrypt_file env input output key fs
    = (None, fs(output \<mapsto> iv @ cbc (tl_enc env key) iv (padded p)))"
proof -
  from assms(1) obtain f where "tl_rng env 1 = Some f" by (auto simp: tool_works_def)
  then show ?thesis
    using assms encrypt_all [of env "output" key]
    by (intro exI [of _ "map f [0..<block_size]"])
      (simp add: tool_encrypt_file_def open_input_def encrypt_body_def generate_random_def put_def closed_def tool_works_def
        del: upt_rec_numeral)
qed

lemma decrypt_works:
  assumes "tool_works env" "block_law env key" "length iv = block_size" "input \<noteq> output"
    "fs input = Some (iv @ cbc (tl_enc env key) iv (padded p))"
  shows "tool_decrypt_file env input output key raw fs = (None, fs(output \<mapsto> if raw then padded p else unpadded (padded p)))"
proof -
  let ?q = "padded p" and ?ct = "cbc (tl_enc env key) iv (padded p)"
  have body: "decrypt_body env output key raw (iv @ ?ct) = (None, if raw then ?q else unpadded ?q)"
  proof (cases "?q = []")
    case True
    then show ?thesis
      using assms(1,3) by (simp add: decrypt_body_def cbc.simps [of _ _ "[]"] decrypt_blocks.simps [of _ _ _ _ _ "[]"]
          tool_works_def unpadded_def)
  next
    case False
    let ?b = "drop (length ?q - block_size) ?q"
    have l: "block_size \<le> length ?q" using False length_padded [of p] by (intro dvd_imp_le) (auto simp: mod_eq_0_iff_dvd)
    then have b: "length ?b = block_size" by simp
    have "last_part raw ?b = (if raw then ?b else unpadded ?b)"
      using last_part_unpadded [OF b] by (simp add: last_part_def Let_def)
    moreover have "take (length ?q - block_size) ?q @ unpadded ?b = unpadded ?q"
      using unpadded_append [OF b, of "take (length ?q - block_size) ?q"] by simp
    moreover have "?b \<noteq> []" using b by auto
    ultimately show ?thesis
      using assms(1,3) decrypt_all [of env "output" key iv ?q] assms(2) length_padded [of p] False
      by (simp add: decrypt_body_def put_def tool_works_def Let_def)
  qed
  show ?thesis using assms(1,4,5) body by (simp add: tool_decrypt_file_def open_input_def closed_def tool_works_def)
qed


text \<open>The two programs as a whole: what the first leaves behind, and what the second makes of it.\<close>

lemma gost_works:
  assumes "tool_works env" "fs input = Some p" "input \<noteq> output"
  shows "\<exists>iv key said. length iv = block_size \<and> length key = key_size
    \<and> gost_main env [input, output, key_file] fs
      = (Inr said, fs(output \<mapsto> iv @ cbc (tl_enc env key) iv (padded p), key_file \<mapsto> key))"
proof -
  obtain f where f: "tl_rng env 0 = Some f" using assms(1) by (auto simp: tool_works_def)
  define key where "key = map f [0..<key_size]"
  obtain iv where "length iv = block_size" "tool_encrypt_file env input output key fs
      = (None, fs(output \<mapsto> iv @ cbc (tl_enc env key) iv (padded p)))"
    using encrypt_works [of env fs input p "output" key, OF assms] by blast
  moreover have "generate_random env 0 key_size = Some key" by (simp add: generate_random_def f key_def del: upt_rec_numeral)
  moreover have "length key = key_size" by (simp add: key_def del: upt_rec_numeral)
  ultimately show ?thesis
    using assms(1)
    by (intro exI [of _ iv] exI [of _ key]) (simp add: gost_main_def save_key_to_file_def put_def closed_def tool_works_def)
qed

lemma decr_works:
  assumes "tool_works env" "block_law env key" "length iv = block_size" "length key = key_size" "input \<noteq> output"
    "fs input = Some (iv @ cbc (tl_enc env key) iv (padded p))" "fs key_file = Some key"
    "args = [input, output, key_file] @ (if raw then [''--raw-blocks''] else [])"
  shows "decr_main env args fs = (Inr [File_done output], fs(output \<mapsto> if raw then padded p else unpadded (padded p)))"
proof -
  have "load_key_from_file env key_file fs = Inr key"
    using assms(1,4,7) by (simp add: load_key_from_file_def open_input_def tool_works_def)
  with assms decrypt_works [of env key iv input "output" fs p raw, OF assms(1-3,5,6)] show ?thesis
    by (cases raw) (simp_all add: decr_main_def tool_works_def)
qed

lemma unpadded_padded_cases: "unpadded (padded p) = (if length p mod block_size \<noteq> 0 then p else unpadded p)"
  using unpadded_padded [of p] by (auto simp: padded_def)

section \<open>Properties\<close>

text \<open>C20: When nothing fails, decrypting with decr.c what gost.c encrypted, with the key file it
  saved, gives the text with its padding removed: exactly the original text when its length is not a
  multiple of 16, and otherwise the text without its last bytes whenever these happen to look like a
  padding. With --raw-blocks nothing is removed, so the text is always a prefix of the result.\<close>

theorem gost_tools_roundtrip:
  assumes "tool_works env" "\<forall>key. block_law env key" "fs input = Some p"
    "input \<noteq> output" "output \<noteq> key_file" "output \<noteq> result"
    "gost_main env [input, output, key_file] fs = (r, fs1)"
  shows "snd (decr_main env [output, result, key_file] fs1) result
      = Some (if length p mod block_size \<noteq> 0 then p else unpadded p)
    \<and> (\<exists>k. snd (decr_main env [output, result, key_file, ''--raw-blocks''] fs1) result = Some (p @ replicate k (word_of_nat k)))"
proof -
  obtain iv key said where g: "length iv = block_size" "length key = key_size"
    "gost_main env [input, output, key_file] fs
      = (Inr said, fs(output \<mapsto> iv @ cbc (tl_enc env key) iv (padded p), key_file \<mapsto> key))"
    using gost_works [of env fs input p "output" key_file, OF assms(1,3,4)] by blast
  then have fs1: "fs1 = fs(output \<mapsto> iv @ cbc (tl_enc env key) iv (padded p), key_file \<mapsto> key)" using assms(7) by simp
  have d: "decr_main env ([output, result, key_file] @ (if raw then [''--raw-blocks''] else [])) fs1
      = (Inr [File_done result], fs1(result \<mapsto> if raw then padded p else unpadded (padded p)))" for raw
    using assms(1,2,5,6) g(1,2) by (intro decr_works [where key = key and iv = iv]) (auto simp: fs1)
  have "\<exists>k. padded p = p @ replicate k (word_of_nat k)" by (auto simp: padded_def Let_def)
  then show ?thesis using d [of False] d [of True] by (simp add: unpadded_padded_cases)
qed

definition demo_tool :: tool_env where
  "demo_tool = \<lparr>tl_lib = True, tl_rng = (\<lambda>k. Some (\<lambda>i. 7)), tl_ctx = True, tl_set_key = (\<lambda>key. True), tl_alloc = True,
     tl_block_ok = (\<lambda>n. True), tl_enc = (\<lambda>key b. b), tl_dec = (\<lambda>key b. b), tl_open_r = (\<lambda>p. True), tl_open_w = (\<lambda>p. True),
     tl_write_ok = (\<lambda>p w. True), tl_kept = (\<lambda>p. None)\<rparr>"

theorem gost_tools_roundtrip_witness:
  "snd (decr_main demo_tool [''c'', ''r'', ''k'']
      (snd (gost_main demo_tool [''p'', ''c'', ''k''] [''p'' \<mapsto> replicate 15 5 @ [1]]))) ''r'' = Some (replicate 15 5)"
proof -
  have w: "tool_works demo_tool" "\<forall>key. block_law demo_tool key"
    by (simp_all add: tool_works_def demo_tool_def block_law_def)
  have u: "unpadded (replicate 15 5 @ [1]) = replicate 15 5"
    by (simp add: unpadded_def Let_def)
  from gost_tools_roundtrip [OF w, of "[''p'' \<mapsto> replicate 15 5 @ [1]]" "''p''" "replicate 15 5 @ [1]" "''c''" "''k''" "''r''"
      "fst (gost_main demo_tool [''p'', ''c'', ''k''] [''p'' \<mapsto> replicate 15 5 @ [1]])"
      "snd (gost_main demo_tool [''p'', ''c'', ''k''] [''p'' \<mapsto> replicate 15 5 @ [1]])"]
  show ?thesis using u by simp
qed

text \<open>The output is emptied before the input is read: a file encrypted onto itself is lost, and the
  program reports success.\<close>

lemma encrypted_onto_itself:
  assumes "tool_works env" "fs f = Some p" "gost_main env [f, f] fs = (r, fs1)"
  shows "(\<exists>notes. r = Inr notes) \<and> (\<exists>iv. fs1 f = Some iv \<and> length iv = block_size)"
proof -
  obtain g0 g1 where g: "tl_rng env 0 = Some g0" "tl_rng env 1 = Some g1" using assms(1) by (auto simp: tool_works_def)
  show ?thesis
    using assms by (auto simp: gost_main_def generate_random_def g tool_encrypt_file_def open_input_def encrypt_body_def
        put_def closed_def tool_works_def encrypt_blocks.simps [of _ _ _ _ _ "[]"] simp del: upt_rec_numeral)
qed

end
