(* ===== verification/Paths.thy ===== *)
theory Paths
  imports Storage
begin

text \<open>
  What the program uses of \<open>std::filesystem::path\<close> on POSIX systems: joining, absolute paths and the
  parent of a path. Names have no trailing separator.
\<close>

text \<open>\<open>operator/\<close> for a relative right side.\<close>

definition path_join :: "path \<Rightarrow> string \<Rightarrow> path" where
  "path_join base name = (if base = [] \<or> last base = CHR ''/'' then base @ name else base @ ''/'' @ name)"

definition is_absolute :: "path \<Rightarrow> bool" where
  "is_absolute p \<longleftrightarrow> p \<noteq> [] \<and> hd p = CHR ''/''"

text \<open>What stands before the last separator; the root is its own parent.\<close>

definition parent_path :: "path \<Rightarrow> path" where
  "parent_path p = (let d = rev (dropWhile (\<lambda>x. x \<noteq> CHR ''/'') (rev p)) in
     if \<exists>c \<in> set d. c \<noteq> CHR ''/'' then rev (dropWhile (\<lambda>x. x = CHR ''/'') (rev d)) else d)"

lemma path_join_inject [simp]: "path_join base a = path_join base b \<longleftrightarrow> a = b"
  by (simp add: path_join_def)

lemma path_join_Nil [simp]: "path_join base name = [] \<longleftrightarrow> base = [] \<and> name = []"
  by (simp add: path_join_def)

lemma parent_of_join:
  assumes "base \<noteq> []" "last base \<noteq> CHR ''/''" "CHR ''/'' \<notin> set name"
  shows "parent_path (path_join base name) = base"
proof -
  have "dropWhile (\<lambda>x. x \<noteq> CHR ''/'') (rev name @ CHR ''/'' # rev base) = CHR ''/'' # rev base"
    using assms(3) by (subst dropWhile_append2) auto
  moreover have "\<exists>c \<in> set base. c \<noteq> CHR ''/''" using assms(1,2) last_in_set by blast
  moreover have "dropWhile (\<lambda>x. x = CHR ''/'') (rev base) = rev base"
    using assms(1,2) by (cases base rule: rev_cases) auto
  ultimately show ?thesis using assms(1,2) by (simp add: parent_path_def path_join_def Let_def)
qed

end
