(* ===== verification/GostCli.thy ===== *)
theory GostCli
  imports GostTool Ciphers Paths
begin

text \<open>
  The driver of external GOST programs (common/src/gost_cli.cpp): a temporary directory per call, the
  command lines, the capture of a command's output, the fallback for programs without a key argument
  and the search for the key file. The shell is a parameter: what a command line does to the files,
  and its exit status. \<open>None\<close> is an exception (the temporary directory cannot be made).
\<close>

record gost_cli_config =
  gc_enc_magma :: string
  gc_dec_magma :: string
  gc_enc_kuznechik :: string
  gc_dec_kuznechik :: string
  gc_enc_suffix :: string
  gc_key_suffix :: string

record cli_env =
  ge_tmp :: path
  ge_pid :: int
  ge_clock :: "nat \<Rightarrow> int"
  ge_mkdir :: bool
  ge_wout :: "nat \<Rightarrow> wout"
  ge_remove :: "path \<Rightarrow> bool"
  ge_remove_all :: bool
  ge_system :: "string \<Rightarrow> fs \<Rightarrow> int \<times> fs"

record cli_state =
  cs_fs :: fs
  cs_ticks :: nat
  cs_writes :: nat

definition quote_path :: "path \<Rightarrow> string" where
  "quote_path p = ''\"'' @ p @ ''\"''"

definition cli_tick :: "cli_env \<Rightarrow> cli_state \<Rightarrow> int \<times> cli_state" where
  "cli_tick env s = (ge_clock env (cs_ticks s), s\<lparr>cs_ticks := cs_ticks s + 1\<rparr>)"

definition cli_write :: "cli_env \<Rightarrow> path \<Rightarrow> byte list \<Rightarrow> cli_state \<Rightarrow> bool \<times> cli_state" where
  "cli_write env p data s = (case write_file (ge_wout env (cs_writes s)) p data (cs_fs s) of
     (ok, fs) \<Rightarrow> (ok, s\<lparr>cs_fs := fs, cs_writes := cs_writes s + 1\<rparr>))"

section \<open>The temporary directory\<close>

definition temp_dir :: "cli_env \<Rightarrow> int \<Rightarrow> path" where
  "temp_dir env now = path_join (ge_tmp env) (''encoder_gost_'' @ show_int (ge_pid env) @ ''_'' @ show_int now)"

definition inside :: "path \<Rightarrow> path \<Rightarrow> bool" where
  "inside dir p \<longleftrightarrow> starts_with (dir @ ''/'') p"

text \<open>The destructor: everything below the directory is removed, errors are ignored.\<close>

definition remove_dir :: "cli_env \<Rightarrow> path \<Rightarrow> cli_state \<Rightarrow> cli_state" where
  "remove_dir env dir s =
     (if ge_remove_all env then s\<lparr>cs_fs := (\<lambda>p. if inside dir p then None else cs_fs s p)\<rparr> else s)"

section \<open>A command\<close>

text \<open>\<open>WIFEXITED\<close> and \<open>WEXITSTATUS\<close> of a status.\<close>

definition exit_code :: "int \<Rightarrow> int" where
  "exit_code code = (if code mod 128 = 0 then (code div 256) mod 256 else code)"

definition log_path :: "cli_env \<Rightarrow> int \<Rightarrow> path" where
  "log_path env now = path_join (ge_tmp env) (''encoder_gost_cmd_'' @ show_int (ge_pid env) @ ''_'' @ show_int now @ ''.log'')"

definition wrapped :: "string \<Rightarrow> path \<Rightarrow> string" where
  "wrapped cmd log = cmd @ '' > '' @ quote_path log @ '' 2>&1''"

text \<open>The error, \<open>None\<close> on success.\<close>

definition cli_command :: "cli_env \<Rightarrow> string \<Rightarrow> cli_state \<Rightarrow> string option \<times> cli_state" where
  "cli_command env cmd s =
     (case cli_tick env s of (now, s) \<Rightarrow>
      let log = log_path env now in
      case ge_system env (wrapped cmd log) (cs_fs s) of (code, fs) \<Rightarrow>
      let text = (case fs log of None \<Rightarrow> [] | Some d \<Rightarrow> string_of d);
          fs = (if ge_remove env log then fs(log := None) else fs)
      in (if code \<noteq> 0
          then Some (''Command failed (exit='' @ show_int (exit_code code) @ ''): '' @ cmd
            @ (if text \<noteq> [] then '' | output: '' @ text else []))
          else None, s\<lparr>cs_fs := fs\<rparr>))"

section \<open>Encryption and decryption\<close>

definition encrypt_command :: "gost_cli_config \<Rightarrow> cipher \<Rightarrow> string option" where
  "encrypt_command cfg c = (if c = MAGMA then Some (gc_enc_magma cfg) else if c = KUZNECHIK then Some (gc_enc_kuznechik cfg) else None)"

definition decrypt_command :: "gost_cli_config \<Rightarrow> cipher \<Rightarrow> string option" where
  "decrypt_command cfg c = (if c = MAGMA then Some (gc_dec_magma cfg) else if c = KUZNECHIK then Some (gc_dec_kuznechik cfg) else None)"

text \<open>Where the key is read from when the program was not given, or did not take, the key argument.\<close>

definition key_location :: "gost_cli_config \<Rightarrow> path \<Rightarrow> path \<Rightarrow> path \<Rightarrow> fs \<Rightarrow> path" where
  "key_location cfg input_path enc_path key_path fs =
     (if fs key_path \<noteq> None then key_path
      else if fs (enc_path @ gc_key_suffix cfg) \<noteq> None then enc_path @ gc_key_suffix cfg
      else if fs (input_path @ gc_key_suffix cfg) \<noteq> None then input_path @ gc_key_suffix cfg
      else key_path)"

text \<open>The result: the data and the key, or the error.\<close>

definition cli_encrypt_in ::
  "cli_env \<Rightarrow> gost_cli_config \<Rightarrow> path \<Rightarrow> cipher \<Rightarrow> byte list \<Rightarrow> cli_state \<Rightarrow> (string + byte list \<times> byte list) \<times> cli_state" where
  "cli_encrypt_in env cfg dir c plaintext s =
     (let input_path = path_join dir ''input.bin''; enc_path = path_join dir ''encrypted.bin''; key_path = path_join dir ''key.bin'' in
      case cli_write env input_path plaintext s of
        (False, s) \<Rightarrow> (Inl ''Failed to write temp input file'', s)
      | (True, s) \<Rightarrow> (case encrypt_command cfg c of
          None \<Rightarrow> (Inl ''Unsupported GOST cipher'', s)
        | Some enc_cmd \<Rightarrow>
            let short = enc_cmd @ '' '' @ quote_path input_path @ '' '' @ quote_path enc_path in
            (case (case cli_command env (short @ '' '' @ quote_path key_path) s of
                (None, s) \<Rightarrow> (None, s)
              | (Some first_err, s) \<Rightarrow> (case cli_command env short s of
                    (None, s) \<Rightarrow> (None, s)
                  | (Some e, s) \<Rightarrow> (Some (first_err @ '' | fallback failed: '' @ e), s))) of
              (Some e, s) \<Rightarrow> (Inl e, s)
            | (None, s) \<Rightarrow> (case read_file (cs_fs s) enc_path of
                None \<Rightarrow> (Inl ''Failed to read encrypted file'', s)
              | Some data \<Rightarrow> (case read_file (cs_fs s) (key_location cfg input_path enc_path key_path (cs_fs s)) of
                  None \<Rightarrow> (Inl ''Failed to read key file'', s)
                | Some key \<Rightarrow> (Inr (data, key), s))))))"

definition cli_decrypt_in ::
  "cli_env \<Rightarrow> gost_cli_config \<Rightarrow> path \<Rightarrow> cipher \<Rightarrow> byte list \<Rightarrow> byte list \<Rightarrow> cli_state \<Rightarrow> (string + byte list) \<times> cli_state" where
  "cli_decrypt_in env cfg dir c ciphertext key s =
     (let enc_path = path_join dir ''encrypted.bin''; out_path = path_join dir ''output.bin''; key_path = path_join dir ''key.bin'' in
      case cli_write env enc_path ciphertext s of
        (False, s) \<Rightarrow> (Inl ''Failed to write temp encrypted file'', s)
      | (True, s) \<Rightarrow> (case cli_write env key_path key s of
          (False, s) \<Rightarrow> (Inl ''Failed to write temp key file'', s)
        | (True, s) \<Rightarrow> (case decrypt_command cfg c of
            None \<Rightarrow> (Inl ''Unsupported GOST cipher'', s)
          | Some dec_cmd \<Rightarrow> (case cli_command env (dec_cmd @ '' '' @ quote_path enc_path @ '' '' @ quote_path out_path
                @ '' '' @ quote_path key_path) s of
              (Some e, s) \<Rightarrow> (Inl e, s)
            | (None, s) \<Rightarrow> (case read_file (cs_fs s) out_path of
                None \<Rightarrow> (Inl ''Failed to read decrypted file'', s)
              | Some data \<Rightarrow> (Inr data, s))))))"

text \<open>The temporary directory around both.\<close>

definition with_temp_dir :: "cli_env \<Rightarrow> (path \<Rightarrow> cli_state \<Rightarrow> 'a \<times> cli_state) \<Rightarrow> cli_state \<Rightarrow> 'a option \<times> cli_state" where
  "with_temp_dir env body s = (case cli_tick env s of (now, s) \<Rightarrow>
     if \<not> ge_mkdir env then (None, s)
     else let dir = temp_dir env now in case body dir s of (r, s) \<Rightarrow> (Some r, remove_dir env dir s))"

definition cli_encrypt ::
  "cli_env \<Rightarrow> gost_cli_config \<Rightarrow> cipher \<Rightarrow> byte list \<Rightarrow> cli_state \<Rightarrow> (string + byte list \<times> byte list) option \<times> cli_state" where
  "cli_encrypt env cfg c plaintext = with_temp_dir env (\<lambda>dir. cli_encrypt_in env cfg dir c plaintext)"

definition cli_decrypt ::
  "cli_env \<Rightarrow> gost_cli_config \<Rightarrow> cipher \<Rightarrow> byte list \<Rightarrow> byte list \<Rightarrow> cli_state \<Rightarrow> (string + byte list) option \<times> cli_state" where
  "cli_decrypt env cfg c ciphertext key = with_temp_dir env (\<lambda>dir. cli_decrypt_in env cfg dir c ciphertext key)"

section \<open>What the shell promises\<close>

text \<open>
  Characters the shell leaves alone between double quotes, and the documented meaning of a command
  line: the program runs with its arguments, its output goes to the log, which is emptied first, and
  the status is the program's.
\<close>

definition plain_char :: "char \<Rightarrow> bool" where
  "plain_char ch \<longleftrightarrow> ch \<notin> {CHR 0x22, CHR 0x24, CHR 0x60, CHR 0x5C, CHR 0x00}"

definition program :: "(string list \<Rightarrow> fs \<Rightarrow> ('e + 'n) \<times> fs) \<Rightarrow> string list \<Rightarrow> fs \<Rightarrow> int \<times> fs" where
  "program main args fs = (case main args fs of (r, fs) \<Rightarrow> (case r of Inl e \<Rightarrow> 256 | Inr x \<Rightarrow> 0, fs))"

definition arguments :: "path list \<Rightarrow> string" where
  "arguments ps = concat (map (\<lambda>p. '' '' @ quote_path p) ps)"

definition runs_program :: "(string \<Rightarrow> fs \<Rightarrow> int \<times> fs) \<Rightarrow> string \<Rightarrow> (string list \<Rightarrow> fs \<Rightarrow> int \<times> fs) \<Rightarrow> bool" where
  "runs_program sh prog run \<longleftrightarrow> (\<forall>a b c log fs.
     list_all (list_all plain_char) [a, b, c, log] \<and> log \<notin> {a, b, c} \<longrightarrow>
     (\<exists>printed. sh (wrapped (prog @ arguments [a, b, c]) log) fs =
       (case run [a, b, c] (fs(log \<mapsto> [])) of (code, fs) \<Rightarrow> (code, fs(log \<mapsto> printed)))))"

section \<open>The paths of a call\<close>

lemma path_join_plain [simp]: "list_all plain_char (path_join a b) \<longleftrightarrow> list_all plain_char a \<and> list_all plain_char b"
  by (auto simp: path_join_def plain_char_def)

lemma show_int_plain [simp]: "list_all plain_char (show_int i)"
  by (auto simp: list_all_iff plain_char_def show_int_free is_digit_def)

lemma show_int_not_c [simp]: "show_int i @ a \<noteq> CHR ''c'' # b" "CHR ''c'' # b \<noteq> show_int i @ a"
  using show_int_chars [of "hd (show_int i)" i] by (cases "show_int i", auto simp: is_digit_def)+

lemma temp_dir_join: "path_join (temp_dir env now) name = temp_dir env now @ ''/'' @ name"
proof -
  have "last (show_int now) \<noteq> CHR ''/''"
    using show_int_chars [of "last (show_int now)" now] by (auto simp: is_digit_def)
  then show ?thesis by (simp add: temp_dir_def path_join_def)
qed

lemma log_apart [simp]: "log_path env t \<noteq> path_join (temp_dir env now) name" "path_join (temp_dir env now) name \<noteq> log_path env t"
  by (auto simp: log_path_def temp_dir_join) (auto simp: temp_dir_def path_join_def split: if_splits)

lemma temp_dir_plain [simp]: "list_all plain_char (ge_tmp env) \<Longrightarrow> list_all plain_char (temp_dir env now)"
  "list_all plain_char (ge_tmp env) \<Longrightarrow> list_all plain_char (log_path env now)"
  by (simp_all add: temp_dir_def log_path_def) (simp_all add: plain_char_def)

section \<open>A command that works\<close>

lemma cli_command_runs:
  assumes "runs_program (ge_system env) prog run" "list_all plain_char (ge_tmp env)"
    "list_all (list_all plain_char) [a, b, c]" "\<And>t. log_path env t \<notin> {a, b, c}"
    "run [a, b, c] ((cs_fs s)(log_path env (ge_clock env (cs_ticks s)) \<mapsto> [])) = (0, fs)"
  shows "\<exists>s'. cli_command env (prog @ arguments [a, b, c]) s = (None, s') \<and> (\<forall>p. (\<forall>t. p \<noteq> log_path env t) \<longrightarrow> cs_fs s' p = fs p)"
proof -
  let ?log = "log_path env (ge_clock env (cs_ticks s))"
  obtain printed where "ge_system env (wrapped (prog @ arguments [a, b, c]) ?log) (cs_fs s) = (0, fs(?log \<mapsto> printed))"
    using assms(1) [unfolded runs_program_def, rule_format, of a b c ?log "cs_fs s"] assms(2-5) by auto
  then show ?thesis by (simp add: cli_command_def cli_tick_def Let_def)
qed

section \<open>Encryption and decryption together\<close>

lemma cli_write_ok [simp]:
  "(\<And>n. ge_wout env n = W_ok) \<Longrightarrow>
    cli_write env p data s = (True, s\<lparr>cs_fs := (cs_fs s)(p \<mapsto> data), cs_writes := cs_writes s + 1\<rparr>)"
  by (simp add: cli_write_def)

lemma plain_char_literal [simp]:
  "plain_char (Char b0 b1 b2 b3 b4 b5 b6 b7) \<longleftrightarrow> [b0, b1, b2, b3, b4, b5, b6, b7] \<notin>
     set [[False, True, False, False, False, True, False, False], [False, False, True, False, False, True, False, False],
       [False, False, False, False, False, True, True, False], [False, False, True, True, True, False, True, False],
       [False, False, False, False, False, False, False, False]]"
  by (simp add: plain_char_def)

lemma cli_encrypt_works:
  assumes "tool_works tool" "runs_program (ge_system env) prog (program (gost_main tool))"
    "encrypt_command cfg c = Some prog" "list_all plain_char (ge_tmp env)" "\<And>n. ge_wout env n = W_ok" "ge_mkdir env"
  obtains iv key s1 where "length iv = block_size" "length key = key_size"
    "cli_encrypt env cfg c p s = (Some (Inr (iv @ cbc (tl_enc tool key) iv (padded p), key)), s1)"
proof -
  define now where "now = ge_clock env (cs_ticks s)"
  let ?f = "path_join (temp_dir env now)"
  define s0 where "s0 = s\<lparr>cs_ticks := cs_ticks s + 1, cs_fs := (cs_fs s)(?f ''input.bin'' \<mapsto> p), cs_writes := cs_writes s + 1\<rparr>"
  let ?fs = "(cs_fs s0)(log_path env (ge_clock env (cs_ticks s0)) \<mapsto> [])"
  have i: "?fs (?f ''input.bin'') = Some p" by (simp add: s0_def)
  obtain iv key said where g: "length iv = block_size" "length key = key_size"
    "gost_main tool [?f ''input.bin'', ?f ''encrypted.bin'', ?f ''key.bin''] ?fs
      = (Inr said, ?fs(?f ''encrypted.bin'' \<mapsto> iv @ cbc (tl_enc tool key) iv (padded p), ?f ''key.bin'' \<mapsto> key))"
    using gost_works [of tool ?fs "?f ''input.bin''" p "?f ''encrypted.bin''" "?f ''key.bin''", OF assms(1) i] by auto
  have "\<exists>s'. cli_command env (prog @ arguments [?f ''input.bin'', ?f ''encrypted.bin'', ?f ''key.bin'']) s0 = (None, s')
    \<and> (\<forall>q. (\<forall>t. q \<noteq> log_path env t) \<longrightarrow>
      cs_fs s' q = (?fs(?f ''encrypted.bin'' \<mapsto> iv @ cbc (tl_enc tool key) iv (padded p), ?f ''key.bin'' \<mapsto> key)) q)"
    using assms(4) g(3) by (intro cli_command_runs [OF assms(2)]) (simp_all add: program_def fun_upd_def)
  then obtain s' where c: "cli_command env (prog @ arguments [?f ''input.bin'', ?f ''encrypted.bin'', ?f ''key.bin'']) s0 = (None, s')"
    "\<And>q. (\<And>t. q \<noteq> log_path env t) \<Longrightarrow>
      cs_fs s' q = (?fs(?f ''encrypted.bin'' \<mapsto> iv @ cbc (tl_enc tool key) iv (padded p), ?f ''key.bin'' \<mapsto> key)) q"
    by blast
  have "cli_encrypt env cfg c p s = (Some (Inr (iv @ cbc (tl_enc tool key) iv (padded p), key)), remove_dir env (temp_dir env now) s')"
    using c assms(3,5,6)
    by (simp add: cli_encrypt_def with_temp_dir_def cli_tick_def cli_encrypt_in_def arguments_def Let_def read_file_def key_location_def
        s0_def flip: now_def)
  with g(1,2) show ?thesis by (rule that)
qed

lemma cli_decrypt_works:
  assumes "tool_works tool" "block_law tool key" "runs_program (ge_system env) prog (program (decr_main tool))"
    "decrypt_command cfg c = Some prog" "list_all plain_char (ge_tmp env)" "\<And>n. ge_wout env n = W_ok" "ge_mkdir env"
    "length iv = block_size" "length key = key_size"
  shows "fst (cli_decrypt env cfg c (iv @ cbc (tl_enc tool key) iv (padded p)) key s) = Some (Inr (unpadded (padded p)))"
proof -
  let ?ct = "iv @ cbc (tl_enc tool key) iv (padded p)"
  define now where "now = ge_clock env (cs_ticks s)"
  let ?f = "path_join (temp_dir env now)"
  define s0 where "s0 = s\<lparr>cs_ticks := cs_ticks s + 1,
    cs_fs := (cs_fs s)(?f ''encrypted.bin'' \<mapsto> ?ct, ?f ''key.bin'' \<mapsto> key), cs_writes := cs_writes s + 2\<rparr>"
  let ?fs = "(cs_fs s0)(log_path env (ge_clock env (cs_ticks s0)) \<mapsto> [])"
  have g: "decr_main tool [?f ''encrypted.bin'', ?f ''output.bin'', ?f ''key.bin''] ?fs
      = (Inr [File_done (?f ''output.bin'')], ?fs(?f ''output.bin'' \<mapsto> unpadded (padded p)))"
    using decr_works [of tool key iv "?f ''encrypted.bin''" "?f ''output.bin''" ?fs p "?f ''key.bin''" _ False] assms(1,2,8,9)
    by (simp add: s0_def)
  have "\<exists>s'. cli_command env (prog @ arguments [?f ''encrypted.bin'', ?f ''output.bin'', ?f ''key.bin'']) s0 = (None, s')
    \<and> (\<forall>q. (\<forall>t. q \<noteq> log_path env t) \<longrightarrow> cs_fs s' q = (?fs(?f ''output.bin'' \<mapsto> unpadded (padded p))) q)"
    using assms(5) g by (intro cli_command_runs [OF assms(3)]) (simp_all add: program_def fun_upd_def)
  then obtain s' where c: "cli_command env (prog @ arguments [?f ''encrypted.bin'', ?f ''output.bin'', ?f ''key.bin'']) s0 = (None, s')"
    "\<And>q. (\<And>t. q \<noteq> log_path env t) \<Longrightarrow> cs_fs s' q = (?fs(?f ''output.bin'' \<mapsto> unpadded (padded p))) q"
    by blast
  show ?thesis
    using c assms(4,6,7)
    by (simp add: cli_decrypt_def with_temp_dir_def cli_tick_def cli_decrypt_in_def arguments_def Let_def read_file_def
        s0_def flip: now_def)
qed

section \<open>Properties\<close>

text \<open>When the two programs, the file system and the shell do what they should, what encrypt
  returns is what decrypt, at any later time, turns back into the text with its padding removed, as
  for the programs run by hand.\<close>

theorem external_programs_roundtrip:
  assumes "tool_works tool" "\<forall>key. block_law tool key"
    "encrypt_command cfg c = Some enc" "runs_program (ge_system env) enc (program (gost_main tool))"
    "decrypt_command cfg c = Some dec" "runs_program (ge_system env) dec (program (decr_main tool))"
    "list_all plain_char (ge_tmp env)" "\<forall>n. ge_wout env n = W_ok" "ge_mkdir env"
  shows "\<exists>data key s1. cli_encrypt env cfg c p s = (Some (Inr (data, key)), s1)
    \<and> (\<forall>s2. fst (cli_decrypt env cfg c data key s2) = Some (Inr (if length p mod block_size \<noteq> 0 then p else unpadded p)))"
proof -
  obtain iv key s1 where e: "length iv = block_size" "length key = key_size"
    "cli_encrypt env cfg c p s = (Some (Inr (iv @ cbc (tl_enc tool key) iv (padded p), key)), s1)"
    using cli_encrypt_works [OF assms(1,4,3,7)] assms(8,9) by blast
  moreover have "fst (cli_decrypt env cfg c (iv @ cbc (tl_enc tool key) iv (padded p)) key s2) = Some (Inr (unpadded (padded p)))" for s2
    using assms e by (intro cli_decrypt_works [OF assms(1) _ assms(6,5,7)]) auto
  ultimately show ?thesis by (auto simp: unpadded_padded_cases)
qed

text \<open>A shell that knows two programs, for the witness.\<close>

fun quoted_parts :: "string \<Rightarrow> string \<Rightarrow> string list" where
  "quoted_parts acc [] = [acc]"
| "quoted_parts acc (ch # s) = (if ch = CHR 0x22 then acc # quoted_parts [] s else quoted_parts (acc @ [ch]) s)"

definition demo_shell :: "string \<Rightarrow> fs \<Rightarrow> int \<times> fs" where
  "demo_shell cmd fs = (let q = quoted_parts [] cmd in
     case program (if q ! 0 = ''gost '' then gost_main demo_tool else decr_main demo_tool) [q ! 1, q ! 3, q ! 5] (fs(q ! 7 \<mapsto> [])) of
       (code, fs) \<Rightarrow> (code, fs(q ! 7 \<mapsto> [])))"

definition demo_cli :: cli_env where
  "demo_cli = \<lparr>ge_tmp = ''/tmp'', ge_pid = 1, ge_clock = (\<lambda>n. int n), ge_mkdir = True, ge_wout = (\<lambda>n. W_ok),
     ge_remove = (\<lambda>p. True), ge_remove_all = True, ge_system = demo_shell\<rparr>"

definition demo_gost_config :: gost_cli_config where
  "demo_gost_config = \<lparr>gc_enc_magma = ''gost'', gc_dec_magma = ''decr'', gc_enc_kuznechik = ''gost'', gc_dec_kuznechik = ''decr'',
     gc_enc_suffix = ''.enc'', gc_key_suffix = ''.key''\<rparr>"

lemma quoted_parts_plain:
  "list_all plain_char a \<Longrightarrow> quoted_parts acc (a @ CHR 0x22 # s) = (acc @ a) # quoted_parts [] s"
  by (induction a arbitrary: acc) (auto simp: plain_char_def)

lemma demo_shell_parts:
  assumes "list_all (list_all plain_char) [prog, a, b, c, log]"
  shows "quoted_parts [] (wrapped (prog @ arguments [a, b, c]) log)
    = [prog @ '' '', a, '' '', b, '' '', c, '' > '', log, '' 2>&1'']"
  using assms quoted_parts_plain [of "prog @ '' ''" "[]"] quoted_parts_plain [of a "[]"] quoted_parts_plain [of b "[]"]
    quoted_parts_plain [of c "[]"] quoted_parts_plain [of log "[]"]
  by (simp add: wrapped_def arguments_def quote_path_def plain_char_def)

lemma demo_shell_runs:
  "runs_program demo_shell ''gost'' (program (gost_main demo_tool))"
  "runs_program demo_shell ''decr'' (program (decr_main demo_tool))"
proof -
  have p: "list_all plain_char ''gost''" "list_all plain_char ''decr''" by (simp_all add: plain_char_def)
  show "runs_program demo_shell ''gost'' (program (gost_main demo_tool))"
    "runs_program demo_shell ''decr'' (program (decr_main demo_tool))"
    using demo_shell_parts [of "''gost''"] demo_shell_parts [of "''decr''"] p
    by (auto simp: runs_program_def demo_shell_def intro!: exI [of _ "[]"])
qed

theorem external_programs_roundtrip_witness:
  "\<exists>data key s1. cli_encrypt demo_cli demo_gost_config MAGMA [1, 2, 3] \<lparr>cs_fs = (\<lambda>p. None), cs_ticks = 0, cs_writes = 0\<rparr>
      = (Some (Inr (data, key)), s1)
    \<and> (\<forall>s2. fst (cli_decrypt demo_cli demo_gost_config MAGMA data key s2) = Some (Inr [1, 2, 3]))"
proof -
  have w: "tool_works demo_tool" "\<forall>key. block_law demo_tool key"
    by (simp_all add: tool_works_def demo_tool_def block_law_def)
  have "list_all plain_char ''/tmp''" by (simp add: plain_char_def)
  then show ?thesis
    using external_programs_roundtrip [OF w, of demo_gost_config MAGMA "''gost''" demo_cli "''decr''" "[1, 2, 3]"] demo_shell_runs
    by (simp add: demo_cli_def demo_gost_config_def encrypt_command_def decrypt_command_def)
qed

end
