(* ===== verification/ClientWindow.thy ===== *)
theory ClientWindow
  imports ClientFiles Paths
begin

text \<open>
  The main window of the client (client/src/main_window.cpp) and its guard of the clipboard
  (client/src/secure_guards.cpp): the files it encrypts and decrypts, the plaintexts it keeps in
  memory with their temporary files, the secure mode, the preview, and what it asks for before it
  closes. Handlers are functions on the record \<open>window\<close>; a user event runs one handler.

  A message box or dialog inside a handler runs the event loop until it is closed. It is modal, so all
  that reaches the window meanwhile are changes of the clipboard: those that come while the \<open>n\<close>-th box is
  open are \<open>we_boxes n\<close>, and each of them can open the box of a violation in its turn. (The dialogs that
  choose files or a cipher and the preview touch nothing before they end or after they open: a change
  while they are open is an event before or after.)

  Widgets are kept as the values the handlers read and write (which buttons are enabled, the current
  row, the options chosen); \<open>w_boxes\<close> records every message box, with the secure mode and whether a
  plaintext is in memory while it is open. The texts shown are constructors. An exception that leaves
  a handler ends the process (\<open>w_crashed\<close>). The \<open>n\<close>-th request of the client core uses the \<open>n\<close>-th
  connection of \<open>we_conn\<close>.
\<close>

section \<open>The clipboard guard\<close>

record clip =
  cp_text :: "byte list option"
  cp_html :: "byte list option"
  cp_urls :: "byte list list option"
  cp_image :: "nat option option"

datatype violation = Clipboard_activity | Clipboard_limit nat

definition has_data :: "clip \<Rightarrow> bool" where
  "has_data c \<longleftrightarrow> cp_text c \<noteq> None \<or> cp_html c \<noteq> None \<or> cp_urls c \<noteq> None \<or> cp_image c \<noteq> None"

text \<open>An image that cannot be converted counts as nothing.\<close>

definition clip_bytes :: "clip \<Rightarrow> nat" where
  "clip_bytes c = (case cp_text c of None \<Rightarrow> 0 | Some t \<Rightarrow> length t) + (case cp_html c of None \<Rightarrow> 0 | Some t \<Rightarrow> length t)
     + (case cp_urls c of None \<Rightarrow> 0 | Some us \<Rightarrow> sum_list (map length us))
     + (case cp_image c of Some (Some n) \<Rightarrow> n | _ \<Rightarrow> 0)"

definition clip_violation :: "nat \<Rightarrow> clip \<Rightarrow> violation option" where
  "clip_violation clipboard_max_bytes c =
     (let bytes = clip_bytes c; block_all = (clipboard_max_bytes = 0) in
      if \<not> has_data c then None
      else if block_all \<or> bytes > clipboard_max_bytes \<or> cp_urls c \<noteq> None \<or> cp_image c \<noteq> None
      then Some (if block_all then Clipboard_activity else Clipboard_limit bytes)
      else None)"

section \<open>The window\<close>

record decrypted_item =
  di_file_path :: path
  di_data :: "byte list"
  di_cipher :: cipher
  di_hash :: hash_alg
  di_key_storage :: string
  di_file_id :: string
  di_temp_path :: path

datatype box = Encrypt_failed string | Decrypt_failed string | Violation violation | Not_cleared | No_temp_file | Path_copied
  | Reminder_unreadable | Reminder_not_saved | Password_dialog | Password_empty | Password_same | Password_mismatch | Password_error string

text \<open>The value of the reminder in the settings: absent, a number, or a text that is not one.\<close>

datatype reminder = No_reminder | Reminder int | Bad_reminder

record window =
  w_client :: client
  w_requests :: nat
  w_password :: string
  w_files :: "path list"
  w_selected :: "path list"
  w_cipher :: nat
  w_hash :: nat
  w_key_storage :: nat
  w_temp :: bool
  w_decrypted :: "decrypted_item list"
  w_row :: int
  w_secure :: bool
  w_terminate :: bool
  w_preview :: bool
  w_copy_shown :: bool
  w_copy :: bool
  w_clip :: "clip option"
  w_boxes :: "(box \<times> bool \<times> bool) list"
  w_counter :: nat
  w_reminder :: reminder
  w_closing :: bool
  w_closed :: bool
  w_crashed :: bool

text \<open>The clipboard has new contents (\<open>None\<close>: none), and the changes while the box of a violation is open.\<close>

datatype clip_change = Clip_change "clip option" "clip_change list"

record window_env =
  we_env :: client_env
  we_cfg :: client_config
  we_username :: string
  we_conn :: "nat \<Rightarrow> conn"
  we_shm :: bool
  we_tmp :: "path option"
  we_cwd :: path
  we_now :: "nat \<Rightarrow> int"
  we_boxes :: "nat \<Rightarrow> clip_change list"

definition note_box :: "box \<Rightarrow> window \<Rightarrow> window" where
  "note_box b w = w\<lparr>w_boxes := w_boxes w @ [(b, w_secure w, w_decrypted w \<noteq> [])]\<rparr>"

definition crash :: "window \<Rightarrow> window" where
  "crash w = w\<lparr>w_crashed := True\<rparr>"

text \<open>The state after a request of the client core.\<close>

definition after_request :: "client \<Rightarrow> window \<Rightarrow> window" where
  "after_request c w = w\<lparr>w_client := c, w_requests := w_requests w + 1\<rparr>"

section \<open>The secure state\<close>

text \<open>Clearing the clipboard signals a change without data, which the guard ignores.\<close>

definition set_secure_mode :: "bool \<Rightarrow> window \<Rightarrow> window" where
  "set_secure_mode enabled w = w\<lparr>w_secure := enabled, w_clip := (if enabled then None else w_clip w)\<rparr>"

definition row_valid :: "window \<Rightarrow> bool" where
  "row_valid w \<longleftrightarrow> 0 \<le> w_row w \<and> nat (w_row w) < length (w_decrypted w)"

definition current_item :: "window \<Rightarrow> decrypted_item" where
  "current_item w = w_decrypted w ! nat (w_row w)"

definition update_decrypted_actions :: "window \<Rightarrow> window" where
  "update_decrypted_actions w = w\<lparr>w_preview := row_valid w, w_copy_shown := w_temp w,
     w_copy := w_temp w \<and> row_valid w \<and> di_temp_path (current_item w) \<noteq> []\<rparr>"

definition update_secure_state :: "window \<Rightarrow> window" where
  "update_secure_state w = (let has_decrypted = (w_decrypted w \<noteq> []) in
     update_decrypted_actions (set_secure_mode has_decrypted (w\<lparr>w_terminate := has_decrypted\<rparr>)))"

section \<open>The options\<close>

text \<open>The first two labels are Cyrillic, in UTF-8.\<close>

definition kuznechik_label :: string where
  "kuznechik_label = [CHR 0xD0, CHR 0x9A, CHR 0xD1, CHR 0x83, CHR 0xD0, CHR 0xB7, CHR 0xD0, CHR 0xBD, CHR 0xD0, CHR 0xB5, CHR 0xD1, CHR 0x87, CHR 0xD0, CHR 0xB8, CHR 0xD0, CHR 0xBA]"

definition magma_label :: string where
  "magma_label = [CHR 0xD0, CHR 0x9C, CHR 0xD0, CHR 0xB0, CHR 0xD0, CHR 0xB3, CHR 0xD0, CHR 0xBC, CHR 0xD0, CHR 0xB0]"

definition cipher_items :: "(string \<times> string) list" where
  "cipher_items = [(kuznechik_label, ''kuznechik''), (magma_label, ''magma''),
     (''CHACHA20'', ''chacha20''), (''CHACHA20-POLY1305'', ''chacha20-poly1305''),
     (''AES-128-ECB'', ''aes-128-ecb''), (''AES-128-CBC'', ''aes-128-cbc''), (''AES-128-CFB'', ''aes-128-cfb''),
     (''AES-128-OFB'', ''aes-128-ofb''), (''AES-128-CTR'', ''aes-128-ctr''), (''AES-128-GCM'', ''aes-128-gcm''),
     (''AES-128-CCM'', ''aes-128-ccm''), (''AES-128-XTS'', ''aes-128-xts''), (''AES-128-OCB'', ''aes-128-ocb''),
     (''AES-192-ECB'', ''aes-192-ecb''), (''AES-192-CBC'', ''aes-192-cbc''), (''AES-192-CFB'', ''aes-192-cfb''),
     (''AES-192-OFB'', ''aes-192-ofb''), (''AES-192-CTR'', ''aes-192-ctr''), (''AES-192-GCM'', ''aes-192-gcm''),
     (''AES-192-CCM'', ''aes-192-ccm''), (''AES-192-OCB'', ''aes-192-ocb''),
     (''AES-256-ECB'', ''aes-256-ecb''), (''AES-256-CBC'', ''aes-256-cbc''), (''AES-256-CFB'', ''aes-256-cfb''),
     (''AES-256-OFB'', ''aes-256-ofb''), (''AES-256-CTR'', ''aes-256-ctr''), (''AES-256-GCM'', ''aes-256-gcm''),
     (''AES-256-CCM'', ''aes-256-ccm''), (''AES-256-XTS'', ''aes-256-xts''), (''AES-256-OCB'', ''aes-256-ocb''),
     (''TWOFISH-128-ECB'', ''twofish-128-ecb''), (''TWOFISH-128-CBC'', ''twofish-128-cbc''),
     (''TWOFISH-128-CFB'', ''twofish-128-cfb''), (''TWOFISH-128-OFB'', ''twofish-128-ofb''),
     (''TWOFISH-128-CTR'', ''twofish-128-ctr''), (''TWOFISH-192-ECB'', ''twofish-192-ecb''),
     (''TWOFISH-192-CBC'', ''twofish-192-cbc''), (''TWOFISH-192-CFB'', ''twofish-192-cfb''),
     (''TWOFISH-192-OFB'', ''twofish-192-ofb''), (''TWOFISH-192-CTR'', ''twofish-192-ctr''),
     (''TWOFISH-256-ECB'', ''twofish-256-ecb''), (''TWOFISH-256-CBC'', ''twofish-256-cbc''),
     (''TWOFISH-256-CFB'', ''twofish-256-cfb''), (''TWOFISH-256-OFB'', ''twofish-256-ofb''),
     (''TWOFISH-256-CTR'', ''twofish-256-ctr''), (''DES-ECB'', ''des-ecb''), (''DES-CBC'', ''des-cbc''),
     (''DES-CFB'', ''des-cfb''), (''DES-OFB'', ''des-ofb''), (''DES-CTR'', ''des-ctr''), (''RC4'', ''rc4''),
     (''RC4-40'', ''rc4-40''), (''RC4-128'', ''rc4-128'')]"

definition hash_items :: "(string \<times> string) list" where
  "hash_items = [(''SHA-256'', ''sha256''), (''SHA-512'', ''sha512''), (''SHA3-256'', ''sha3-256''),
     (''SHA3-512'', ''sha3-512''), (''BLAKE2b-512'', ''blake2b-512'')]"

definition cipher_from_combo :: "nat \<Rightarrow> cipher" where
  "cipher_from_combo i = (case cipher_from_string (snd (cipher_items ! i)) of Some c \<Rightarrow> c | None \<Rightarrow> AES_256_GCM)"

definition hash_from_combo :: "nat \<Rightarrow> hash_alg" where
  "hash_from_combo i = (case hash_from_string (snd (hash_items ! i)) of Some h \<Rightarrow> h | None \<Rightarrow> SHA256)"

definition storage_from_combo :: "nat \<Rightarrow> string" where
  "storage_from_combo i = (if i = 0 then ''server'' else ''client'')"

definition is_gost_cipher_value :: "string \<Rightarrow> bool" where
  "is_gost_cipher_value v \<longleftrightarrow> v = ''kuznechik'' \<or> v = ''magma''"

text \<open>The search dialog: the items whose label contains the text, whatever the case of Latin letters
  (Qt also folds the case of the two Cyrillic labels).\<close>

definition contains_ci :: "string \<Rightarrow> string \<Rightarrow> bool" where
  "contains_ci needle s \<longleftrightarrow> (let n = map to_lower needle; t = map to_lower s in
     \<exists>i \<in> set [0..<Suc (length t)]. starts_with n (drop i t))"

definition qt_trimmed :: "string \<Rightarrow> string" where
  "qt_trimmed s = rev (dropWhile is_space (rev (dropWhile is_space s)))"

definition cipher_matches :: "string \<Rightarrow> nat list" where
  "cipher_matches query = filter (\<lambda>i. contains_ci (qt_trimmed query) (fst (cipher_items ! i))) [0..<length cipher_items]"

section \<open>Temporary files\<close>

definition temp_base_dir :: "window_env \<Rightarrow> path" where
  "temp_base_dir env = (if we_shm env then ''/dev/shm'' else case we_tmp env of None \<Rightarrow> we_cwd env | Some p \<Rightarrow> p)"

definition make_temp_path :: "window_env \<Rightarrow> nat \<Rightarrow> path \<Rightarrow> path" where
  "make_temp_path env counter original_path = path_join (temp_base_dir env)
     (''encoder_tmp_'' @ show_int (we_now env counter) @ ''_'' @ show_nat counter @ ''_'' @ path_filename original_path)"

definition write_temp_file :: "byte list \<Rightarrow> path \<Rightarrow> client \<Rightarrow> bool \<times> client" where
  "write_temp_file data p c = cl_write_file p data c"

section \<open>Encrypting everything again\<close>

definition window_params :: "window_env \<Rightarrow> window \<Rightarrow> path \<Rightarrow> cipher \<Rightarrow> hash_alg \<Rightarrow> string \<Rightarrow> encrypt_params" where
  "window_params env w p cipher hash key_storage = \<lparr>ep_username = we_username env, ep_password = w_password w,
     ep_file_path = p, ep_cipher = cipher, ep_hash = hash, ep_key_storage = key_storage\<rparr>"

fun reencrypt_items :: "window_env \<Rightarrow> string \<Rightarrow> decrypted_item list \<Rightarrow> window \<Rightarrow> bool \<times> window" where
  "reencrypt_items env fallback [] w = (True, w)"
| "reencrypt_items env fallback (item # items) w =
     (case encrypt_data (we_env env) (we_cfg env) (we_conn env (w_requests w))
        (window_params env w (di_file_path item) (di_cipher item) (di_hash item)
          (if di_key_storage item = [] then fallback else di_key_storage item)) (di_data item) True new_result (w_client w) of
        (Raised, r, c) \<Rightarrow> (False, crash (after_request c w))
      | (Returned ok, r, c) \<Rightarrow>
          if \<not> ok then (False, after_request c w)
          else reencrypt_items env fallback items
            (after_request (if di_temp_path item = [] then c else cl_remove (di_temp_path item) c) w))"

definition reencrypt_all :: "window_env \<Rightarrow> window \<Rightarrow> bool \<times> window" where
  "reencrypt_all env w =
     (if w_decrypted w = [] then (True, update_secure_state w)
      else (case reencrypt_items env (storage_from_combo (w_key_storage w)) (w_decrypted w) w of
          (False, w) \<Rightarrow> (False, w)
        | (True, w) \<Rightarrow> (True, update_secure_state (w\<lparr>w_decrypted := [], w_row := - 1\<rparr>))))"

section \<open>The clipboard and the boxes\<close>

fun on_clipboard_changed :: "window_env \<Rightarrow> clip_change \<Rightarrow> window \<Rightarrow> window" where
  "on_clipboard_changed env (Clip_change contents during) w =
     (if w_crashed w then w
      else let w = w\<lparr>w_clip := contents\<rparr> in
        if \<not> w_secure w then w
        else (case contents of
            None \<Rightarrow> w
          | Some c \<Rightarrow> (case clip_violation (cc_clipboard_max_bytes (we_cfg env)) c of
              None \<Rightarrow> w
            | Some reason \<Rightarrow>
                let w = snd (reencrypt_all env (w\<lparr>w_clip := None\<rparr>))
                in if w_crashed w then w else fold (on_clipboard_changed env) during (note_box (Violation reason) w))))"

definition show_box :: "window_env \<Rightarrow> box \<Rightarrow> window \<Rightarrow> window" where
  "show_box env b w = fold (on_clipboard_changed env) (we_boxes env (length (w_boxes w))) (note_box b w)"

definition on_terminate :: "window_env \<Rightarrow> window \<Rightarrow> window" where
  "on_terminate env w = (case reencrypt_all env w of
     (True, w) \<Rightarrow> w | (False, w) \<Rightarrow> if w_crashed w then w else show_box env Not_cleared w)"

section \<open>Encryption\<close>

definition selected_file_paths :: "window \<Rightarrow> path list" where
  "selected_file_paths w = (if w_selected w \<noteq> [] then w_selected w else w_files w)"

fun encrypt_targets :: "window_env \<Rightarrow> cipher \<Rightarrow> hash_alg \<Rightarrow> string \<Rightarrow> path list \<Rightarrow> window \<Rightarrow> window" where
  "encrypt_targets env cipher hash ks [] w = w"
| "encrypt_targets env cipher hash ks (p # ps) w =
     (if w_crashed w then w else case encrypt_file (we_env env) (we_cfg env) (we_conn env (w_requests w))
        (window_params env w p cipher hash ks) new_result (w_client w) of
        (Raised, r, c) \<Rightarrow> crash (after_request c w)
      | (Returned ok, r, c) \<Rightarrow> encrypt_targets env cipher hash ks ps
          (if ok then after_request c w else show_box env (Encrypt_failed (er_message r)) (after_request c w)))"

definition on_encrypt :: "window_env \<Rightarrow> window \<Rightarrow> window" where
  "on_encrypt env w = (if w_files w = [] then w
     else encrypt_targets env (cipher_from_combo (w_cipher w)) (hash_from_combo (w_hash w))
       (storage_from_combo (w_key_storage w)) (selected_file_paths w) w)"

section \<open>Decryption\<close>

definition fresh_decrypt :: decrypt_result where
  "fresh_decrypt = \<lparr>dr_ok = False, dr_message = [], dr_data = [], dr_original_name = [], dr_cipher = AES_256_GCM,
     dr_hash = SHA256, dr_key_storage = [], dr_file_id = []\<rparr>"

definition decrypted_item_of :: "path \<Rightarrow> decrypt_result \<Rightarrow> path \<Rightarrow> decrypted_item" where
  "decrypted_item_of p r temp_path = \<lparr>di_file_path = p, di_data = dr_data r, di_cipher = dr_cipher r, di_hash = dr_hash r,
     di_key_storage = dr_key_storage r, di_file_id = dr_file_id r, di_temp_path = temp_path\<rparr>"

text \<open>A file that was decrypted is kept, with a temporary file when that is asked for and can be written.\<close>

definition keep_decrypted :: "window_env \<Rightarrow> path \<Rightarrow> decrypt_result \<Rightarrow> window \<Rightarrow> window" where
  "keep_decrypted env p r w =
     (if \<not> w_temp w then w\<lparr>w_decrypted := w_decrypted w @ [decrypted_item_of p r []]\<rparr>
      else let temp_path = make_temp_path env (w_counter w) p in
        (case write_temp_file (dr_data r) temp_path (w_client w) of
           (ok, c) \<Rightarrow> w\<lparr>w_client := c, w_counter := w_counter w + 1,
             w_decrypted := w_decrypted w @ [decrypted_item_of p r (if ok then temp_path else [])]\<rparr>))"

fun decrypt_targets :: "window_env \<Rightarrow> path list \<Rightarrow> window \<Rightarrow> window" where
  "decrypt_targets env [] w = w"
| "decrypt_targets env (p # ps) w =
     (if w_crashed w then w else case decrypt_file (we_env env) (we_cfg env) (we_conn env (w_requests w))
        \<lparr>dp_username = we_username env, dp_password = w_password w, dp_file_path = p\<rparr> fresh_decrypt (w_client w) of
        (Raised, r, c) \<Rightarrow> crash (after_request c w)
      | (Returned ok, r, c) \<Rightarrow> decrypt_targets env ps
          (if ok then keep_decrypted env p r (after_request c w)
           else show_box env (Decrypt_failed (dr_message r)) (after_request c w)))"

definition on_decrypt :: "window_env \<Rightarrow> window \<Rightarrow> window" where
  "on_decrypt env w = (if w_files w = [] then w
     else let w = decrypt_targets env (selected_file_paths w) w in if w_crashed w then w else update_secure_state w)"

section \<open>Preview and path\<close>

definition kPreviewLimit :: nat where
  "kPreviewLimit = 64 * 1024"

definition odd_byte :: "byte \<Rightarrow> bool" where
  "odd_byte b \<longleftrightarrow> unat b < 9 \<or> unat b > 13 \<and> unat b < 32 \<or> unat b = 127"

definition looks_binary :: "byte list \<Rightarrow> bool" where
  "looks_binary data \<longleftrightarrow> data \<noteq> [] \<and>
     (0 \<in> set data \<or> length (filter odd_byte data) * 100 div length data > 10)"

text \<open>\<open>arg(n, 6, 16, '0')\<close>: at least six hexadecimal digits.\<close>

fun hex_nat :: "nat \<Rightarrow> string" where
  "hex_nat n = (if n < 16 then [kHex ! n] else hex_nat (n div 16) @ [kHex ! (n mod 16)])"

definition hex_offset :: "nat \<Rightarrow> string" where
  "hex_offset n = (let h = hex_nat n in replicate (6 - length h) (CHR ''0'') @ h)"

definition hex_dump :: "byte list \<Rightarrow> string" where
  "hex_dump data = drop 1 (concat (map (\<lambda>i.
     (if i mod 16 = 0 then [CHR 0x0A] @ hex_offset i @ ''  '' else []) @ hex_byte (data ! i) @ '' '') [0..<length data]))"

datatype preview_text = Hex_text string | Utf8_text "byte list"

text \<open>The text of the preview and whether it was cut.\<close>

definition on_preview :: "window \<Rightarrow> (preview_text \<times> bool) option" where
  "on_preview w =
     (if \<not> row_valid w then None
      else let data = di_data (current_item w); shown = take kPreviewLimit data in
        Some (if looks_binary shown then Hex_text (hex_dump shown) else Utf8_text shown, length data > length shown))"

definition text_clip :: "string \<Rightarrow> clip" where
  "text_clip s = \<lparr>cp_text = Some (bytes_of s), cp_html = None, cp_urls = None, cp_image = None\<rparr>"

definition on_copy_temp_path :: "window_env \<Rightarrow> window \<Rightarrow> window" where
  "on_copy_temp_path env w =
     (if \<not> row_valid w then w
      else let p = di_temp_path (current_item w) in
        if p = [] then show_box env No_temp_file w
        else let w = on_clipboard_changed env (Clip_change (Some (text_clip p)) (we_boxes env (length (w_boxes w)))) w
          in if w_crashed w then w else show_box env Path_copied w)"

section \<open>Closing\<close>

text \<open>The answers of the settings (is the file readable, is it saved, does a change that could not be
  saved stay visible) and of the user.\<close>

datatype close_answer = Change_password string string | Skip | Back

record close_input =
  ci_readable :: bool
  ci_answer :: close_answer
  ci_saved :: bool
  ci_visible :: bool

definition skipped_count :: "reminder \<Rightarrow> int" where
  "skipped_count r = (case r of No_reminder \<Rightarrow> 0 | Reminder n \<Rightarrow> if n \<ge> 0 then min n 5 else 5 | Bad_reminder \<Rightarrow> 5)"

definition save_count :: "window_env \<Rightarrow> close_input \<Rightarrow> int \<Rightarrow> window \<Rightarrow> bool \<times> window" where
  "save_count env inp n w =
     (if ci_saved inp then (True, w\<lparr>w_reminder := Reminder n\<rparr>)
      else (False, show_box env Reminder_not_saved (w\<lparr>w_reminder := (if ci_visible inp then Reminder n else w_reminder w)\<rparr>)))"

definition prompt_password_change :: "window_env \<Rightarrow> close_input \<Rightarrow> window \<Rightarrow> bool \<times> window" where
  "prompt_password_change env inp w =
     (let skipped = skipped_count (w_reminder w) in
      if \<not> ci_readable inp then (False, show_box env Reminder_unreadable w)
      else let w = show_box env Password_dialog w in
        if w_crashed w then (False, w)
        else (case ci_answer inp of
          Skip \<Rightarrow> if skipped < 5 then save_count env inp (skipped + 1) w else (False, w)
        | Back \<Rightarrow> (False, w)
        | Change_password new_pass confirm \<Rightarrow>
            if new_pass = [] then (False, show_box env Password_empty w)
            else if new_pass = w_password w then (False, show_box env Password_same w)
            else if new_pass \<noteq> confirm then (False, show_box env Password_mismatch w)
            else (case change_password (we_env env) (we_cfg env) (we_conn env (w_requests w)) (we_username env)
                (w_password w) new_pass (w_client w) of
                (None, c) \<Rightarrow> (False, crash (after_request c w))
              | (Some (Inl e), c) \<Rightarrow> (False, show_box env (Password_error e) (after_request c w))
              | (Some (Inr _), c) \<Rightarrow> save_count env inp 0 ((after_request c w)\<lparr>w_password := new_pass\<rparr>))))"

definition empty_memory :: "window_env \<Rightarrow> window \<Rightarrow> bool \<times> window" where
  "empty_memory env w = (if w_decrypted w \<noteq> [] then reencrypt_all env w else (True, w))"

definition close_event :: "window_env \<Rightarrow> close_input \<Rightarrow> window \<Rightarrow> window" where
  "close_event env inp w =
     (if w_closing w then w\<lparr>w_closed := True\<rparr>
      else (case empty_memory env (w\<lparr>w_closing := True\<rparr>) of
           (False, w) \<Rightarrow> w\<lparr>w_closing := False\<rparr>
         | (True, w) \<Rightarrow> (case prompt_password_change env inp w of
             (False, w) \<Rightarrow> w\<lparr>w_closing := False\<rparr>
           | (True, w) \<Rightarrow> w\<lparr>w_closed := True\<rparr>)))"

section \<open>Events\<close>

definition on_select_files :: "path list \<Rightarrow> window \<Rightarrow> window" where
  "on_select_files files w = (if files = [] then w else w\<lparr>w_files := filter (\<lambda>f. f \<noteq> []) files, w_selected := []\<rparr>)"

datatype window_event = Select_files "path list" | Select_items "path list" | Choose nat nat nat | Encrypt | Decrypt
  | Terminate | Row int | Temp_toggled bool | Copy_path | Clipboard clip_change | Close close_input

text \<open>A button that is disabled or hidden gives no event.\<close>

fun window_step :: "window_env \<Rightarrow> window_event \<Rightarrow> window \<Rightarrow> window" where
  "window_step env (Select_files files) w = on_select_files files w"
| "window_step env (Select_items items) w = w\<lparr>w_selected := filter (\<lambda>f. f \<in> set (w_files w)) items\<rparr>"
| "window_step env (Choose c h k) w = (if c < length cipher_items \<and> h < length hash_items \<and> k < 2
     then w\<lparr>w_cipher := c, w_hash := h, w_key_storage := k\<rparr> else w)"
| "window_step env Encrypt w = (if odd (cc_permissions (we_cfg env)) then on_encrypt env w else w)"
| "window_step env Decrypt w = (if odd (cc_permissions (we_cfg env) div 2) then on_decrypt env w else w)"
| "window_step env Terminate w = (if w_terminate w then on_terminate env w else w)"
| "window_step env (Row i) w = (if - 1 \<le> i \<and> i < int (length (w_decrypted w))
     then update_decrypted_actions (w\<lparr>w_row := i\<rparr>) else w)"
| "window_step env (Temp_toggled b) w = update_decrypted_actions (w\<lparr>w_temp := b\<rparr>)"
| "window_step env Copy_path w = (if w_copy_shown w \<and> w_copy w then on_copy_temp_path env w else w)"
| "window_step env (Clipboard change) w = on_clipboard_changed env change w"
| "window_step env (Close inp) w = close_event env inp w"

definition open_window :: "window_env \<Rightarrow> string \<Rightarrow> clip option \<Rightarrow> reminder \<Rightarrow> client \<Rightarrow> window" where
  "open_window env password contents r c = \<lparr>w_client = c, w_requests = 0, w_password = password, w_files = [], w_selected = [],
     w_cipher = 0, w_hash = 0, w_key_storage = (if cc_default_key_storage (we_cfg env) = ''client'' then 1 else 0),
     w_temp = cc_decrypt_to_temp (we_cfg env), w_decrypted = [], w_row = - 1, w_secure = False, w_terminate = False,
     w_preview = False, w_copy_shown = True, w_copy = False, w_clip = contents, w_boxes = [], w_counter = 0, w_reminder = r,
     w_closing = False, w_closed = False, w_crashed = False\<rparr>"

text \<open>The events of a session: nothing happens any more once the window is closed or the process ended.\<close>

fun window_run :: "window_env \<Rightarrow> window_event list \<Rightarrow> window \<Rightarrow> window" where
  "window_run env [] w = w"
| "window_run env (ev # evs) w = (if w_closed w \<or> w_crashed w then w else window_run env evs (window_step env ev w))"

declare window_step.simps [simp del]

section \<open>What every state satisfies\<close>

text \<open>
  The secure mode and the clear button follow the plaintexts in memory, the buttons of the list
  follow its current row, a guarded clipboard holds nothing the guard refuses, and a closed window
  holds no plaintext.
\<close>

definition clip_allowed :: "window_env \<Rightarrow> clip option \<Rightarrow> bool" where
  "clip_allowed env contents \<longleftrightarrow>
     (\<forall>c. contents = Some c \<longrightarrow> clip_violation (cc_clipboard_max_bytes (we_cfg env)) c = None)"

definition guarded :: "window_env \<Rightarrow> window \<Rightarrow> bool" where
  "guarded env w \<longleftrightarrow>
     w_secure w = (w_decrypted w \<noteq> []) \<and> w_terminate w = (w_decrypted w \<noteq> []) \<and>
     (w_preview w \<longrightarrow> row_valid w) \<and> (w_copy w \<longrightarrow> w_temp w \<and> row_valid w \<and> di_temp_path (current_item w) \<noteq> []) \<and>
     (w_secure w \<longrightarrow> clip_allowed env (w_clip w))"

text \<open>What requests leave alone.\<close>

definition same_view :: "window \<Rightarrow> window \<Rightarrow> bool" where
  "same_view w w' \<longleftrightarrow> w_secure w' = w_secure w \<and> w_terminate w' = w_terminate w \<and> w_preview w' = w_preview w
     \<and> w_copy w' = w_copy w \<and> w_clip w' = w_clip w \<and> w_closing w' = w_closing w \<and> w_closed w' = w_closed w
     \<and> w_temp w' = w_temp w \<and> w_row w' = w_row w \<and> w_boxes w' = w_boxes w"

named_theorems window_simps "how the small updates of the window act"

lemma note_box_simps [window_simps]:
  "w_decrypted (note_box b w) = w_decrypted w" "w_crashed (note_box b w) = w_crashed w" "w_client (note_box b w) = w_client w"
  "w_password (note_box b w) = w_password w" "w_reminder (note_box b w) = w_reminder w" "w_secure (note_box b w) = w_secure w"
  "w_closing (note_box b w) = w_closing w" "w_closed (note_box b w) = w_closed w" "w_requests (note_box b w) = w_requests w"
  "guarded env (note_box b w) = guarded env w" "w_boxes (note_box b w) = w_boxes w @ [(b, w_secure w, w_decrypted w \<noteq> [])]"
  by (simp_all add: note_box_def guarded_def row_valid_def current_item_def)

lemma after_request_simps [window_simps]:
  "same_view w (after_request c w') = same_view w w'" "w_decrypted (after_request c w) = w_decrypted w"
  "w_crashed (after_request c w) = w_crashed w" "w_client (after_request c w) = c" "w_password (after_request c w) = w_password w"
  "w_reminder (after_request c w) = w_reminder w" "w_temp (after_request c w) = w_temp w" "w_secure (after_request c w) = w_secure w"
  "w_requests (after_request c w) = w_requests w + 1"
  by (simp_all add: after_request_def same_view_def)

lemma crash_simps [window_simps]:
  "same_view w (crash w') = same_view w w'" "w_decrypted (crash w) = w_decrypted w" "w_crashed (crash w)"
  "w_client (crash w) = w_client w" "w_temp (crash w) = w_temp w"
  by (simp_all add: crash_def same_view_def)

lemma same_view_refl [simp]: "same_view w w"
  by (simp add: same_view_def)

lemma same_view_trans: "same_view a b \<Longrightarrow> same_view b c \<Longrightarrow> same_view a c"
  by (simp add: same_view_def)

lemma guarded_same: "same_view w w' \<Longrightarrow> w_decrypted w' = w_decrypted w \<Longrightarrow> guarded env w \<Longrightarrow> guarded env w'"
  by (simp add: same_view_def guarded_def row_valid_def current_item_def)

lemma guarded_closing [simp]: "guarded env (w\<lparr>w_closing := b\<rparr>) = guarded env w" "guarded env (w\<lparr>w_closed := b\<rparr>) = guarded env w"
  "guarded env (w\<lparr>w_reminder := n\<rparr>) = guarded env w" "guarded env (w\<lparr>w_password := q\<rparr>) = guarded env w"
  by (simp_all add: guarded_def row_valid_def current_item_def)

lemma guarded_request [window_simps]: "guarded env (after_request c w) = guarded env w" "guarded env (crash w) = guarded env w"
  by (simp_all add: after_request_def crash_def guarded_def row_valid_def current_item_def)

lemma update_secure_simps [window_simps]:
  "w_decrypted (update_secure_state w) = w_decrypted w" "w_crashed (update_secure_state w) = w_crashed w"
  "w_client (update_secure_state w) = w_client w" "w_closing (update_secure_state w) = w_closing w"
  "w_closed (update_secure_state w) = w_closed w" "w_password (update_secure_state w) = w_password w"
  "w_reminder (update_secure_state w) = w_reminder w" "w_secure (update_secure_state w) = (w_decrypted w \<noteq> [])"
  "w_boxes (update_secure_state w) = w_boxes w"
  by (simp_all add: update_secure_state_def update_decrypted_actions_def set_secure_mode_def Let_def)

lemma update_secure_guarded [simp]: "guarded env (update_secure_state w)"
  by (simp add: update_secure_state_def update_decrypted_actions_def set_secure_mode_def Let_def guarded_def
      row_valid_def current_item_def clip_allowed_def)

lemma keep_decrypted_view:
  "same_view w (keep_decrypted env p r w')= same_view w w'" "w_crashed (keep_decrypted env p r w) = w_crashed w"
  by (simp_all add: keep_decrypted_def same_view_def Let_def split: prod.split)

lemma reencrypt_items_view:
  "same_view w (snd (reencrypt_items env fb items w)) \<and> w_decrypted (snd (reencrypt_items env fb items w)) = w_decrypted w"
proof (induction items arbitrary: w)
  case (Cons item items)
  have "same_view w (snd (reencrypt_items env fb items (after_request c w)))"
    "w_decrypted (snd (reencrypt_items env fb items (after_request c w))) = w_decrypted w" for c
    using Cons.IH [of "after_request c w"] same_view_trans [of w "after_request c w"] by (simp_all add: window_simps)
  then show ?case by (simp add: window_simps split: prod.split outcome.split)
qed simp

lemma reencrypt_all_cases:
  obtains (empty) "w_decrypted w = []" "reencrypt_all env w = (True, update_secure_state w)"
  | (failed) w1 where "w_decrypted w \<noteq> []" "reencrypt_all env w = (False, w1)" "same_view w w1" "w_decrypted w1 = w_decrypted w"
  | (done_all) w1 where "w_decrypted w \<noteq> []" "same_view w w1"
      "reencrypt_items env (storage_from_combo (w_key_storage w)) (w_decrypted w) w = (True, w1)"
      "reencrypt_all env w = (True, update_secure_state (w1\<lparr>w_decrypted := [], w_row := - 1\<rparr>))"
proof (cases "w_decrypted w = []")
  case True
  with empty show ?thesis by (simp add: reencrypt_all_def)
next
  case False
  obtain ok w1 where r: "reencrypt_items env (storage_from_combo (w_key_storage w)) (w_decrypted w) w = (ok, w1)"
    by fastforce
  with reencrypt_items_view [of w env "storage_from_combo (w_key_storage w)" "w_decrypted w"]
  have v: "same_view w w1" "w_decrypted w1 = w_decrypted w" by simp_all
  show ?thesis
  proof (cases ok)
    case True
    with False r v done_all show ?thesis by (simp add: reencrypt_all_def)
  next
    case f: False
    with False r v failed show ?thesis by (simp add: reencrypt_all_def)
  qed
qed

lemma reencrypt_all_guarded: "guarded env w \<Longrightarrow> guarded env (snd (reencrypt_all env w))"
  by (cases rule: reencrypt_all_cases [of w env]) (auto intro: guarded_same)

lemma reencrypt_all_closing: "w_closing (snd (reencrypt_all env w)) = w_closing w" "w_closed (snd (reencrypt_all env w)) = w_closed w"
  by (cases rule: reencrypt_all_cases [of w env]; simp add: window_simps same_view_def)+

lemma reencrypt_all_boxes: "w_boxes (snd (reencrypt_all env w)) = w_boxes w"
  by (cases rule: reencrypt_all_cases [of w env]) (simp_all add: window_simps same_view_def)

lemma reencrypt_all_secure: "w_secure w \<Longrightarrow> w_decrypted (snd (reencrypt_all env w)) \<noteq> [] \<Longrightarrow> w_secure (snd (reencrypt_all env w))"
  by (cases rule: reencrypt_all_cases [of w env]) (simp_all add: window_simps same_view_def)

section \<open>What happens inside a box\<close>

text \<open>A property of the window that what the clipboard can cause keeps.\<close>

locale box_invariant =
  fixes env :: window_env and Q :: "window \<Rightarrow> bool"
  assumes clip: "Q w \<Longrightarrow> (w_secure w \<longrightarrow> clip_allowed env contents) \<Longrightarrow> Q (w\<lparr>w_clip := contents\<rparr>)"
    and again: "Q w \<Longrightarrow> Q (snd (reencrypt_all env w))"
    and boxed: "Q w \<Longrightarrow> (w_decrypted w \<noteq> [] \<longrightarrow> w_secure w) \<Longrightarrow> Q (note_box b w)"
begin

lemma changed: "Q w \<Longrightarrow> Q (on_clipboard_changed env t w)"
proof (induction t arbitrary: w)
  case (Clip_change contents during)
  have inner: "Q (fold (on_clipboard_changed env) during w')" if "Q w'" for w'
    using that Clip_change.IH by (intro fold_invariant [where P = Q and Q = "\<lambda>t. t \<in> set during"]) auto
  let ?w = "w\<lparr>w_clip := None\<rparr>"
  have r: "Q (snd (reencrypt_all env ?w))"
    using clip [OF Clip_change.prems, of None] again by (simp add: clip_allowed_def)
  have v: "Q (note_box (Violation v) (snd (reencrypt_all env ?w)))" if "w_secure w" for v
    using r reencrypt_all_secure [of ?w env] that by (intro boxed) auto
  show ?case
    using Clip_change.prems clip [OF Clip_change.prems, of contents] r inner [OF v]
    by (auto simp: Let_def clip_allowed_def split: option.split)
qed

lemma inside: "Q w \<Longrightarrow> Q (fold (on_clipboard_changed env) ts w)"
  by (induction ts arbitrary: w) (simp_all add: changed)

lemma shown: "Q w \<Longrightarrow> (w_decrypted w \<noteq> [] \<longrightarrow> w_secure w) \<Longrightarrow> Q (show_box env b w)"
  unfolding show_box_def by (intro inside boxed)

end

text \<open>Only the box of a file that cannot be decrypted may open while a plaintext is in memory unguarded.\<close>

definition box_guarded :: "box \<times> bool \<times> bool \<Rightarrow> bool" where
  "box_guarded x \<longleftrightarrow> (case x of (b, secure, plain) \<Rightarrow> plain \<longrightarrow> secure \<or> (\<exists>m. b = Decrypt_failed m))"

definition boxes_ok :: "window \<Rightarrow> bool" where
  "boxes_ok w \<longleftrightarrow> (\<forall>x \<in> set (w_boxes w). box_guarded x)"

definition same_flags :: "window \<Rightarrow> window \<Rightarrow> bool" where
  "same_flags w0 w \<longleftrightarrow> w_closing w = w_closing w0 \<and> w_closed w = w_closed w0"

definition in_order :: "window \<Rightarrow> window \<Rightarrow> bool" where
  "in_order w0 w \<longleftrightarrow> boxes_ok w \<and> same_flags w0 w"

definition steady :: "window_env \<Rightarrow> window \<Rightarrow> window \<Rightarrow> bool" where
  "steady env w0 w \<longleftrightarrow> guarded env w \<and> in_order w0 w"

definition quiet :: "window \<Rightarrow> window \<Rightarrow> bool" where
  "quiet w0 w \<longleftrightarrow> w_decrypted w = [] \<and> w_client w = w_client w0 \<and> w_requests w = w_requests w0 \<and> w_crashed w = w_crashed w0"

definition same_account :: "window \<Rightarrow> window \<Rightarrow> bool" where
  "same_account w0 w \<longleftrightarrow> w_password w = w_password w0 \<and> w_reminder w = w_reminder w0"

lemma reencrypt_keeps:
  "w_password (snd (reencrypt_items env fb items w)) = w_password w" "w_reminder (snd (reencrypt_items env fb items w)) = w_reminder w"
  by (induction items arbitrary: w; simp add: after_request_def crash_def split: prod.split outcome.split)+

lemma reencrypt_all_keeps:
  "w_password (snd (reencrypt_all env w)) = w_password w" "w_reminder (snd (reencrypt_all env w)) = w_reminder w"
  using reencrypt_keeps [of env "storage_from_combo (w_key_storage w)" "w_decrypted w" w]
  by (auto simp: reencrypt_all_def window_simps split: prod.split bool.split)

lemma box_noted: "in_order w0 w \<Longrightarrow> box_guarded (b, w_secure w, w_decrypted w \<noteq> []) \<Longrightarrow> in_order w0 (note_box b w)"
  by (simp add: in_order_def same_flags_def boxes_ok_def window_simps)

interpretation same_flags: box_invariant env "same_flags w0" for env w0
  by unfold_locales (simp_all add: same_flags_def window_simps reencrypt_all_closing)

interpretation in_order: box_invariant env "in_order w0" for env w0
proof
  show "in_order w0 (note_box b w)" if "in_order w0 w" "w_decrypted w \<noteq> [] \<longrightarrow> w_secure w" for w b
    using that by (intro box_noted) (auto simp: box_guarded_def)
qed (simp_all add: in_order_def same_flags_def boxes_ok_def reencrypt_all_boxes reencrypt_all_closing)

interpretation steady: box_invariant env "steady env w0" for env w0
proof
  show "steady env w0 (w\<lparr>w_clip := contents\<rparr>)" if "steady env w0 w" "w_secure w \<longrightarrow> clip_allowed env contents" for w contents
    using that in_order.clip [of w0 w] by (simp add: steady_def guarded_def row_valid_def current_item_def)
  show "steady env w0 (snd (reencrypt_all env w))" if "steady env w0 w" for w
    using that in_order.again reencrypt_all_guarded by (simp add: steady_def)
  show "steady env w0 (note_box b w)" if "steady env w0 w" "w_decrypted w \<noteq> [] \<longrightarrow> w_secure w" for w b
    using that in_order.boxed by (simp add: steady_def window_simps)
qed

lemma update_secure_requests [window_simps]: "w_requests (update_secure_state w) = w_requests w"
  by (simp add: update_secure_state_def update_decrypted_actions_def set_secure_mode_def Let_def)

interpretation quiet: box_invariant env "quiet w0" for env w0
  by unfold_locales (simp_all add: quiet_def window_simps reencrypt_all_def)

interpretation same_account: box_invariant env "same_account w0" for env w0
  by unfold_locales (simp_all add: same_account_def window_simps reencrypt_all_keeps)

lemma steady_shown [intro]: "steady env w0 w \<Longrightarrow> steady env w0 (show_box env b w)"
  by (rule steady.shown) (simp_all add: steady_def guarded_def)

lemma steady_simps [window_simps]:
  "steady env w0 (after_request c w) = steady env w0 w" "steady env w0 (crash w) = steady env w0 w"
  "steady env w0 (w\<lparr>w_reminder := n\<rparr>) = steady env w0 w" "steady env w0 (w\<lparr>w_password := q\<rparr>) = steady env w0 w"
  by (simp_all add: steady_def in_order_def same_flags_def boxes_ok_def window_simps) (simp_all add: after_request_def crash_def)

lemma decrypt_failed_shown: "in_order w0 w \<Longrightarrow> in_order w0 (show_box env (Decrypt_failed m) w)"
  unfolding show_box_def by (intro in_order.inside box_noted) (simp_all add: box_guarded_def)

lemma encrypt_targets_steady: "steady env w0 w \<Longrightarrow> steady env w0 (encrypt_targets env cipher hash ks ps w)"
proof (induction ps arbitrary: w)
  case (Cons p ps)
  from Cons.prems show ?case by (auto simp: window_simps intro!: Cons.IH steady_shown split: prod.split outcome.split)
qed simp

lemma keep_decrypted_in_order: "in_order w0 w \<Longrightarrow> in_order w0 (keep_decrypted env p r w)"
  by (simp add: keep_decrypted_def in_order_def same_flags_def boxes_ok_def Let_def split: prod.split)

lemma in_order_simps [window_simps]: "in_order w0 (after_request c w) = in_order w0 w" "in_order w0 (crash w) = in_order w0 w"
  by (simp_all add: in_order_def same_flags_def boxes_ok_def after_request_def crash_def)

lemma decrypt_targets_in_order: "in_order w0 w \<Longrightarrow> in_order w0 (decrypt_targets env ps w)"
proof (induction ps arbitrary: w)
  case (Cons p ps)
  from Cons.prems show ?case
    by (auto simp: window_simps split: prod.split outcome.split intro!: Cons.IH keep_decrypted_in_order decrypt_failed_shown)
qed simp

lemma save_count_facts:
  assumes "save_count env inp n w = (ok, w')"
  shows "steady env w0 w \<Longrightarrow> steady env w0 w'" "w_decrypted w = [] \<Longrightarrow> w_decrypted w' = []"
    "ok \<Longrightarrow> w' = w\<lparr>w_reminder := Reminder n\<rparr>"
  using assms quiet.shown [of "w\<lparr>w_reminder := Reminder n\<rparr>" "w\<lparr>w_reminder := Reminder n\<rparr>" env Reminder_not_saved] quiet.shown [of w w env Reminder_not_saved]
  by (auto simp: save_count_def window_simps quiet_def split: if_splits)

lemma flags_shown: "same_flags w0 w \<Longrightarrow> same_flags w0 (show_box env b w)"
  unfolding show_box_def by (intro same_flags.inside) (simp add: same_flags_def window_simps)

lemma prompt_flags: "same_flags w (snd (prompt_password_change env inp w))"
proof -
  have sc: "same_flags w (snd (save_count env inp n w'))" if "same_flags w w'" for n w'
    using that by (auto simp: save_count_def intro!: flags_shown) (simp_all add: same_flags_def)
  have up: "same_flags w (after_request c w') = same_flags w w'" "same_flags w (crash w') = same_flags w w'"
    "same_flags w (w'\<lparr>w_password := q\<rparr>) = same_flags w w'" for c q w'
    by (simp_all add: same_flags_def after_request_def crash_def)
  have "same_flags w w" by (simp add: same_flags_def)
  then show ?thesis
    by (auto simp: prompt_password_change_def Let_def up intro!: flags_shown sc split: close_answer.split prod.split option.split sum.split)
qed

lemma prompt_view:
  shows "steady env w0 w \<Longrightarrow> steady env w0 (snd (prompt_password_change env inp w))"
    "w_decrypted w = [] \<Longrightarrow> w_decrypted (snd (prompt_password_change env inp w)) = []"
proof -
  have q: "w_decrypted (show_box env b w') = []" if "w_decrypted w' = []" for b w'
    using quiet.shown [of w' w' env b] that by (simp add: quiet_def)
  note sc = save_count_facts [OF prod.collapse [symmetric]]
  show "steady env w0 (snd (prompt_password_change env inp w))" if "steady env w0 w"
    using that by (auto simp: prompt_password_change_def Let_def window_simps intro!: sc(1) steady_shown
        split: close_answer.split prod.split option.split sum.split)
  show "w_decrypted (snd (prompt_password_change env inp w)) = []" if "w_decrypted w = []"
    using that by (auto simp: prompt_password_change_def Let_def window_simps q intro!: sc(2)
        split: close_answer.split prod.split option.split sum.split)
qed

lemma on_terminate_steady: "steady env w0 w \<Longrightarrow> steady env w0 (on_terminate env w)"
  using steady.again [of env w0 w] by (auto simp: on_terminate_def split: prod.split bool.split)

lemma on_copy_steady: "steady env w0 w \<Longrightarrow> steady env w0 (on_copy_temp_path env w)"
  using steady.changed [of env w0 w] by (auto simp: on_copy_temp_path_def Let_def simp del: on_clipboard_changed.simps)

definition window_ok :: "window_env \<Rightarrow> window \<Rightarrow> bool" where
  "window_ok env w \<longleftrightarrow> guarded env w \<and> boxes_ok w \<and> (w_closing w \<longleftrightarrow> w_closed w) \<and> (w_closed w \<longrightarrow> w_decrypted w = [])"

text \<open>A close: either everything was encrypted again and the question about the password answered, or
  the window stays open.\<close>

lemma empty_memory_facts:
  assumes "empty_memory env w = (ok, w1)"
  shows "steady env w0 w \<Longrightarrow> steady env w0 w1" "ok \<Longrightarrow> w_decrypted w1 = []" "w_closed w1 = w_closed w"
proof -
  have "w1 = w \<or> w1 = snd (reencrypt_all env w)" using assms by (auto simp: empty_memory_def split: if_splits)
  then show "steady env w0 w \<Longrightarrow> steady env w0 w1" "w_closed w1 = w_closed w"
    using steady.again [of env w0 w] reencrypt_all_closing [of env w] by auto
  show "ok \<Longrightarrow> w_decrypted w1 = []"
    by (cases rule: reencrypt_all_cases [of w env]) (use assms in \<open>auto simp: empty_memory_def window_simps split: if_splits\<close>)
qed

lemma close_cases:
  assumes "\<not> w_closing w"
  obtains (stays) w1 where "close_event env inp w = w1\<lparr>w_closing := False\<rparr>"
      "steady env (w\<lparr>w_closing := True\<rparr>) (w\<lparr>w_closing := True\<rparr>) \<Longrightarrow> steady env (w\<lparr>w_closing := True\<rparr>) w1" "w_closed w1 = w_closed w"
  | (closes) w1 w2 where "empty_memory env (w\<lparr>w_closing := True\<rparr>) = (True, w1)" "prompt_password_change env inp w1 = (True, w2)"
      "close_event env inp w = w2\<lparr>w_closed := True\<rparr>"
      "steady env (w\<lparr>w_closing := True\<rparr>) (w\<lparr>w_closing := True\<rparr>) \<Longrightarrow> steady env (w\<lparr>w_closing := True\<rparr>) w2 \<and> w_decrypted w2 = []"
proof -
  let ?w = "w\<lparr>w_closing := True\<rparr>"
  obtain ok w1 where e: "empty_memory env ?w = (ok, w1)" by fastforce
  obtain ok2 w2 where p: "prompt_password_change env inp w1 = (ok2, w2)" by fastforce
  have f: "steady env ?w ?w \<Longrightarrow> steady env ?w w1" "ok \<Longrightarrow> w_decrypted w1 = []" using empty_memory_facts [OF e] by auto
  have g: "steady env ?w w2" "w_decrypted w2 = []" if "steady env ?w ?w" "ok"
    using prompt_view(1) [of env ?w w1 inp] prompt_view(2) [of w1 env inp] f that p by simp_all
  have cl: "w_closed w1 = w_closed w" "w_closed w2 = w_closed w"
    using empty_memory_facts(3) [OF e] prompt_flags [of w1 env inp] p by (simp_all add: same_flags_def)
  consider "\<not> ok" | "ok" "\<not> ok2" | "ok" "ok2" by blast
  then show ?thesis
  proof cases
    case 1
    then show ?thesis using assms e f cl by (intro stays [of w1]) (simp_all add: close_event_def)
  next
    case 2
    then show ?thesis using assms e p f prompt_view(1) [of env ?w w1 inp] cl by (intro stays [of w2]) (simp_all add: close_event_def)
  next
    case 3
    then show ?thesis using assms e p g by (intro closes [of w1 w2]) (simp_all add: close_event_def)
  qed
qed

lemma close_ok:
  assumes "window_ok env w" "\<not> w_closed w"
  shows "window_ok env (close_event env inp w)"
proof -
  let ?w = "w\<lparr>w_closing := True\<rparr>"
  have c: "\<not> w_closing w" "steady env ?w ?w" using assms by (auto simp: window_ok_def steady_def in_order_def same_flags_def boxes_ok_def)
  have upd: "boxes_ok (v\<lparr>w_closing := b\<rparr>) = boxes_ok v" "boxes_ok (v\<lparr>w_closed := b\<rparr>) = boxes_ok v" for v b
    by (simp_all add: boxes_ok_def)
  from c(1) show ?thesis
  proof (cases rule: close_cases [of w env inp])
    case (stays w1)
    with assms c show ?thesis by (simp add: window_ok_def steady_def in_order_def same_flags_def upd)
  next
    case (closes w1 w2)
    with c show ?thesis by (simp add: window_ok_def steady_def in_order_def same_flags_def upd)
  qed
qed

lemma step_ok:
  assumes "window_ok env w" "\<not> w_closed w" "\<not> w_crashed (window_step env ev w)"
  shows "window_ok env (window_step env ev w)"
proof -
  have g: "guarded env w" "boxes_ok w" "\<not> w_closing w" "steady env w w"
    using assms by (auto simp: window_ok_def steady_def in_order_def same_flags_def)
  have ok: "window_ok env w'" if "steady env w w'" for w'
    using that g assms(2) by (simp add: window_ok_def steady_def in_order_def same_flags_def)
  show ?thesis
  proof (cases ev)
    case Encrypt
    from ok [OF encrypt_targets_steady [OF g(4)]] Encrypt assms(1) show ?thesis by (simp add: window_step.simps on_encrypt_def)
  next
    case Decrypt
    have o: "in_order w w" using g(4) by (simp add: steady_def)
    have "window_ok env (update_secure_state (decrypt_targets env ps w))" for ps
      using decrypt_targets_in_order [OF o, of env ps]
      by (intro ok) (simp add: steady_def in_order_def same_flags_def boxes_ok_def window_simps)
    with Decrypt assms show ?thesis by (auto simp: window_step.simps on_decrypt_def Let_def)
  next
    case Terminate
    with ok [OF on_terminate_steady [OF g(4)]] assms(1) show ?thesis by (simp add: window_step.simps)
  next
    case Copy_path
    with ok [OF on_copy_steady [OF g(4)]] assms(1) show ?thesis by (simp add: window_step.simps)
  next
    case (Clipboard change)
    with ok [OF steady.changed [OF g(4)]] show ?thesis by (simp add: window_step.simps del: on_clipboard_changed.simps)
  next
    case (Close inp)
    with close_ok assms(1,2) show ?thesis by (simp add: window_step.simps)
  next
    case (Row i)
    with g assms show ?thesis
      by (auto simp: window_step.simps window_ok_def boxes_ok_def update_decrypted_actions_def guarded_def row_valid_def current_item_def)
  next
    case (Temp_toggled b)
    with g assms show ?thesis
      by (auto simp: window_step.simps window_ok_def boxes_ok_def update_decrypted_actions_def guarded_def row_valid_def current_item_def)
  qed (use assms(1) in \<open>auto simp: window_step.simps on_select_files_def window_ok_def boxes_ok_def guarded_def row_valid_def current_item_def\<close>)
qed

lemma run_ok:
  assumes "window_ok env w" "\<not> w_crashed (window_run env evs w)"
  shows "window_ok env (window_run env evs w)"
  using assms
proof (induction evs arbitrary: w)
  case (Cons ev evs)
  have c: "\<not> w_crashed w'" if "\<not> w_crashed (window_run env evs w')" for w' using that by (cases evs) auto
  show ?case
  proof (cases "w_closed w \<or> w_crashed w")
    case False
    with Cons.prems have r: "\<not> w_crashed (window_run env evs (window_step env ev w))" by simp
    from Cons.IH [OF step_ok [OF Cons.prems(1) _ c [OF r]] r] False show ?thesis by simp
  qed (use Cons.prems in simp)
qed simp

lemma open_ok: "window_ok env (open_window env password contents r c)"
  by (simp add: open_window_def window_ok_def guarded_def boxes_ok_def)

section \<open>What encrypting again leaves on the disk\<close>

text \<open>
  The content of a file the server encrypted: the client's header and exactly the bytes that answered
  a request with the plaintext of the item.
\<close>

definition encrypted_by_server :: "window_env \<Rightarrow> decrypted_item \<Rightarrow> byte list option \<Rightarrow> bool" where
  "encrypted_by_server env item content \<longleftrightarrow> (\<exists>h enc n p ks c resp.
     content = Some (bytes_of (kFileMagic @ serialize h) @ enc) \<and> ep_file_path p = di_file_path item \<and> ep_cipher p = di_cipher item
     \<and> fst (send_request (we_env env) (we_cfg env) (we_conn env n) (encrypt_request (we_env env) p ks (length (di_data item)))
          (di_data item) c) = Sent resp enc
     \<and> hd_get resp ''status'' [] = ''ok'')"

definition touched :: "decrypted_item \<Rightarrow> path set" where
  "touched item = {di_file_path item, di_file_path item @ ''.cph'', di_file_path item @ ''.key'', di_temp_path item}"

lemma cl_remove_facts: "q \<noteq> p \<Longrightarrow> cl_fs (cl_remove p c) q = cl_fs c q" "cl_wout (cl_remove p c) = cl_wout c"
  by (simp_all add: cl_remove_def)

lemma encrypt_data_done:
  assumes "encrypt_data env cfg conn p data True new_result c = (Returned True, r, c')" "\<And>n. cl_wout c n = W_ok"
  shows "\<exists>h enc resp ks. cl_fs c' (ep_file_path p) = Some (bytes_of (kFileMagic @ serialize h) @ enc)
      \<and> fst (send_request env cfg conn (encrypt_request env p ks (length data)) data c) = Sent resp enc
      \<and> hd_get resp ''status'' [] = ''ok''"
    and "q \<notin> {ep_file_path p, ep_file_path p @ ''.cph'', ep_file_path p @ ''.key''} \<Longrightarrow> cl_fs c' q = cl_fs c q"
    and "cl_wout c' = cl_wout c"
proof -
  obtain resp enc c1 r1 c2 where s: "send_request env cfg conn (encrypt_request env p (storage_of cfg p) (length data)) data c
      = (Sent resp enc, c1)"
    and st: "hd_get resp ''status'' [] = ''ok''"
    and w: "write_embedded_file env (ep_file_path p) p r1 (storage_of cfg p) enc c1 = (Inr (), c2)"
    and c': "c' = cl_remove (ep_file_path p @ ''.key'') (cl_remove (ep_file_path p @ ''.cph'') c2)"
    using assms(1) unfolding encrypt_data_def storage_of_def
    by (auto simp: Let_def split: prod.splits sent.splits if_splits bool.splits sum.splits)
  from sent_reply [OF s] have c1: "cl_fs c1 = cl_fs c" "cl_wout c1 = cl_wout c" by auto
  have w2: "cl_wout c2 = cl_wout c1"
    using w by (auto simp: write_embedded_file_def Let_def cl_write_file_def split: if_splits prod.splits bool.splits)
  obtain h where e: "cl_fs c2 = (cl_fs c)(ep_file_path p \<mapsto> bytes_of (kFileMagic @ serialize h) @ enc)"
    using write_embedded(1) [OF w] assms(2) c1 by auto
  have ne: "ep_file_path p \<noteq> ep_file_path p @ ''.cph''" "ep_file_path p \<noteq> ep_file_path p @ ''.key''" by simp_all
  show "\<exists>h enc resp ks. cl_fs c' (ep_file_path p) = Some (bytes_of (kFileMagic @ serialize h) @ enc)
      \<and> fst (send_request env cfg conn (encrypt_request env p ks (length data)) data c) = Sent resp enc
      \<and> hd_get resp ''status'' [] = ''ok''"
    by (intro exI [of _ h] exI [of _ enc] exI [of _ resp] exI [of _ "storage_of cfg p"])
      (simp add: c' cl_remove_facts(1) [OF ne(1)] cl_remove_facts(1) [OF ne(2)] e s st)
  show "q \<notin> {ep_file_path p, ep_file_path p @ ''.cph'', ep_file_path p @ ''.key''} \<Longrightarrow> cl_fs c' q = cl_fs c q"
    by (simp add: c' cl_remove_facts e)
  show "cl_wout c' = cl_wout c" using w2 c1 by (simp add: c' cl_remove_facts)
qed

text \<open>One item of the loop.\<close>

lemma reencrypt_step:
  assumes "reencrypt_items env fb (item # items) w = (True, w1)" "\<And>n. cl_wout (w_client w) n = W_ok"
    "di_temp_path item \<noteq> di_file_path item"
  obtains w2 where "reencrypt_items env fb items w2 = (True, w1)" "\<And>n. cl_wout (w_client w2) n = W_ok"
    "encrypted_by_server env item (cl_fs (w_client w2) (di_file_path item))"
    "\<And>q. q \<notin> touched item \<Longrightarrow> cl_fs (w_client w2) q = cl_fs (w_client w) q"
proof -
  define p where "p = window_params env w (di_file_path item) (di_cipher item) (di_hash item)
    (if di_key_storage item = [] then fb else di_key_storage item)"
  obtain r c where e: "encrypt_data (we_env env) (we_cfg env) (we_conn env (w_requests w)) p (di_data item) True new_result (w_client w)
      = (Returned True, r, c)"
    and rest: "reencrypt_items env fb items
      (after_request (if di_temp_path item = [] then c else cl_remove (di_temp_path item) c) w) = (True, w1)"
    using assms(1) by (auto simp: p_def split: prod.splits outcome.splits if_splits)
  have p: "ep_file_path p = di_file_path item" "ep_cipher p = di_cipher item" by (simp_all add: p_def window_params_def)
  note d = encrypt_data_done [OF e assms(2)]
  let ?c = "if di_temp_path item = [] then c else cl_remove (di_temp_path item) c"
  have same: "cl_fs ?c q = cl_fs c q" if "q \<noteq> di_temp_path item" for q using that by (simp add: cl_remove_facts)
  show ?thesis
  proof (rule that [OF rest])
    show "cl_wout (w_client (after_request ?c w)) n = W_ok" for n
      using d(3) assms(2) by (simp add: window_simps cl_remove_facts)
    show "encrypted_by_server env item (cl_fs (w_client (after_request ?c w)) (di_file_path item))"
      using d(1) p same [of "di_file_path item"] assms(3) unfolding encrypted_by_server_def by (simp add: window_simps) metis
    show "cl_fs (w_client (after_request ?c w)) q = cl_fs (w_client w) q" if "q \<notin> touched item" for q
      using that d(2) [of q] p same [of q] by (simp add: window_simps touched_def)
  qed
qed

lemma reencrypt_untouched:
  assumes "reencrypt_items env fb items w = (True, w1)" "\<And>n. cl_wout (w_client w) n = W_ok"
    "\<forall>i \<in> set items. di_temp_path i \<noteq> di_file_path i" "\<forall>i \<in> set items. q \<notin> touched i"
  shows "cl_fs (w_client w1) q = cl_fs (w_client w) q"
  using assms
proof (induction items arbitrary: w)
  case (Cons item items)
  from Cons.prems(3) have "di_temp_path item \<noteq> di_file_path item" by simp
  from reencrypt_step [OF Cons.prems(1,2) this] obtain w2 where
    "reencrypt_items env fb items w2 = (True, w1)" "\<And>n. cl_wout (w_client w2) n = W_ok"
    "\<And>q. q \<notin> touched item \<Longrightarrow> cl_fs (w_client w2) q = cl_fs (w_client w) q" by metis
  with Cons show ?case by simp
qed simp

text \<open>Items whose files do not get into each other's way.\<close>

definition side_files :: "decrypted_item \<Rightarrow> path set" where
  "side_files item = {di_file_path item @ ''.cph'', di_file_path item @ ''.key'', di_temp_path item}"

definition apart :: "decrypted_item list \<Rightarrow> bool" where
  "apart items \<longleftrightarrow> distinct (map di_file_path items) \<and>
     (\<forall>i \<in> set items. \<forall>j \<in> set items. di_file_path i \<notin> side_files j)"

lemma touched_side: "touched j = insert (di_file_path j) (side_files j)"
  by (simp add: touched_def side_files_def)

lemma apart_Cons: "apart (i # items) \<Longrightarrow> apart items"
  unfolding apart_def by simp

lemma apart_temp: "apart items \<Longrightarrow> i \<in> set items \<Longrightarrow> di_temp_path i \<noteq> di_file_path i"
  unfolding apart_def side_files_def by (metis insertI1 insertI2)

lemma apart_first: "apart (i # items) \<Longrightarrow> j \<in> set items \<Longrightarrow> di_file_path i \<notin> touched j"
  using touched_side [of j] by (auto simp: apart_def)

lemma reencrypt_items_done:
  assumes "reencrypt_items env fb items w = (True, w1)" "\<And>n. cl_wout (w_client w) n = W_ok" "apart items"
  shows "\<forall>i \<in> set items. encrypted_by_server env i (cl_fs (w_client w1) (di_file_path i))"
  using assms
proof (induction items arbitrary: w)
  case (Cons item items)
  have t: "\<forall>i \<in> set items. di_temp_path i \<noteq> di_file_path i" "di_temp_path item \<noteq> di_file_path item"
    using apart_temp [OF Cons.prems(3)] by simp_all
  from reencrypt_step [OF Cons.prems(1,2) t(2)] obtain w2 where
    n: "reencrypt_items env fb items w2 = (True, w1)" "\<And>n. cl_wout (w_client w2) n = W_ok"
    and e: "encrypted_by_server env item (cl_fs (w_client w2) (di_file_path item))" by metis
  have "cl_fs (w_client w1) (di_file_path item) = cl_fs (w_client w2) (di_file_path item)"
    using reencrypt_untouched [OF n t(1)] apart_first [OF Cons.prems(3)] by blast
  with e Cons.IH [OF n apart_Cons [OF Cons.prems(3)]] show ?case by simp
qed simp

lemma reencrypt_all_done:
  assumes "reencrypt_all env w = (True, w1)" "\<And>n. cl_wout (w_client w) n = W_ok" "apart (w_decrypted w)"
  shows "w_password w1 = w_password w" "w_reminder w1 = w_reminder w"
    "\<forall>i \<in> set (w_decrypted w). encrypted_by_server env i (cl_fs (w_client w1) (di_file_path i))"
proof -
  have "\<exists>w2. (w_decrypted w = [] \<and> w2 = w \<or> reencrypt_items env (storage_from_combo (w_key_storage w)) (w_decrypted w) w = (True, w2))
      \<and> w_password w1 = w_password w2 \<and> w_reminder w1 = w_reminder w2 \<and> w_client w1 = w_client w2"
  proof (cases rule: reencrypt_all_cases [of w env])
    case empty
    with assms(1) show ?thesis by (intro exI [of _ w]) (auto simp: window_simps)
  next
    case (done_all w2)
    with assms(1) show ?thesis by (intro exI [of _ w2]) (auto simp: window_simps)
  qed (use assms(1) in simp)
  then obtain w2 where "w_decrypted w = [] \<and> w2 = w \<or> reencrypt_items env (storage_from_combo (w_key_storage w)) (w_decrypted w) w = (True, w2)"
    "w_password w1 = w_password w2" "w_reminder w1 = w_reminder w2" "w_client w1 = w_client w2" by blast
  then show "w_password w1 = w_password w" "w_reminder w1 = w_reminder w"
    "\<forall>i \<in> set (w_decrypted w). encrypted_by_server env i (cl_fs (w_client w1) (di_file_path i))"
    using reencrypt_keeps [of env "storage_from_combo (w_key_storage w)" "w_decrypted w" w]
      reencrypt_items_done [OF _ assms(2,3)] by auto
qed

section \<open>The question about the password\<close>

lemma skipped_range: "0 \<le> skipped_count r" "skipped_count r \<le> 5"
  by (auto simp: skipped_count_def split: reminder.split)

text \<open>What a prompt that lets the window close did, and that the dialog itself changes nothing it reads.\<close>

lemma dialog_same:
  "w_password (show_box env b w) = w_password w" "w_reminder (show_box env b w) = w_reminder w"
  "w_decrypted w = [] \<Longrightarrow> w_client (show_box env b w) = w_client w" "w_decrypted w = [] \<Longrightarrow> w_requests (show_box env b w) = w_requests w"
  using same_account.shown [of w w env b] quiet.shown [of w w env b]
    same_account.inside [of "note_box b w" "note_box b w" env "we_boxes env (length (w_boxes w))"]
  by (simp_all add: same_account_def quiet_def window_simps show_box_def)

lemma prompt_done:
  assumes "prompt_password_change env inp w = (True, w2)"
  defines "w1 \<equiv> show_box env Password_dialog w"
  shows "(\<exists>n. skipped_count (w_reminder w) < 5 \<and> n = skipped_count (w_reminder w) + 1 \<and> w2 = w1\<lparr>w_reminder := Reminder n\<rparr>)
    \<or> w_password w2 \<noteq> w_password w \<and> w_password w2 \<noteq> [] \<and> w_reminder w2 = Reminder 0 \<and> w_requests w2 = w_requests w1 + 1
      \<and> change_password (we_env env) (we_cfg env) (we_conn env (w_requests w1)) (we_username env) (w_password w)
            (w_password w2) (w_client w1) = (Some (Inr ()), w_client w2)"
  using assms(1) unfolding prompt_password_change_def w1_def [symmetric]
  by (auto simp: Let_def dialog_same w1_def save_count_def after_request_def
      split: close_answer.splits if_splits prod.splits option.splits sum.splits)

lemma change_password_fs:
  "change_password env cfg conn u old new c = (Some (Inr ()), c') \<Longrightarrow> cl_fs c' = cl_fs c"
  by (auto simp: change_password_def split: prod.splits sent.splits if_splits dest!: sent_reply)

text \<open>A row of closings, each in a new session that finds the count the one before it left, none of
  which changes the password.\<close>

fun put_off :: "reminder \<Rightarrow> (window_env \<times> close_input \<times> window) list \<Rightarrow> bool" where
  "put_off r [] = True"
| "put_off r ((env, inp, w) # rest) = (w_reminder w = r \<and>
     (case prompt_password_change env inp w of (ok, w2) \<Rightarrow> ok \<and> w_password w2 = w_password w \<and> put_off (w_reminder w2) rest))"

lemma put_off_bound: "put_off r rest \<Longrightarrow> int (length rest) \<le> 5 - skipped_count r"
proof (induction r rest rule: put_off.induct)
  case (1 r)
  then show ?case using skipped_range [of r] by simp
next
  case (2 r env inp w rest)
  from 2(2) obtain w2 where p: "prompt_password_change env inp w = (True, w2)"
    and s: "w_reminder w = r" "w_password w2 = w_password w" "put_off (w_reminder w2) rest" by auto
  from prompt_done [OF p] s(1,2) have "skipped_count r < 5" "w_reminder w2 = Reminder (skipped_count r + 1)" by auto
  with 2(1) [OF p [symmetric] s(3)] skipped_range [of r] show ?case by (simp add: skipped_count_def)
qed

section \<open>Behaviour worth knowing\<close>

text \<open>A temporary file that cannot be written completely keeps what was written of the plaintext, and
  the item forgets its path, so nothing ever removes it.\<close>

lemma partial_temp_file_stays:
  assumes "w_temp w" "cl_wout (w_client w) (cl_writes (w_client w)) = W_short n" "dr_data r \<noteq> []"
  shows "cl_fs (w_client (keep_decrypted env p r w)) (make_temp_path env (w_counter w) p) = Some (take n (dr_data r))
    \<and> w_decrypted (keep_decrypted env p r w) = w_decrypted w @ [decrypted_item_of p r []]"
  using assms by (simp add: keep_decrypted_def write_temp_file_def cl_write_file_def Let_def)

text \<open>The secure mode starts when all files are done: a warning about the second file is shown while
  the plaintext of the first is in memory and the clipboard is not guarded.\<close>

lemma warned_unguarded:
  assumes "decrypt_file (we_env env) (we_cfg env) (we_conn env (w_requests w))
      \<lparr>dp_username = we_username env, dp_password = w_password w, dp_file_path = p\<rparr> fresh_decrypt (w_client w) = (Returned True, r, c)"
    "decrypt_file (we_env env) (we_cfg env) (we_conn env (w_requests w + 1))
      \<lparr>dp_username = we_username env, dp_password = w_password w, dp_file_path = q\<rparr> fresh_decrypt c = (Returned False, r2, c2)"
    "\<not> w_secure w" "\<not> w_temp w" "w_files w \<noteq> []" "selected_file_paths w = [p, q]" "\<not> w_crashed w" "\<And>n. we_boxes env n = []"
  shows "(Decrypt_failed (dr_message r2), False, True) \<in> set (w_boxes (on_decrypt env w))"
  using assms
  by (simp add: on_decrypt_def Let_def after_request_def keep_decrypted_def show_box_def note_box_def) (simp add: window_simps)

text \<open>With the limit 0 of a client without configuration, copying the path of a temporary file is
  itself a violation: everything is encrypted again and the file removed.\<close>

lemma copying_is_a_violation:
  assumes "cc_clipboard_max_bytes (we_cfg env) = 0"
  shows "clip_violation (cc_clipboard_max_bytes (we_cfg env)) (text_clip p) = Some Clipboard_activity"
  using assms by (simp add: clip_violation_def text_clip_def has_data_def)

text \<open>The list offers every cipher of the table, once, in the order of the enumeration, and nothing else.\<close>

lemma ciphers_offered:
  "map cipher_from_combo [0..<length cipher_items] = map s_cipher kCipherSpecs"
  "map snd cipher_items = map s_wire_name kCipherSpecs"
  by code_simp+

section \<open>A concrete window\<close>

definition demo_result :: encrypt_result where
  "demo_result = new_result\<lparr>er_key_id := ''k''\<rparr>"

definition demo_file :: "byte list" where
  "demo_file = bytes_of (kFileMagic @ serialize (file_header demo_params demo_result ''server'')) @ [1]"

definition demo_wenv :: window_env where
  "demo_wenv = \<lparr>we_env = demo_cenv, we_cfg = demo_ccfg, we_username = ''u'', we_conn = (\<lambda>n. demo_conn), we_shm = True,
     we_tmp = None, we_cwd = ''/'', we_now = (\<lambda>n. 0), we_boxes = (\<lambda>n. [])\<rparr>"

lemma demo_box [simp]: "show_box demo_wenv b w = note_box b w"
  by (simp add: show_box_def demo_wenv_def)

definition demo_window :: window where
  "demo_window = open_window demo_wenv ''p'' None No_reminder (demo_client\<lparr>cl_fs := [''f'' \<mapsto> demo_file]\<rparr>)"

lemma demo_client_fields [simp]:
  "cl_wout demo_client n = W_ok" "ep_file_path demo_params = ''f''" "cl_removes demo_client p"
  by (simp_all add: demo_client_def demo_params_def)

definition demo_metadata :: metadata where
  "demo_metadata = \<lparr>md_key_storage = ''server'', md_file_id = [], md_key_id = ''k'', md_hash_value = [], md_key_file = [],
     md_cipher = AES_256_GCM, md_hash = SHA256, md_key = [], md_iv = [], md_tag = []\<rparr>"

lemma demo_found:
  assumes "fs ''f'' = Some demo_file"
  shows "find_metadata fs ''f'' = Inr (True, demo_metadata, [1])"
proof -
  have "clean ''k''" by (auto intro!: clean_solid simp: is_ws_def)
  then have ok: "clean_result demo_result" by (simp add: clean_result_def demo_result_def new_result_def)
  note h = file_header_ok [OF ok, of "''server''" demo_params]
  from read_written [of "file_header demo_params demo_result ''server''" fs "''f''" "[1]"] h assms obtain h' where
    "read_embedded_file fs ''f'' = Embedded h' [1]" "map_of h' = map_of (file_header demo_params demo_result ''server'')"
    by (auto simp: demo_file_def)
  with extract_cong [OF this(2)] show ?thesis
    by (simp add: find_metadata_def extract_file_header demo_metadata_def demo_result_def new_result_def demo_params_def)
qed

lemma demo_lengths:
  "length (cipher_to_string AES_256_GCM) = 11" "length (show_nat (Suc 0)) = 1" "length (show_nat (Suc (Suc 0))) = 1" "length (path_filename ''f'') = 1"
  by code_simp+

lemma demo_decrypts:
  assumes "cl_fs c = [''f'' \<mapsto> demo_file]"
  shows "\<exists>r. decrypt_file demo_cenv demo_ccfg demo_conn \<lparr>dp_username = ''u'', dp_password = ''p'', dp_file_path = ''f''\<rparr> r0 c
      = (Returned True, r, c\<lparr>cl_error := ''Invalid or incomplete server response''\<rparr>) \<and> dr_data r = [7, 8] \<and> dr_cipher r = AES_256_GCM
        \<and> dr_hash r = SHA256 \<and> dr_key_storage r = ''server''"
proof -
  let ?dp = "\<lparr>dp_username = ''u'', dp_password = ''p'', dp_file_path = ''f''\<rparr>"
  have s: "send_request demo_cenv demo_ccfg demo_conn (decrypt_request demo_cenv ?dp demo_metadata (Suc 0)) [1] c
      = (Sent demo_reply [7, 8], c\<lparr>cl_error := ''Invalid or incomplete server response''\<rparr>)"
    by (subst demo_sent) (simp_all add: decrypt_request_def demo_metadata_def set_if_def hd_set_def serialize_def client_id_value_def
        demo_cenv_def host_label_def env_label_def Let_def demo_lengths)
  have ok: "hd_get demo_reply ''status'' [] = ''ok''" by (simp add: demo_reply_def hd_get_def alookup_def)
  have k: "find_key fs ''f'' True demo_metadata = Inr demo_metadata" for fs by (simp add: find_key_def demo_metadata_def)
  show ?thesis
    by (simp add: decrypt_file_def demo_found assms k decrypt_send_def s ok) (simp add: demo_metadata_def)
qed

lemma demo_run_decrypt:
  "\<exists>item. window_run demo_wenv [Select_files [''f''], Decrypt] demo_window
      = update_secure_state (demo_window\<lparr>w_files := [''f''], w_selected := [],
          w_client := w_client demo_window\<lparr>cl_error := ''Invalid or incomplete server response''\<rparr>, w_requests := 1, w_decrypted := [item]\<rparr>)
    \<and> di_file_path item = ''f'' \<and> di_data item = [7, 8] \<and> di_temp_path item = [] \<and> di_cipher item = AES_256_GCM
    \<and> di_hash item = SHA256 \<and> di_key_storage item = ''server''"
proof -
  obtain r where r: "decrypt_file demo_cenv demo_ccfg demo_conn \<lparr>dp_username = ''u'', dp_password = ''p'', dp_file_path = ''f''\<rparr>
      fresh_decrypt (w_client demo_window) = (Returned True, r, w_client demo_window\<lparr>cl_error := ''Invalid or incomplete server response''\<rparr>)"
    "dr_data r = [7, 8]" "dr_cipher r = AES_256_GCM" "dr_hash r = SHA256" "dr_key_storage r = ''server''"
    using demo_decrypts [of "w_client demo_window" fresh_decrypt] by (auto simp: demo_window_def open_window_def)
  have e: "we_env demo_wenv = demo_cenv" "we_cfg demo_wenv = demo_ccfg" "we_conn demo_wenv n = demo_conn"
    "we_username demo_wenv = ''u''" "cc_permissions demo_ccfg = 3" for n
    by (simp_all add: demo_wenv_def demo_ccfg_def)
  have w: "w_password demo_window = ''p''" "\<not> w_temp demo_window" "\<not> w_closed demo_window" "\<not> w_crashed demo_window"
    "w_requests demo_window = 0" "w_decrypted demo_window = []" "w_selected demo_window = []"
    by (simp_all add: demo_window_def open_window_def demo_wenv_def demo_ccfg_def)
  show ?thesis
    by (intro exI [of _ "decrypted_item_of ''f'' r []"])
      (simp add: window_step.simps on_select_files_def on_decrypt_def selected_file_paths_def w e r keep_decrypted_def
        after_request_def decrypted_item_of_def Let_def)
qed

lemma demo_closes:
  assumes "w_decrypted w = [item]" "\<not> w_closing w" "\<not> w_closed w" "\<not> w_crashed w" "w_reminder w = No_reminder" "w_password w = ''p''"
    "\<And>n. cl_wout (w_client w) n = W_ok"
    "di_file_path item = ''f''" "di_data item = [7, 8]" "di_temp_path item = []" "di_cipher item = AES_256_GCM" "di_hash item = SHA256"
    "di_key_storage item = ''server''"
  shows "w_closed (close_event demo_wenv \<lparr>ci_readable = True, ci_answer = Skip, ci_saved = True, ci_visible = True\<rparr> w)"
proof -
  let ?p = "window_params demo_wenv w ''f'' AES_256_GCM SHA256 ''server''"
  have s: "send_request demo_cenv demo_ccfg demo_conn (encrypt_request demo_cenv ?p ''server'' (Suc (Suc 0))) [7, 8] c
      = (Sent demo_reply [7, 8], c\<lparr>cl_error := ''Invalid or incomplete server response''\<rparr>)" for c
    by (rule demo_sent) (simp_all add: encrypt_request_def hd_set_def serialize_def window_params_def client_id_value_def
        demo_cenv_def host_label_def env_label_def Let_def demo_lengths assms(6) demo_wenv_def)
  have t: "take_reply demo_reply (new_result\<lparr>er_ok := False\<rparr>) = (True, demo_result)"
    by (simp add: take_reply_def take_b64_def demo_reply_def hd_get_def alookup_def new_result_def demo_result_def)
  have ok: "hd_get demo_reply ''status'' [] = ''ok''" by (simp add: demo_reply_def hd_get_def alookup_def)
  have "\<exists>c2. write_embedded_file demo_cenv ''f'' ?p demo_result ''server'' [7, 8]
      (w_client w\<lparr>cl_error := ''Invalid or incomplete server response''\<rparr>) = (Inr (), c2)"
    using assms(7) by (simp add: write_embedded_file_def cl_write_file_def Let_def)
  then obtain c2 where "write_embedded_file demo_cenv ''f'' ?p demo_result ''server'' [7, 8]
      (w_client w\<lparr>cl_error := ''Invalid or incomplete server response''\<rparr>) = (Inr (), c2)" ..
  moreover have "ep_file_path ?p = ''f''" "ep_key_storage ?p = ''server''" by (simp_all add: window_params_def)
  ultimately have "\<exists>r c3. encrypt_data demo_cenv demo_ccfg demo_conn ?p [7, 8] True new_result (w_client w) = (Returned True, r, c3)"
    by (simp add: encrypt_data_def Let_def s t ok)
  then obtain r c3 where e: "encrypt_data demo_cenv demo_ccfg demo_conn ?p [7, 8] True new_result (w_client w) = (Returned True, r, c3)" by blast
  have p: "window_params demo_wenv (w\<lparr>w_closing := True\<rparr>) ''f'' AES_256_GCM SHA256 ''server'' = ?p" by (simp add: window_params_def)
  have n: "we_env demo_wenv = demo_cenv" "we_cfg demo_wenv = demo_ccfg" "we_conn demo_wenv n = demo_conn" for n
    by (simp_all add: demo_wenv_def)
  have k: "skipped_count (w_reminder (update_secure_state (after_request c3 (w\<lparr>w_closing := True\<rparr>)\<lparr>w_decrypted := [], w_row := - 1\<rparr>))) = 0"
    using assms(5) by (simp add: window_simps skipped_count_def)
  show ?thesis
    using assms(1-4,8-13) k
    by (simp add: close_event_def empty_memory_def reencrypt_all_def n p e prompt_password_change_def save_count_def Let_def window_simps)
qed

section \<open>Properties\<close>

text \<open>C11: Whenever the window waits for an event of its own, whatever the user, the clipboard and the server
  did before (changes of the clipboard while message boxes were open included) and as long as the process
  runs: the secure mode is on exactly while a plaintext is in memory, the clipboard then holds nothing the
  guard refuses, the buttons on the list of plaintexts are enabled only for an existing row, and a window
  that has closed holds no plaintext. Of the message boxes that ever opened, during which the window waits
  inside a handler, every one that had a plaintext in memory behind it had the secure mode on, with one
  exception: the box that tells of a file that could not be decrypted, while the handler is still at work
  on the files (the exception is real, see \<open>warned_unguarded\<close>).\<close>

theorem window_guards_plaintext:
  assumes "w = window_run env evs (open_window env password contents r c)" "\<not> w_crashed w"
  shows "w_secure w = (w_decrypted w \<noteq> [])
    \<and> (\<forall>held. w_secure w \<longrightarrow> w_clip w = Some held \<longrightarrow> clip_violation (cc_clipboard_max_bytes (we_cfg env)) held = None)
    \<and> (w_preview w \<or> w_copy w \<longrightarrow> 0 \<le> w_row w \<and> nat (w_row w) < length (w_decrypted w))
    \<and> (w_closed w \<longrightarrow> w_decrypted w = [])
    \<and> (\<forall>b secure. (b, secure, True) \<in> set (w_boxes w) \<longrightarrow> secure \<or> (\<exists>m. b = Decrypt_failed m))"
  using run_ok [OF open_ok [of env password contents r c], of evs] assms
  by (auto simp: window_ok_def guarded_def clip_allowed_def row_valid_def boxes_ok_def box_guarded_def)

theorem window_guards_plaintext_witness:
  "w_secure (window_run demo_wenv [Select_files [''f''], Decrypt] demo_window)
    \<and> w_decrypted (window_run demo_wenv [Select_files [''f''], Decrypt] demo_window) \<noteq> []"
proof -
  let ?w = "window_run demo_wenv [Select_files [''f''], Decrypt] demo_window"
  obtain item where d: "?w = update_secure_state (demo_window\<lparr>w_files := [''f''], w_selected := [],
      w_client := w_client demo_window\<lparr>cl_error := ''Invalid or incomplete server response''\<rparr>, w_requests := 1, w_decrypted := [item]\<rparr>)" using demo_run_decrypt by blast
  have n: "\<not> w_crashed ?w" unfolding d by (simp add: window_simps) (simp add: demo_window_def open_window_def)
  have p: "w_decrypted ?w \<noteq> []" unfolding d by (simp add: window_simps)
  from window_guards_plaintext [of ?w demo_wenv "[Select_files [''f''], Decrypt]" "''p''" None No_reminder
      "demo_client\<lparr>cl_fs := [''f'' \<mapsto> demo_file]\<rparr>"] n p
  show ?thesis unfolding demo_window_def by blast
qed

text \<open>C12: When the window closes, no plaintext is left in memory and every file whose plaintext was in
  memory is again on the disk as the client's header followed by exactly the bytes with which the server
  answered that plaintext. Moreover, either the window's last request was a change of the password to a
  different one, which the server confirmed, and the count of postponements is reset, or one of the five
  postponements was used and recorded. This assumes that the files written are written completely, that
  no file was decrypted twice without clearing in between, and that no item's file is the old key file,
  metadata file or temporary file of another, which the encryption deletes.\<close>

theorem closes_only_encrypted:
  assumes "window_step env (Close inp) w = w'" "w_closed w'" "\<not> w_closing w" "\<not> w_closed w"
    "\<forall>n. cl_wout (w_client w) n = W_ok" "distinct (map di_file_path (w_decrypted w))"
    "\<forall>i \<in> set (w_decrypted w). \<forall>j \<in> set (w_decrypted w). di_file_path i \<notin> side_files j"
  shows "w_decrypted w' = []
    \<and> (\<forall>item \<in> set (w_decrypted w). encrypted_by_server env item (cl_fs (w_client w') (di_file_path item)))
    \<and> (w_password w' \<noteq> w_password w \<and> w_reminder w' = Reminder 0
         \<and> (\<exists>n c. w_requests w' = Suc n \<and> change_password (we_env env) (we_cfg env) (we_conn env n) (we_username env)
              (w_password w) (w_password w') c = (Some (Inr ()), w_client w'))
       \<or> w_password w' = w_password w \<and> (\<exists>n \<le> 5. skipped_count (w_reminder w) < n \<and> w_reminder w' = Reminder n))"
  using assms(3)
proof (cases rule: close_cases [of w env inp])
  case (stays w1)
  with assms(1,2,4) show ?thesis by (auto simp: window_step.simps)
next
  case (closes w1 w2)
  have w': "w' = w2\<lparr>w_closed := True\<rparr>" using assms(1) closes(3) by (simp add: window_step.simps)
  have d: "w_decrypted w1 = []" using empty_memory_facts(2) [OF closes(1)] by simp
  have ap: "apart (w_decrypted w)" using assms(6,7) by (simp add: apart_def)
  have kept: "w_password w1 = w_password w \<and> w_reminder w1 = w_reminder w
      \<and> (\<forall>item \<in> set (w_decrypted w). encrypted_by_server env item (cl_fs (w_client w1) (di_file_path item)))"
    using closes(1) reencrypt_all_done [of env "w\<lparr>w_closing := True\<rparr>"] assms(5) ap
    by (cases "w_decrypted w = []") (auto simp: empty_memory_def)
  have fs: "cl_fs (w_client w2) = cl_fs (w_client w1)"
    using prompt_done [OF closes(2)] change_password_fs dialog_same(3) [OF d] by auto
  have "w_decrypted w2 = []" using prompt_view(2) [OF d, of env inp] closes(2) by simp
  with prompt_done [OF closes(2)] kept fs skipped_range [of "w_reminder w"] dialog_same d show ?thesis
    by (auto simp: w')
qed

text \<open>C38: The change of the password can be put off five times at most: among any closings that follow one
  another without a change, over any number of sessions and whatever else happens in them, there are at
  most as many as the stored count leaves of five; none when the stored count is negative, five or more,
  or not a number.\<close>

theorem change_put_off_five_times:
  assumes "put_off r closings"
  shows "length closings \<le> 5
    \<and> (\<forall>n. r = Reminder n \<longrightarrow> (if 0 \<le> n \<and> n \<le> 5 then int (length closings) \<le> 5 - n else closings = []))
    \<and> (r = Bad_reminder \<longrightarrow> closings = [])"
  using put_off_bound [OF assms] skipped_range [of r] by (auto simp: skipped_count_def split: if_splits)

theorem change_put_off_five_times_witness:
  "int (length [(demo_wenv, \<lparr>ci_readable = True, ci_answer = Skip, ci_saved = True, ci_visible = True\<rparr>, demo_window\<lparr>w_reminder := Reminder 4\<rparr>)])
    \<le> 5 - 4"
proof -
  have "put_off (Reminder 4) [(demo_wenv, \<lparr>ci_readable = True, ci_answer = Skip, ci_saved = True, ci_visible = True\<rparr>,
      demo_window\<lparr>w_reminder := Reminder 4\<rparr>)]"
    by (simp add: prompt_password_change_def save_count_def skipped_count_def show_box_def note_box_def demo_wenv_def demo_window_def
        open_window_def)
  from change_put_off_five_times [OF this] show ?thesis by simp
qed

theorem closes_only_encrypted_witness:
  "\<exists>item w'. w' = window_step demo_wenv (Close \<lparr>ci_readable = True, ci_answer = Skip, ci_saved = True, ci_visible = True\<rparr>)
      (window_run demo_wenv [Select_files [''f''], Decrypt] demo_window)
    \<and> w_decrypted w' = [] \<and> di_data item = [7, 8] \<and> encrypted_by_server demo_wenv item (cl_fs (w_client w') ''f'')"
proof -
  let ?w = "window_run demo_wenv [Select_files [''f''], Decrypt] demo_window"
  let ?inp = "\<lparr>ci_readable = True, ci_answer = Skip, ci_saved = True, ci_visible = True\<rparr>"
  obtain item where d: "?w = update_secure_state (demo_window\<lparr>w_files := [''f''], w_selected := [],
      w_client := w_client demo_window\<lparr>cl_error := ''Invalid or incomplete server response''\<rparr>, w_requests := 1, w_decrypted := [item]\<rparr>)"
    and i: "di_file_path item = ''f''" "di_data item = [7, 8]" "di_temp_path item = []" "di_cipher item = AES_256_GCM"
      "di_hash item = SHA256" "di_key_storage item = ''server''" using demo_run_decrypt by blast
  have w: "w_decrypted ?w = [item]" "\<not> w_closing ?w" "\<not> w_closed ?w" "\<not> w_crashed ?w" "w_reminder ?w = No_reminder" "w_password ?w = ''p''"
    "cl_wout (w_client ?w) n = W_ok" for n
    unfolding d by (simp_all add: window_simps) (simp_all add: demo_window_def open_window_def)
  have a: "distinct (map di_file_path (w_decrypted ?w))"
    "\<forall>i \<in> set (w_decrypted ?w). \<forall>j \<in> set (w_decrypted ?w). di_file_path i \<notin> side_files j"
    unfolding w(1) side_files_def by (simp_all add: i)
  have c: "w_closed (window_step demo_wenv (Close ?inp) ?w)" using demo_closes [OF w i] by (simp add: window_step.simps)
  from closes_only_encrypted [OF refl c w(2,3) _ a] w(1,7) i(1,2) show ?thesis by (intro exI [of _ item]) simp
qed

end
