(* ===== verification/ClientMain.thy ===== *)
theory ClientMain
  imports ClientFiles Paths ConfigFile
begin

text \<open>
  The start of the graphical client (client/src/main.cpp) and its login dialog
  (client/src/login_dialog.cpp): where the configuration is looked for, how its values become a
  \<open>client_config\<close>, what the dialog accepts, and the loop that asks until the server lets the user in.

  Files that exist are a predicate; the settings saved by an earlier session are an optional record.
  The dialog is given by what the user submits, attempt by attempt.
\<close>

section \<open>Paths of the configuration\<close>

definition resolve_relative_path :: "(path \<Rightarrow> bool) \<Rightarrow> path \<Rightarrow> string \<Rightarrow> path \<Rightarrow> path \<Rightarrow> string" where
  "resolve_relative_path exists cwd value config_path exe_path =
     (if value = [] then value
      else if is_absolute value then value
      else let bases = (if config_path = [] then [] else [parent_path config_path])
             @ (if exe_path = [] then [] else [parent_path exe_path]) @ [cwd];
             candidates = map (\<lambda>base. path_join base value) (filter (\<lambda>base. base \<noteq> []) bases)
        in (case List.find exists candidates of None \<Rightarrow> value | Some p \<Rightarrow> p))"

definition config_candidates :: "path \<Rightarrow> path \<Rightarrow> path list" where
  "config_candidates exe_path cwd =
     (let dir = parent_path exe_path; conf = (\<lambda>d. path_join (path_join d ''config'') ''client.conf'')
      in [conf dir, conf dir, conf (path_join dir ''..''), conf (path_join cwd ''..'')])"

text \<open>The path, whether it was loaded, and the values.\<close>

definition load_client_config :: "(path \<Rightarrow> string option) \<Rightarrow> path \<Rightarrow> path \<Rightarrow> path \<times> bool \<times> config" where
  "load_client_config files exe_path cwd =
     (case List.find (\<lambda>p. files p \<noteq> None) (config_candidates exe_path cwd) of
        None \<Rightarrow> (hd (config_candidates exe_path cwd), False, [])
      | Some p \<Rightarrow> (p, config_load (files p)))"

record saved_connection =
  sc_host :: "string option"
  sc_port :: "int option"
  sc_certificate :: "string option"

definition client_settings ::
  "(path \<Rightarrow> bool) \<Rightarrow> path \<Rightarrow> path \<Rightarrow> config \<Rightarrow> path \<Rightarrow> saved_connection \<Rightarrow> client_config" where
  "client_settings exists cwd exe_path config config_path saved =
     (let resolve = (\<lambda>v. resolve_relative_path exists cwd v config_path exe_path);
          cfg = \<lparr>cc_host = config_get config ''server_host'' ''127.0.0.1'', cc_port = config_get_int config ''server_port'' 7443,
            cc_ca_file = resolve (config_get config ''ca_file'' []), cc_client_cert = resolve (config_get config ''client_cert'' []),
            cc_client_key = resolve (config_get config ''client_key'' []), cc_verify_peer = config_get_bool config ''verify_peer'' True,
            cc_default_key_storage = config_get config ''default_key_storage'' ''server'',
            cc_clipboard_max_bytes = size_of_int (config_get_int config ''clipboard_max_bytes'' 0),
            cc_decrypt_to_temp = config_get_bool config ''decrypt_to_temp'' False,
            cc_demo_mode = config_get_bool config ''demo_mode'' False, cc_permissions = 3\<rparr>
      in if config_get_bool config ''use_saved_connection'' True
         then cfg\<lparr>cc_host := (case sc_host saved of None \<Rightarrow> cc_host cfg | Some h \<Rightarrow> h),
                cc_port := (case sc_port saved of None \<Rightarrow> cc_port cfg | Some p \<Rightarrow> p),
                cc_ca_file := (case sc_certificate saved of None \<Rightarrow> cc_ca_file cfg | Some f \<Rightarrow> f)\<rparr>
         else cfg)"

text \<open>What is saved after a login, when saving works, and found by the next start.\<close>

definition save_connection :: "config \<Rightarrow> client_config \<Rightarrow> saved_connection \<Rightarrow> saved_connection" where
  "save_connection config cfg saved = (if config_get_bool config ''use_saved_connection'' True
     then \<lparr>sc_host = Some (cc_host cfg), sc_port = Some (cc_port cfg), sc_certificate = Some (cc_ca_file cfg)\<rparr> else saved)"

lemma connection_remembered:
  assumes "config_get_bool config ''use_saved_connection'' True"
  shows "cc_host (client_settings exists cwd exe_path config config_path (save_connection config cfg saved)) = cc_host cfg"
    "cc_port (client_settings exists cwd exe_path config config_path (save_connection config cfg saved)) = cc_port cfg"
    "cc_ca_file (client_settings exists cwd exe_path config config_path (save_connection config cfg saved)) = cc_ca_file cfg"
  using assms by (simp_all add: client_settings_def save_connection_def Let_def)

section \<open>The login dialog\<close>

text \<open>\<open>lf_port\<close>: the number the validator of the port field accepts.\<close>

record login_form =
  lf_host :: string
  lf_port :: "int option"
  lf_username :: string
  lf_password :: string
  lf_certificate :: path

datatype form_check = Bad_host | Bad_port | No_login | Bad_certificate | Form_ok

definition form_host :: "login_form \<Rightarrow> string" where
  "form_host f = rev (dropWhile is_space (rev (dropWhile is_space (lf_host f))))"

fun has_scheme :: "string \<Rightarrow> bool" where
  "has_scheme [] = False"
| "has_scheme (c # s) = (starts_with ''://'' (c # s) \<or> has_scheme s)"

definition port_ok :: "int option \<Rightarrow> bool" where
  "port_ok p = (case p of None \<Rightarrow> False | Some n \<Rightarrow> 1 \<le> n \<and> n \<le> 65535)"

definition check_form :: "(path \<Rightarrow> bool) \<Rightarrow> login_form \<Rightarrow> form_check" where
  "check_form readable f =
     (let host = form_host f in
      if host = [] \<or> has_scheme host \<or> CHR ''/'' \<in> set host \<or> CHR '' '' \<in> set host then Bad_host
      else if \<not> port_ok (lf_port f) then Bad_port
      else if lf_username f = [] \<or> lf_password f = [] then No_login
      else if \<not> readable (lf_certificate f) then Bad_certificate
      else Form_ok)"

text \<open>The button that tests the address: \<open>None\<close> when the fields are refused.\<close>

definition probe_target :: "login_form \<Rightarrow> (string \<times> int) option" where
  "probe_target f = (if form_host f = [] \<or> \<not> port_ok (lf_port f) then None else Some (form_host f, the (lf_port f)))"

section \<open>The loop\<close>

datatype login_attempt = Cancelled | Submitted login_form conn

datatype login_end = Waiting client_config | Left | Opened client_config string string | Aborted

definition form_config :: "login_form \<Rightarrow> client_config \<Rightarrow> client_config" where
  "form_config f cfg = cfg\<lparr>cc_host := form_host f, cc_port := the (lf_port f), cc_ca_file := lf_certificate f\<rparr>"

fun login_loop :: "client_env \<Rightarrow> (path \<Rightarrow> bool) \<Rightarrow> login_attempt list \<Rightarrow> client_config \<Rightarrow> client \<Rightarrow> login_end \<times> client" where
  "login_loop env readable [] cfg c = (Waiting cfg, c)"
| "login_loop env readable (Cancelled # rest) cfg c = (Left, c)"
| "login_loop env readable (Submitted f conn # rest) cfg c =
     (if check_form readable f \<noteq> Form_ok then login_loop env readable rest cfg c
      else let cfg = form_config f cfg in
        (case authenticate env cfg conn (lf_username f) (lf_password f) c of
           (None, c) \<Rightarrow> (Aborted, c)
         | (Some (Inl e), c) \<Rightarrow> login_loop env readable rest cfg c
         | (Some (Inr permissions), c) \<Rightarrow> (Opened (cfg\<lparr>cc_permissions := permissions\<rparr>) (lf_username f) (lf_password f), c)))"

section \<open>What opens the window\<close>

text \<open>The attempts before the one that opens the window leave the loop waiting; it is the first that is
  accepted.\<close>

lemma login_opened:
  assumes "login_loop env readable attempts cfg c = (Opened cfg' user password, c')"
  shows "\<exists>before f conn after cfg0 c0 rights. attempts = before @ Submitted f conn # after
    \<and> login_loop env readable before cfg c = (Waiting cfg0, c0) \<and> check_form readable f = Form_ok
    \<and> user = lf_username f \<and> password = lf_password f \<and> cfg' = (form_config f cfg0)\<lparr>cc_permissions := rights\<rparr>
    \<and> authenticate env (form_config f cfg0) conn user password c0 = (Some (Inr rights), c')"
  using assms
proof (induction env readable attempts cfg c rule: login_loop.induct)
  case (3 env readable f conn rest cfg c)
  let ?shows = "\<lambda>before. \<exists>g k after cfg0 c0 rights. Submitted f conn # rest = before @ Submitted g k # after
    \<and> login_loop env readable before cfg c = (Waiting cfg0, c0) \<and> check_form readable g = Form_ok
    \<and> user = lf_username g \<and> password = lf_password g \<and> cfg' = (form_config g cfg0)\<lparr>cc_permissions := rights\<rparr>
    \<and> authenticate env (form_config g cfg0) k user password c0 = (Some (Inr rights), c')"
  show ?case
  proof (cases "check_form readable f = Form_ok")
    case False
    with 3(3) have "login_loop env readable rest cfg c = (Opened cfg' user password, c')" by simp
    from 3(1) [OF False this] obtain before where "\<exists>g k after cfg0 c0 rights. rest = before @ Submitted g k # after
      \<and> login_loop env readable before cfg c = (Waiting cfg0, c0) \<and> check_form readable g = Form_ok
      \<and> user = lf_username g \<and> password = lf_password g \<and> cfg' = (form_config g cfg0)\<lparr>cc_permissions := rights\<rparr>
      \<and> authenticate env (form_config g cfg0) k user password c0 = (Some (Inr rights), c')" by blast
    with False have "?shows (Submitted f conn # before)" by simp
    then show ?thesis by blast
  next
    case ok: True
    obtain res c1 where a: "authenticate env (form_config f cfg) conn (lf_username f) (lf_password f) c = (res, c1)" by fastforce
    note prems = 3(3) [simplified ok a login_loop.simps Let_def]
    show ?thesis
    proof (cases res)
      case (Some x)
      show ?thesis
      proof (cases x)
        case (Inl e)
        with prems Some have "login_loop env readable rest (form_config f cfg) c1 = (Opened cfg' user password, c')" by simp
        from 3(2) [OF _ refl a [symmetric] Some Inl this] ok obtain before where "\<exists>g k after cfg0 c0 rights. rest = before @ Submitted g k # after
          \<and> login_loop env readable before (form_config f cfg) c1 = (Waiting cfg0, c0) \<and> check_form readable g = Form_ok
          \<and> user = lf_username g \<and> password = lf_password g \<and> cfg' = (form_config g cfg0)\<lparr>cc_permissions := rights\<rparr>
          \<and> authenticate env (form_config g cfg0) k user password c0 = (Some (Inr rights), c')" by blast
        with ok a Some Inl have "?shows (Submitted f conn # before)" by simp
        then show ?thesis by blast
      next
        case (Inr rights)
        with prems Some have o: "cfg' = (form_config f cfg)\<lparr>cc_permissions := rights\<rparr>" "user = lf_username f" "password = lf_password f" "c' = c1"
          by simp_all
        with ok a Some Inr have "?shows []" by simp
        then show ?thesis by blast
      qed
    qed (use prems in simp)
  qed
qed simp_all

text \<open>What an accepted login is on the connection.\<close>

lemma authenticate_accepts:
  assumes "authenticate env cfg conn u p c = (Some (Inr rights), c')"
  shows "\<exists>resp data. send_request env cfg conn (account_request env ''auth_check'' u p) [] c = (Sent resp data, c')
    \<and> hd_get resp ''status'' [] = ''ok'' \<and> hd_get resp ''permissions'' ''3'' = [char_of (48 + rights)] \<and> rights \<le> 3"
proof -
  obtain resp data where s: "send_request env cfg conn (account_request env ''auth_check'' u p) [] c = (Sent resp data, c')"
    "hd_get resp ''status'' [] = ''ok''" and v: "length (hd_get resp ''permissions'' ''3'') = 1"
    "48 \<le> (of_char (hd (hd_get resp ''permissions'' ''3'')) :: nat)" "of_char (hd (hd_get resp ''permissions'' ''3'')) \<le> (51 :: nat)"
    "rights = of_char (hd (hd_get resp ''permissions'' ''3'')) - 48"
    using assms by (auto simp: authenticate_def Let_def split: prod.splits sent.splits if_splits)
  obtain x where "hd_get resp ''permissions'' ''3'' = [x]" using v(1) by (auto simp: length_Suc_conv)
  with s v show ?thesis by auto
qed

lemma form_ok_facts:
  assumes "check_form readable f = Form_ok"
  shows "form_host f \<noteq> []" "CHR ''/'' \<notin> set (form_host f)" "\<exists>n. lf_port f = Some n \<and> 1 \<le> n \<and> n \<le> 65535"
    "lf_username f \<noteq> []" "lf_password f \<noteq> []" "readable (lf_certificate f)"
  using assms by (auto simp: check_form_def Let_def port_ok_def split: if_splits option.splits)

text \<open>A configuration file found beside the program resolves its paths there first.\<close>

lemma resolve_beside_config:
  assumes "value \<noteq> []" "\<not> is_absolute value" "config_path \<noteq> []" "parent_path config_path \<noteq> []"
    "exists (path_join (parent_path config_path) value)"
  shows "resolve_relative_path exists cwd value config_path exe_path = path_join (parent_path config_path) value"
  using assms by (simp add: resolve_relative_path_def)

section \<open>Properties\<close>

text \<open>C13: Whatever the user submits and the servers answer, the main window opens only at the first attempt
  that the server accepts: all attempts before it left the dialog waiting, its fields pass the checks (the
  host is not empty and holds no slash, the port is a valid one, user name and password are not empty, the
  certificate file can be read), the configuration of the window is what was entered in it, and the server
  answered the login with the entered name and password, over the connection of that attempt, with status
  \<open>ok\<close> and the permissions (0 to 3) the window gets.\<close>

theorem window_opens_after_login:
  assumes "login_loop env readable attempts cfg c = (Opened cfg' user password, c')"
  shows "\<exists>before f conn after cfg0 c0 resp data. attempts = before @ Submitted f conn # after
    \<and> login_loop env readable before cfg c = (Waiting cfg0, c0)
    \<and> user = lf_username f \<and> password = lf_password f \<and> cfg' = (form_config f cfg0)\<lparr>cc_permissions := cc_permissions cfg'\<rparr>
    \<and> send_request env (form_config f cfg0) conn (account_request env ''auth_check'' user password) [] c0 = (Sent resp data, c')
    \<and> hd_get resp ''status'' [] = ''ok'' \<and> hd_get resp ''permissions'' ''3'' = [char_of (48 + cc_permissions cfg')]
    \<and> cc_host cfg' \<noteq> [] \<and> CHR ''/'' \<notin> set (cc_host cfg') \<and> 1 \<le> cc_port cfg' \<and> cc_port cfg' \<le> 65535
    \<and> user \<noteq> [] \<and> password \<noteq> [] \<and> readable (cc_ca_file cfg') \<and> cc_permissions cfg' \<le> 3"
proof -
  from login_opened [OF assms] obtain before f conn after cfg0 c0 rights where f: "attempts = before @ Submitted f conn # after"
    "login_loop env readable before cfg c = (Waiting cfg0, c0)" "check_form readable f = Form_ok" "user = lf_username f"
    "password = lf_password f" "cfg' = (form_config f cfg0)\<lparr>cc_permissions := rights\<rparr>"
    and a: "authenticate env (form_config f cfg0) conn user password c0 = (Some (Inr rights), c')" by blast
  from authenticate_accepts [OF a] obtain resp data where
    "send_request env (form_config f cfg0) conn (account_request env ''auth_check'' user password) [] c0 = (Sent resp data, c')"
    "hd_get resp ''status'' [] = ''ok''" "hd_get resp ''permissions'' ''3'' = [char_of (48 + rights)]" "rights \<le> 3" by blast
  moreover have "cc_permissions cfg' = rights" "cc_host cfg' = form_host f" "cc_port cfg' = the (lf_port f)" "cc_ca_file cfg' = lf_certificate f"
    by (simp_all add: f(6) form_config_def)
  ultimately show ?thesis using f form_ok_facts [OF f(3)] by (intro exI [of _ before] exI) auto
qed

definition demo_form :: login_form where
  "demo_form = \<lparr>lf_host = '' h '', lf_port = Some 7443, lf_username = ''u'', lf_password = ''p'', lf_certificate = ''c''\<rparr>"

lemma same_requests: "send_request env (cfg\<lparr>cc_ca_file := f\<rparr>) conn h data c = send_request env cfg conn h data c"
  by (simp add: send_request_def Let_def split: option.split)

theorem window_opens_after_login_witness:
  "\<exists>cfg' c'. login_loop demo_cenv (\<lambda>p. True) [Submitted (demo_form\<lparr>lf_port := None\<rparr>) demo_conn, Submitted demo_form demo_conn]
      demo_ccfg demo_client = (Opened cfg' ''u'' ''p'', c') \<and> cc_permissions cfg' \<le> 3 \<and> cc_port cfg' \<le> 65535"
proof -
  have h: "form_host demo_form = ''h''" by (simp add: form_host_def demo_form_def is_space_def)
  have ok: "check_form (\<lambda>p. True) demo_form = Form_ok" "check_form (\<lambda>p. True) (demo_form\<lparr>lf_port := None\<rparr>) = Bad_port"
    using h by (simp_all add: check_form_def form_host_def Let_def starts_with_def port_ok_def demo_form_def)
  have cfg: "form_config demo_form demo_ccfg = demo_ccfg\<lparr>cc_ca_file := ''c''\<rparr>"
    by (simp add: form_config_def h demo_ccfg_def) (simp add: demo_form_def)
  have s: "send_request demo_cenv (demo_ccfg\<lparr>cc_ca_file := ''c''\<rparr>) demo_conn (account_request demo_cenv ''auth_check'' ''u'' ''p'') [] demo_client
      = (Sent demo_reply [7, 8], demo_client\<lparr>cl_error := ''Invalid or incomplete server response''\<rparr>)"
    unfolding same_requests
    by (rule demo_sent) (simp_all add: account_request_def hd_set_def serialize_def client_id_value_def demo_cenv_def
        host_label_def env_label_def Let_def)
  have a: "authenticate demo_cenv (demo_ccfg\<lparr>cc_ca_file := ''c''\<rparr>) demo_conn ''u'' ''p'' demo_client
      = (Some (Inr 3), demo_client\<lparr>cl_error := ''Invalid or incomplete server response''\<rparr>)"
    by (simp add: authenticate_def s demo_reply_def hd_get_def alookup_def)
  have l: "login_loop demo_cenv (\<lambda>p. True) [Submitted (demo_form\<lparr>lf_port := None\<rparr>) demo_conn, Submitted demo_form demo_conn]
      demo_ccfg demo_client = (Opened (demo_ccfg\<lparr>cc_ca_file := ''c'', cc_permissions := 3\<rparr>) ''u'' ''p'',
        demo_client\<lparr>cl_error := ''Invalid or incomplete server response''\<rparr>)"
    by (simp add: ok cfg Let_def a) (simp add: demo_form_def cfg a)
  from window_opens_after_login [OF l] show ?thesis using l by fastforce
qed

end
