(* ===== verification/WifiDialog.thy ===== *)
theory WifiDialog
  imports WifiIpc AdminClient
begin

text \<open>
  The administrator's side of a Wi-Fi change: the adapter that turns an action into a packet and a
  reply into a state (\<open>onNetworkStatus\<close> of admin/src/admin_window.cpp) and the dialog that drives it
  (admin/src/wifi_connect_dialog.cpp).

  A request runs in a thread of its own: an event \<open>Worker\<close> is its end, with what the command did to the
  packet. \<open>cd_trace\<close> records the actions asked for and the replies shown, \<open>cd_sent\<close> the packets
  handed to the client. A button that is disabled gives no event; \<open>thread_ok\<close> tells whether a thread
  could be started.
\<close>

datatype connect_action = Act_start | Act_status | Act_confirm | Act_cancel

datatype connect_state = Dc_connecting | Dc_awaiting | Dc_committed | Dc_rolled_back | Dc_recovery | Dc_rejected

section \<open>The adapter\<close>

text \<open>A reply is \<open>None\<close> when nothing is known.\<close>

definition action_word :: "connect_action \<Rightarrow> string" where
  "action_word a = (case a of Act_start \<Rightarrow> ''start'' | Act_status \<Rightarrow> ''status'' | Act_confirm \<Rightarrow> ''confirm'' | Act_cancel \<Rightarrow> ''cancel'')"

definition connect_packet :: "string \<Rightarrow> connect_action \<Rightarrow> wifi_profile option \<Rightarrow> string option" where
  "connect_packet ticket action profile =
     (if action = Act_start then
        (case profile of
           None \<Rightarrow> None
         | Some p \<Rightarrow> if length (psk p) \<noteq> 32 \<or> ticket \<noteq> [] then None
             else Some (''start|'' @ ssid_hex p @ ''|'' @ bytes_to_hex (psk p)))
      else if length ticket \<noteq> 64 then None
      else Some (action_word action @ ''|'' @ ticket))"

definition lower_hex :: "char \<Rightarrow> bool" where
  "lower_hex c \<longleftrightarrow> (48 \<le> (of_char c :: nat) \<and> of_char c \<le> (57 :: nat)) \<or> (97 \<le> (of_char c :: nat) \<and> of_char c \<le> (102 :: nat))"

definition state_of_word :: "string \<Rightarrow> connect_state option" where
  "state_of_word payload =
     (if payload = ''connecting'' then Some Dc_connecting
      else if payload = ''ready'' then Some Dc_awaiting
      else if payload = ''committed'' then Some Dc_committed
      else if payload = ''rolled_back'' then Some Dc_rolled_back
      else if payload = ''recovery_required'' then Some Dc_recovery
      else if payload = ''rejected'' then Some Dc_rejected
      else None)"

definition connect_reply :: "connect_action \<Rightarrow> string + string \<Rightarrow> string \<Rightarrow> connect_state option \<times> string" where
  "connect_reply action result ticket = (case result of
       Inl error \<Rightarrow>
         (if error = ''Wi-Fi change disabled or requires Ethernet admin connection'' \<or> error = ''Unauthorized''
          then Some Dc_rejected else None, ticket)
     | Inr payload \<Rightarrow>
         if action = Act_start \<and> length payload = 75 \<and> starts_with ''connecting|'' payload then
           if list_all lower_hex (drop 11 payload) then (Some Dc_connecting, drop 11 payload) else (None, ticket)
         else (state_of_word payload, ticket))"

definition change_request :: "string \<Rightarrow> header" where
  "change_request packet = hd_set ''wifi_packet'' packet (hd_set ''op'' ''admin_wifi_change'' [])"

text \<open>The command of the adapter on the administrator's connection.\<close>

definition change_command :: "(header \<Rightarrow> header) \<Rightarrow> admin_net \<Rightarrow> admin_device \<Rightarrow> string \<Rightarrow> string + string" where
  "change_command order net device packet = user_command order net device (change_request packet)"

section \<open>The dialog\<close>

datatype pending_request = Running connect_action "wifi_profile option" | Finished "connect_state option"

datatype trace_entry = Asked connect_action | Shown "connect_state option"

datatype dialog_text = Enter_network | Not_available | Check_input | Connecting_to_network | No_answer | State_text connect_state

record connect_dialog =
  cd_available :: bool
  cd_active :: bool
  cd_start :: bool
  cd_confirm :: bool
  cd_cancel :: bool
  cd_close :: bool
  cd_inputs :: bool
  cd_pending :: "pending_request option"
  cd_refresh :: bool
  cd_text :: dialog_text
  cd_ticket :: string
  cd_sent :: "string list"
  cd_trace :: "trace_entry list"

definition new_dialog :: "bool \<Rightarrow> connect_dialog" where
  "new_dialog available = \<lparr>cd_available = available, cd_active = False, cd_start = available, cd_confirm = False,
     cd_cancel = False, cd_close = True, cd_inputs = True, cd_pending = None, cd_refresh = False,
     cd_text = (if available then Enter_network else Not_available), cd_ticket = [], cd_sent = [], cd_trace = []\<rparr>"

definition dialog_send :: "bool \<Rightarrow> connect_action \<Rightarrow> wifi_profile option \<Rightarrow> connect_dialog \<Rightarrow> connect_dialog" where
  "dialog_send thread_ok action profile d =
     (if \<not> cd_available d \<or> cd_pending d \<noteq> None then d
      else d\<lparr>cd_confirm := False, cd_cancel := False,
        cd_pending := Some (if thread_ok then Running action profile else Finished None),
        cd_trace := cd_trace d @ [Asked action]\<rparr>)"

definition on_start :: "psk_kdf \<Rightarrow> string \<Rightarrow> string \<Rightarrow> bool \<Rightarrow> connect_dialog \<Rightarrow> connect_dialog" where
  "on_start kdf ssid password thread_ok d = (case make_profile kdf ssid password of
       Inl e \<Rightarrow> d\<lparr>cd_text := Check_input\<rparr>
     | Inr p \<Rightarrow> dialog_send thread_ok Act_start (Some p) (d\<lparr>cd_active := True, cd_start := False, cd_close := False,
         cd_inputs := False, cd_text := Connecting_to_network\<rparr>))"

text \<open>The end of the thread: it sends nothing when there is no packet.\<close>

definition on_worker :: "(string \<Rightarrow> string + string) \<Rightarrow> connect_dialog \<Rightarrow> connect_dialog" where
  "on_worker command d = (case cd_pending d of
       Some (Running action profile) \<Rightarrow>
         (case connect_packet (cd_ticket d) action profile of
            None \<Rightarrow> d\<lparr>cd_pending := Some (Finished None)\<rparr>
          | Some packet \<Rightarrow> (case connect_reply action (command packet) (cd_ticket d) of
              (reply, ticket) \<Rightarrow> d\<lparr>cd_pending := Some (Finished reply), cd_ticket := ticket, cd_sent := cd_sent d @ [packet]\<rparr>))
     | _ \<Rightarrow> d)"

definition ends_change :: "connect_state \<Rightarrow> bool" where
  "ends_change st \<longleftrightarrow> st = Dc_committed \<or> st = Dc_rolled_back \<or> st = Dc_rejected"

definition on_poll :: "connect_dialog \<Rightarrow> connect_dialog" where
  "on_poll d = (case cd_pending d of
       Some (Finished reply) \<Rightarrow>
         let d = d\<lparr>cd_pending := None, cd_close := True, cd_trace := cd_trace d @ [Shown reply]\<rparr> in
         (case reply of
            None \<Rightarrow> d\<lparr>cd_text := No_answer, cd_cancel := True, cd_refresh := True\<rparr>
          | Some st \<Rightarrow>
              let active = cd_active d \<and> \<not> ends_change st in
              d\<lparr>cd_text := State_text st, cd_confirm := cd_confirm d \<or> st = Dc_awaiting, cd_active := active,
                cd_cancel := active, cd_refresh := active\<rparr>)
     | _ \<Rightarrow> d)"

datatype dialog_event = Start_click string string bool | Confirm_click bool | Cancel_click bool | Refresh_fires bool
  | Worker "string \<Rightarrow> string + string" | Poll

fun dialog_step :: "psk_kdf \<Rightarrow> dialog_event \<Rightarrow> connect_dialog \<Rightarrow> connect_dialog" where
  "dialog_step kdf (Start_click ssid password t) d = (if cd_start d then on_start kdf ssid password t d else d)"
| "dialog_step kdf (Confirm_click t) d = (if cd_confirm d then dialog_send t Act_confirm None d else d)"
| "dialog_step kdf (Cancel_click t) d = (if cd_cancel d then dialog_send t Act_cancel None d else d)"
| "dialog_step kdf (Refresh_fires t) d = (if cd_refresh d then dialog_send t Act_status None d else d)"
| "dialog_step kdf (Worker command) d = on_worker command d"
| "dialog_step kdf Poll d = on_poll d"

definition dialog_run :: "psk_kdf \<Rightarrow> dialog_event list \<Rightarrow> connect_dialog \<Rightarrow> connect_dialog" where
  "dialog_run kdf evs d = fold (dialog_step kdf) evs d"

section \<open>A confirmation follows a ready state\<close>

definition confirms_justified :: "trace_entry list \<Rightarrow> bool" where
  "confirms_justified tr \<longleftrightarrow> (\<forall>u v. tr = u @ Asked Act_confirm # v \<longrightarrow> u \<noteq> [] \<and> last u = Shown (Some Dc_awaiting))"

lemma confirms_Nil [simp]: "confirms_justified []"
  by (simp add: confirms_justified_def)

lemma confirms_snoc:
  "confirms_justified (tr @ [x]) \<longleftrightarrow> confirms_justified tr \<and> (x = Asked Act_confirm \<longrightarrow> tr \<noteq> [] \<and> last tr = Shown (Some Dc_awaiting))"
  (is "?l \<longleftrightarrow> ?r")
proof
  assume l: ?l
  have "u \<noteq> [] \<and> last u = Shown (Some Dc_awaiting)" if "tr = u @ Asked Act_confirm # v" for u v
    using l [unfolded confirms_justified_def, rule_format, of u "v @ [x]"] that by simp
  with l [unfolded confirms_justified_def, rule_format, of tr "[]"] show ?r by (auto simp: confirms_justified_def)
next
  assume r: ?r
  show ?l
    unfolding confirms_justified_def
  proof (intro allI impI)
    fix u v assume e: "tr @ [x] = u @ Asked Act_confirm # v"
    show "u \<noteq> [] \<and> last u = Shown (Some Dc_awaiting)"
    proof (cases v rule: rev_cases)
      case Nil
      with e r show ?thesis by simp
    next
      case (snoc v' y)
      with e have "tr = u @ Asked Act_confirm # v'" by simp
      with r show ?thesis by (simp add: confirms_justified_def)
    qed
  qed
qed

definition dialog_ok :: "connect_dialog \<Rightarrow> bool" where
  "dialog_ok d \<longleftrightarrow> confirms_justified (cd_trace d)
     \<and> (cd_confirm d \<longrightarrow> cd_trace d \<noteq> [] \<and> last (cd_trace d) = Shown (Some Dc_awaiting))
     \<and> (cd_pending d \<noteq> None \<longrightarrow> \<not> cd_confirm d)"

lemma send_ok:
  assumes "dialog_ok d" "a = Act_confirm \<longrightarrow> cd_confirm d"
  shows "dialog_ok (dialog_send t a p d)"
  using assms by (auto simp: dialog_ok_def dialog_send_def confirms_snoc)

lemma step_dialog_ok:
  assumes "dialog_ok d"
  shows "dialog_ok (dialog_step kdf ev d)"
proof (cases ev)
  case (Start_click ssid password t)
  have "dialog_ok (dialog_send t Act_start (Some p) (d\<lparr>cd_active := True, cd_start := False, cd_close := False,
         cd_inputs := False, cd_text := Connecting_to_network\<rparr>))" for p
    using assms by (intro send_ok) (simp_all add: dialog_ok_def)
  with assms Start_click show ?thesis by (auto simp: on_start_def dialog_ok_def split: sum.split)
next
  case (Worker command)
  with assms show ?thesis by (auto simp: on_worker_def dialog_ok_def split: option.split pending_request.split prod.split)
next
  case Poll
  with assms show ?thesis
    by (auto simp: on_poll_def dialog_ok_def confirms_snoc Let_def split: option.split pending_request.split)
qed (use assms send_ok in auto)

lemma run_dialog_ok: "dialog_ok d \<Longrightarrow> dialog_ok (dialog_run kdf evs d)"
  unfolding dialog_run_def by (induction evs arbitrary: d) (simp_all add: step_dialog_ok)

lemma new_dialog_ok: "dialog_ok (new_dialog available)"
  by (simp add: new_dialog_def dialog_ok_def)

section \<open>A lost start\<close>

text \<open>Nothing is known of the ticket, and the start button is off: no packet is ever sent again.\<close>

definition stuck :: "connect_dialog \<Rightarrow> bool" where
  "stuck d \<longleftrightarrow> cd_ticket d = [] \<and> \<not> cd_start d \<and> (\<forall>p. cd_pending d \<noteq> Some (Running Act_start p))"

lemma stuck_step:
  assumes "stuck d"
  shows "stuck (dialog_step kdf ev d) \<and> cd_sent (dialog_step kdf ev d) = cd_sent d"
proof (cases ev)
  case (Worker command)
  then show ?thesis using assms
    by (auto simp: on_worker_def stuck_def connect_packet_def split: option.splits pending_request.splits prod.splits if_splits)
next
  case Poll
  then show ?thesis using assms by (auto simp: on_poll_def stuck_def Let_def split: option.split pending_request.split)
qed (use assms in \<open>auto simp: stuck_def dialog_send_def\<close>)

lemma stuck_run: "stuck d \<Longrightarrow> cd_sent (dialog_run kdf evs d) = cd_sent d"
  unfolding dialog_run_def by (induction evs arbitrary: d) (simp_all add: stuck_step)

section \<open>The other end\<close>

lemma split_on_free: "d \<notin> set a \<Longrightarrow> split_on d (a @ d # b) = a # split_on d b"
  by (induction a) auto

lemma split_on_last: "d \<notin> set a \<Longrightarrow> split_on d a = [a]"
  by (induction a) auto

lemma hex_no_bar: "CHR 0x7C \<notin> set (bytes_to_hex bs)" "CHR 0x00 \<notin> set (bytes_to_hex bs)"
proof -
  have "unhex (CHR 0x7C) = None" "unhex (CHR 0x00) = None" by (simp_all add: unhex_def)
  then show "CHR 0x7C \<notin> set (bytes_to_hex bs)" "CHR 0x00 \<notin> set (bytes_to_hex bs)" using hex_chars by metis+
qed

lemma hex_field_hex: "hex_field (bytes_to_hex bs) mn mx \<longleftrightarrow> mn \<le> 2 * length bs \<and> 2 * length bs \<le> mx"
  by (auto simp: hex_field_def list_all_iff dest: hex_chars)

text \<open>The packet of a start reaches the helper with the profile the administrator made.\<close>

lemma start_packet:
  assumes "make_profile kdf ssid password = Inr p"
  shows "connect_packet [] Act_start (Some p) = Some (''start|'' @ ssid_hex p @ ''|'' @ bytes_to_hex (psk p))"
    and "rpc_handle B factory kdf' now random (''start|'' @ ssid_hex p @ ''|'' @ bytes_to_hex (psk p)) r
      = rpc_start B factory kdf' now random (ssid_hex p) (bytes_to_hex (psk p)) r"
    and "hex_field (ssid_hex p) 2 64" "hex_field (bytes_to_hex (psk p)) 64 64"
    and "make_profile kdf' (the (unhex_text (ssid_hex p))) (bytes_to_hex (psk p)) = Inr p"
proof -
  from make_profile_ok [OF assms] have p: "dhcp6 p = None" "ssid_hex p = bytes_to_hex (bytes_of ssid)" "length (psk p) = 32"
    by (auto simp: profile_ok_def)
  have s: "ssid \<noteq> []" "length ssid \<le> 32" "valid_text_ssid ssid"
    using assms by (auto simp: make_profile_def split: if_splits)
  show "connect_packet [] Act_start (Some p) = Some (''start|'' @ ssid_hex p @ ''|'' @ bytes_to_hex (psk p))"
    using p(3) by (simp add: connect_packet_def)
  show "hex_field (ssid_hex p) 2 64" "hex_field (bytes_to_hex (psk p)) 64 64"
    using p s by (simp_all add: hex_field_hex) (cases ssid; simp)
  have "split_on (CHR 0x7C) (''start|'' @ bytes_to_hex (bytes_of ssid) @ ''|'' @ bytes_to_hex (psk p))
      = [''start'', bytes_to_hex (bytes_of ssid), bytes_to_hex (psk p)]"
    using split_on_free [of "CHR 0x7C" "''start''"] split_on_free [OF hex_no_bar(1)] split_on_last [OF hex_no_bar(1)] by simp
  then show "rpc_handle B factory kdf' now random (''start|'' @ ssid_hex p @ ''|'' @ bytes_to_hex (psk p)) r
      = rpc_start B factory kdf' now random (ssid_hex p) (bytes_to_hex (psk p)) r"
    using s p by (simp add: rpc_handle_def hex_no_bar)
  show "make_profile kdf' (the (unhex_text (ssid_hex p))) (bytes_to_hex (psk p)) = Inr p"
    using make_profile_hex [OF s p(3), of kdf'] p by (simp add: unhex_text_hex)
qed

definition session_action :: "'b wifi_backend \<Rightarrow> connect_action \<Rightarrow> string \<Rightarrow> int \<Rightarrow> 'b wifi_session \<Rightarrow> wifi_change_state option \<times> 'b wifi_session" where
  "session_action B a ticket now s = (if a = Act_status then session_status B ticket now s
     else if a = Act_confirm then session_confirm B ticket now s else session_cancel B ticket s)"

definition shown_state :: "wifi_change_state \<Rightarrow> connect_state" where
  "shown_state st = (case st of Connecting \<Rightarrow> Dc_connecting | AwaitingConfirmation \<Rightarrow> Dc_awaiting | Committed \<Rightarrow> Dc_committed
     | RolledBack \<Rightarrow> Dc_rolled_back | RecoveryRequired \<Rightarrow> Dc_recovery | Idle \<Rightarrow> Dc_rejected)"

lemma state_words: "state_of_word (state_name st) = Some (shown_state st)" "state_of_word ''error'' = None"
  by (cases st) (simp_all add: state_of_word_def state_name_def shown_state_def)

lemma not_start_reply: "a \<noteq> Act_start \<Longrightarrow> connect_reply a (Inr w) t = (state_of_word w, t)"
  by (simp add: connect_reply_def)

text \<open>Every later action reaches the session that has the ticket, and shows its state.\<close>

lemma later_packet:
  assumes "a \<noteq> Act_start" "length t = 64" "list_all lower_hex t" "rpc_session r = Some s"
  obtains packet where "connect_packet t a None = Some packet"
    "connect_reply a (Inr (fst (rpc_handle B factory kdf now random packet r))) t
      = (map_option shown_state (fst (session_action B a t now s)), t)"
    "rpc_session (snd (rpc_handle B factory kdf now random packet r)) = Some (snd (session_action B a t now s))"
proof -
  have lh: "c = CHR 0x7C \<or> c = CHR 0x00 \<Longrightarrow> \<not> lower_hex c" "lower_hex c \<Longrightarrow> unhex c \<noteq> None" for c
    by (auto simp: lower_hex_def unhex_def)
  then have t: "CHR 0x7C \<notin> set t" "CHR 0x00 \<notin> set t" "hex_field t 64 64"
    using assms(2,3) by (auto simp: list_all_iff hex_field_def)
  have w: "CHR 0x7C \<notin> set (action_word a)" "CHR 0x00 \<notin> set (action_word a)" "length (action_word a) \<le> 7"
    by (cases a; simp add: action_word_def)+
  have aw: "action_word a \<noteq> ''start''" "action_word a = ''status'' \<longleftrightarrow> a = Act_status" "action_word a = ''confirm'' \<longleftrightarrow> a = Act_confirm"
    "a \<noteq> Act_status \<Longrightarrow> a \<noteq> Act_confirm \<Longrightarrow> action_word a = ''cancel''"
    using assms(1) by (cases a; simp add: action_word_def)+
  have sp: "split_on (CHR 0x7C) (action_word a @ ''|'' @ t) = [action_word a, t]"
    using split_on_free [OF w(1), of t] split_on_last [OF t(1)] by simp
  have p: "connect_packet t a None = Some (action_word a @ ''|'' @ t)" using assms(1,2) by (simp add: connect_packet_def)
  have "rpc_handle B factory kdf now random (action_word a @ ''|'' @ t) r
      = (case session_action B a t now s of (None, s) \<Rightarrow> (''error'', r\<lparr>rpc_session := Some s\<rparr>)
          | (Some st, s) \<Rightarrow> (state_name st, r\<lparr>rpc_session := Some s\<rparr>))"
    using assms(1,2,4) t w(2,3)
    by (simp add: rpc_handle_def Let_def sp [simplified] aw session_action_def del: split_on.simps)
  with that [OF p] show ?thesis
    by (auto simp: not_start_reply [OF assms(1)] state_words split: prod.split option.split)
qed

lemma rpc_start_connecting:
  assumes "rpc_start B factory kdf now random f k r = (answer, r1)" "answer \<noteq> ''rejected''" "answer \<noteq> ''recovery_required''"
  obtains p b s tk where "make_profile kdf (the (unhex_text f)) k = Inr p" "factory (rpc_world B r) = Some b"
    "session_start B p now random (new_session b) = (Some tk, s)" "answer = ''connecting|'' @ tk" "rpc_session r1 = Some s"
proof -
  define refused where "refused \<longleftrightarrow> (case rpc_session r of None \<Rightarrow> False | Some s \<Rightarrow> \<not> session_finished s)
    \<or> \<not> hex_field f 2 64 \<or> \<not> hex_field k 64 64"
  note e = assms(1) [unfolded rpc_start_def, folded refused_def]
  have n: "\<not> refused" using e assms(2) by (cases refused) simp_all
  show ?thesis
  proof (cases "make_profile kdf (the (unhex_text f)) k")
    case (Inl x)
    with e n assms(2) show ?thesis by simp
  next
    case p: (Inr p)
    show ?thesis
    proof (cases "factory (rpc_world B r)")
      case None
      with e n p assms(2) show ?thesis by simp
    next
      case (Some b)
      obtain res s where ss: "session_start B p now random (new_session b) = (res, s)" by fastforce
      show ?thesis
      proof (cases res)
        case None
        with e n p Some ss assms(3) show ?thesis by simp
      next
        case tk: (Some tk)
        with e n p Some ss have "answer = ''connecting|'' @ tk" "rpc_session r1 = Some s" by auto
        with that [OF p Some ss [unfolded tk]] show ?thesis by blast
      qed
    qed
  qed
qed

lemma connecting_reply:
  assumes "connect_reply Act_start (Inr answer) [] = (Some Dc_connecting, t)"
  shows "answer = ''connecting'' \<or> length answer = 75 \<and> list_all lower_hex t \<and> t = drop 11 answer"
    "answer \<noteq> ''rejected''" "answer \<noteq> ''recovery_required''"
proof -
  have n: "state_of_word answer = Some Dc_connecting \<Longrightarrow> answer = ''connecting''" by (simp add: state_of_word_def split: if_splits)
  from assms n show "answer = ''connecting'' \<or> length answer = 75 \<and> list_all lower_hex t \<and> t = drop 11 answer"
    by (auto simp: connect_reply_def split: if_splits)
  show "answer \<noteq> ''rejected''" "answer \<noteq> ''recovery_required''"
    using assms by (auto simp: connect_reply_def state_of_word_def)
qed

section \<open>Properties\<close>

text \<open>C39: Whatever the user clicks, the timers do and the server answers, the dialog asks to confirm a new
  network only right after it showed that the server reports it ready and waiting; between that report
  and the confirmation it asks for nothing else.\<close>

theorem confirm_follows_ready:
  assumes "cd_trace (dialog_run kdf evs (new_dialog available)) = u @ Asked Act_confirm # v"
  shows "u \<noteq> [] \<and> last u = Shown (Some Dc_awaiting)"
  using run_dialog_ok [OF new_dialog_ok, of kdf evs available] assms
  by (auto simp: dialog_ok_def confirms_justified_def)

text \<open>C18: The dialog and the helper agree: when a start with the profile made from the administrator's
  input is answered so that the dialog shows "connecting", the helper runs a session on exactly that
  profile and the dialog holds its ticket; and as long as the helper has a session with this ticket,
  each later action of the dialog performs the session's operation and shows the state it reports, or
  nothing when the session refuses.\<close>

theorem dialog_drives_session:
  assumes "make_profile kdf ssid password = Inr p" "connect_packet [] Act_start (Some p) = Some packet"
    "rpc_handle B factory kdf' now random packet r = (answer, r1)"
    "connect_reply Act_start (Inr answer) [] = (Some Dc_connecting, t)"
  shows "(\<exists>b s. factory (rpc_world B r) = Some b \<and> session_start B p now random (new_session b) = (Some t, s) \<and> rpc_session r1 = Some s \<and> ws_ticket s = t)
    \<and> (\<forall>a r2 s2 later random2. a \<noteq> Act_start \<and> rpc_session r2 = Some s2 \<and> ws_ticket s2 = t \<longrightarrow>
        (\<exists>packet2. connect_packet t a None = Some packet2
          \<and> connect_reply a (Inr (fst (rpc_handle B factory kdf' later random2 packet2 r2))) t
              = (map_option shown_state (fst (session_action B a t later s2)), t)
          \<and> rpc_session (snd (rpc_handle B factory kdf' later random2 packet2 r2)) = Some (snd (session_action B a t later s2))))"
proof -
  note start = start_packet [OF assms(1)]
  have "packet = ''start|'' @ ssid_hex p @ ''|'' @ bytes_to_hex (psk p)" using assms(2) start(1) by simp
  with assms(3) have h: "rpc_start B factory kdf' now random (ssid_hex p) (bytes_to_hex (psk p)) r = (answer, r1)"
    by (simp only: start(2))
  note c = connecting_reply [OF assms(4)]
  obtain p' b s tk where b: "make_profile kdf' (the (unhex_text (ssid_hex p))) (bytes_to_hex (psk p)) = Inr p'"
    "factory (rpc_world B r) = Some b" "session_start B p' now random (new_session b) = (Some tk, s)"
    "answer = ''connecting|'' @ tk" "rpc_session r1 = Some s"
    using rpc_start_connecting [OF h c(2,3)] by metis
  have t: "length t = 64" "list_all lower_hex t" "tk = t" "p' = p" using c(1) b(1,4) start(5) by auto
  have "ws_ticket s = t" using b(3) t(3) by (auto simp: session_start_def split: if_splits prod.splits bool.splits)
  moreover have "\<exists>packet2. connect_packet t a None = Some packet2
          \<and> connect_reply a (Inr (fst (rpc_handle B factory kdf' later random2 packet2 r2))) t
              = (map_option shown_state (fst (session_action B a t later s2)), t)
          \<and> rpc_session (snd (rpc_handle B factory kdf' later random2 packet2 r2)) = Some (snd (session_action B a t later s2))"
    if "a \<noteq> Act_start" "rpc_session r2 = Some s2" for a r2 s2 later random2
    using later_packet [OF that(1) t(1,2) that(2), of B factory kdf' later random2] by metis
  ultimately show ?thesis using b(2,3,5) t(3,4) by blast
qed

text \<open>C40: A start whose answer is lost, or that could not be sent, leaves the dialog without a ticket: it
  keeps asking for the state and offers to cancel, but whatever the user does not one further packet
  reaches the server.\<close>

theorem lost_start_is_stuck:
  assumes "cd_pending d = Some (Running Act_start (Some p))" "cd_ticket d = []" "\<not> cd_start d"
    "connect_packet [] Act_start (Some p) = Some packet" "connect_reply Act_start (command packet) [] = (None, t)"
  shows "let d1 = on_poll (on_worker command d) in cd_cancel d1 \<and> cd_refresh d1
    \<and> cd_sent (dialog_run kdf evs d1) = cd_sent d @ [packet]"
proof -
  have t: "t = []" using assms(5) by (auto simp: connect_reply_def split: sum.splits if_splits)
  have "on_worker command d = d\<lparr>cd_pending := Some (Finished None), cd_ticket := [], cd_sent := cd_sent d @ [packet]\<rparr>"
    using assms t by (simp add: on_worker_def)
  then have d1: "on_poll (on_worker command d) = d\<lparr>cd_pending := None, cd_ticket := [], cd_sent := cd_sent d @ [packet],
      cd_close := True, cd_trace := cd_trace d @ [Shown None], cd_text := No_answer, cd_cancel := True, cd_refresh := True\<rparr>"
    by (simp add: on_poll_def Let_def)
  have "stuck (on_poll (on_worker command d))" unfolding d1 using assms(3) by (simp add: stuck_def)
  from stuck_run [OF this] show ?thesis unfolding d1 Let_def by simp
qed

section \<open>A concrete dialog\<close>

definition demo_kdf :: psk_kdf where
  "demo_kdf password ssid = Some (\<lambda>i. 0)"

definition demo_net :: wifi_profile where
  "demo_net = \<lparr>ssid_hex = ''6e6574'', psk = replicate 32 0, dhcp6 = None\<rparr>"

lemma demo_net_made: "make_profile demo_kdf ''net'' ''password'' = Inr demo_net"
proof -
  have v: "valid_text_ssid ''net''" by (simp add: utf8_lead_def point_ok_def)
  have h: "bytes_to_hex (bytes_of ''net'') = ''6e6574''" by code_simp
  have "map (\<lambda>i. 0) [0..<32] = replicate 32 (0 :: byte)" by (rule nth_equalityI) (simp_all del: upt_rec_numeral)
  with v h show ?thesis
    by (simp add: make_profile_def Let_def demo_kdf_def demo_net_def del: upt_rec_numeral)
qed

definition demo_ticket :: string where
  "demo_ticket = bytes_to_hex (map (\<lambda>i. 0) [0..<32])"

lemma demo_ticket_facts: "length demo_ticket = 64" "list_all lower_hex demo_ticket"
proof -
  show "length demo_ticket = 64" by (simp add: demo_ticket_def)
  have "lower_hex c" if "unhex c \<noteq> None" for c using that by (auto simp: unhex_def lower_hex_def Let_def split: if_splits)
  then show "list_all lower_hex demo_ticket" by (auto simp: demo_ticket_def list_all_iff dest: hex_chars)
qed

definition demo_events :: "dialog_event list" where
  "demo_events = [Start_click ''net'' ''password'' True, Worker (\<lambda>p. Inr (''connecting|'' @ demo_ticket)), Poll,
     Refresh_fires True, Worker (\<lambda>p. Inr ''ready''), Poll, Confirm_click True]"

lemma demo_start_packet: "connect_packet [] Act_start (Some demo_net) = Some (''start|'' @ ssid_hex demo_net @ ''|'' @ bytes_to_hex (psk demo_net))"
  by (rule start_packet(1) [OF demo_net_made])

lemma demo_start_reply: "connect_reply Act_start (Inr (''connecting|'' @ demo_ticket)) [] = (Some Dc_connecting, demo_ticket)"
  by (simp add: connect_reply_def starts_with_def demo_ticket_facts)

theorem confirm_follows_ready_witness:
  "\<exists>u. cd_trace (dialog_run demo_kdf demo_events (new_dialog True)) = u @ [Asked Act_confirm] \<and> last u = Shown (Some Dc_awaiting)"
proof -
  have s: "connect_packet demo_ticket Act_status None = Some (''status|'' @ demo_ticket)"
    by (simp add: connect_packet_def demo_ticket_facts action_word_def)
  have r: "connect_reply Act_status (Inr ''ready'') demo_ticket = (Some Dc_awaiting, demo_ticket)"
    by (simp add: connect_reply_def state_of_word_def)
  have t: "cd_trace (dialog_run demo_kdf demo_events (new_dialog True))
      = [Asked Act_start, Shown (Some Dc_connecting), Asked Act_status, Shown (Some Dc_awaiting)] @ Asked Act_confirm # []"
    by (simp add: dialog_run_def demo_events_def new_dialog_def on_start_def demo_net_made dialog_send_def on_worker_def
        demo_start_packet demo_start_reply [simplified] on_poll_def ends_change_def s r Let_def)
  from confirm_follows_ready [OF t] t show ?thesis by blast
qed

theorem dialog_drives_session_witness:
  "\<exists>s answer r1. rpc_session r1 = Some s \<and> ws_ticket s = demo_ticket
    \<and> rpc_handle demo_backend Some demo_kdf 5 (Some (\<lambda>i. 0)) (the (connect_packet [] Act_start (Some demo_net))) demo_rpc = (answer, r1)"
proof -
  note p = start_packet [OF demo_net_made]
  have l: "length (psk demo_net) = 32" "ssid_hex demo_net \<noteq> []" by (simp_all add: demo_net_def)
  have h: "rpc_handle demo_backend Some demo_kdf 5 (Some (\<lambda>i. 0)) (''start|'' @ ssid_hex demo_net @ ''|'' @ bytes_to_hex (psk demo_net)) demo_rpc
      = (''connecting|'' @ demo_ticket, snd (rpc_start demo_backend Some demo_kdf 5 (Some (\<lambda>i. 0)) (ssid_hex demo_net) (bytes_to_hex (psk demo_net)) demo_rpc))"
    unfolding p(2)
    by (simp add: rpc_start_def p(3-5) l demo_rpc_def rpc_world_def session_start_def new_session_def new_change_def change_start_def
        demo_backend_def demo_ticket_def Let_def)
  from dialog_drives_session [OF demo_net_made demo_start_packet h demo_start_reply] h show ?thesis
    unfolding demo_start_packet option.sel by blast
qed

theorem lost_start_is_stuck_witness:
  "cd_sent (dialog_run demo_kdf [Refresh_fires True, Worker (\<lambda>p. Inr ''ready''), Poll, Cancel_click True, Worker (\<lambda>p. Inr ''ready'')]
      (on_poll (on_worker (\<lambda>p. Inl ''Failed to read response'') (on_start demo_kdf ''net'' ''password'' True (new_dialog True)))))
    = [''start|'' @ ssid_hex demo_net @ ''|'' @ bytes_to_hex (psk demo_net)]"
proof -
  let ?d = "on_start demo_kdf ''net'' ''password'' True (new_dialog True)"
  have d: "cd_pending ?d = Some (Running Act_start (Some demo_net))" "cd_ticket ?d = []" "\<not> cd_start ?d" "cd_sent ?d = []"
    by (simp_all add: on_start_def demo_net_made dialog_send_def new_dialog_def)
  have "connect_reply Act_start (Inl ''Failed to read response'') [] = (None, [])" by (simp add: connect_reply_def)
  from lost_start_is_stuck [OF d(1-3) demo_start_packet, of "\<lambda>p. Inl ''Failed to read response''", OF this] d(4)
  show ?thesis by (simp add: Let_def)
qed

end
