(* ===== verification/AdminWindow.thy ===== *)
theory AdminWindow
  imports EndToEnd
begin

text \<open>
  The administrator's main window (admin/src/admin_window.cpp): the file of devices, the handlers of
  the tool bar with their caches, the analysis of the log, and the dialog for user accounts.
  \<open>selectedDevice\<close> is the row \<open>aw_row\<close>; filling the list anew leaves no row selected.

  Every command to a server is one call of the administration client: the \<open>n\<close>-th call of the window
  uses the connections \<open>ae_net n\<close>. The texts shown are constructors, what the user enters is part of the
  event (\<open>None\<close>: the dialog was cancelled). \<open>ae_text\<close> is the way of a text through \<open>QString\<close> and
  back, \<open>ae_int\<close> is \<open>QString::toInt\<close> (0 when the text is no number).
\<close>

section \<open>Fields\<close>

function split_pipe :: "string \<Rightarrow> string list" where
  "split_pipe line = (case cut (CHR ''|'') line of None \<Rightarrow> [line] | Some (a, b) \<Rightarrow> a # split_pipe b)"
  by pat_completeness auto
termination
  by (relation "measure length") (auto dest: cut_length)

declare split_pipe.simps [simp del]

lemma split_pipe_last [cstr]: "CHR ''|'' \<notin> set a \<Longrightarrow> split_pipe a = [a]"
  by (subst split_pipe.simps) (simp add: cut_None)

lemma split_pipe_field [cstr]: "CHR ''|'' \<notin> set a \<Longrightarrow> split_pipe (a @ CHR ''|'' # b) = a # split_pipe b"
  by (subst split_pipe.simps) (simp add: cut_append)

lemma split_pipe_not_Nil [simp]: "split_pipe a \<noteq> []"
  by (subst split_pipe.simps) (simp split: option.split)

text \<open>What follows the first occurrence of \<open>key\<close>.\<close>

fun after_first :: "string \<Rightarrow> string \<Rightarrow> string option" where
  "after_first key [] = (if key = [] then Some [] else None)"
| "after_first key (c # s) = (if starts_with key (c # s) then Some (drop (length key) (c # s)) else after_first key s)"

definition extract_uint :: "string \<Rightarrow> string \<Rightarrow> u64" where
  "extract_uint text key = (case after_first key text of
       None \<Rightarrow> 0
     | Some rest \<Rightarrow>
         let digits = takeWhile is_digit rest in
         if digits = [] then 0 else (case stoull digits of None \<Rightarrow> 0 | Some n \<Rightarrow> word_of_nat n))"

section \<open>The file of devices\<close>

definition parse_device :: "string \<Rightarrow> admin_device option" where
  "parse_device line =
     (if line = [] \<or> hd line = CHR ''#'' then None
      else case cut (CHR ''|'') line of None \<Rightarrow> None | Some (name, r1) \<Rightarrow>
        (case cut (CHR ''|'') r1 of None \<Rightarrow> None | Some (host, r2) \<Rightarrow>
        (case cut (CHR ''|'') r2 of None \<Rightarrow> None | Some (port, token) \<Rightarrow>
           Some \<lparr>ad_name = name, ad_host = host, ad_port = (case stoi port of None \<Rightarrow> 7444 | Some p \<Rightarrow> p), ad_token = token\<rparr>)))"

definition load_devices :: "fs \<Rightarrow> path \<Rightarrow> admin_device list" where
  "load_devices fs p = (case fs p of None \<Rightarrow> [] | Some data \<Rightarrow> List.map_filter parse_device (getlines (CHR 0x0A) (string_of data)))"

definition device_line :: "admin_device \<Rightarrow> string" where
  "device_line d = ad_name d @ ''|'' @ ad_host d @ ''|'' @ show_int (ad_port d) @ ''|'' @ ad_token d"

definition devices_text :: "admin_device list \<Rightarrow> string" where
  "devices_text ds = concat (map (\<lambda>d. device_line d @ [CHR 0x0A]) ds)"

definition save_devices :: "wout \<Rightarrow> path \<Rightarrow> admin_device list \<Rightarrow> fs \<Rightarrow> fs" where
  "save_devices w p ds fs = snd (write_file w p (bytes_of (devices_text ds)) fs)"

definition device_row :: "admin_device \<Rightarrow> string" where
  "device_row d = ad_name d @ '' ('' @ ad_host d @ '':'' @ show_int (ad_port d) @ '')''"

definition device_key :: "admin_device \<Rightarrow> string" where
  "device_key d = ad_host d @ '':'' @ show_int (ad_port d)"

section \<open>The analysis\<close>

record pattern_stat =
  ps_requests :: nat
  ps_auth_failed :: nat
  ps_bytes_in :: u64
  ps_bytes_out :: u64
  ps_max_single :: u64
  ps_total_logins :: u32
  ps_locked :: bool
  ps_lock_remaining :: int

definition new_pattern :: pattern_stat where
  "new_pattern = \<lparr>ps_requests = 0, ps_auth_failed = 0, ps_bytes_in = 0, ps_bytes_out = 0, ps_max_single = 0,
     ps_total_logins = 0, ps_locked = False, ps_lock_remaining = 0\<rparr>"

type_synonym patterns = "(string \<times> pattern_stat) list"

definition touch :: "string \<Rightarrow> (pattern_stat \<Rightarrow> pattern_stat) \<Rightarrow> patterns \<Rightarrow> patterns" where
  "touch user f data = AList.update user (f (alookup data user new_pattern)) data"

definition count_line :: "string \<Rightarrow> string \<Rightarrow> pattern_stat \<Rightarrow> pattern_stat" where
  "count_line type detail d =
     (let file_size = extract_uint detail ''file_size='';
          enc_size = extract_uint detail ''enc_size='';
          plain_size = extract_uint detail ''plain_size=''
      in d\<lparr>ps_requests := (if type = ''encrypt'' \<or> type = ''decrypt'' then ps_requests d + 1 else ps_requests d),
           ps_auth_failed := (if type = ''auth_failed'' then ps_auth_failed d + 1 else ps_auth_failed d),
           ps_bytes_in := ps_bytes_in d + (if file_size > 0 then file_size else enc_size),
           ps_bytes_out := ps_bytes_out d + plain_size,
           ps_max_single := max (max (max (ps_max_single d) file_size) enc_size) plain_size\<rparr>)"

definition log_pattern :: "string \<Rightarrow> patterns \<Rightarrow> patterns" where
  "log_pattern line data = (case split_pipe line of
       ts # type # user # detail # rest \<Rightarrow> touch user (count_line type detail) data
     | _ \<Rightarrow> data)"

definition stats_pattern :: "string \<Rightarrow> patterns \<Rightarrow> patterns" where
  "stats_pattern line data = (case split_pipe line of
       user # logins # rest \<Rightarrow> touch user (\<lambda>d. d\<lparr>ps_total_logins := (case stoull logins of None \<Rightarrow> 0 | Some n \<Rightarrow> word_of_nat n)\<rparr>) data
     | _ \<Rightarrow> data)"

definition locks_pattern :: "string \<Rightarrow> patterns \<Rightarrow> patterns" where
  "locks_pattern line data = (case split_pipe line of
       user # until # remaining # rest \<Rightarrow>
         touch user (\<lambda>d. d\<lparr>ps_locked := True, ps_lock_remaining := (case stoll remaining of None \<Rightarrow> 0 | Some i \<Rightarrow> i)\<rparr>) data
     | _ \<Rightarrow> data)"

definition pattern_data :: "string list \<Rightarrow> string list \<Rightarrow> string list \<Rightarrow> patterns" where
  "pattern_data logs stats locks = fold locks_pattern locks (fold stats_pattern stats (fold log_pattern logs []))"

datatype flag = Frequent_requests | Large_volumes | Large_single | Login_errors | Account_locked int

definition pattern_flags :: "pattern_stat \<Rightarrow> flag list" where
  "pattern_flags d =
     (if ps_requests d \<ge> 12 then [Frequent_requests] else [])
     @ (if ps_bytes_in d \<ge> 200 * 1024 * 1024 \<or> ps_bytes_out d \<ge> 200 * 1024 * 1024 then [Large_volumes] else [])
     @ (if ps_max_single d \<ge> 50 * 1024 * 1024 then [Large_single] else [])
     @ (if ps_auth_failed d \<ge> 3 then [Login_errors] else [])
     @ (if ps_locked d then [Account_locked (ps_lock_remaining d)] else [])"

text \<open>\<open>rp_findings\<close> is \<open>None\<close> when there are no data.\<close>

record analysis =
  rp_device :: admin_device
  rp_rows :: "(string \<times> pattern_stat \<times> flag list) list"
  rp_findings :: "bool option"

definition render_pattern_analysis :: "string list \<Rightarrow> string list \<Rightarrow> string list \<Rightarrow> admin_device \<Rightarrow> analysis" where
  "render_pattern_analysis logs stats locks device =
     (let rows = map (\<lambda>(user, d). (user, d, pattern_flags d)) (pattern_data logs stats locks) in
      \<lparr>rp_device = device, rp_rows = rows,
       rp_findings = (if rows = [] then None else Some (\<exists>row \<in> set rows. snd (snd row) \<noteq> []))\<rparr>)"

section \<open>The window\<close>

datatype admin_status = Status_ready | Choose_device | Device_added | Device_removed
  | Alerts_failed string | Alerts_updated | Logs_failed string | Logs_updated | Stats_failed string | Stats_updated
  | Binding_failed string | Binding_updated | Binding_unknown string | Binding_not_switched string | Binding_switched bool
  | Client_failed bool string | Client_changed bool | Locks_failed string | No_locks | Unlock_failed string | Unlocked

datatype binding_row = Raw_row string | Client_row string bool string string string

record admin_window =
  aw_devices :: "admin_device list"
  aw_list :: "string list"
  aw_row :: int
  aw_last_alert :: "string \<Rightarrow> nat option"
  aw_clients :: "string \<Rightarrow> string list"
  aw_logs :: "string \<Rightarrow> string list"
  aw_stats :: "string \<Rightarrow> string list"
  aw_locks :: "string \<Rightarrow> string list"
  aw_binding :: "string \<Rightarrow> bool option"
  aw_alerts :: "string list"
  aw_log_view :: "string list"
  aw_stats_view :: "string list"
  aw_binding_view :: "(bool \<times> binding_row list) option"
  aw_analysis :: "analysis option"
  aw_status :: admin_status
  aw_fs :: fs
  aw_calls :: nat

record admin_wenv =
  ae_net :: "nat \<Rightarrow> admin_net"
  ae_order :: "header \<Rightarrow> header"
  ae_path :: path
  ae_text :: "string \<Rightarrow> string"
  ae_int :: "string \<Rightarrow> int"

definition ask :: "admin_wenv \<Rightarrow> ((header \<Rightarrow> header) \<Rightarrow> admin_net \<Rightarrow> 'r) \<Rightarrow> admin_window \<Rightarrow> 'r \<times> admin_window" where
  "ask env f w = (f (ae_order env) (ae_net env (aw_calls w)), w\<lparr>aw_calls := aw_calls w + 1\<rparr>)"

definition update_device_list :: "admin_window \<Rightarrow> admin_window" where
  "update_device_list w = w\<lparr>aw_list := map device_row (aw_devices w), aw_row := - 1\<rparr>"

definition open_admin_window :: "admin_wenv \<Rightarrow> fs \<Rightarrow> admin_window" where
  "open_admin_window env fs = update_device_list
     \<lparr>aw_devices = load_devices fs (ae_path env), aw_list = [], aw_row = - 1, aw_last_alert = (\<lambda>k. None),
      aw_clients = (\<lambda>k. []), aw_logs = (\<lambda>k. []), aw_stats = (\<lambda>k. []), aw_locks = (\<lambda>k. []), aw_binding = (\<lambda>k. None),
      aw_alerts = [], aw_log_view = [], aw_stats_view = [], aw_binding_view = None, aw_analysis = None,
      aw_status = Status_ready, aw_fs = fs, aw_calls = 0\<rparr>"

definition selected_device :: "admin_window \<Rightarrow> admin_device option" where
  "selected_device w = (if aw_row w < 0 \<or> nat (aw_row w) \<ge> length (aw_devices w) then None else Some (aw_devices w ! nat (aw_row w)))"

definition on_add_device ::
  "admin_wenv \<Rightarrow> string option \<Rightarrow> string option \<Rightarrow> int option \<Rightarrow> string option \<Rightarrow> wout \<Rightarrow> admin_window \<Rightarrow> admin_window" where
  "on_add_device env name host port token out w = (case (name, host, port, token) of
       (Some name, Some host, Some port, Some token) \<Rightarrow>
         if name = [] \<or> host = [] \<or> token = [] then w
         else let ds = aw_devices w @ [\<lparr>ad_name = name, ad_host = host, ad_port = port, ad_token = token\<rparr>] in
           (update_device_list (w\<lparr>aw_devices := ds, aw_fs := save_devices out (ae_path env) ds (aw_fs w)\<rparr>))
             \<lparr>aw_status := Device_added\<rparr>
     | _ \<Rightarrow> w)"

definition on_remove_device :: "admin_wenv \<Rightarrow> wout \<Rightarrow> admin_window \<Rightarrow> admin_window" where
  "on_remove_device env out w =
     (if selected_device w = None then w
      else let ds = take (nat (aw_row w)) (aw_devices w) @ drop (nat (aw_row w) + 1) (aw_devices w) in
        (update_device_list (w\<lparr>aw_devices := ds, aw_fs := save_devices out (ae_path env) ds (aw_fs w)\<rparr>))
          \<lparr>aw_status := Device_removed\<rparr>)"

definition with_device :: "(admin_device \<Rightarrow> admin_window \<Rightarrow> admin_window) \<Rightarrow> admin_window \<Rightarrow> admin_window" where
  "with_device f w = (case selected_device w of None \<Rightarrow> w\<lparr>aw_status := Choose_device\<rparr> | Some d \<Rightarrow> f d w)"

definition refresh_alerts :: "admin_wenv \<Rightarrow> admin_device \<Rightarrow> admin_window \<Rightarrow> admin_window" where
  "refresh_alerts env d w =
     (let key = device_key d; since = (case aw_last_alert w key of None \<Rightarrow> 0 | Some i \<Rightarrow> i) in
      (case ask env (\<lambda>order net. get_alerts order net d since 200 since) w of
         (Inl e, w) \<Rightarrow> w\<lparr>aw_status := Alerts_failed e\<rparr>
       | (Inr (ls, last_id), w) \<Rightarrow>
           w\<lparr>aw_last_alert := (if last_id > since then (aw_last_alert w)(key := Some last_id) else aw_last_alert w),
             aw_alerts := aw_alerts w @ ls, aw_status := Alerts_updated\<rparr>))"

definition show_analysis :: "admin_device \<Rightarrow> admin_window \<Rightarrow> admin_window" where
  "show_analysis d w = (let key = device_key d in
     w\<lparr>aw_analysis := Some (render_pattern_analysis (aw_logs w key) (aw_stats w key) (aw_locks w key) d)\<rparr>)"

definition refresh_logs :: "admin_wenv \<Rightarrow> admin_device \<Rightarrow> admin_window \<Rightarrow> admin_window" where
  "refresh_logs env d w = (case ask env (\<lambda>order net. get_logs order net d 200) w of
       (Inl e, w) \<Rightarrow> w\<lparr>aw_status := Logs_failed e\<rparr>
     | (Inr ls, w) \<Rightarrow> (show_analysis d (w\<lparr>aw_log_view := ls, aw_logs := (aw_logs w)(device_key d := ls)\<rparr>))\<lparr>aw_status := Logs_updated\<rparr>)"

definition refresh_stats :: "admin_wenv \<Rightarrow> admin_device \<Rightarrow> admin_window \<Rightarrow> admin_window" where
  "refresh_stats env d w = (case ask env (\<lambda>order net. get_stats order net d 200) w of
       (Inl e, w) \<Rightarrow> w\<lparr>aw_status := Stats_failed e\<rparr>
     | (Inr ls, w) \<Rightarrow> (case ask env (\<lambda>order net. get_locks order net d 200) (w\<lparr>aw_stats_view := ls\<rparr>) of (r, w) \<Rightarrow>
         let locks = (case r of Inl e \<Rightarrow> [] | Inr locks \<Rightarrow> locks); key = device_key d in
         (show_analysis d (w\<lparr>aw_stats := (aw_stats w)(key := ls), aw_locks := (aw_locks w)(key := locks)\<rparr>))
           \<lparr>aw_status := Stats_updated\<rparr>))"

definition binding_row :: "string \<Rightarrow> binding_row" where
  "binding_row line = (case split_pipe line of
       cid # allowed # seen # latest # label # rest \<Rightarrow> Client_row cid (allowed = ''1'') seen latest label
     | _ \<Rightarrow> Raw_row line)"

definition refresh_binding :: "admin_wenv \<Rightarrow> admin_device \<Rightarrow> admin_window \<Rightarrow> admin_window" where
  "refresh_binding env d w = (case ask env (\<lambda>order net. get_binding order net d 500) w of
       (Inl e, w) \<Rightarrow> w\<lparr>aw_status := Binding_failed e\<rparr>
     | (Inr (enabled, ls), w) \<Rightarrow>
         w\<lparr>aw_binding_view := Some (enabled, map binding_row ls), aw_clients := (aw_clients w)(device_key d := ls),
           aw_binding := (aw_binding w)(device_key d := Some enabled), aw_status := Binding_updated\<rparr>)"

definition on_refresh_binding :: "admin_wenv \<Rightarrow> admin_window \<Rightarrow> admin_window" where
  "on_refresh_binding env w = with_device (refresh_binding env) w"

definition switch_binding :: "admin_wenv \<Rightarrow> admin_device \<Rightarrow> bool \<Rightarrow> admin_window \<Rightarrow> admin_window" where
  "switch_binding env d target w = (case ask env (\<lambda>order net. set_binding_remote order net d target) w of
       (Inl e, w) \<Rightarrow> w\<lparr>aw_status := Binding_not_switched e\<rparr>
     | (Inr _, w) \<Rightarrow> (on_refresh_binding env w)\<lparr>aw_status := Binding_switched target\<rparr>)"

definition toggle_binding :: "admin_wenv \<Rightarrow> admin_device \<Rightarrow> admin_window \<Rightarrow> admin_window" where
  "toggle_binding env d w = (case aw_binding w (device_key d) of
       Some enabled \<Rightarrow> switch_binding env d (\<not> enabled) w
     | None \<Rightarrow> (case ask env (\<lambda>order net. get_binding order net d 10) w of
         (Inl e, w) \<Rightarrow> w\<lparr>aw_status := Binding_unknown e\<rparr>
       | (Inr (enabled, ls), w) \<Rightarrow> switch_binding env d (\<not> enabled) w))"

definition set_client :: "admin_wenv \<Rightarrow> bool \<Rightarrow> string option \<Rightarrow> admin_device \<Rightarrow> admin_window \<Rightarrow> admin_window" where
  "set_client env allowed client_id d w = (case client_id of
       None \<Rightarrow> w
     | Some c \<Rightarrow> if c = [] then w
         else (case ask env (\<lambda>order net. set_client_allowed_remote order net d c allowed) w of
             (Inl e, w) \<Rightarrow> w\<lparr>aw_status := Client_failed allowed e\<rparr>
           | (Inr _, w) \<Rightarrow> (on_refresh_binding env w)\<lparr>aw_status := Client_changed allowed\<rparr>))"

text \<open>The users offered, each once.\<close>

definition locked_users :: "(string \<Rightarrow> string) \<Rightarrow> string list \<Rightarrow> string list" where
  "locked_users text locks = rev (remdups (rev (map (\<lambda>line. text (hd (split_pipe line))) locks)))"

definition unlock_choice :: "admin_wenv \<Rightarrow> nat option \<Rightarrow> admin_device \<Rightarrow> admin_window \<Rightarrow> admin_window" where
  "unlock_choice env choice d w = (case ask env (\<lambda>order net. get_locks order net d 200) w of
       (Inl e, w) \<Rightarrow> w\<lparr>aw_status := Locks_failed e\<rparr>
     | (Inr locks, w) \<Rightarrow>
         let users = locked_users (ae_text env) locks in
         if users = [] then w\<lparr>aw_status := No_locks\<rparr>
         else (case choice of
             None \<Rightarrow> w
           | Some i \<Rightarrow> if i \<ge> length users \<or> users ! i = [] then w
               else (case ask env (\<lambda>order net. unlock_user_remote order net d (users ! i)) w of
                   (Inl e, w) \<Rightarrow> w\<lparr>aw_status := Unlock_failed e\<rparr>
                 | (Inr _, w) \<Rightarrow> (with_device (refresh_stats env) w)\<lparr>aw_status := Unlocked\<rparr>)))"

datatype admin_event = Select_row int | Add_device "string option" "string option" "int option" "string option" wout
  | Remove_device wout | Refresh_alerts | Refresh_logs | Refresh_stats | Refresh_binding | Toggle_binding
  | Set_client bool "string option" | Unlock_user "nat option" | Auto_refresh

fun admin_step :: "admin_wenv \<Rightarrow> admin_event \<Rightarrow> admin_window \<Rightarrow> admin_window" where
  "admin_step env (Select_row row) w = w\<lparr>aw_row := row\<rparr>"
| "admin_step env (Add_device name host port token out) w = on_add_device env name host port token out w"
| "admin_step env (Remove_device out) w = on_remove_device env out w"
| "admin_step env Refresh_alerts w = with_device (refresh_alerts env) w"
| "admin_step env Refresh_logs w = with_device (refresh_logs env) w"
| "admin_step env Refresh_stats w = with_device (refresh_stats env) w"
| "admin_step env Refresh_binding w = on_refresh_binding env w"
| "admin_step env Toggle_binding w = with_device (toggle_binding env) w"
| "admin_step env (Set_client allowed client_id) w = with_device (set_client env allowed client_id) w"
| "admin_step env (Unlock_user choice) w = with_device (unlock_choice env choice) w"
| "admin_step env Auto_refresh w = with_device (refresh_stats env) (with_device (refresh_logs env)
     (on_refresh_binding env (with_device (refresh_alerts env) w)))"

definition admin_run :: "admin_wenv \<Rightarrow> admin_event list \<Rightarrow> admin_window \<Rightarrow> admin_window" where
  "admin_run env evs w = fold (admin_step env) evs w"

section \<open>The dialog for user accounts\<close>

record user_row =
  ur_name :: string
  ur_blocked :: bool
  ur_rights :: int

definition parse_user_row :: "(string \<Rightarrow> string) \<Rightarrow> (string \<Rightarrow> int) \<Rightarrow> string \<Rightarrow> user_row option" where
  "parse_user_row text to_int line = (case cut (CHR ''|'') line of
       None \<Rightarrow> None
     | Some (name, rest) \<Rightarrow>
         let fields = split_pipe line in
         Some \<lparr>ur_name = text name, ur_blocked = (length fields > 1 \<and> fields ! 1 = ''blocked''),
               ur_rights = (if length fields > 2 then to_int (fields ! 2) else 3)\<rparr>)"

definition parse_user_rows :: "(string \<Rightarrow> string) \<Rightarrow> (string \<Rightarrow> int) \<Rightarrow> string \<Rightarrow> user_row list" where
  "parse_user_rows text to_int payload = List.map_filter (parse_user_row text to_int) (getlines (CHR 0x0A) payload)"

datatype user_warning = Command_refused string | Password_refused

text \<open>\<open>ud_current\<close> is the current item; a reload leaves none.\<close>

record user_dialog =
  ud_rows :: "user_row list"
  ud_current :: "nat option"
  ud_warnings :: "user_warning list"
  ud_calls :: nat

definition dialog_run_command :: "admin_wenv \<Rightarrow> admin_device \<Rightarrow> header \<Rightarrow> user_dialog \<Rightarrow> string option \<times> user_dialog" where
  "dialog_run_command env device request u =
     (let u' = u\<lparr>ud_calls := ud_calls u + 1\<rparr> in
      (case user_command (ae_order env) (ae_net env (ud_calls u)) device request of
         Inl e \<Rightarrow> (None, u'\<lparr>ud_warnings := ud_warnings u @ [Command_refused e]\<rparr>)
       | Inr payload \<Rightarrow> (Some payload, u')))"

definition reload_users :: "admin_wenv \<Rightarrow> admin_device \<Rightarrow> user_dialog \<Rightarrow> user_dialog" where
  "reload_users env device u = (case dialog_run_command env device (hd_set ''op'' ''admin_list_users'' []) u of
       (None, u) \<Rightarrow> u
     | (Some payload, u) \<Rightarrow> u\<lparr>ud_rows := parse_user_rows (ae_text env) (ae_int env) payload, ud_current := None\<rparr>)"

definition command_and_reload :: "admin_wenv \<Rightarrow> admin_device \<Rightarrow> header \<Rightarrow> user_dialog \<Rightarrow> user_dialog" where
  "command_and_reload env device request u = (case dialog_run_command env device request u of
       (None, u) \<Rightarrow> u | (Some payload, u) \<Rightarrow> reload_users env device u)"

definition current_user :: "user_dialog \<Rightarrow> user_row option" where
  "current_user u = (case ud_current u of None \<Rightarrow> None | Some i \<Rightarrow> if i < length (ud_rows u) then Some (ud_rows u ! i) else None)"

definition permissions_request :: "user_row \<Rightarrow> nat \<Rightarrow> header" where
  "permissions_request row choice = hd_set ''permissions'' (show_nat choice)
     (hd_set ''username'' (ur_name row) (hd_set ''op'' ''admin_set_permissions'' []))"

definition on_permissions :: "admin_wenv \<Rightarrow> admin_device \<Rightarrow> nat option \<Rightarrow> user_dialog \<Rightarrow> user_dialog" where
  "on_permissions env device choice u = (case (current_user u, choice) of
       (Some row, Some n) \<Rightarrow> if n < 4 then command_and_reload env device (permissions_request row n) u else u
     | _ \<Rightarrow> u)"

text \<open>The length a \<open>QString\<close> has: a character outside the basic plane counts as two.\<close>

definition utf16_length :: "string \<Rightarrow> nat" where
  "utf16_length s = sum_list (map (\<lambda>c. let n = of_char c :: nat in if 128 \<le> n \<and> n < 192 then 0 else if 240 \<le> n then 2 else 1) s)"

definition password_refused :: "string \<Rightarrow> string \<Rightarrow> bool" where
  "password_refused password confirm \<longleftrightarrow> password \<noteq> confirm \<or> utf16_length password < 8
     \<or> CHR 0x0A \<in> set password \<or> CHR 0x0D \<in> set password"

definition password_request :: "bool \<Rightarrow> string \<Rightarrow> string \<Rightarrow> header" where
  "password_request creating username password = hd_set ''new_password'' password (hd_set ''username'' username
     (hd_set ''op'' (if creating then ''admin_create_user'' else ''admin_reset_password'') []))"

definition on_set_password ::
  "admin_wenv \<Rightarrow> admin_device \<Rightarrow> bool \<Rightarrow> string option \<Rightarrow> string option \<Rightarrow> string option \<Rightarrow> user_dialog \<Rightarrow> user_dialog" where
  "on_set_password env device creating entered password confirm u =
     (let username = (if creating then entered else map_option ur_name (current_user u)) in
      (case (username, password, confirm) of
         (Some username, Some password, Some confirm) \<Rightarrow>
           if username = [] then u
           else if password_refused password confirm then u\<lparr>ud_warnings := ud_warnings u @ [Password_refused]\<rparr>
           else command_and_reload env device (password_request creating username password) u
       | _ \<Rightarrow> u))"

definition block_request :: "user_row \<Rightarrow> header" where
  "block_request row = hd_set ''blocked'' (if ur_blocked row then ''0'' else ''1'')
     (hd_set ''username'' (ur_name row) (hd_set ''op'' ''admin_block_user'' []))"

definition on_block :: "admin_wenv \<Rightarrow> admin_device \<Rightarrow> bool \<Rightarrow> user_dialog \<Rightarrow> user_dialog" where
  "on_block env device yes u = (case current_user u of
       None \<Rightarrow> u | Some row \<Rightarrow> if yes then command_and_reload env device (block_request row) u else u)"

definition open_user_dialog :: "admin_wenv \<Rightarrow> admin_device \<Rightarrow> nat \<Rightarrow> user_dialog" where
  "open_user_dialog env device calls = reload_users env device \<lparr>ud_rows = [], ud_current = None, ud_warnings = [], ud_calls = calls\<rparr>"

section \<open>Devices survive a restart\<close>

definition device_ok :: "admin_device \<Rightarrow> bool" where
  "device_ok d \<longleftrightarrow> CHR ''|'' \<notin> set (ad_name d) \<and> CHR ''|'' \<notin> set (ad_host d)
     \<and> CHR 0x0A \<notin> set (ad_name d) \<and> CHR 0x0A \<notin> set (ad_host d) \<and> CHR 0x0A \<notin> set (ad_token d)
     \<and> (ad_name d = [] \<or> hd (ad_name d) \<noteq> CHR ''#'') \<and> - (2 ^ 31) \<le> ad_port d \<and> ad_port d < 2 ^ 31"

lemma parse_device_line:
  assumes "device_ok d"
  shows "parse_device (device_line d) = Some d"
proof -
  have "cut (CHR ''|'') (ad_name d @ CHR ''|'' # r) = Some (ad_name d, r)"
    "cut (CHR ''|'') (ad_host d @ CHR ''|'' # r) = Some (ad_host d, r)"
    "cut (CHR ''|'') (show_int (ad_port d) @ CHR ''|'' # r) = Some (show_int (ad_port d), r)" for r
    using assms by (simp_all add: device_ok_def cut_append)
  moreover have "hd (ad_name d @ CHR ''|'' # r) \<noteq> CHR ''#''" for r using assms by (cases "ad_name d") (auto simp: device_ok_def)
  moreover have "stoi (show_int (ad_port d)) = Some (ad_port d)" using assms by (intro stoi_show_int) (simp_all add: device_ok_def)
  ultimately show ?thesis by (simp add: parse_device_def device_line_def)
qed

interpretation device_file: reversible device_line parse_device device_ok
  by unfold_locales (rule parse_device_line)

lemma parsed_device_ok:
  assumes "parse_device l = Some d" "CHR 0x0A \<notin> set l"
  shows "device_ok d"
proof -
  from assms(1) obtain r1 r2 port where c: "cut (CHR ''|'') l = Some (ad_name d, r1)" "cut (CHR ''|'') r1 = Some (ad_host d, r2)"
    "cut (CHR ''|'') r2 = Some (port, ad_token d)" "ad_port d = (case stoi port of None \<Rightarrow> 7444 | Some p \<Rightarrow> p)" "hd l \<noteq> CHR ''#''"
    by (auto simp: parse_device_def split: if_splits option.splits)
  note d = c(1-3) [THEN cut_SomeD]
  have "- (2 ^ 31) \<le> ad_port d \<and> ad_port d < 2 ^ 31" using c(4) stoi_range by (auto split: option.splits)
  with d c(5) assms(2) show ?thesis by (cases "ad_name d") (auto simp: device_ok_def)
qed

definition devices_saved :: "admin_wenv \<Rightarrow> admin_window \<Rightarrow> bool" where
  "devices_saved env w \<longleftrightarrow> (\<forall>d \<in> set (aw_devices w). device_ok d) \<and> load_devices (aw_fs w) (ae_path env) = aw_devices w"

lemma load_saved:
  assumes "\<forall>d \<in> set ds. device_ok d"
  shows "load_devices (save_devices W_ok p ds fs) p = ds"
proof -
  have "\<forall>l \<in> set (map device_line ds). CHR 0x0A \<notin> set l" using assms by (auto simp: device_line_def device_ok_def)
  from getlines_concat [OF this, of "[]"] have "getlines (CHR 0x0A) (devices_text ds) = map device_line ds"
    by (simp add: devices_text_def comp_def)
  moreover have "List.map_filter parse_device (map device_line ds) = ds"
    using assms by (induction ds) (simp_all add: map_filter_simps parse_device_line)
  ultimately show ?thesis by (simp add: load_devices_def save_devices_def)
qed

lemma open_saved: "devices_saved env (open_admin_window env fs)"
proof -
  have "\<forall>d \<in> set (load_devices fs p). device_ok d" for p
    by (auto simp: load_devices_def map_filter_def intro: parsed_device_ok dest: getlines_no_delim split: option.splits)
  then show ?thesis by (simp add: devices_saved_def open_admin_window_def update_device_list_def)
qed

text \<open>What the user adds can be read back, and the file is written.\<close>

fun event_kept :: "admin_event \<Rightarrow> bool" where
  "event_kept (Add_device (Some name) (Some host) (Some port) (Some token) out) \<longleftrightarrow> out = W_ok
     \<and> device_ok \<lparr>ad_name = name, ad_host = host, ad_port = port, ad_token = token\<rparr>"
| "event_kept (Remove_device out) \<longleftrightarrow> out = W_ok"
| "event_kept ev \<longleftrightarrow> True"

definition same_devices :: "admin_window \<Rightarrow> admin_window \<Rightarrow> bool" where
  "same_devices w w' \<longleftrightarrow> aw_devices w' = aw_devices w \<and> aw_fs w' = aw_fs w \<and> aw_row w' = aw_row w"

lemma same_devices_refl [simp]: "same_devices w w"
  by (simp add: same_devices_def)

lemma same_devices_trans: "same_devices a b \<Longrightarrow> same_devices b c \<Longrightarrow> same_devices a c"
  by (simp add: same_devices_def)

lemma ask_devices: "ask env f w = (r, w') \<Longrightarrow> same_devices w w'"
  by (auto simp: ask_def same_devices_def)

lemma refresh_devices:
  "same_devices w (refresh_alerts env d w)" "same_devices w (refresh_logs env d w)" "same_devices w (refresh_stats env d w)"
  "same_devices w (refresh_binding env d w)"
  by (auto simp: refresh_alerts_def refresh_logs_def refresh_stats_def refresh_binding_def show_analysis_def ask_def same_devices_def Let_def
      split: sum.split prod.split)

lemma with_device_same: "(\<And>d. same_devices w (f d w)) \<Longrightarrow> same_devices w (with_device f w)"
  by (auto simp: with_device_def same_devices_def split: option.split)

lemma on_refresh_binding_devices: "same_devices w (on_refresh_binding env w)"
  unfolding on_refresh_binding_def by (rule with_device_same) (rule refresh_devices)

lemma status_same [simp]: "same_devices w (w'\<lparr>aw_status := s\<rparr>) = same_devices w w'"
  by (simp add: same_devices_def)

lemma switch_devices: "same_devices w (switch_binding env d b w)"
  unfolding switch_binding_def
  by (cases "ask env (\<lambda>order net. set_binding_remote order net d b) w")
    (auto split: sum.split dest!: ask_devices intro: same_devices_trans on_refresh_binding_devices)

lemma toggle_devices: "same_devices w (toggle_binding env d w)"
  unfolding toggle_binding_def
  by (cases "ask env (\<lambda>order net. get_binding order net d 10) w")
    (auto split: sum.split option.split prod.split dest!: ask_devices intro: same_devices_trans switch_devices)

lemma set_client_devices: "same_devices w (set_client env b c d w)"
proof (cases c)
  case (Some cid)
  then show ?thesis unfolding set_client_def
    by (cases "ask env (\<lambda>order net. set_client_allowed_remote order net d cid b) w")
      (auto split: sum.split dest!: ask_devices intro: same_devices_trans on_refresh_binding_devices)
qed (simp add: set_client_def)

lemma unlock_devices: "same_devices w (unlock_choice env c d w)"
proof -
  obtain r w1 where 1: "ask env (\<lambda>order net. get_locks order net d 200) w = (r, w1)" by fastforce
  note s1 = ask_devices [OF 1]
  show ?thesis
  proof (cases r)
    case (Inr locks)
    have k: "same_devices w w2" "same_devices w (with_device (refresh_stats env) w2)" if "ask env f w1 = (x, w2)" for f x w2
      using same_devices_trans [OF s1 ask_devices [OF that]] same_devices_trans with_device_same refresh_devices(3) by blast+
    show ?thesis
      by (auto simp: unlock_choice_def 1 Inr Let_def s1 intro: k split: option.split sum.split prod.split)
  qed (use s1 in \<open>simp add: unlock_choice_def 1\<close>)
qed

lemma saved_cong: "same_devices w w' \<Longrightarrow> devices_saved env w \<Longrightarrow> devices_saved env w'"
  by (simp add: same_devices_def devices_saved_def)

lemma set_removed: "set (take n xs @ drop (n + 1) xs) \<subseteq> set xs"
  by (auto dest: in_set_takeD in_set_dropD)

lemma step_saved:
  assumes "devices_saved env w" "event_kept ev"
  shows "devices_saved env (admin_step env ev w)"
proof -
  note devs = with_device_same refresh_devices on_refresh_binding_devices toggle_devices set_client_devices unlock_devices
  show ?thesis
  proof (cases ev)
    case (Add_device name host port token out)
    show ?thesis
    proof (cases "\<exists>n h p t. name = Some n \<and> host = Some h \<and> port = Some p \<and> token = Some t")
      case True
      then obtain n h p t where "name = Some n" "host = Some h" "port = Some p" "token = Some t" by blast
      with assms Add_device show ?thesis
        by (simp add: on_add_device_def devices_saved_def update_device_list_def Let_def load_saved)
    next
      case False
      with Add_device have "admin_step env ev w = w" by (auto simp: on_add_device_def split: option.split)
      with assms show ?thesis by simp
    qed
  next
    case (Remove_device out)
    have "\<forall>d \<in> set (take (nat (aw_row w)) (aw_devices w) @ drop (nat (aw_row w) + 1) (aw_devices w)). device_ok d"
      using assms(1) set_removed by (fastforce simp: devices_saved_def)
    from load_saved [OF this] this assms Remove_device show ?thesis
      by (simp add: on_remove_device_def devices_saved_def update_device_list_def Let_def)
  next
    case Auto_refresh
    have "same_devices w (admin_step env Auto_refresh w)"
      unfolding admin_step.simps by (intro same_devices_trans [OF _ with_device_same]
        same_devices_trans [OF with_device_same on_refresh_binding_devices] refresh_devices)
    with assms(1) Auto_refresh show ?thesis by (blast intro: saved_cong)
  next
    case (Select_row row)
    with assms show ?thesis by (simp add: devices_saved_def)
  qed (use assms in \<open>auto intro!: saved_cong [OF _ assms(1)] devs\<close>)
qed

lemma run_saved:
  assumes "devices_saved env w" "\<forall>ev \<in> set evs. event_kept ev"
  shows "devices_saved env (admin_run env evs w)"
  using assms unfolding admin_run_def by (induction evs arbitrary: w) (simp_all add: step_saved)

text \<open>A name with the separator moves the host and the token: the token of the device read back is what
  follows the third separator, whatever it was before.\<close>

lemma device_name_shifts:
  assumes "CHR ''|'' \<notin> set a" "CHR ''|'' \<notin> set b" "CHR ''|'' \<notin> set host" "a \<noteq> []" "hd a \<noteq> CHR ''#''" "stoi host = None"
  shows "parse_device (device_line \<lparr>ad_name = a @ ''|'' @ b, ad_host = host, ad_port = port, ad_token = token\<rparr>)
    = Some \<lparr>ad_name = a, ad_host = b, ad_port = 7444, ad_token = show_int port @ ''|'' @ token\<rparr>"
proof -
  have "hd (a @ r) = hd a" for r using assms(4) by simp
  then show ?thesis using assms by (simp add: parse_device_def device_line_def cut_append)
qed

section \<open>The analysis against its definition by user\<close>

text \<open>What a line tells of a user; \<open>of_user\<close> collects what the lines tell of one.\<close>

definition log_fields :: "string \<Rightarrow> (string \<times> string \<times> string) option" where
  "log_fields line = (case split_pipe line of ts # type # user # detail # rest \<Rightarrow> Some (user, type, detail) | _ \<Rightarrow> None)"

definition stats_fields :: "string \<Rightarrow> (string \<times> u32) option" where
  "stats_fields line = (case split_pipe line of
     user # logins # rest \<Rightarrow> Some (user, case stoull logins of None \<Rightarrow> 0 | Some n \<Rightarrow> word_of_nat n) | _ \<Rightarrow> None)"

definition lock_fields :: "string \<Rightarrow> (string \<times> int) option" where
  "lock_fields line = (case split_pipe line of
     user # until # remaining # rest \<Rightarrow> Some (user, case stoll remaining of None \<Rightarrow> 0 | Some i \<Rightarrow> i) | _ \<Rightarrow> None)"

definition of_user :: "(string \<Rightarrow> (string \<times> 'x) option) \<Rightarrow> string \<Rightarrow> string list \<Rightarrow> 'x list" where
  "of_user e v ls = map snd (filter (\<lambda>p. fst p = v) (List.map_filter e ls))"

lemma of_user_simps [simp]:
  "of_user e v [] = []"
  "of_user e v (l # ls) = (case e l of None \<Rightarrow> of_user e v ls | Some (u, x) \<Rightarrow> if u = v then x # of_user e v ls else of_user e v ls)"
  by (simp_all add: of_user_def map_filter_simps split: option.split)

definition collect :: "(string \<Rightarrow> (string \<times> 'x) option) \<Rightarrow> ('x \<Rightarrow> pattern_stat \<Rightarrow> pattern_stat) \<Rightarrow> string \<Rightarrow> patterns \<Rightarrow> patterns" where
  "collect e g line data = (case e line of None \<Rightarrow> data | Some (u, x) \<Rightarrow> touch u (g x) data)"

lemma pattern_collect:
  "log_pattern = collect log_fields (\<lambda>(type, detail). count_line type detail)"
  "stats_pattern = collect stats_fields (\<lambda>n d. d\<lparr>ps_total_logins := n\<rparr>)"
  "locks_pattern = collect lock_fields (\<lambda>i d. d\<lparr>ps_locked := True, ps_lock_remaining := i\<rparr>)"
  by (rule ext, rule ext, simp add: log_pattern_def stats_pattern_def locks_pattern_def collect_def log_fields_def stats_fields_def
      lock_fields_def split: list.split)+

lemma touch_facts:
  "alookup (touch u f data) v new_pattern = (if v = u then f (alookup data u new_pattern) else alookup data v new_pattern)"
  "dom (map_of (touch u f data)) = insert u (dom (map_of data))" "dkeys data \<Longrightarrow> dkeys (touch u f data)"
  by (auto simp: touch_def alookup_def)

lemma collect_all:
  "alookup (fold (collect e g) ls data) v new_pattern = fold g (of_user e v ls) (alookup data v new_pattern)"
  "v \<in> dom (map_of (fold (collect e g) ls data)) \<longleftrightarrow> v \<in> dom (map_of data) \<or> of_user e v ls \<noteq> []"
  "dkeys data \<Longrightarrow> dkeys (fold (collect e g) ls data)"
  by (induction ls arbitrary: data) (auto simp: collect_def touch_facts split: option.split prod.split)

definition requests_in :: "(string \<times> string) list \<Rightarrow> nat" where
  "requests_in L = length (filter (\<lambda>(type, detail). type = ''encrypt'' \<or> type = ''decrypt'') L)"

definition sizes_in :: "string \<Rightarrow> u64 set" where
  "sizes_in detail = {extract_uint detail ''file_size='', extract_uint detail ''enc_size='', extract_uint detail ''plain_size=''}"

definition input_size :: "string \<Rightarrow> u64" where
  "input_size detail = (if extract_uint detail ''file_size='' > 0 then extract_uint detail ''file_size='' else extract_uint detail ''enc_size='')"

abbreviation count_all :: "(string \<times> string) list \<Rightarrow> pattern_stat \<Rightarrow> pattern_stat" where
  "count_all L d \<equiv> fold (\<lambda>(type, detail). count_line type detail) L d"

lemma count_line_simps:
  "ps_requests (count_line t a d) = ps_requests d + requests_in [(t, a)]"
  "ps_auth_failed (count_line t a d) = (if t = ''auth_failed'' then ps_auth_failed d + 1 else ps_auth_failed d)"
  "ps_bytes_in (count_line t a d) = ps_bytes_in d + input_size a"
  "ps_bytes_out (count_line t a d) = ps_bytes_out d + extract_uint a ''plain_size=''"
  "ps_max_single (count_line t a d) = max (max (max (ps_max_single d) (extract_uint a ''file_size='')) (extract_uint a ''enc_size=''))
     (extract_uint a ''plain_size='')"
  "ps_total_logins (count_line t a d) = ps_total_logins d" "ps_locked (count_line t a d) = ps_locked d"
  "ps_lock_remaining (count_line t a d) = ps_lock_remaining d"
  unfolding count_line_def requests_in_def input_size_def Let_def by simp_all

lemma requests_in_Cons: "requests_in (p # L) = requests_in [p] + requests_in L"
  by (simp add: requests_in_def)

lemma count_counters:
  "ps_requests (count_all L d) = ps_requests d + requests_in L"
  "ps_auth_failed (count_all L d) = ps_auth_failed d + length (filter (\<lambda>p. fst p = ''auth_failed'') L)"
  "ps_total_logins (count_all L d) = ps_total_logins d" "ps_locked (count_all L d) = ps_locked d"
  "ps_lock_remaining (count_all L d) = ps_lock_remaining d"
proof -
  show "ps_requests (count_all L d) = ps_requests d + requests_in L"
  proof (induction L arbitrary: d)
    case (Cons p L)
    show ?case unfolding requests_in_Cons [of p L] by (simp add: case_prod_beta count_line_simps Cons.IH [unfolded case_prod_beta])
  qed (simp add: requests_in_def)
  show "ps_auth_failed (count_all L d) = ps_auth_failed d + length (filter (\<lambda>p. fst p = ''auth_failed'') L)"
    by (induction L arbitrary: d) (simp_all add: case_prod_beta count_line_simps)
qed (induction L arbitrary: d, simp_all add: case_prod_beta count_line_simps)+

lemma count_sums:
  "ps_bytes_in (count_all L d) = ps_bytes_in d + (\<Sum>p \<leftarrow> L. input_size (snd p))"
  "ps_bytes_out (count_all L d) = ps_bytes_out d + (\<Sum>p \<leftarrow> L. extract_uint (snd p) ''plain_size='')"
  by (induction L arbitrary: d) (simp_all add: case_prod_beta count_line_simps)

lemma Max_three: "finite X \<Longrightarrow> Max (insert (max (max (max m a) b) c) X) = Max (insert m ({a, b, c} \<union> X))"
  for m :: "'a :: linorder"
  by (cases "X = {}") (simp_all add: max.assoc max.commute max.left_commute)

lemma count_max: "ps_max_single (count_all L d) = Max (insert (ps_max_single d) (\<Union>p \<in> set L. sizes_in (snd p)))"
proof (induction L arbitrary: d)
  case (Cons p L)
  have fin: "finite (\<Union>p \<in> set L. sizes_in (snd p))" by (simp add: sizes_in_def)
  show ?case
    unfolding fold_simps comp_apply case_prod_beta Cons.IH [unfolded case_prod_beta] count_line_simps Max_three [OF fin]
    by (simp add: sizes_in_def)
qed simp

lemma sum_words: "unat (\<Sum>x \<leftarrow> xs. f x :: u64) = (\<Sum>x \<leftarrow> xs. unat (f x)) mod 2 ^ 64"
proof -
  have "(\<Sum>x \<leftarrow> xs. f x) = word_of_nat (\<Sum>x \<leftarrow> xs. unat (f x))" by (induction xs) simp_all
  then show ?thesis by (simp add: unat_of_nat)
qed

lemma logins_last: "fold (\<lambda>n d. d\<lparr>ps_total_logins := n\<rparr>) S d = (if S = [] then d else d\<lparr>ps_total_logins := last S\<rparr>)"
  by (induction S arbitrary: d) simp_all

lemma locks_last: "fold (\<lambda>i d. d\<lparr>ps_locked := True, ps_lock_remaining := i\<rparr>) K d
    = (if K = [] then d else d\<lparr>ps_locked := True, ps_lock_remaining := last K\<rparr>)"
  by (induction K arbitrary: d) simp_all

lemma pattern_data_facts:
  "alookup (pattern_data logs stats locks) v new_pattern
     = fold (\<lambda>i d. d\<lparr>ps_locked := True, ps_lock_remaining := i\<rparr>) (of_user lock_fields v locks)
        (fold (\<lambda>n d. d\<lparr>ps_total_logins := n\<rparr>) (of_user stats_fields v stats)
          (count_all (of_user log_fields v logs) new_pattern))"
  "v \<in> dom (map_of (pattern_data logs stats locks))
     \<longleftrightarrow> of_user log_fields v logs \<noteq> [] \<or> of_user stats_fields v stats \<noteq> [] \<or> of_user lock_fields v locks \<noteq> []"
  "dkeys (pattern_data logs stats locks)"
proof -
  have "alookup [] v new_pattern = new_pattern" by (simp add: alookup_def)
  then show "alookup (pattern_data logs stats locks) v new_pattern
     = fold (\<lambda>i d. d\<lparr>ps_locked := True, ps_lock_remaining := i\<rparr>) (of_user lock_fields v locks)
        (fold (\<lambda>n d. d\<lparr>ps_total_logins := n\<rparr>) (of_user stats_fields v stats) (count_all (of_user log_fields v logs) new_pattern))"
    by (simp add: pattern_data_def pattern_collect collect_all(1))
qed (auto simp: pattern_data_def pattern_collect collect_all(2,3))

section \<open>Alerts over many refreshes\<close>

definition all_alerts :: "srv \<Rightarrow> alert list" where
  "all_alerts s = get_alerts_since (io_fs s) (io_audit s) 0 0"

definition ascending :: "alert list \<Rightarrow> bool" where
  "ascending xs \<longleftrightarrow> sorted_wrt (<) (map al_id xs)"

text \<open>The \<open>n\<close>-th call of the window reaches a server in the state \<open>s\<close> with the device's token, and
  nothing is in the way of its answer.\<close>

definition polls :: "admin_wenv \<Rightarrow> admin_device \<Rightarrow> ('z) admin_env_scheme \<Rightarrow> bool \<Rightarrow> nat \<Rightarrow> srv \<Rightarrow> bool" where
  "polls env d senv wp n s \<longleftrightarrow> (let conn = ae_net env n (normalize_host (ad_host d)) (ad_port d);
       size = length (lines_payload (map format_alert_line (all_alerts s))) in
     cn_net conn \<and> cn_connect conn = None \<and> cn_timeout conn 5000 \<and> cn_tls_init conn = None \<and> cn_handshake conn = None
     \<and> cn_reply conn = served senv True wp s
     \<and> ad_token d = s_admin_token s \<and> s_admin_token s \<noteq> [] \<and> wire_value (s_admin_token s)
     \<and> (\<forall>since < 2 ^ 64. length (serialize (alerts_request d since 200)) < s_max_header_bytes s
          \<and> enough (cn_rets conn) (length (serialize (alerts_request d since 200))))
     \<and> size \<le> 8 * 1024 * 1024 \<and> enough (c_rets s) (200 + size))"

lemma collect_filter: "collect_alerts since ls = filter (\<lambda>a. since < al_id a) (collect_alerts 0 ls)"
proof (induction ls)
  case (Cons l ls)
  then show ?case by (auto simp: not_less split: option.split)
qed simp

lemma ascending_append: "ascending (xs @ ys) \<longleftrightarrow> ascending xs \<and> ascending ys \<and> (\<forall>x \<in> set xs. \<forall>y \<in> set ys. al_id x < al_id y)"
  by (auto simp: ascending_def sorted_wrt_append)

lemma ascending_last: "ascending xs \<Longrightarrow> x \<in> set xs \<Longrightarrow> al_id x \<le> al_id (last xs)"
proof (induction xs rule: rev_induct)
  case (snoc y ys)
  then show ?case by (auto simp: ascending_append)
qed simp

definition last_id :: "alert list \<Rightarrow> u64" where
  "last_id xs = (if xs = [] then 0 else al_id (last xs))"

lemma alerts_after:
  assumes "all_alerts s = xs @ ys" "ascending (xs @ ys)"
  shows "get_alerts_since (io_fs s) (io_audit s) (last_id xs) 200 = drop (length ys - 200) ys"
    and "\<forall>y \<in> set ys. last_id xs < al_id y"
proof -
  let ?ls = "file_lines (io_fs s) (a_alert_path (io_audit s))"
  have all: "collect_alerts 0 ?ls = xs @ ys" using assms(1) by (simp add: all_alerts_def get_alerts_since_def)
  have pos: "\<forall>a \<in> set (xs @ ys). 0 < al_id a"
    using arg_cong [OF collect_filter [of 0 ?ls], of set] unfolding all by auto
  have "\<forall>x \<in> set xs. \<not> last_id xs < al_id x"
    using ascending_last [of xs] assms(2) by (auto simp: last_id_def ascending_append not_less)
  moreover show above: "\<forall>y \<in> set ys. last_id xs < al_id y"
    using assms(2) pos by (auto simp: last_id_def ascending_append)
  ultimately have "collect_alerts (last_id xs) ?ls = ys"
    unfolding collect_filter [of "last_id xs"] all by simp
  then show "get_alerts_since (io_fs s) (io_audit s) (last_id xs) 200 = drop (length ys - 200) ys"
    by (simp add: get_alerts_since_def Let_def)
qed

lemma last_alert_ascending:
  assumes "ascending ys" "\<forall>y \<in> set ys. i < al_id y"
  shows "fold (\<lambda>a i. if al_id a > i then al_id a else i) ys i = (if ys = [] then i else al_id (last ys))"
  using assms
proof (induction ys rule: rev_induct)
  case (snoc y ys)
  then show ?case by (auto simp: ascending_append)
qed simp

lemma poll_shows:
  assumes "\<forall>h. mset (ae_order env h) = mset h" "polls env d senv wp (aw_calls w) s" "all_alerts s = xs @ ys" "ascending (xs @ ys)"
    "aw_last_alert w (device_key d) = (if xs = [] then None else Some (unat (last_id xs)))"
  shows "refresh_alerts env d w = w\<lparr>aw_calls := aw_calls w + 1,
      aw_last_alert := (if ys = [] then aw_last_alert w else (aw_last_alert w)(device_key d := Some (unat (last_id ys)))),
      aw_alerts := aw_alerts w @ map format_alert_line (drop (length ys - 200) ys), aw_status := Alerts_updated\<rparr>"
proof -
  let ?shown = "drop (length ys - 200) ys" and ?since = "unat (last_id xs)"
  have since: "(case aw_last_alert w (device_key d) of None \<Rightarrow> 0 | Some i \<Rightarrow> i) = ?since"
    using assms(5) by (simp add: last_id_def)
  have "xs @ ys = (xs @ take (length ys - 200) ys) @ ?shown" by simp
  then have "length (lines_payload (map format_alert_line ?shown)) \<le> length (lines_payload (map format_alert_line (xs @ ys)))"
    by (metis lines_payload_def map_append concat_append length_append le_add2)
  then have size: "length (lines_payload (map format_alert_line ?shown)) \<le> 8 * 1024 * 1024"
    "enough (c_rets s) (200 + length (lines_payload (map format_alert_line ?shown)))"
    using assms(2) by (auto simp: polls_def Let_def assms(3) intro: enough_less)
  have above: "\<forall>y \<in> set ?shown. last_id xs < al_id y"
    using alerts_after(2) [OF assms(3,4)] by (blast dest: in_set_dropD)
  have asc: "ascending ?shown"
    using assms(4) by (metis append_take_drop_id ascending_append)
  have lst: "last_alert_id ?since ?shown = (if ys = [] then ?since else unat (last_id ys))"
  proof -
    have "?shown \<noteq> []" if "ys \<noteq> []" using that by (cases ys) simp_all
    then show ?thesis using last_alert_ascending [OF asc above] by (auto simp: last_alert_id_def last_id_def)
  qed
  let ?conn = "ae_net env (aw_calls w) (normalize_host (ad_host d)) (ad_port d)"
  have req: "length (serialize (alerts_request d ?since 200)) < s_max_header_bytes s"
    "enough (cn_rets ?conn) (length (serialize (alerts_request d ?since 200)))"
    using assms(2) unat_u64_lt [of "last_id xs"] by (auto simp only: polls_def Let_def)
  have "get_alerts (ae_order env) (ae_net env (aw_calls w)) d ?since 200 ?since
      = Inr (map format_alert_line ?shown, last_alert_id ?since ?shown)"
    using assms(1,2) size req alerts_after(1) [OF assms(3,4)] unat_u64_lt [of "last_id xs"]
    by (intro alerts_over_connection [where conn = ?conn and env = senv and wp = wp and s = s]) (simp_all add: polls_def Let_def)
  moreover have "?since < unat (last_id ys)" if "ys \<noteq> []"
    using that alerts_after(2) [OF assms(3,4)] last_in_set [OF that] by (simp add: last_id_def word_less_nat_alt)
  ultimately show ?thesis
    by (auto simp: refresh_alerts_def ask_def since lst Let_def)
qed

definition grows :: "nat \<Rightarrow> (nat \<Rightarrow> srv) \<Rightarrow> bool" where
  "grows n servers \<longleftrightarrow> length (all_alerts (servers 0)) \<le> 200
     \<and> (\<forall>i < n. ascending (all_alerts (servers i)))
     \<and> (\<forall>i. Suc i < n \<longrightarrow> (\<exists>added. all_alerts (servers (Suc i)) = all_alerts (servers i) @ added \<and> length added \<le> 200))"

lemma polls_show_all:
  assumes "\<forall>h. mset (ae_order env h) = mset h" "selected_device w = Some d" "aw_last_alert w (device_key d) = None"
    "\<forall>i < n. polls env d senv wp (aw_calls w + i) (servers i)" "grows n servers" "m < n"
  shows "let w' = admin_run env (replicate (Suc m) Refresh_alerts) w; shown = all_alerts (servers m) in
    aw_alerts w' = aw_alerts w @ map format_alert_line shown \<and> aw_calls w' = aw_calls w + Suc m \<and> selected_device w' = Some d
    \<and> aw_last_alert w' (device_key d) = (if shown = [] then None else Some (unat (last_id shown)))"
  using assms(6)
proof (induction m)
  case 0
  have "length (all_alerts (servers 0)) \<le> 200" "ascending (all_alerts (servers 0))" using assms(5) 0 by (auto simp: grows_def)
  with poll_shows [OF assms(1), of d senv wp w "servers 0" "[]" "all_alerts (servers 0)"] assms(2-4) 0 show ?case
    by (auto simp: admin_run_def with_device_def selected_device_def Let_def split: if_splits)
next
  case (Suc m)
  let ?w = "admin_run env (replicate (Suc m) Refresh_alerts) w"
  have w: "aw_alerts ?w = aw_alerts w @ map format_alert_line (all_alerts (servers m))" "aw_calls ?w = aw_calls w + Suc m"
    "selected_device ?w = Some d" "aw_last_alert ?w (device_key d) = (if all_alerts (servers m) = [] then None else Some (unat (last_id (all_alerts (servers m)))))"
    using Suc by (simp_all add: Let_def)
  obtain added where a: "all_alerts (servers (Suc m)) = all_alerts (servers m) @ added" "length added \<le> 200"
    using assms(5) Suc.prems by (auto simp: grows_def)
  have asc: "ascending (all_alerts (servers m) @ added)" using assms(5) Suc.prems a(1) by (metis grows_def)
  have run: "admin_run env (replicate (Suc (Suc m)) Refresh_alerts) w = with_device (refresh_alerts env) ?w"
  proof -
    have "replicate (Suc (Suc m)) Refresh_alerts = replicate (Suc m) Refresh_alerts @ [Refresh_alerts]" by (simp add: replicate_append_same)
    then show ?thesis unfolding admin_run_def by (simp only: fold_append comp_apply fold_simps admin_step.simps)
  qed
  have p: "polls env d senv wp (aw_calls ?w) (servers (Suc m))" using assms(4) Suc.prems w(2) by (metis add.commute)
  have last: "last_id (all_alerts (servers m) @ added) = last_id added" if "added \<noteq> []" using that by (simp add: last_id_def)
  show ?case
    unfolding run with_device_def w(3) option.case poll_shows [OF assms(1) p a(1) asc w(4)]
    using a w last by (auto simp: selected_device_def Let_def split: if_splits)
qed

section \<open>The accounts shown\<close>

lemma parse_user_list_line:
  assumes "CHR ''|'' \<notin> set name" "text name = name" "to_int (show_nat (user_permissions us name)) = int (user_permissions us name)"
  shows "parse_user_row text to_int (user_list_line us (name, blocked))
    = Some \<lparr>ur_name = name, ur_blocked = blocked, ur_rights = int (user_permissions us name)\<rparr>"
  using assms by (simp add: parse_user_row_def user_list_line_def cut_append split_pipe_field split_pipe_last Let_def)

text \<open>The dialog shows the accounts of the server, with their names, states and permissions.\<close>

lemma user_rows_exact:
  assumes "users_ok us" "\<forall>name. CHR ''|'' \<in> set name \<longrightarrow> map_of us name = None"
    "\<forall>name. map_of us name \<noteq> None \<longrightarrow> text name = name" "\<forall>n \<le> 3. to_int (show_nat n) = int n"
  shows "parse_user_rows text to_int (lines_payload (map (user_list_line us) (list_users us)))
    = map (\<lambda>(name, blocked). \<lparr>ur_name = name, ur_blocked = blocked, ur_rights = int (user_permissions us name)\<rparr>) (list_users us)"
proof -
  have us: "map_of us name \<noteq> None" if "(name, b) \<in> set (list_users us)" for name b
  proof -
    from that obtain u where "(name, u) \<in> set us" by (auto simp: list_users_def)
    then show ?thesis using weak_map_of_SomeI by fastforce
  qed
  have one: "parse_user_row text to_int (user_list_line us p)
      = Some ((\<lambda>(name, blocked). \<lparr>ur_name = name, ur_blocked = blocked, ur_rights = int (user_permissions us name)\<rparr>) p)"
    "CHR 0x0A \<notin> set (user_list_line us p)" if p: "p \<in> set (list_users us)" for p
  proof -
    obtain name b where p': "p = (name, b)" by (cases p)
    from us p p' obtain u where u: "map_of us name = Some u" by blast
    note ok = users_okD [OF assms(1) u]
    have "user_permissions us name \<le> 3" using u ok by (simp add: user_permissions_def user_ok_def)
    moreover have "CHR ''|'' \<notin> set name" using assms(2) u by fastforce
    ultimately show "parse_user_row text to_int (user_list_line us p)
      = Some ((\<lambda>(name, blocked). \<lparr>ur_name = name, ur_blocked = blocked, ur_rights = int (user_permissions us name)\<rparr>) p)"
      using parse_user_list_line [of name "text" to_int us b] assms(3,4) u by (simp add: p')
    show "CHR 0x0A \<notin> set (user_list_line us p)" using ok by (auto simp: p' user_list_line_def user_ok_def field_free_def)
  qed
  have "\<forall>l \<in> set (map (user_list_line us) (list_users us)). CHR 0x0A \<notin> set l" using one(2) by auto
  from getlines_concat [OF this, of "[]"]
  have "getlines (CHR 0x0A) (lines_payload (map (user_list_line us) (list_users us))) = map (user_list_line us) (list_users us)"
    by (simp add: lines_payload_def comp_def)
  moreover have "List.map_filter (parse_user_row text to_int) (map (user_list_line us) xs)
      = map (\<lambda>(name, blocked). \<lparr>ur_name = name, ur_blocked = blocked, ur_rights = int (user_permissions us name)\<rparr>) xs"
    if "set xs \<subseteq> set (list_users us)" for xs
    using that by (induction xs) (simp_all add: map_filter_simps one(1))
  ultimately show ?thesis by (simp add: parse_user_rows_def)
qed

section \<open>Properties\<close>

text \<open>C17: The devices are kept: after any sequence of events in which the file of devices can be written and
  no added device has a separator in its name or host, a number sign in front, or a line feed, the window
  opened anew shows exactly the devices of the one before it, whatever the file held at first.\<close>

theorem devices_survive:
  assumes "\<forall>ev \<in> set evs. event_kept ev"
  shows "aw_devices (open_admin_window env (aw_fs (admin_run env evs (open_admin_window env fs))))
    = aw_devices (admin_run env evs (open_admin_window env fs))"
  using run_saved [OF open_saved assms] by (simp add: devices_saved_def open_admin_window_def update_device_list_def)

text \<open>C9: Repeated refreshes show every alert of the server exactly once and in order: the list of the
  window grows by exactly the alerts the server has at the last refresh, whatever was in the list before.
  Conditions: it is the first refresh of the selected device and no other event of the window comes in
  between; the server's list is only appended to, with numbers that go up, holds at most 200 alerts at the
  first refresh and gets at most 200 between two refreshes (the window asks for 200 and misses the older
  ones); at every refresh the lines of all its alerts together take at most 8 MiB (above that a call can
  fail, and then the same request fails again), the connection is set up, no write of either side fails, and
  the token and the length of the request are as \<open>alerts_reach_admin\<close> needs them.\<close>

theorem alerts_shown_once:
  assumes "\<forall>h. mset (ae_order env h) = mset h" "selected_device w = Some d" "aw_last_alert w (device_key d) = None"
    "\<forall>i \<le> n. polls env d senv wp (aw_calls w + i) (servers i)" "grows (Suc n) servers"
  shows "aw_alerts (admin_run env (replicate (Suc n) Refresh_alerts) w) = aw_alerts w @ map format_alert_line (all_alerts (servers n))"
  using polls_show_all [OF assms(1-3) _ assms(5), of senv wp n] assms(4) by (simp add: Let_def less_Suc_eq_le del: replicate_Suc)

definition expected_pattern :: "(string \<times> string) list \<Rightarrow> u32 list \<Rightarrow> int list \<Rightarrow> pattern_stat" where
  "expected_pattern L S K = \<lparr>ps_requests = requests_in L, ps_auth_failed = length (filter (\<lambda>p. fst p = ''auth_failed'') L),
     ps_bytes_in = word_of_nat (\<Sum>p \<leftarrow> L. unat (input_size (snd p))),
     ps_bytes_out = word_of_nat (\<Sum>p \<leftarrow> L. unat (extract_uint (snd p) ''plain_size='')),
     ps_max_single = Max (insert 0 (\<Union>p \<in> set L. sizes_in (snd p))),
     ps_total_logins = (if S = [] then 0 else last S), ps_locked = (K \<noteq> []), ps_lock_remaining = (if K = [] then 0 else last K)\<rparr>"

lemma expected_pattern_eq:
  "fold (\<lambda>i d. d\<lparr>ps_locked := True, ps_lock_remaining := i\<rparr>) K (fold (\<lambda>n d. d\<lparr>ps_total_logins := n\<rparr>) S (count_all L new_pattern))
    = expected_pattern L S K"
proof -
  have "(\<Sum>p \<leftarrow> L. f (snd p)) = word_of_nat (\<Sum>p \<leftarrow> L. unat (f (snd p)))" for f :: "string \<Rightarrow> u64"
    by (induction L) simp_all
  note sums = this [of input_size] this [of "\<lambda>a. extract_uint a ''plain_size=''"]
  show ?thesis
    unfolding locks_last logins_last
    by (cases "S = []"; cases "K = []"; intro pattern_stat.equality)
      (simp_all add: expected_pattern_def count_counters count_sums count_max sums, simp_all add: new_pattern_def)
qed

lemma analysis_rows:
  "distinct (map fst (rp_rows (render_pattern_analysis logs stats locks device)))"
  "(v, d, fl) \<in> set (rp_rows (render_pattern_analysis logs stats locks device)) \<longleftrightarrow>
     \<not> (of_user log_fields v logs = [] \<and> of_user stats_fields v stats = [] \<and> of_user lock_fields v locks = [])
     \<and> d = expected_pattern (of_user log_fields v logs) (of_user stats_fields v stats) (of_user lock_fields v locks) \<and> fl = pattern_flags d"
proof -
  let ?data = "pattern_data logs stats locks"
  let ?report = "render_pattern_analysis logs stats locks device"
  have f: "map fst (rp_rows ?report) = map fst ?data"
    by (simp add: render_pattern_analysis_def Let_def case_prod_beta)
  show "distinct (map fst (rp_rows ?report))"
    unfolding f using pattern_data_facts(3) by (simp add: dkeys_def)
  have "(v, d, fl) \<in> set (rp_rows ?report) \<longleftrightarrow> map_of ?data v = Some d \<and> fl = pattern_flags d"
    using pattern_data_facts(3) [of logs stats locks] by (auto simp: render_pattern_analysis_def Let_def dkeys_def)
  also have "map_of ?data v = Some d \<longleftrightarrow> v \<in> dom (map_of ?data) \<and> d = alookup ?data v new_pattern"
    by (auto simp: alookup_def)
  finally show "(v, d, fl) \<in> set (rp_rows ?report) \<longleftrightarrow>
     \<not> (of_user log_fields v logs = [] \<and> of_user stats_fields v stats = [] \<and> of_user lock_fields v locks = [])
     \<and> d = expected_pattern (of_user log_fields v logs) (of_user stats_fields v stats) (of_user lock_fields v locks) \<and> fl = pattern_flags d"
    unfolding pattern_data_facts(1,2) expected_pattern_eq by blast
qed

text \<open>C14: The analysis has one row for every user a line of the log, the statistics or the locks tells of,
  and no other; its numbers are those of that user's lines, the sums modulo \<open>2 ^ 64\<close>, and the report
  speaks of deviations exactly when some row reaches a threshold.\<close>

theorem analysis_exact:
  "let report = render_pattern_analysis logs stats locks device;
       L = of_user log_fields v logs; S = of_user stats_fields v stats; K = of_user lock_fields v locks in
     distinct (map fst (rp_rows report))
     \<and> ((v, d, fl) \<in> set (rp_rows report) \<longleftrightarrow> \<not> (L = [] \<and> S = [] \<and> K = []) \<and> d = expected_pattern L S K \<and> fl = pattern_flags d)
     \<and> (rp_findings report = Some True \<longleftrightarrow> (\<exists>row \<in> set (rp_rows report). snd (snd row) \<noteq> []))"
  using analysis_rows by (simp add: Let_def) (auto simp: render_pattern_analysis_def Let_def)

text \<open>A client that has not logged in writes what the analysis says of another user: a failed login under
  the name \<open>victim|file_size=n\<close> is logged with that name, and is read back as a line of \<open>victim\<close> whose
  detail holds the size: with 52428800 bytes or more the user is reported for large transfers.\<close>

theorem username_forges_analysis:
  assumes "CHR ''|'' \<notin> set victim" "52428800 \<le> n" "n < 2 ^ 64"
    "format_event_line ts ''auth_failed'' (victim @ ''|file_size='' @ show_nat n) ''auth_check'' \<in> set logs"
  shows "\<exists>d fl. (victim, d, fl) \<in> set (rp_rows (render_pattern_analysis logs stats locks device)) \<and> Large_single \<in> set fl"
proof -
  let ?line = "format_event_line ts ''auth_failed'' (victim @ ''|file_size='' @ show_nat n) ''auth_check''"
  let ?detail = "''file_size='' @ show_nat n"
  have "CHR ''|'' \<notin> set ?detail" "CHR ''|'' \<notin> set ''auth_check''" "CHR ''|'' \<notin> set ''auth_failed''" by simp_all
  then have "split_pipe ?line = [show_int ts, ''auth_failed'', victim, ?detail, ''auth_check'']"
    using assms(1) split_pipe_field [of ?detail] split_pipe_field [of "''auth_failed''"]
    by (simp add: format_event_line_def split_pipe_field split_pipe_last)
  then have lf: "log_fields ?line = Some (victim, ''auth_failed'', ?detail)" by (simp add: log_fields_def)
  have member: "(''auth_failed'', ?detail) \<in> set (of_user log_fields victim logs)"
    using assms(4) lf by (force simp: of_user_def map_filter_def)
  have "takeWhile is_digit (show_nat n) = show_nat n" using show_nat_digits by (simp add: takeWhile_eq_all_conv)
  then have size: "extract_uint ?detail ''file_size='' = word_of_nat n"
    using assms(3) by (simp add: extract_uint_def starts_with_def Let_def stoull_show_nat del: takeWhile_eq_all_conv)
  let ?L = "of_user log_fields victim logs"
  let ?d = "expected_pattern ?L (of_user stats_fields victim stats) (of_user lock_fields victim locks)"
  have "finite (\<Union>p \<in> set ?L. sizes_in (snd p))" by (simp add: sizes_in_def)
  moreover have "word_of_nat n \<in> (\<Union>p \<in> set ?L. sizes_in (snd p))"
    using member size by (force simp: sizes_in_def)
  ultimately have "word_of_nat n \<le> ps_max_single ?d" by (simp add: expected_pattern_def)
  moreover have "(50 * 1024 * 1024 :: u64) \<le> word_of_nat n"
    using assms(2,3) by (simp add: word_le_nat_alt unat_of_nat)
  ultimately have "Large_single \<in> set (pattern_flags ?d)" by (auto simp: pattern_flags_def)
  moreover have "?L \<noteq> []" using member by auto
  ultimately show ?thesis
    using analysis_rows(2) [of victim ?d "pattern_flags ?d" logs stats locks device] by blast
qed

section \<open>Concrete windows\<close>

definition demo_board :: admin_device where
  "demo_board = \<lparr>ad_name = ''n'', ad_host = ''h'', ad_port = 7444, ad_token = ''token''\<rparr>"

definition demo_aenv :: admin_wenv where
  "demo_aenv = \<lparr>ae_net = (\<lambda>n host port. demo_admin_line\<lparr>cn_reply := served demo_admin_env True False (demo_servers n)\<rparr>),
     ae_order = id, ae_path = ''devices'', ae_text = id, ae_int = (\<lambda>s. case stoi s of None \<Rightarrow> 0 | Some i \<Rightarrow> i)\<rparr>"

definition demo_awindow :: admin_window where
  "demo_awindow = admin_run demo_aenv
     [Add_device (Some ''n'') (Some ''h'') (Some 7444) (Some ''token'') W_ok, Select_row 0] (open_admin_window demo_aenv Map.empty)"

lemma demo_board_ok: "device_ok demo_board"
  by (simp add: device_ok_def demo_board_def)

lemma demo_awindow_fields:
  "selected_device demo_awindow = Some demo_board" "aw_calls demo_awindow = 0" "aw_last_alert demo_awindow k = None" "aw_alerts demo_awindow = []"
  "aw_devices demo_awindow = [demo_board]"
  by (simp_all add: demo_awindow_def admin_run_def on_add_device_def open_admin_window_def load_devices_def update_device_list_def
      selected_device_def Let_def demo_board_def)

theorem devices_survive_witness:
  "aw_devices (open_admin_window demo_aenv (aw_fs demo_awindow)) = [demo_board]"
proof -
  have "\<forall>ev \<in> set [Add_device (Some ''n'') (Some ''h'') (Some 7444) (Some ''token'') W_ok, Select_row 0]. event_kept ev"
    using demo_board_ok by (simp add: demo_board_def)
  from devices_survive [OF this, of demo_aenv Map.empty] show ?thesis
    using demo_awindow_fields(5) unfolding demo_awindow_def by simp
qed

lemma demo_all_alerts: "all_alerts (demo_servers n) = demo_alerts n"
  by (simp add: all_alerts_def demo_alerts_since)

lemma demo_polls: "polls demo_aenv demo_board demo_admin_env False n (demo_servers n)"
proof -
  note size = demo_alerts_size [of n]
  have len: "length (serialize (alerts_request demo_board since 200)) \<le> 300" if "since < 2 ^ 64" for since
    using show_u64_length [OF that] show_nat_short [of 200 2]
    by (simp add: alerts_request_def admin_request_def hd_set_def serialize_def demo_board_def)
  have t: "wire_value ''token''" by (rule wire_solid) (simp add: is_ws_def)
  have "length (serialize (alerts_request demo_board since 200)) < 65536" if "since < 2 ^ 64" for since
    using len [OF that] by simp
  moreover note demo_server_fields [of n]
  moreover have "ad_token demo_board = ''token''" by (simp add: demo_board_def)
  ultimately show ?thesis
    using size len t demo_enough
    by (simp add: polls_def Let_def demo_all_alerts demo_aenv_def demo_admin_line_def conn.defs demo_line_def)
qed

theorem alerts_shown_once_witness:
  "aw_alerts (admin_run demo_aenv [Refresh_alerts, Refresh_alerts] demo_awindow)
    = [format_alert_line (demo_alert 1), format_alert_line (demo_alert 2)]"
proof -
  have "ascending (demo_alerts i)" for i by (simp add: ascending_def demo_alerts_def demo_alert_def)
  then have g: "grows 2 demo_servers" by (auto simp: grows_def demo_all_alerts demo_alerts_def)
  have o: "\<forall>h. mset (ae_order demo_aenv h) = mset h" by (simp add: demo_aenv_def)
  from alerts_shown_once [of demo_aenv demo_awindow demo_board 1 demo_admin_env False demo_servers, OF o] g demo_polls
  show ?thesis by (simp add: demo_awindow_fields numeral_2_eq_2 demo_all_alerts) (simp add: demo_alerts_def)
qed

theorem username_forges_analysis_witness:
  "\<exists>d fl. (''bob'', d, fl) \<in> set (rp_rows (render_pattern_analysis
      [format_event_line 5 ''auth_failed'' (''bob'' @ ''|file_size='' @ show_nat 99999999) ''auth_check''] [] [] demo_board)) \<and> Large_single \<in> set fl"
  by (rule username_forges_analysis [where n = 99999999 and ts = 5]) simp_all

end
