(* ===== verification/AdminMain.thy ===== *)
theory AdminMain
  imports AdminWindow TlsLayer Paths
begin

text \<open>
  The start of the administrator's program (admin/src/main.cpp): the settings its connections are made
  with, and the session with a device they lead to (\<open>admin_send\<close> of admin/src/admin_client.cpp).
  \<open>app_dir\<close> is the directory of the program, \<open>files\<close> what can be read.
\<close>

record admin_config =
  ac_ca_file :: path
  ac_client_cert :: path
  ac_client_key :: path
  ac_verify_peer :: bool

definition resolve_admin_path :: "path \<Rightarrow> string \<Rightarrow> path" where
  "resolve_admin_path dir v = (if v = [] \<or> is_absolute v then v else path_join dir v)"

definition admin_settings :: "(path \<Rightarrow> string option) \<Rightarrow> path \<Rightarrow> admin_config" where
  "admin_settings files app_dir =
     (let dir = app_dir @ ''/config'';
          config = snd (config_load (files (path_join dir ''admin.conf'')));
          resolve = resolve_admin_path dir
      in \<lparr>ac_ca_file = resolve (config_get config ''ca_file'' []),
          ac_client_cert = resolve (config_get config ''client_cert'' []),
          ac_client_key = resolve (config_get config ''client_key'' []),
          ac_verify_peer = config_get_bool config ''verify_peer'' True\<rparr>)"

text \<open>The TLS session with a device once the socket \<open>h\<close> is connected.\<close>

definition device_session :: "tls_env \<Rightarrow> admin_config \<Rightarrow> admin_device \<Rightarrow> handle \<Rightarrow> string option \<times> tls_event list" where
  "device_session env cfg d h = client_session env (ac_ca_file cfg) (ac_client_cert cfg) (ac_client_key cfg) (ac_verify_peer cfg)
     (normalize_host (ad_host d)) h"

lemma resolved_empty [simp]: "resolve_admin_path dir v = [] \<longleftrightarrow> v = []"
  by (simp add: resolve_admin_path_def)

lemma resolved_absolute: "dir \<noteq> [] \<Longrightarrow> hd dir = CHR ''/'' \<Longrightarrow> v \<noteq> [] \<Longrightarrow> is_absolute (resolve_admin_path dir v)"
  by (simp add: resolve_admin_path_def is_absolute_def path_join_def)

lemma settings_without_file:
  assumes "files (app_dir @ ''/config/admin.conf'') = None"
  shows "admin_settings files app_dir = \<lparr>ac_ca_file = [], ac_client_cert = [], ac_client_key = [], ac_verify_peer = True\<rparr>"
  using assms
  by (simp add: admin_settings_def Let_def path_join_def config_load_def config_get_def config_get_bool_def alookup_def resolve_admin_path_def)

text \<open>Without its configuration file the program connects to nobody: it asks for a verified peer and
  names no authority, so the administrator's token is not sent to a server that cannot be verified.\<close>

theorem unconfigured_admin_refuses:
  assumes "files (app_dir @ ''/config/admin.conf'') = None" "peer_law env trusted name" "\<not> trusted None"
  shows "fst (device_session env (admin_settings files app_dir) d h) \<noteq> None"
  using assms(2,3) unfolding settings_without_file [of files app_dir, OF assms(1)]
  by (simp add: device_session_def client_session_def init_client_def load_ca_def stream_connect_def new_settings_def Let_def peer_law_def
      split: prod.split)

text \<open>With \<open>verify_peer=false\<close> in it, any server is accepted and is sent the token.\<close>

theorem unverified_admin_accepts:
  assumes "\<not> ac_verify_peer cfg" "ac_ca_file cfg = []" "ac_client_cert cfg = []" "peer_law env trusted name" "te_ctx env" "te_ssl env"
  shows "fst (device_session env cfg d h) = None"
  using assms
  by (simp add: device_session_def client_session_def init_client_def load_ca_def stream_connect_def new_settings_def Let_def peer_law_def
      split: prod.split)

end
