(* ===== verification/NetworkDialog.thy ===== *)
theory NetworkDialog
  imports WifiDialog
begin

text \<open>
  The administrator's dialog on the network of a server (admin/src/network_dialog.cpp): one request at a
  time runs in a thread of its own, a timer looks for its end and shows the answer. An event \<open>Answer\<close>
  is the end of the thread, \<open>thread_ok\<close> tells whether it could be started: the exception of a thread that
  cannot leaves the handler, which ends the program.

  \<open>to_int\<close> is \<open>QString::toInt\<close>, \<open>has\<close> the search without regard to case; the table keeps the order the
  rows were inserted in, before the widget sorts them by signal.
\<close>

section \<open>Networks\<close>

record network_row =
  nr_ssid :: string
  nr_signal :: int
  nr_frequency :: int
  nr_flags :: string
  nr_bssid :: string

definition wifi_header :: string where
  "wifi_header = ''bssid / frequency / signal level / flags / ssid'' @ [CHR 0x0A]"

definition parse_network :: "(string \<Rightarrow> int option) \<Rightarrow> string \<Rightarrow> network_row option" where
  "parse_network to_int line = (case split_on (CHR 0x09) line of
       [bssid, frequency, signal, flags, ssid] \<Rightarrow> (case (to_int signal, to_int frequency) of
           (Some s, Some f) \<Rightarrow> if f \<le> 0 then None
             else Some \<lparr>nr_ssid = ssid, nr_signal = s, nr_frequency = f, nr_flags = flags, nr_bssid = bssid\<rparr>
         | _ \<Rightarrow> None)
     | _ \<Rightarrow> None)"

definition add_network :: "(string \<Rightarrow> int option) \<Rightarrow> string \<Rightarrow> network_row list \<times> nat \<Rightarrow> network_row list \<times> nat" where
  "add_network to_int line acc = (case acc of (rows, skipped) \<Rightarrow>
     if line = [] then (rows, skipped)
     else (case parse_network to_int line of
         None \<Rightarrow> (rows, skipped + 1)
       | Some row \<Rightarrow> if length rows \<ge> 512 then (rows, skipped + 1) else (rows @ [row], skipped)))"

definition parse_networks :: "(string \<Rightarrow> int option) \<Rightarrow> string \<Rightarrow> network_row list \<times> nat" where
  "parse_networks to_int answer = fold (add_network to_int) (tl (split_on (CHR 0x0A) answer)) ([], 0)"

section \<open>The current connection\<close>

datatype wpa_text = Wpa_connected | Wpa_disconnected | Wpa_scanning | Wpa_other string

datatype connection_detail = State_detail wpa_text | Network_detail string | Bssid_detail string | Ip_detail string

definition wpa_state_text :: "string \<Rightarrow> wpa_text" where
  "wpa_state_text v = (if v = ''COMPLETED'' then Wpa_connected else if v = ''DISCONNECTED'' then Wpa_disconnected
     else if v = ''SCANNING'' then Wpa_scanning else Wpa_other v)"

definition connection_detail :: "string \<Rightarrow> connection_detail option" where
  "connection_detail line = (case cut (CHR ''='') line of
       None \<Rightarrow> None
     | Some (key, v) \<Rightarrow>
         if key = ''wpa_state'' then Some (State_detail (wpa_state_text v))
         else if key = ''ssid'' then Some (Network_detail v)
         else if key = ''bssid'' then Some (Bssid_detail v)
         else if key = ''ip_address'' then Some (Ip_detail v)
         else None)"

definition connection_details :: "string \<Rightarrow> connection_detail list" where
  "connection_details answer = List.map_filter connection_detail (split_on (CHR 0x0A) answer)"

section \<open>The dialog\<close>

record answer =
  an_ok :: bool
  an_text :: string
  an_error :: string

datatype network_status = Scan_running | Request_running | Answered | Scan_finished | Update_failed string

text \<open>\<open>nd_pending\<close>: the operation that runs, with its answer once there is one; \<open>nd_answers\<close> records the
  answers shown, as they were judged; \<open>nd_summary\<close>: after a scan?, the rows and the lines left out.\<close>

record network_dialog =
  nd_pending :: "(string \<times> answer option) option"
  nd_enabled :: bool
  nd_status :: network_status
  nd_view :: string
  nd_connection :: "connection_detail list"
  nd_rows :: "network_row list"
  nd_summary :: "(bool \<times> nat \<times> nat) option"
  nd_listed :: bool
  nd_filter :: string
  nd_sent :: "string list"
  nd_answers :: "(string \<times> answer) list"
  nd_crashed :: bool

definition start_request :: "string \<Rightarrow> bool \<Rightarrow> network_dialog \<Rightarrow> network_dialog" where
  "start_request operation thread_ok d =
     (if nd_pending d \<noteq> None then d
      else let d = d\<lparr>nd_pending := Some (operation, None), nd_enabled := False,
                 nd_status := (if operation = ''admin_wifi_scan'' then Scan_running else Request_running)\<rparr> in
        if thread_ok then d\<lparr>nd_sent := nd_sent d @ [operation]\<rparr> else d\<lparr>nd_crashed := True\<rparr>)"

definition is_wifi_list :: "string \<Rightarrow> bool" where
  "is_wifi_list operation \<longleftrightarrow> operation = ''admin_wifi_scan'' \<or> operation = ''admin_wifi_results''"

text \<open>A list of networks without its first line is no answer.\<close>

definition checked_answer :: "string \<Rightarrow> answer \<Rightarrow> answer" where
  "checked_answer operation a = (if an_ok a \<and> is_wifi_list operation \<and> \<not> starts_with wifi_header (an_text a)
     then a\<lparr>an_ok := False, an_error := ''Invalid Wi-Fi response format''\<rparr> else a)"

definition conclude :: "(string \<Rightarrow> int option) \<Rightarrow> string \<Rightarrow> answer \<Rightarrow> network_dialog \<Rightarrow> network_dialog" where
  "conclude to_int operation a d =
     (let scan = (operation = ''admin_wifi_scan''); networks = an_ok a \<and> is_wifi_list operation;
          (rows, skipped) = parse_networks to_int (an_text a)
      in d\<lparr>nd_status := (if \<not> an_ok a then Update_failed (an_error a) else if scan then Scan_finished else Answered),
           nd_answers := nd_answers d @ [(operation, a)],
           nd_view := (if an_ok a \<and> operation = ''admin_network_status'' then an_text a else nd_view d),
           nd_connection := (if an_ok a \<and> operation = ''admin_wifi_status'' then connection_details (an_text a) else nd_connection d),
           nd_rows := (if networks then rows else nd_rows d),
           nd_summary := (if networks then Some (scan, length rows, skipped) else nd_summary d),
           nd_listed := networks \<or> nd_listed d,
           nd_pending := None, nd_enabled := True\<rparr>)"

definition poll_answer :: "(string \<Rightarrow> int option) \<Rightarrow> network_dialog \<Rightarrow> network_dialog" where
  "poll_answer to_int d = (case nd_pending d of
       Some (operation, Some a) \<Rightarrow> conclude to_int operation (checked_answer operation a) d
     | _ \<Rightarrow> d)"

definition answer_arrives :: "answer \<Rightarrow> network_dialog \<Rightarrow> network_dialog" where
  "answer_arrives a d = (case nd_pending d of
     Some (operation, None) \<Rightarrow> d\<lparr>nd_pending := Some (operation, Some a)\<rparr> | _ \<Rightarrow> d)"

definition blank_dialog :: network_dialog where
  "blank_dialog = \<lparr>nd_pending = None, nd_enabled = True, nd_status = Answered, nd_view = [], nd_connection = [], nd_rows = [],
     nd_summary = None, nd_listed = False, nd_filter = [], nd_sent = [], nd_answers = [], nd_crashed = False\<rparr>"

definition open_network_dialog :: "bool \<Rightarrow> network_dialog" where
  "open_network_dialog thread_ok = start_request ''admin_network_status'' thread_ok blank_dialog"

datatype network_event = Request_click string bool | Answer answer | Poll_timer | Filter_edit string

fun network_step :: "(string \<Rightarrow> int option) \<Rightarrow> network_event \<Rightarrow> network_dialog \<Rightarrow> network_dialog" where
  "network_step to_int (Request_click operation t) d = (if nd_enabled d then start_request operation t d else d)"
| "network_step to_int (Answer a) d = answer_arrives a d"
| "network_step to_int Poll_timer d = poll_answer to_int d"
| "network_step to_int (Filter_edit s) d = d\<lparr>nd_filter := s\<rparr>"

definition network_run :: "(string \<Rightarrow> int option) \<Rightarrow> network_event list \<Rightarrow> network_dialog \<Rightarrow> network_dialog" where
  "network_run to_int evs d = fold (network_step to_int) evs d"

text \<open>The request of the dialog, as the administrator's window gives it (admin_window.cpp).\<close>

definition network_request :: "(header \<Rightarrow> header) \<Rightarrow> admin_net \<Rightarrow> admin_device \<Rightarrow> string \<Rightarrow> answer" where
  "network_request order net device operation = (case user_command order net device (hd_set ''op'' operation []) of
       Inl e \<Rightarrow> \<lparr>an_ok = False, an_text = [], an_error = e\<rparr>
     | Inr t \<Rightarrow> \<lparr>an_ok = True, an_text = t, an_error = []\<rparr>)"

text \<open>The text in the first column: a name for an empty one.\<close>

definition shown_ssid :: "string \<Rightarrow> network_row \<Rightarrow> string" where
  "shown_ssid hidden row = (if nr_ssid row = [] then hidden else nr_ssid row)"

definition qtrimmed :: "string \<Rightarrow> string" where
  "qtrimmed s = rev (dropWhile is_space (rev (dropWhile is_space s)))"

definition row_hidden :: "(string \<Rightarrow> string \<Rightarrow> bool) \<Rightarrow> string \<Rightarrow> network_dialog \<Rightarrow> network_row \<Rightarrow> bool" where
  "row_hidden has hidden d row \<longleftrightarrow> \<not> (has (qtrimmed (nd_filter d)) (shown_ssid hidden row) \<or> has (qtrimmed (nd_filter d)) (nr_bssid row))"

text \<open>The name the connection dialog starts with; \<open>None\<close>: no row is current.\<close>

definition configure_ssid :: "(network_row \<Rightarrow> bool) \<Rightarrow> network_row option \<Rightarrow> string" where
  "configure_ssid is_hidden current = (case current of
       None \<Rightarrow> []
     | Some row \<Rightarrow> if is_hidden row \<or> CHR 0x5C \<in> set (nr_ssid row) then [] else nr_ssid row)"

section \<open>The table\<close>

text \<open>What becomes of a line that is not empty.\<close>

definition network_lines :: "string \<Rightarrow> string list" where
  "network_lines answer = filter (\<lambda>l. l \<noteq> []) (tl (split_on (CHR 0x0A) answer))"

lemma add_networks:
  "fold (add_network to_int) ls (rows, k) = (rows @ take (512 - length rows) (List.map_filter (parse_network to_int) (filter (\<lambda>l. l \<noteq> []) ls)),
     k + length (filter (\<lambda>l. l \<noteq> []) ls) - length (take (512 - length rows) (List.map_filter (parse_network to_int) (filter (\<lambda>l. l \<noteq> []) ls))))"
proof (induction ls arbitrary: rows k)
  case (Cons l ls)
  have le: "length (List.map_filter f xs) \<le> length xs" for f :: "string \<Rightarrow> network_row option" and xs
    by (simp add: map_filter_def le_trans [OF length_filter_le])
  have step: "add_network to_int [] acc = acc" "l \<noteq> [] \<Longrightarrow> parse_network to_int l = None \<Longrightarrow> add_network to_int l (rows, k) = (rows, k + 1)"
    "l \<noteq> [] \<Longrightarrow> parse_network to_int l = Some row \<Longrightarrow>
       add_network to_int l (rows, k) = (if length rows \<ge> 512 then (rows, k + 1) else (rows @ [row], k))" for acc row
    by (simp_all add: add_network_def split: prod.split)
  consider "l = []" | "l \<noteq> []" "parse_network to_int l = None" | row where "l \<noteq> []" "parse_network to_int l = Some row" by blast
  then show ?case
  proof cases
    case 2
    with le [of "parse_network to_int" "filter (\<lambda>l. l \<noteq> []) ls"] show ?thesis
      by (simp add: step Cons.IH map_filter_simps)
  next
    case (3 row)
    show ?thesis
    proof (cases "length rows \<ge> 512")
      case True
      with 3 show ?thesis by (simp add: step Cons.IH map_filter_simps)
    next
      case False
      then have "512 - length rows = Suc (511 - length rows)" by simp
      with 3 False show ?thesis by (simp add: step Cons.IH map_filter_simps)
    qed
  qed (simp add: step Cons.IH)
qed (simp add: map_filter_simps)

definition format_network :: "(int \<Rightarrow> string) \<Rightarrow> network_row \<Rightarrow> string" where
  "format_network show_number r = nr_bssid r @ [CHR 0x09] @ show_number (nr_frequency r) @ [CHR 0x09] @ show_number (nr_signal r)
     @ [CHR 0x09] @ nr_flags r @ [CHR 0x09] @ nr_ssid r"

definition network_ok :: "network_row \<Rightarrow> bool" where
  "network_ok r \<longleftrightarrow> CHR 0x09 \<notin> set (nr_bssid r @ nr_flags r @ nr_ssid r) \<and> CHR 0x0A \<notin> set (nr_bssid r @ nr_flags r @ nr_ssid r)
     \<and> 0 < nr_frequency r \<and> nr_frequency r < 2 ^ 31 \<and> - (2 ^ 31) \<le> nr_signal r \<and> nr_signal r < 2 ^ 31"

lemma parse_format_network:
  assumes "network_ok r" "\<forall>i. - (2 ^ 31) \<le> i \<and> i < 2 ^ 31 \<longrightarrow> to_int (show_int i) = Some i"
  shows "parse_network to_int (format_network show_int r) = Some r"
proof -
  have free: "CHR 0x09 \<notin> set (show_int i)" for i by (rule show_int_free) (simp_all add: is_digit_def)
  have "to_int (show_int (nr_frequency r)) = Some (nr_frequency r)" "to_int (show_int (nr_signal r)) = Some (nr_signal r)"
    using assms by (auto simp: network_ok_def)
  moreover have "split_on (CHR 0x09) (format_network show_int r)
      = [nr_bssid r, show_int (nr_frequency r), show_int (nr_signal r), nr_flags r, nr_ssid r]"
    using assms(1) free by (simp add: format_network_def network_ok_def split_on_free split_on_last del: split_on.simps)
  ultimately show ?thesis using assms(1) by (simp add: parse_network_def network_ok_def)
qed

lemma read_networks:
  assumes "\<forall>r \<in> set rows. network_ok r" "length rows \<le> 512" "\<forall>i. - (2 ^ 31) \<le> i \<and> i < 2 ^ 31 \<longrightarrow> to_int (show_int i) = Some i"
  shows "parse_networks to_int (wifi_header @ concat (map (\<lambda>r. format_network show_int r @ [CHR 0x0A]) rows)) = (rows, 0)"
proof -
  have free: "CHR 0x0A \<notin> set (format_network show_int r)" "format_network show_int r \<noteq> []" if "network_ok r" for r
    using that by (auto simp: format_network_def network_ok_def)
  have split: "split_on (CHR 0x0A) (concat (map (\<lambda>r. format_network show_int r @ [CHR 0x0A]) rs)) = map (format_network show_int) rs @ [[]]"
    if "\<forall>r \<in> set rs. network_ok r" for rs
    using that by (induction rs) (simp_all add: split_on_free free)
  have "split_on (CHR 0x0A) (wifi_header @ concat (map (\<lambda>r. format_network show_int r @ [CHR 0x0A]) rows))
      = ''bssid / frequency / signal level / flags / ssid'' # map (format_network show_int) rows @ [[]]"
    using split_on_free [of "CHR 0x0A" "''bssid / frequency / signal level / flags / ssid''"] split [OF assms(1)] by (simp add: wifi_header_def del: split_on.simps)
  then have lines: "network_lines (wifi_header @ concat (map (\<lambda>r. format_network show_int r @ [CHR 0x0A]) rows)) = map (format_network show_int) rows"
    using assms(1) free(2) by (simp add: network_lines_def filter_id_conv)
  have "List.map_filter (parse_network to_int) (map (format_network show_int) rs) = rs" if "\<forall>r \<in> set rs. network_ok r" for rs
    using that parse_format_network [OF _ assms(3)] by (induction rs) (simp_all add: map_filter_simps)
  from this [OF assms(1)] lines assms(2) show ?thesis
    unfolding parse_networks_def network_lines_def add_networks by simp
qed

section \<open>What the dialog shows\<close>

definition last_good :: "(string \<Rightarrow> bool) \<Rightarrow> (string \<times> answer) list \<Rightarrow> (string \<times> answer) option" where
  "last_good P answers = (let good = filter (\<lambda>(op, a). P op \<and> an_ok a) answers in if good = [] then None else Some (last good))"

lemma last_good_snoc: "last_good P (answers @ [(op, a)]) = (if P op \<and> an_ok a then Some (op, a) else last_good P answers)"
  by (simp add: last_good_def)

definition table_of :: "(string \<Rightarrow> int option) \<Rightarrow> (string \<times> answer) option \<Rightarrow> network_row list \<times> (bool \<times> nat \<times> nat) option" where
  "table_of to_int answer = (case answer of
       None \<Rightarrow> ([], None)
     | Some (op, a) \<Rightarrow> (case parse_networks to_int (an_text a) of (rows, skipped) \<Rightarrow>
         (rows, Some (op = ''admin_wifi_scan'', length rows, skipped))))"

definition shows_answers :: "(string \<Rightarrow> int option) \<Rightarrow> network_dialog \<Rightarrow> bool" where
  "shows_answers to_int d \<longleftrightarrow>
     nd_view d = (case last_good (\<lambda>op. op = ''admin_network_status'') (nd_answers d) of None \<Rightarrow> [] | Some (op, a) \<Rightarrow> an_text a)
     \<and> nd_connection d = (case last_good (\<lambda>op. op = ''admin_wifi_status'') (nd_answers d) of None \<Rightarrow> [] | Some (op, a) \<Rightarrow> connection_details (an_text a))
     \<and> nd_rows d = fst (table_of to_int (last_good is_wifi_list (nd_answers d)))
     \<and> nd_summary d = snd (table_of to_int (last_good is_wifi_list (nd_answers d)))
     \<and> (case last_good is_wifi_list (nd_answers d) of None \<Rightarrow> True | Some (op, a) \<Rightarrow> starts_with wifi_header (an_text a))"

definition one_at_a_time :: "network_dialog \<Rightarrow> bool" where
  "one_at_a_time d \<longleftrightarrow> (nd_enabled d \<longleftrightarrow> nd_pending d = None)
     \<and> (\<not> nd_crashed d \<longrightarrow> nd_sent d = map fst (nd_answers d) @ (case nd_pending d of None \<Rightarrow> [] | Some (op, a) \<Rightarrow> [op]))"

lemma shows_cong:
  assumes "nd_view d' = nd_view d" "nd_connection d' = nd_connection d" "nd_rows d' = nd_rows d" "nd_summary d' = nd_summary d"
    "nd_answers d' = nd_answers d"
  shows "shows_answers to_int d' = shows_answers to_int d"
  using assms by (simp add: shows_answers_def)

lemma start_keeps:
  assumes "shows_answers to_int d" "one_at_a_time d"
  shows "shows_answers to_int (start_request op t d) \<and> one_at_a_time (start_request op t d)"
proof
  show "shows_answers to_int (start_request op t d)"
    using assms(1) by (subst shows_cong [of _ d]) (simp_all add: start_request_def Let_def)
  show "one_at_a_time (start_request op t d)"
    using assms(2) by (auto simp: start_request_def one_at_a_time_def Let_def)
qed

lemma checked_answer_good:
  "an_ok (checked_answer op a) \<Longrightarrow> checked_answer op a = a \<and> (is_wifi_list op \<longrightarrow> starts_with wifi_header (an_text a))"
  by (auto simp: checked_answer_def split: if_splits)

lemma conclude_fields:
  assumes "parse_networks to_int (an_text a) = (rows, k)"
  shows "nd_answers (conclude to_int op a d) = nd_answers d @ [(op, a)]" "nd_pending (conclude to_int op a d) = None"
    "nd_enabled (conclude to_int op a d)" "nd_sent (conclude to_int op a d) = nd_sent d" "nd_crashed (conclude to_int op a d) = nd_crashed d"
    "nd_view (conclude to_int op a d) = (if an_ok a \<and> op = ''admin_network_status'' then an_text a else nd_view d)"
    "nd_connection (conclude to_int op a d) = (if an_ok a \<and> op = ''admin_wifi_status'' then connection_details (an_text a) else nd_connection d)"
    "nd_rows (conclude to_int op a d) = (if an_ok a \<and> is_wifi_list op then rows else nd_rows d)"
    "nd_summary (conclude to_int op a d) = (if an_ok a \<and> is_wifi_list op then Some (op = ''admin_wifi_scan'', length rows, k) else nd_summary d)"
  unfolding conclude_def Let_def assms prod.case by (cases d; simp only: network_dialog.simps)+

lemma good_list: "an_ok a \<and> is_wifi_list op \<Longrightarrow> op \<noteq> ''admin_network_status'' \<and> op \<noteq> ''admin_wifi_status''"
  by (auto simp: is_wifi_list_def)

lemma conclude_shows:
  assumes "shows_answers to_int d" "an_ok a \<Longrightarrow> is_wifi_list op \<Longrightarrow> starts_with wifi_header (an_text a)"
  shows "shows_answers to_int (conclude to_int op a d)"
proof -
  obtain rows k where n: "parse_networks to_int (an_text a) = (rows, k)" by fastforce
  note f = conclude_fields [OF n, of op d]
  show ?thesis
  proof (cases "an_ok a \<and> is_wifi_list op")
    case True
    with good_list [OF True] assms n show ?thesis
      unfolding shows_answers_def f last_good_snoc by (simp add: table_of_def)
  next
    case False
    with assms(1) show ?thesis
      unfolding shows_answers_def f last_good_snoc by (auto simp: conj_commute)
  qed
qed

lemma poll_keeps:
  assumes "shows_answers to_int d" "one_at_a_time d"
  shows "shows_answers to_int (poll_answer to_int d) \<and> one_at_a_time (poll_answer to_int d)"
proof (cases "\<exists>op a. nd_pending d = Some (op, Some a)")
  case True
  then obtain op a where p: "nd_pending d = Some (op, Some a)" by blast
  obtain rows k where n: "parse_networks to_int (an_text (checked_answer op a)) = (rows, k)" by fastforce
  have poll: "poll_answer to_int d = conclude to_int op (checked_answer op a) d" by (simp add: poll_answer_def p)
  have "one_at_a_time (conclude to_int op (checked_answer op a) d)"
    using assms(2) p unfolding one_at_a_time_def by (simp add: conclude_fields [OF n])
  with conclude_shows [OF assms(1)] checked_answer_good [of op a] show ?thesis unfolding poll by metis
next
  case False
  then have "poll_answer to_int d = d" by (auto simp: poll_answer_def split: option.split)
  with assms show ?thesis by simp
qed

lemma network_step_keeps:
  assumes "shows_answers to_int d" "one_at_a_time d"
  shows "shows_answers to_int (network_step to_int ev d) \<and> one_at_a_time (network_step to_int ev d)"
proof (cases ev)
  case (Answer a)
  have "shows_answers to_int (answer_arrives a d)"
    using assms(1) by (subst shows_cong [of _ d]) (simp_all add: answer_arrives_def split: option.split)
  moreover have "one_at_a_time (answer_arrives a d)"
    using assms(2) by (auto simp: answer_arrives_def one_at_a_time_def split: option.split)
  ultimately show ?thesis by (simp add: Answer)
next
  case (Filter_edit s)
  with assms show ?thesis by (simp add: one_at_a_time_def shows_answers_def)
qed (use assms start_keeps poll_keeps in simp_all)

lemma network_run_keeps:
  "shows_answers to_int d \<Longrightarrow> one_at_a_time d \<Longrightarrow> shows_answers to_int (network_run to_int evs d) \<and> one_at_a_time (network_run to_int evs d)"
  unfolding network_run_def by (induction evs arbitrary: d) (simp_all add: network_step_keeps)

lemma blank_keeps: "shows_answers to_int blank_dialog" "one_at_a_time blank_dialog"
  by (simp_all add: shows_answers_def one_at_a_time_def blank_dialog_def last_good_def table_of_def)

section \<open>Properties\<close>

text \<open>C16: Whatever the user clicks and the server answers: at most one request runs, and while it does the
  buttons are off; the requests answered are those sent, in order; the address view, the connection and the
  table are each made of the last successful answer to their own request, so a failed one leaves them as
  they were; and a table is only ever made of a text with the first line of a list of networks.\<close>

theorem dialog_shows_last_answers:
  "let d = network_run to_int evs (open_network_dialog t) in shows_answers to_int d \<and> one_at_a_time d"
  using network_run_keeps start_keeps [OF blank_keeps] by (simp add: open_network_dialog_def)

text \<open>The table holds the first 512 networks of the answer that can be read, in its order, and the lines
  counted as left out are exactly the others that are not empty.\<close>

theorem network_table_bounded:
  "let (rows, skipped) = parse_networks to_int answer in
     rows = take 512 (List.map_filter (parse_network to_int) (network_lines answer))
     \<and> length rows \<le> 512 \<and> length rows + skipped = length (network_lines answer)"
proof -
  have "length (take 512 (List.map_filter (parse_network to_int) xs)) \<le> length xs" for xs
    by (simp add: map_filter_def min.coboundedI1)
  then show ?thesis
    by (simp add: parse_networks_def add_networks network_lines_def)
qed

text \<open>A list of at most 512 networks, written as the supplicant writes it, is shown completely.\<close>

theorem networks_read_back:
  assumes "\<forall>r \<in> set rows. network_ok r" "length rows \<le> 512" "\<forall>i. - (2 ^ 31) \<le> i \<and> i < 2 ^ 31 \<longrightarrow> to_int (show_int i) = Some i"
  shows "parse_networks to_int (wifi_header @ concat (map (\<lambda>r. format_network show_int r @ [CHR 0x0A]) rows)) = (rows, 0)"
  using assms by (rule read_networks)

definition demo_networks :: "network_row list" where
  "demo_networks = [\<lparr>nr_ssid = ''home'', nr_signal = - 40, nr_frequency = 2412, nr_flags = ''[WPA2]'', nr_bssid = ''b''\<rparr>,
     \<lparr>nr_ssid = [], nr_signal = - 70, nr_frequency = 5180, nr_flags = [], nr_bssid = ''c''\<rparr>]"

theorem networks_read_back_witness:
  "parse_networks stoi (wifi_header @ concat (map (\<lambda>r. format_network show_int r @ [CHR 0x0A]) demo_networks)) = (demo_networks, 0)"
proof -
  have "\<forall>i. - (2 ^ 31) \<le> i \<and> i < 2 ^ 31 \<longrightarrow> stoi (show_int i) = Some i" using stoi_show_int by blast
  moreover have "\<forall>r \<in> set demo_networks. network_ok r" "length demo_networks \<le> 512" by (simp_all add: demo_networks_def network_ok_def)
  ultimately show ?thesis by (intro networks_read_back)
qed

end
