(* ===== verification/SecureBuffer.thy ===== *)
theory SecureBuffer
  imports Encoding
begin

text \<open>
  Buffers for secrets (common/src/secure_memory.cpp): memory that the system is asked to lock while a
  buffer holds it and that is overwritten before it is given back. The blocks a program was ever given
  are listed in \<open>me_blocks\<close>, a pointer is a position there; what a block holds after it was freed is what
  the allocator finds. \<open>sh_buffers\<close> are the objects, \<open>None\<close> once destroyed.

  Locking is the system's, by pages of 4096 bytes: \<open>mlock\<close> locks every page a range touches or none, as
  an input tells, \<open>munlock\<close> unlocks them all at once however often they were locked, and \<open>madvise\<close> takes
  only a range that starts at a page. The code ignores all three results.
\<close>

record mem_block =
  mb_data :: "byte list"
  mb_addr :: nat
  mb_freed :: bool

record memory =
  me_blocks :: "mem_block list"
  me_locked :: "nat set"
  me_nodump :: "nat set"

record secure_buffer =
  sb_data :: "nat option"
  sb_size :: nat

record secure_heap =
  sh_memory :: memory
  sh_buffers :: "secure_buffer option list"

abbreviation sh_blocks :: "secure_heap \<Rightarrow> mem_block list" where
  "sh_blocks h \<equiv> me_blocks (sh_memory h)"

definition empty_buffer :: secure_buffer where
  "empty_buffer = \<lparr>sb_data = None, sb_size = 0\<rparr>"

section \<open>Operations\<close>

text \<open>The pages the \<open>n\<close> bytes from an address on touch.\<close>

definition pages :: "nat \<Rightarrow> nat \<Rightarrow> nat set" where
  "pages a n = (if n = 0 then {} else {a div 4096 .. (a + n - 1) div 4096})"

definition lock_pages :: "bool \<Rightarrow> nat \<Rightarrow> nat \<Rightarrow> memory \<Rightarrow> memory" where
  "lock_pages mlock a n m =
     m\<lparr>me_locked := (if mlock then me_locked m \<union> pages a n else me_locked m),
       me_nodump := (if a mod 4096 = 0 then me_nodump m \<union> pages a n else me_nodump m)\<rparr>"

definition unlock_pages :: "nat \<Rightarrow> nat \<Rightarrow> memory \<Rightarrow> memory" where
  "unlock_pages a n m = m\<lparr>me_locked := me_locked m - pages a n\<rparr>"

text \<open>\<open>addr\<close> is where the memory is, if there is any; \<open>new\<close> throws when there is none. The block is
  set to zero at once.\<close>

definition allocate :: "nat option \<Rightarrow> bool \<Rightarrow> nat \<Rightarrow> secure_buffer \<Rightarrow> memory \<Rightarrow> (secure_buffer \<times> memory) option" where
  "allocate addr mlock n b m =
     (if n = 0 then Some (b, m)
      else (case addr of
          None \<Rightarrow> None
        | Some a \<Rightarrow> Some (\<lparr>sb_data = Some (length (me_blocks m)), sb_size = n\<rparr>,
            lock_pages mlock a n (m\<lparr>me_blocks := me_blocks m @ [\<lparr>mb_data = replicate n 0, mb_addr = a, mb_freed = False\<rparr>]\<rparr>))))"

definition free_block :: "nat \<Rightarrow> memory \<Rightarrow> memory" where
  "free_block p m = m\<lparr>me_blocks := (me_blocks m)[p := (me_blocks m ! p)\<lparr>mb_freed := True\<rparr>]\<rparr>"

definition release :: "secure_buffer \<Rightarrow> memory \<Rightarrow> secure_buffer \<times> memory" where
  "release b m = (case sb_data b of
       None \<Rightarrow> (b, m)
     | Some p \<Rightarrow>
         let block = me_blocks m ! p;
             m = m\<lparr>me_blocks := (me_blocks m)[p := block\<lparr>mb_data := secure_zero (mb_data block) (sb_size b)\<rparr>]\<rparr>
         in (empty_buffer, free_block p (unlock_pages (mb_addr block) (sb_size b) m)))"

definition to_vector :: "secure_buffer \<Rightarrow> memory \<Rightarrow> byte list" where
  "to_vector b m = (case sb_data b of None \<Rightarrow> [] | Some p \<Rightarrow> take (sb_size b) (mb_data (me_blocks m ! p)))"

definition buffer_at :: "nat \<Rightarrow> secure_heap \<Rightarrow> secure_buffer option" where
  "buffer_at i h = (if i < length (sh_buffers h) then sh_buffers h ! i else None)"

definition put_buffer :: "nat \<Rightarrow> secure_buffer option \<Rightarrow> secure_heap \<Rightarrow> secure_heap" where
  "put_buffer i b h = h\<lparr>sh_buffers := (sh_buffers h)[i := b]\<rparr>"

text \<open>What happens to buffers: an object that is gone gives no event. Where memory may be needed the
  event says where it is and whether it can be locked.\<close>

datatype buffer_event = Construct nat "nat option" bool | Move_construct nat | Move_assign nat nat
  | Resize nat nat "nat option" bool | Write_data nat nat byte | Destroy nat

definition store :: "nat \<Rightarrow> nat \<Rightarrow> byte \<Rightarrow> memory \<Rightarrow> memory" where
  "store p k v m = m\<lparr>me_blocks := (me_blocks m)[p := (me_blocks m ! p)\<lparr>mb_data := (mb_data (me_blocks m ! p))[k := v]\<rparr>]\<rparr>"

fun buffer_step :: "buffer_event \<Rightarrow> secure_heap \<Rightarrow> secure_heap" where
  "buffer_step (Construct n addr mlock) h = (case allocate addr mlock n empty_buffer (sh_memory h) of
       None \<Rightarrow> h
     | Some (b, m) \<Rightarrow> h\<lparr>sh_memory := m, sh_buffers := sh_buffers h @ [Some b]\<rparr>)"
| "buffer_step (Move_construct i) h = (case buffer_at i h of
       None \<Rightarrow> h
     | Some b \<Rightarrow> put_buffer i (Some empty_buffer) (h\<lparr>sh_buffers := sh_buffers h @ [Some b]\<rparr>))"
| "buffer_step (Move_assign i j) h = (case (buffer_at i h, buffer_at j h) of
       (Some a, Some b) \<Rightarrow> if i = j then h
         else (case release a (sh_memory h) of (a, m) \<Rightarrow>
           put_buffer j (Some empty_buffer) (put_buffer i (Some b) (h\<lparr>sh_memory := m\<rparr>)))
     | _ \<Rightarrow> h)"
| "buffer_step (Resize i n addr mlock) h = (case buffer_at i h of
       None \<Rightarrow> h
     | Some b \<Rightarrow> (case release b (sh_memory h) of (b, m) \<Rightarrow> (case allocate addr mlock n b m of
           None \<Rightarrow> put_buffer i (Some b) (h\<lparr>sh_memory := m\<rparr>)
         | Some (b, m) \<Rightarrow> put_buffer i (Some b) (h\<lparr>sh_memory := m\<rparr>))))"
| "buffer_step (Write_data i k v) h = (case buffer_at i h of
       Some b \<Rightarrow> (case sb_data b of
           Some p \<Rightarrow> if k < sb_size b then h\<lparr>sh_memory := store p k v (sh_memory h)\<rparr> else h
         | None \<Rightarrow> h)
     | None \<Rightarrow> h)"
| "buffer_step (Destroy i) h = (case buffer_at i h of
       None \<Rightarrow> h
     | Some b \<Rightarrow> (case release b (sh_memory h) of (b, m) \<Rightarrow> put_buffer i None (h\<lparr>sh_memory := m\<rparr>)))"

definition buffer_run :: "buffer_event list \<Rightarrow> secure_heap" where
  "buffer_run evs = fold buffer_step evs \<lparr>sh_memory = \<lparr>me_blocks = [], me_locked = {}, me_nodump = {}\<rparr>, sh_buffers = []\<rparr>"

section \<open>Who holds a block\<close>

text \<open>A buffer that holds the block \<open>p\<close>, and how many do.\<close>

definition holds :: "nat \<Rightarrow> secure_buffer option \<Rightarrow> bool" where
  "holds p x \<longleftrightarrow> (case x of None \<Rightarrow> False | Some b \<Rightarrow> sb_data b = Some p)"

definition owners :: "nat \<Rightarrow> secure_buffer option list \<Rightarrow> nat" where
  "owners p os = length (filter (holds p) os)"

definition block_ok :: "mem_block \<Rightarrow> nat \<Rightarrow> bool" where
  "block_ok m k \<longleftrightarrow> (if mb_freed m then k = 0 \<and> (\<forall>x \<in> set (mb_data m). x = 0) else k = 1)"

definition buffers_ok :: "mem_block list \<Rightarrow> secure_buffer option list \<Rightarrow> bool" where
  "buffers_ok bs os \<longleftrightarrow> (\<forall>p < length bs. block_ok (bs ! p) (owners p os))
     \<and> (\<forall>b. Some b \<in> set os \<longrightarrow> (case sb_data b of None \<Rightarrow> sb_size b = 0
          | Some p \<Rightarrow> p < length bs \<and> sb_size b = length (mb_data (bs ! p))))"

lemma owners_update:
  assumes "i < length os"
  shows "owners p (os[i := y]) + (if holds p (os ! i) then 1 else 0) = owners p os + (if holds p y then 1 else 0)"
  using assms
proof (induction os arbitrary: i)
  case (Cons x os)
  then show ?case by (cases i) (auto simp: owners_def)
qed simp

lemma owners_append [simp]: "owners p (os @ [x]) = owners p os + (if holds p x then 1 else 0)"
  by (simp add: owners_def)

lemma empty_buffer_simps [simp]: "sb_data empty_buffer = None" "sb_size empty_buffer = 0"
  by (simp_all add: empty_buffer_def)

lemma holds_simps [simp]: "\<not> holds p None" "holds p (Some b) \<longleftrightarrow> sb_data b = Some p"
  by (simp_all add: holds_def)

lemma no_owner_beyond:
  assumes "buffers_ok bs os" "length bs \<le> p"
  shows "owners p os = 0"
  using assms by (auto simp: owners_def filter_empty_conv buffers_ok_def holds_def split: option.splits)

lemma buffers_release:
  assumes "buffers_ok (me_blocks m) os" "i < length os" "os ! i = Some b" "release b m = (b', m')"
  shows "b' = empty_buffer \<and> buffers_ok (me_blocks m') (os[i := Some empty_buffer])"
proof (cases "sb_data b")
  case None
  have "sb_size b = 0" using assms(1-3) None by (force simp: buffers_ok_def dest: nth_mem)
  with None have b: "b = empty_buffer" by (simp add: empty_buffer_def)
  have "os[i := Some empty_buffer] = os" using assms(3) b by (metis list_update_id)
  with assms None b show ?thesis by (simp add: release_def)
next
  case (Some p)
  let ?bs = "me_blocks m"
  have p: "p < length ?bs" "sb_size b = length (mb_data (?bs ! p))" using assms(1-3) Some by (force simp: buffers_ok_def dest: nth_mem)+
  let ?m = "(?bs ! p)\<lparr>mb_data := replicate (sb_size b) 0, mb_freed := True\<rparr>"
  have bs': "me_blocks m' = ?bs[p := ?m]" "b' = empty_buffer"
    using assms(4) Some p by (auto simp: release_def unlock_pages_def free_block_def secure_zero_all Let_def)
  have one: "owners p os = 1" if "0 < owners p os" using assms(1) p(1) that by (auto simp: buffers_ok_def block_ok_def split: if_splits)
  have upd: "owners q (os[i := Some empty_buffer]) = (if q = p then owners p os - 1 else owners q os)" for q
    using owners_update [OF assms(2), of q "Some empty_buffer"] assms(3) Some by auto
  have pos: "0 < owners p os" using owners_update [OF assms(2), of p "Some empty_buffer"] assms(3) Some by simp
  have "block_ok (me_blocks m' ! q) (owners q (os[i := Some empty_buffer]))" if "q < length (me_blocks m')" for q
    using that assms(1) one [OF pos] upd p by (auto simp: bs' buffers_ok_def block_ok_def nth_list_update)
  moreover have "case sb_data c of None \<Rightarrow> sb_size c = 0 | Some q \<Rightarrow> q < length (me_blocks m') \<and> sb_size c = length (mb_data (me_blocks m' ! q))"
    if c: "Some c \<in> set (os[i := Some empty_buffer])" for c
  proof -
    have "Some c \<in> insert (Some empty_buffer) (set os)" using c set_update_subset_insert [of os i "Some empty_buffer"] by blast
    then show ?thesis using assms(1) p by (auto simp: buffers_ok_def empty_buffer_def bs' nth_list_update split: option.splits)
  qed
  ultimately show ?thesis by (simp add: buffers_ok_def bs'(2))
qed

lemma buffers_allocate:
  assumes "buffers_ok (me_blocks m) os" "i < length os" "os ! i = Some empty_buffer" "allocate addr mlock n empty_buffer m = Some (b, m')"
  shows "buffers_ok (me_blocks m') (os[i := Some b])"
proof (cases "n = 0")
  case True
  with assms show ?thesis by (simp add: allocate_def list_update_same_conv [THEN iffD2])
next
  case False
  obtain a where b: "b = \<lparr>sb_data = Some (length (me_blocks m)), sb_size = n\<rparr>"
    "me_blocks m' = me_blocks m @ [\<lparr>mb_data = replicate n 0, mb_addr = a, mb_freed = False\<rparr>]"
    using assms(4) False by (auto simp: allocate_def lock_pages_def split: if_splits option.splits)
  have upd: "owners q (os[i := Some b]) = (if q = length (me_blocks m) then 1 else owners q os)" for q
    using owners_update [OF assms(2), of q "Some b"] assms(3) no_owner_beyond [OF assms(1), of "length (me_blocks m)"] b(1) by auto
  have "block_ok ((me_blocks m') ! q) (owners q (os[i := Some b]))" if "q < length (me_blocks m')" for q
  proof (cases "q = length (me_blocks m)")
    case False
    with that have "q < length (me_blocks m)" by (simp add: b(2))
    with assms(1) have "block_ok ((me_blocks m) ! q) (owners q os)" by (simp add: buffers_ok_def)
    with False \<open>q < length (me_blocks m)\<close> show ?thesis by (simp add: b(2) nth_append upd)
  qed (simp add: b(2) nth_append upd block_ok_def)
  moreover have "case sb_data c of None \<Rightarrow> sb_size c = 0 | Some q \<Rightarrow> q < length (me_blocks m') \<and> sb_size c = length (mb_data ((me_blocks m') ! q))"
    if c: "Some c \<in> set (os[i := Some b])" for c
  proof (cases "c = b")
    case False
    with c set_update_subset_insert [of os i "Some b"] have "Some c \<in> set os" by blast
    with assms(1) have "case sb_data c of None \<Rightarrow> sb_size c = 0 | Some q \<Rightarrow> q < length (me_blocks m) \<and> sb_size c = length (mb_data ((me_blocks m) ! q))"
      by (simp add: buffers_ok_def)
    then show ?thesis by (simp add: b(2) nth_append split: option.splits)
  qed (simp add: b)
  ultimately show ?thesis by (simp add: buffers_ok_def)
qed

lemma buffers_drop:
  assumes "buffers_ok bs os" "i < length os" "os ! i = Some empty_buffer \<or> os ! i = None" "x = Some empty_buffer \<or> x = None"
  shows "buffers_ok bs (os[i := x])"
proof -
  have "owners q (os[i := x]) = owners q os" for q
    using owners_update [OF assms(2), of q x] assms(3,4) by auto
  moreover have "Some c \<in> insert (Some empty_buffer) (set os)" if "Some c \<in> set (os[i := x])" for c
    using that set_update_subset_insert [of os i x] assms(4) by auto
  ultimately show ?thesis using assms(1) by (fastforce simp: buffers_ok_def)
qed

lemma buffers_move:
  assumes "buffers_ok bs os" "i < length os" "j < length os" "i \<noteq> j" "os ! i = Some empty_buffer" "os ! j = Some b"
  shows "buffers_ok bs (os[i := Some b, j := Some empty_buffer])"
proof -
  have "owners q (os[i := Some b, j := Some empty_buffer]) = owners q os" for q
    using owners_update [OF assms(2), of q "Some b"] owners_update [of j "os[i := Some b]" q "Some empty_buffer"] assms(3-6) by simp
  moreover have "Some c \<in> insert (Some empty_buffer) (set os)" if "Some c \<in> set (os[i := Some b, j := Some empty_buffer])" for c
    using that set_update_subset_insert [of "os[i := Some b]" j "Some empty_buffer"] set_update_subset_insert [of os i "Some b"]
      nth_mem [OF assms(3)] assms(6) by auto
  ultimately show ?thesis using assms(1) by (fastforce simp: buffers_ok_def)
qed

lemma buffers_append: "buffers_ok bs os \<Longrightarrow> buffers_ok bs (os @ [Some empty_buffer])"
  by (auto simp: buffers_ok_def)

lemma buffers_write:
  assumes "buffers_ok bs os" "i < length os" "os ! i = Some b" "sb_data b = Some p"
  shows "buffers_ok (bs[p := (bs ! p)\<lparr>mb_data := (mb_data (bs ! p))[k := v]\<rparr>]) os"
proof -
  have "0 < owners p os" using owners_update [OF assms(2), of p None] assms(3,4) by simp
  moreover have "p < length bs" using assms by (force simp: buffers_ok_def dest: nth_mem)
  ultimately have "\<not> mb_freed (bs ! p)" using assms(1) by (auto simp: buffers_ok_def block_ok_def split: if_splits)
  then have "block_ok (bs[p := (bs ! p)\<lparr>mb_data := (mb_data (bs ! p))[k := v]\<rparr>] ! q) m = block_ok (bs ! q) m" for q m
    using \<open>p < length bs\<close> by (cases "q = p") (simp_all add: block_ok_def)
  moreover have "length (mb_data (bs[p := (bs ! p)\<lparr>mb_data := (mb_data (bs ! p))[k := v]\<rparr>] ! q)) = length (mb_data (bs ! q))" for q
    using \<open>p < length bs\<close> by (cases "q = p") simp_all
  ultimately show ?thesis using assms(1) by (simp add: buffers_ok_def cong: option.case_cong)
qed

lemma buffer_at_Some: "buffer_at i h = Some b \<longleftrightarrow> i < length (sh_buffers h) \<and> sh_buffers h ! i = Some b"
  by (simp add: buffer_at_def)

lemma buffer_step_ok:
  assumes "buffers_ok (sh_blocks h) (sh_buffers h)"
  shows "buffers_ok (sh_blocks (buffer_step ev h)) (sh_buffers (buffer_step ev h))"
proof (cases ev)
  case (Construct n addr mlock)
  with buffers_allocate [OF buffers_append [OF assms], of "length (sh_buffers h)" addr mlock n] assms show ?thesis
    by (auto split: option.split)
next
  case (Move_construct i)
  show ?thesis
  proof (cases "buffer_at i h")
    case (Some b)
    then have i: "i < length (sh_buffers h)" "sh_buffers h ! i = Some b" by (simp_all add: buffer_at_Some)
    with buffers_move [OF buffers_append [OF assms], of "length (sh_buffers h)" i b] show ?thesis
      by (simp add: Move_construct Some put_buffer_def nth_append list_update_append)
  qed (use Move_construct assms in simp)
next
  case (Move_assign i j)
  show ?thesis
  proof (cases "\<exists>a b. buffer_at i h = Some a \<and> buffer_at j h = Some b \<and> i \<noteq> j")
    case True
    then obtain a b where b: "buffer_at i h = Some a" "buffer_at j h = Some b" "i \<noteq> j" by blast
    obtain a' m where r: "release a (sh_memory h) = (a', m)" by fastforce
    have "buffers_ok (me_blocks m) ((sh_buffers h)[i := Some empty_buffer])" using buffers_release [OF assms _ _ r] b(1) by (simp add: buffer_at_Some)
    from buffers_move [OF this, of i j b] b have
      "buffers_ok (me_blocks m) ((sh_buffers h)[i := Some b, j := Some empty_buffer])" by (simp add: buffer_at_Some)
    with b(3) r show ?thesis by (simp add: Move_assign b(1,2) put_buffer_def)
  next
    case False
    with Move_assign assms show ?thesis by (auto split: option.split)
  qed
next
  case (Resize i n addr mlock)
  show ?thesis
  proof (cases "buffer_at i h")
    case (Some b)
    obtain b' m where r: "release b (sh_memory h) = (b', m)" by fastforce
    have ok: "b' = empty_buffer" "buffers_ok (me_blocks m) ((sh_buffers h)[i := Some empty_buffer])"
      using buffers_release [OF assms _ _ r, of i] Some by (auto simp: buffer_at_Some)
    have "i < length (sh_buffers h)" using Some by (simp add: buffer_at_Some)
    with buffers_allocate [OF ok(2), of i addr mlock n] r ok show ?thesis
      by (auto simp: Resize Some put_buffer_def split: option.split)
  qed (use Resize assms in simp)
next
  case (Write_data i k v)
  with assms buffers_write [OF assms, of i] show ?thesis
    using buffer_at_Some [of i h] by (auto simp: store_def split: option.split)
next
  case (Destroy i)
  show ?thesis
  proof (cases "buffer_at i h")
    case (Some b)
    obtain b' m where r: "release b (sh_memory h) = (b', m)" by fastforce
    have "buffers_ok (me_blocks m) ((sh_buffers h)[i := Some empty_buffer])" using buffers_release [OF assms _ _ r] Some by (simp add: buffer_at_Some)
    moreover have "i < length (sh_buffers h)" using Some by (simp add: buffer_at_Some)
    ultimately have "buffers_ok (me_blocks m) ((sh_buffers h)[i := None])" using buffers_drop [of "me_blocks m" "(sh_buffers h)[i := Some empty_buffer]" i None] by simp
    with r show ?thesis by (simp add: Destroy Some put_buffer_def)
  qed (use Destroy assms in simp)
qed

lemma buffer_run_ok: "buffers_ok (sh_blocks (buffer_run evs)) (sh_buffers (buffer_run evs))"
proof -
  have "buffers_ok (sh_blocks h) (sh_buffers h) \<Longrightarrow> buffers_ok (sh_blocks (fold buffer_step evs h)) (sh_buffers (fold buffer_step evs h))" for h
    by (induction evs arbitrary: h) (simp_all add: buffer_step_ok)
  then show ?thesis by (simp add: buffer_run_def buffers_ok_def)
qed

section \<open>Locks\<close>

lemma released_pages:
  assumes "sb_data b = Some p"
  shows "me_locked (snd (release b m)) = me_locked m - pages (mb_addr (me_blocks m ! p)) (sb_size b)"
  using assms by (simp add: release_def unlock_pages_def free_block_def Let_def)

text \<open>Locks are not counted: two small buffers on one page are both locked, and when the first is gone
  the second, still in use, is not locked any more.\<close>

lemma release_unlocks_neighbour:
  "let h = buffer_run [Construct 32 (Some 8208) True, Construct 32 (Some 8256) True] in
     pages 8256 32 \<subseteq> me_locked (sh_memory h) \<and> me_locked (sh_memory (buffer_step (Destroy 0) h)) = {}
     \<and> owners 1 (sh_buffers (buffer_step (Destroy 0) h)) = 1"
  by (auto simp: buffer_run_def allocate_def release_def lock_pages_def unlock_pages_def free_block_def buffer_at_def put_buffer_def
      Let_def pages_def owners_def)

text \<open>The memory of \<open>new\<close> seldom starts at a page: then nothing is left out of a core dump.\<close>

lemma dump_needs_aligned: "a mod 4096 \<noteq> 0 \<Longrightarrow> me_nodump (lock_pages mlock a n m) = me_nodump m"
  by (simp add: lock_pages_def)

section \<open>Properties\<close>

text \<open>C15: Whatever is done with buffers, whether or not there is memory and whether or not it can be locked: a
  block that was given back held only zeros, every other block belongs to exactly one buffer, and a buffer
  is as long as its block. So when every buffer is gone, every block was given back, and no secret is left
  in one. (Of the locks nothing is promised: they may be refused, and are lost when a neighbour on the
  same page is released.)\<close>

theorem freed_memory_is_cleared:
  assumes "h = buffer_run evs" "p < length (sh_blocks h)"
  shows "(if mb_freed (sh_blocks h ! p) then owners p (sh_buffers h) = 0 \<and> set (mb_data (sh_blocks h ! p)) \<subseteq> {0}
       else owners p (sh_buffers h) = 1)
    \<and> (\<forall>b. Some b \<in> set (sh_buffers h) \<longrightarrow> sb_data b = Some p \<longrightarrow> sb_size b = length (mb_data (sh_blocks h ! p)))
    \<and> (list_all (\<lambda>x. x = None) (sh_buffers h) \<longrightarrow> mb_freed (sh_blocks h ! p) \<and> set (mb_data (sh_blocks h ! p)) \<subseteq> {0})"
proof -
  note ok = buffer_run_ok [of evs, folded assms(1)]
  have b: "block_ok (sh_blocks h ! p) (owners p (sh_buffers h))" using ok assms(2) by (simp add: buffers_ok_def)
  have "sb_size b = length (mb_data (sh_blocks h ! p))" if "Some b \<in> set (sh_buffers h)" "sb_data b = Some p" for b
    using ok that by (force simp: buffers_ok_def)
  moreover have "owners p (sh_buffers h) = 0" if "list_all (\<lambda>x. x = None) (sh_buffers h)"
    using that by (auto simp: owners_def filter_empty_conv list_all_iff)
  ultimately show ?thesis using b by (auto simp: block_ok_def split: if_splits)
qed

definition demo_buffers :: secure_heap where
  "demo_buffers = buffer_run [Construct 2 (Some 4100) True, Write_data 0 1 7, Move_construct 0, Resize 1 3 None False]"

theorem freed_memory_is_cleared_witness:
  "mb_freed (sh_blocks demo_buffers ! 0) \<and> set (mb_data (sh_blocks demo_buffers ! 0)) \<subseteq> {0}"
proof -
  have "0 < length (sh_blocks demo_buffers)" "mb_freed (sh_blocks demo_buffers ! 0)"
    by (simp_all add: demo_buffers_def buffer_run_def allocate_def release_def lock_pages_def unlock_pages_def free_block_def
        store_def buffer_at_def put_buffer_def Let_def)
  with freed_memory_is_cleared [OF demo_buffers_def, of 0] show ?thesis by auto
qed

end
