(* ===== verification/ServerMain.thy ===== *)
theory ServerMain
  imports DemoServer NetSocket Paths
begin

text \<open>
  The server's program: the arguments, the search for the configuration and the start-up of \<open>main\<close>
  (server/src/main.cpp), the administration port (server/src/admin_server.cpp), and the sessions that
  follow, one after the other.

  The outcomes of the start are the record \<open>start_env\<close>; the directories can be created. A session runs to
  its end before the next one starts: in the program each has a thread of its own.
\<close>

section \<open>Arguments and configuration\<close>

datatype server_args = Show_help | Config_path_missing | Bad_arguments | Run_server path | Run_init path string string

text \<open>The arguments after the program's name.\<close>

definition parse_server_args :: "string list \<Rightarrow> server_args" where
  "parse_server_args argv =
     (if argv = [''--help''] then Show_help
      else let given = (argv \<noteq> [] \<and> hd argv = ''--config'') in
        if given \<and> (length argv < 2 \<or> argv ! 1 = []) then Config_path_missing
        else let config_path = (if given then argv ! 1 else []); rest = (if given then drop 2 argv else argv);
                 init_user = (length rest = 3 \<and> hd rest = ''--init-user'') in
          if rest \<noteq> [] \<and> \<not> init_user then Bad_arguments
          else if init_user then Run_init config_path (rest ! 1) (rest ! 2)
          else Run_server config_path)"

definition server_candidates :: "path \<Rightarrow> path \<Rightarrow> path list" where
  "server_candidates exe cwd =
     (let conf = (\<lambda>d. path_join (path_join d ''config'') ''server.conf'') in
      [conf (parent_path exe), conf (path_join (parent_path exe) ''..''), conf (path_join cwd ''..'')])"

definition load_server_config :: "(path \<Rightarrow> string option) \<Rightarrow> path \<Rightarrow> path \<Rightarrow> path \<Rightarrow> config option" where
  "load_server_config files exe cwd config_path =
     (case List.find (\<lambda>p. files p \<noteq> None)
         (if config_path = [] then ''config/server.conf'' # server_candidates exe cwd else [config_path]) of
        None \<Rightarrow> None
      | Some p \<Rightarrow> Some (snd (config_load (files p))))"

section \<open>The start\<close>

text \<open>\<open>st_tls\<close> is the error of the TLS context made from a configuration, \<open>st_listen\<close> what the resolver
  and the system make of an address.\<close>

record start_env =
  st_files :: "path \<Rightarrow> string option"
  st_exe :: path
  st_cwd :: path
  st_net :: bool
  st_tls :: "config \<Rightarrow> string option"
  st_listen :: "string \<Rightarrow> int \<Rightarrow> binding_attempt list option"

text \<open>\<open>Serving\<close>: the port that waits for clients, whether the administration port was started, the state.\<close>

datatype server_end = Exited nat "srv option" | Serving handle bool srv

definition address_text :: "string \<Rightarrow> int \<Rightarrow> string" where
  "address_text host port = host @ '':'' @ show_int port"

definition start_serving :: "start_env \<Rightarrow> config \<Rightarrow> srv \<Rightarrow> server_end" where
  "start_serving st c s =
     (if st_tls st c \<noteq> None then Exited 1 (Some s)
      else let admin = (s_admin_token s \<noteq> []);
               s = (if admin
                    then io_event ''admin_server_start'' ''system''
                      (address_text (config_get c ''admin_host'' ''0.0.0.0'') (config_get_int c ''admin_port'' 7444)) s
                    else io_event ''admin_server_disabled'' ''system'' ''admin_token not set'' s);
               host = config_get c ''listen_host'' ''0.0.0.0''; port = config_get_int c ''listen_port'' 7443
           in (case listen_on (st_listen st host port) of
               (Some e, h, tr) \<Rightarrow> Exited 1 (Some s)
             | (None, h, tr) \<Rightarrow> Serving h admin (io_event ''server_start'' ''system'' (address_text host port) s)))"

definition server_run :: "('z) admin_env_scheme \<Rightarrow> start_env \<Rightarrow> rng \<Rightarrow> io \<Rightarrow> path \<Rightarrow> (string \<times> string) option \<Rightarrow> server_end" where
  "server_run env st rng io config_path new_user =
     (case load_server_config (st_files st) (st_exe st) (st_cwd st) config_path of
        None \<Rightarrow> Exited 1 None
      | Some c \<Rightarrow>
          if \<not> st_net st then Exited 1 None
          else let s = server_init env c rng io in
            (case new_user of
               Some (username, password) \<Rightarrow> (case init_user env username password s of
                   (ok, s) \<Rightarrow> Exited (if ok then 0 else 1) (Some s))
             | None \<Rightarrow> start_serving st c s))"

definition server_main :: "('z) admin_env_scheme \<Rightarrow> start_env \<Rightarrow> rng \<Rightarrow> io \<Rightarrow> string list \<Rightarrow> server_end" where
  "server_main env st rng io argv = (case parse_server_args argv of
       Show_help \<Rightarrow> Exited 0 None
     | Config_path_missing \<Rightarrow> Exited 1 None
     | Bad_arguments \<Rightarrow> Exited 1 None
     | Run_server config_path \<Rightarrow> server_run env st rng io config_path None
     | Run_init config_path username password \<Rightarrow> server_run env st rng io config_path (Some (username, password)))"

section \<open>The ports\<close>

text \<open>The loop of \<open>main\<close>: the results of \<open>accept\<close>, and the connections that get a session.\<close>

fun accept_loop :: "handle \<Rightarrow> int list \<Rightarrow> handle list" where
  "accept_loop h [] = []"
| "accept_loop h (r # rs) = (case sock_accept r h of
       (None, c, tr) \<Rightarrow> c # accept_loop h rs | (Some e, c, tr) \<Rightarrow> accept_loop h rs)"

text \<open>One turn of the administration port: whether it still runs, whether a client waits, the result of
  \<open>accept\<close>, whether it still runs after that.\<close>

record admin_turn =
  at_running :: bool
  at_readable :: bool
  at_client :: int
  at_still :: bool

fun admin_loop :: "handle \<Rightarrow> admin_turn list \<Rightarrow> handle list" where
  "admin_loop h [] = []"
| "admin_loop h (t # ts) =
     (if \<not> at_running t then []
      else if \<not> at_readable t then admin_loop h ts
      else (case sock_accept (at_client t) h of (e, c, tr) \<Rightarrow>
        if \<not> at_still t then []
        else if e \<noteq> None then admin_loop h ts
        else c # admin_loop h ts))"

text \<open>The thread of the administration port: the connections it hands over, the state, and whether it
  is still running in the eyes of \<open>start\<close>.\<close>

definition admin_thread :: "bool \<Rightarrow> binding_attempt list option \<Rightarrow> admin_turn list \<Rightarrow> srv \<Rightarrow> handle list \<times> bool \<times> srv" where
  "admin_thread net addresses turns s =
     (if \<not> net then ([], True, s)
      else (case listen_on addresses of
          (Some e, h, tr) \<Rightarrow> ([], False, io_event ''admin_listen_error'' ''system'' e s)
        | (None, h, tr) \<Rightarrow> (admin_loop h turns, True, s)))"

text \<open>A connection as a session sees it: the port, whether it comes over the recovery link, whether TLS
  accepts it, what the client sends, what writing to it returns.\<close>

record connection =
  cx_admin :: bool
  cx_recovery :: bool
  cx_accepted :: bool
  cx_in :: "byte list"
  cx_rets :: "int list"

definition serve_connection :: "('z) admin_env_scheme \<Rightarrow> connection \<Rightarrow> srv \<Rightarrow> srv" where
  "serve_connection env k s = handle_session env (cx_admin k) (cx_recovery k) (cx_accepted k)
     (s\<lparr>c_in := cx_in k, c_rets := cx_rets k, c_trace := []\<rparr>)"

definition serve_all :: "('z) admin_env_scheme \<Rightarrow> connection list \<Rightarrow> srv \<Rightarrow> srv" where
  "serve_all env ks s = fold (serve_connection env) ks s"

section \<open>The accounts, from the start on\<close>

lemma init_users: "users_ok (s_users (server_init env c rng io))"
  by (auto simp: server_init_def Let_def effect load_binding_policy_def users_load_ok split: option.split prod.split)

lemma serve_all_ok: "users_ok (s_users s) \<Longrightarrow> users_ok (s_users (serve_all env ks s))"
proof (induction ks arbitrary: s)
  case (Cons k ks)
  have "users_ok (s_users (serve_connection env k s))"
    unfolding serve_connection_def by (rule handle_session_ok) (simp add: Cons.prems)
  from Cons.IH [OF this] show ?case by (simp add: serve_all_def)
qed (simp add: serve_all_def)

lemma serving_users:
  assumes "server_main env st rng io argv = Serving h admin s"
  shows "users_ok (s_users s) \<and> sock_valid h"
  using assms init_users [of env _ rng io]
  by (auto simp: server_main_def server_run_def start_serving_def Let_def effect listen_on_def
      split: server_args.splits option.splits prod.splits if_splits)

text \<open>Once the port is told to stop, no client gets a session any more, not even the one that was
  accepted in that moment.\<close>

lemma admin_loop_stops:
  assumes "\<not> at_running t \<or> (at_readable t \<and> \<not> at_still t)"
  shows "admin_loop h (ts @ t # rest) = admin_loop h ts"
  using assms by (induction ts) (auto split: prod.split)

text \<open>C4: Whatever the arguments, the configuration and the files of the server are: when the server runs, the
  user database is well formed and stays so through any sequence of sessions on either port, whatever the
  clients send; it can be saved and read back without loss at any time.\<close>

theorem server_keeps_users:
  assumes "server_main env st rng io argv = Serving h admin s"
  shows "users_ok (s_users (serve_all env ks s))
    \<and> map_of (users_parse (users_text (s_users (serve_all env ks s)))) = map_of (s_users (serve_all env ks s))"
  using serve_all_ok serving_users [OF assms] users_parse_text by blast

definition demo_start :: start_env where
  "demo_start = \<lparr>st_files = (\<lambda>p. if p = ''c'' then Some [] else None), st_exe = ''/s'', st_cwd = ''/'', st_net = True,
     st_tls = (\<lambda>c. None),
     st_listen = (\<lambda>h p. Some [\<lparr>ba_socket = 3, ba_bind = True, ba_listen = True\<rparr>])\<rparr>"

theorem server_keeps_users_witness:
  "\<exists>h s. server_main demo_admin_env demo_start [] demo_io [''--config'', ''c''] = Serving h False s
    \<and> users_ok (s_users (serve_all demo_admin_env [\<lparr>cx_admin = False, cx_recovery = False, cx_accepted = True, cx_in = [1, 2], cx_rets = []\<rparr>] s))"
proof -
  have t: "s_admin_token (server_init demo_admin_env [] [] demo_io) = []"
    by (simp add: server_init_def Let_def config_get_def config_get_bool_def load_binding_policy_def io.defs demo_io_def alookup_def)
  have "listen_on (Some [\<lparr>ba_socket = 3, ba_bind = True, ba_listen = True\<rparr>]) = (None, 3, [Opened 3])"
    by (simp add: listen_on_def sock_valid_def)
  then have "\<exists>h s. server_main demo_admin_env demo_start [] demo_io [''--config'', ''c''] = Serving h False s"
    by (simp add: server_main_def parse_server_args_def server_run_def load_server_config_def demo_start_def config_load_def
        start_serving_def t Let_def)
  then show ?thesis using server_keeps_users by blast
qed

end
