(* ===== verification/WifiMains.thy ===== *)
theory WifiMains
  imports NetworkDialog WifiScan WifiPlatform NetplanFiles
begin

text \<open>
  The programs around the Wi-Fi routines of the server: the collector that publishes the snapshot
  (server/src/wifi_collector.cpp), the helper that scans for one client (scan_helper.cpp) and the guard
  that prepares the runtime policy (wifi_policy_guard.cpp). The map of names to contents is the
  directory of the snapshot; the file of the scan limit is the input \<open>ce_slot\<close>.
\<close>

definition wlan_socket :: path where
  "wlan_socket = ''/run/wpa_supplicant/wlan0''"

text \<open>The inputs of \<open>reserve_scan_slot\<close> and of \<open>publish_wifi_snapshot\<close>, and the supplicant's answers.\<close>

record slot_inputs =
  si_dir_safe :: bool
  si_file_safe :: bool
  si_state :: "string option"
  si_now :: int
  si_persisted :: bool

definition reserve_slot :: "slot_inputs \<Rightarrow> string + string" where
  "reserve_slot i = reserve_scan_slot (si_dir_safe i) (si_file_safe i) (si_state i) (si_now i) (si_persisted i)"

record collector_env =
  ce_slot :: slot_inputs
  ce_scan :: "(bool \<times> string option) option"
  ce_results :: "(bool \<times> string option) option"
  ce_status :: "(bool \<times> string option) option"
  ce_time :: int
  ce_dir_safe :: bool
  ce_created :: "string option"
  ce_writes :: "int option list"
  ce_synced :: bool
  ce_closed :: bool
  ce_renamed :: bool

text \<open>The exit status and the directory.\<close>

definition collector_main :: "string list \<Rightarrow> collector_env \<Rightarrow> (string \<rightharpoonup> string) \<Rightarrow> nat \<times> (string \<rightharpoonup> string)" where
  "collector_main argv env dir =
     (if argv \<noteq> [] \<and> argv \<noteq> [''--check''] \<and> argv \<noteq> [''--scan''] then (1, dir)
      else if argv = [''--scan''] then
        (case reserve_slot (ce_slot env) of
           Inl e \<Rightarrow> (1, dir)
         | Inr stamp \<Rightarrow> (case wifi_request_scan wlan_socket (ce_scan env) of Some e \<Rightarrow> (1, dir) | None \<Rightarrow> (0, dir)))
      else (case wifi_control_read wlan_socket Results (ce_results env) of
           Inl e \<Rightarrow> (1, dir)
         | Inr results \<Rightarrow> (case wifi_control_read wlan_socket Status (ce_status env) of
             Inl e \<Rightarrow> (1, dir)
           | Inr raw_status \<Rightarrow> (case snapshot_data (ce_time env) raw_status results of
               None \<Rightarrow> (1, dir)
             | Some data \<Rightarrow>
                 if argv = [''--check''] then (0, dir)
                 else (case publish_wifi_snapshot (ce_dir_safe env) (ce_created env) (ce_writes env) (ce_synced env) (ce_closed env)
                     (ce_renamed env) data dir of
                     (None, dir) \<Rightarrow> (0, dir) | (Some e, dir) \<Rightarrow> (1, dir))))))"

text \<open>What the scan helper answers on its connection.\<close>

definition scan_helper_main :: "recv_result list \<Rightarrow> slot_inputs \<Rightarrow> bool \<Rightarrow> (nat \<Rightarrow> bool) \<Rightarrow> string list \<Rightarrow> string" where
  "scan_helper_main rs slot connected sends msgs = serve_wifi_scan rs
     (case reserve_slot slot of Inl e \<Rightarrow> Inl e | Inr stamp \<Rightarrow> fst (wifi_scan_and_wait wlan_socket connected sends msgs))"

text \<open>The guard's exit status.\<close>

definition policy_guard_main :: "psk_kdf \<Rightarrow> linux \<Rightarrow> bool \<Rightarrow> string list \<Rightarrow> world \<Rightarrow> nat \<times> world" where
  "policy_guard_main kdf lx root argv w =
     (if argv \<noteq> [''--check''] \<and> argv \<noteq> [''--stage''] then (2, w)
      else if \<not> root then (1, w)
      else (case andthen (wifi_netplan_preflight lx) (\<lambda>_. prepare_wifi_runtime_policy kdf (argv = [''--check''])) w of
          (Inl e, w) \<Rightarrow> (1, w) | (Inr _, w) \<Rightarrow> (0, w)))"

section \<open>Properties\<close>

text \<open>Only the run without arguments can change the directory; one that fails leaves the old snapshot.\<close>

lemma collector_keeps_snapshot:
  assumes "collector_main argv env dir = (code, dir')" "argv \<noteq> [] \<or> code \<noteq> 0" "ce_created env \<noteq> Some ''wifi.txt''"
  shows "dir' ''wifi.txt'' = dir ''wifi.txt''"
  using assms by (auto simp: collector_main_def publish_wifi_snapshot_def Let_def split: sum.splits option.splits if_splits prod.splits)

lemma same_header: "wifi_header = results_header"
  by (simp add: wifi_header_def results_header_def)

text \<open>C10: From the supplicant to the administrator: when the collector has published a list of at most 512
  networks, then for the next 90 seconds the server's reading of the snapshot is the list, and the dialog's
  table shows exactly its networks; after that the server refuses it as expired.\<close>

theorem collected_list_is_shown:
  assumes "collector_main [] env dir = (0, dir')" "ce_created env = Some tmp" "tmp \<noteq> ''wifi.txt''"
    "ce_results env = Some (True, Some (wifi_header @ concat (map (\<lambda>r. format_network show_int r @ [CHR 0x0A]) rows)))"
    "\<forall>r \<in> set rows. network_ok r" "length rows \<le> 512" "\<forall>i. - (2 ^ 31) \<le> i \<and> i < 2 ^ 31 \<longrightarrow> to_int (show_int i) = Some i"
    "0 \<le> ce_time env" "ce_time env < 2 ^ 63" "ce_time env \<le> now"
  shows "(case wifi_snapshot now (dir' ''wifi.txt'') False of
      Inr answer \<Rightarrow> now - ce_time env \<le> 90 \<and> starts_with wifi_header answer \<and> parse_networks to_int answer = (rows, 0)
    | Inl e \<Rightarrow> now - ce_time env > 90 \<and> e = ''Wi-Fi snapshot expired or has invalid time'')"
proof -
  let ?list = "wifi_header @ concat (map (\<lambda>r. format_network show_int r @ [CHR 0x0A]) rows)"
  from assms(1,4) obtain raw data where c: "snapshot_data (ce_time env) raw ?list = Some data"
    "publish_wifi_snapshot (ce_dir_safe env) (ce_created env) (ce_writes env) (ce_synced env) (ce_closed env) (ce_renamed env) data dir = (None, dir')"
    by (auto simp: collector_main_def wifi_control_read_def split: sum.splits option.splits if_splits prod.splits)
  from c(1) obtain conn where conn: "sanitize_wifi_status raw = Inr conn" by (auto simp: snapshot_data_def split: sum.splits)
  have "dir' ''wifi.txt'' = Some data" using publish_atomic(1) [OF c(2) [unfolded assms(2)] assms(3)] by simp
  moreover have "starts_with results_header ?list" unfolding same_header by (rule starts_with_append)
  note snapshot_read [OF c(1) assms(8,9) this conn, of now False]
  moreover have "starts_with wifi_header ?list" by (rule starts_with_append)
  moreover have "parse_networks to_int ?list = (rows, 0)" using assms(5-7) by (rule read_networks)
  ultimately show ?thesis using assms(10) by simp
qed

text \<open>The supplicant's answers of the concrete run.\<close>

definition demo_list :: string where
  "demo_list = wifi_header @ concat (map (\<lambda>r. format_network show_int r @ [CHR 0x0A]) demo_networks)"

definition demo_status_reply :: string where
  "demo_status_reply = ''noise'' @ [CHR 0x0A] @ ''wpa_state=COMPLETED'' @ [CHR 0x0A]"

definition demo_collector :: collector_env where
  "demo_collector = \<lparr>ce_slot = \<lparr>si_dir_safe = True, si_file_safe = True, si_state = None, si_now = 0, si_persisted = True\<rparr>,
     ce_scan = None, ce_results = Some (True, Some demo_list), ce_status = Some (True, Some demo_status_reply),
     ce_time = 1000, ce_dir_safe = True, ce_created = Some ''tmp'',
     ce_writes = [Some 60000], ce_synced = True, ce_closed = True, ce_renamed = True\<rparr>"

lemma demo_list_starts: "starts_with results_header demo_list"
  unfolding demo_list_def same_header [symmetric] by (rule starts_with_append)

lemma demo_list_size: "length demo_list < 1000"
proof -
  have "length (show_int (- 40)) = 3" "length (show_int (- 70)) = 3" "length (show_int 2412) = 4" "length (show_int 5180) = 4"
    by code_simp+
  then show ?thesis by (simp add: demo_list_def wifi_header_def demo_networks_def format_network_def)
qed

lemma demo_list_nonempty: "demo_list \<noteq> []"
  by (simp add: demo_list_def wifi_header_def)

lemma demo_reads:
  "wifi_control_read wlan_socket Results (Some (True, Some demo_list)) = Inr demo_list"
  "wifi_control_read wlan_socket Status (Some (True, Some demo_status_reply)) = Inr demo_status_reply"
  using demo_list_size demo_list_nonempty demo_list_starts
  by (simp_all add: wifi_control_read_def wlan_socket_def socket_path_ok_def demo_status_reply_def)

lemma demo_published: "\<exists>data. snapshot_data 1000 demo_status_reply demo_list = Some data \<and> data \<noteq> [] \<and> length data < 60000"
proof -
  have "length (show_int 1000) = 4" by code_simp
  then show ?thesis
    unfolding snapshot_data_def demo_status_reply_def demo_status using demo_list_size by (simp add: Let_def v2_prefix_def)
qed

theorem collected_list_is_shown_witness:
  "\<exists>answer. wifi_snapshot 1050 (snd (collector_main [] demo_collector Map.empty) ''wifi.txt'') False = Inr answer
    \<and> parse_networks stoi answer = (demo_networks, 0)"
proof -
  obtain data where d: "snapshot_data 1000 demo_status_reply demo_list = Some data" "data \<noteq> []" "length data < 60000"
    using demo_published by blast
  have w: "publish_loop [Some 60000] data = length data" using d(2,3) by (cases data) simp_all
  have c: "collector_main [] demo_collector Map.empty = (0, ([''tmp'' \<mapsto> data](''wifi.txt'' := Some data))(''tmp'' := None))"
    using d(2,3) by (simp add: collector_main_def demo_collector_def demo_reads d(1) publish_wifi_snapshot_def w)
  have i: "\<forall>i. - (2 ^ 31) \<le> i \<and> i < 2 ^ 31 \<longrightarrow> stoi (show_int i) = Some i" using stoi_show_int by blast
  have ok: "\<forall>r \<in> set demo_networks. network_ok r" "length demo_networks \<le> 512" by (simp_all add: demo_networks_def network_ok_def)
  have f: "ce_created demo_collector = Some ''tmp''" "ce_time demo_collector = 1000"
    "ce_results demo_collector = Some (True, Some (wifi_header @ concat (map (\<lambda>r. format_network show_int r @ [CHR 0x0A]) demo_networks)))"
    unfolding demo_list_def [symmetric] by (simp_all add: demo_collector_def)
  have now: "0 \<le> ce_time demo_collector" "ce_time demo_collector < 2 ^ 63" "ce_time demo_collector \<le> 1050" by (simp_all add: f)
  have ne: "''tmp'' \<noteq> ''wifi.txt''" by simp
  from collected_list_is_shown [OF c f(1) ne f(3) ok i now] show ?thesis
    unfolding c by (simp add: f(2) split: sum.splits)
qed

end
