(* ===== verification/StatsForgery.thy ===== *)
theory StatsForgery
  imports DemoServer
begin

text \<open>
  The statistics file against the names of failed logins: what one unauthenticated request makes of a lock, from the
  handler over the monitor to the file and back (server/src/main.cpp and monitor.cpp).
\<close>

lemma register_effects:
  "io_wout (register_client c l s) = io_wout s" "io_audit (register_client c l s) = io_audit s"
  "io_time (register_client c l s) = io_time s"
  by (auto simp: register_client_def now_epoch_sec_def save_binding_policy_def io_write_file_def next_wout_def
      split: option.splits prod.splits)

lemma enforce_allowed:
  assumes "policy_allows s (request_client_id req)"
  obtains s1 where "enforce_client_binding req u op s = (True, s1)" "s_monitor s1 = s_monitor s" "s_users s1 = s_users s"
    "io_wout s1 = io_wout s" "io_audit s1 = io_audit s" "io_time s1 = io_time s"
  using assms that by (simp add: enforce_client_binding_def Let_def allowed_after_register register_keeps register_effects)

text \<open>The answer to a wrong password: the failure is recorded under the name of the request, whoever that is.\<close>

lemma wrong_password:
  assumes "policy_allows s (request_client_id req)"
    "\<forall>st k. map_of (m_stats (s_monitor s)) (hd_get req ''username'' []) = Some st \<longrightarrow> lock_until_ts st \<le> io_time s k"
    "\<not> verify_user (e_kdf env) (s_users s) (hd_get req ''username'' []) (hd_get req ''password'' [])"
  obtains s1 where "handle_auth_check env req s = refuse_auth ''auth_check'' (hd_get req ''username'' []) s1"
    "s_monitor s1 = s_monitor s" "io_wout s1 = io_wout s" "io_audit s1 = io_audit s"
proof -
  obtain s1 where e: "enforce_client_binding req (hd_get req ''username'' []) ''auth_check'' s = (True, s1)"
    "s_monitor s1 = s_monitor s" "s_users s1 = s_users s" "io_wout s1 = io_wout s" "io_audit s1 = io_audit s" "io_time s1 = io_time s"
    using enforce_allowed [OF assms(1)] .
  let ?s2 = "s1\<lparr>io_ticks := io_ticks s1 + 1\<rparr>"
  have l: "is_locked (hd_get req ''username'' []) (s_monitor s1) s1 = (None, ?s2)"
    using assms(2) e(2,6) by (auto simp: is_locked_def now_time split: option.split)
  show thesis
    by (rule that [of ?s2]) (use e l assms(3) in \<open>simp_all add: handle_auth_check_def Let_def\<close>)
qed

lemma refused_files:
  assumes "\<forall>k. io_wout s k = W_ok" "m_stats_path (s_monitor s) \<noteq> a_log_path (io_audit s)"
  shows "io_fs (refuse_auth what u s) (m_stats_path (s_monitor s)) = Some (bytes_of (stats_text (fst (record_login_failure u (s_monitor s) s))))"
    "s_monitor (refuse_auth what u s) = fst (record_login_failure u (s_monitor s) s)"
proof -
  obtain m s1 where r: "record_login_failure u (s_monitor s) s = (m, s1)" by fastforce
  let ?s2 = "io_event ''auth_failed'' u what (s1\<lparr>s_monitor := m\<rparr>)"
  have e: "refuse_auth what u s = send_error ''Authentication failed'' ?s2"
    by (simp add: refuse_auth_def mon_failure_def r)
  have log: "a_log_path (io_audit s1) = a_log_path (io_audit s)"
    using login_files(2) [of "s_monitor s" s u] r by (simp add: same_files_def)
  show "io_fs (refuse_auth what u s) (m_stats_path (s_monitor s)) = Some (bytes_of (stats_text (fst (record_login_failure u (s_monitor s) s))))"
    using failure_saved [OF assms(1), of u "s_monitor s"] assms(2) log unfolding e by (simp add: event_fs r)
  show "s_monitor (refuse_auth what u s) = fst (record_login_failure u (s_monitor s) s)"
    unfolding e by (simp add: r)
qed

text \<open>C36: A user name with vertical bars forges a line of the statistics file: one failed login under the
  name \<open>u|0|0|0|\<close>, which needs no account, leaves the lock of \<open>u\<close> as it is while the server runs, but writes a file
  from which \<open>load_stats\<close> at the next start reads \<open>u\<close> as never seen and not locked. Conditions: the client is one the
  binding policy lets in, the forged name is not itself locked and has no account with this password, the writes
  go through, and no entry that the map of the monitor lists after the forged name is that of \<open>u\<close> (so that its own line
  comes first and is overwritten) or has a separator in its name; a name that is new is listed last here, while in the code
  the order of \<open>std::unordered_map\<close> decides.\<close>

theorem username_forges_stats:
  assumes "name_ok u" "hd_get req ''username'' [] = u @ ''|0|0|0|''"
    "policy_allows s (request_client_id req)"
    "\<forall>st k. map_of (m_stats (s_monitor s)) (u @ ''|0|0|0|'') = Some st \<longrightarrow> lock_until_ts st \<le> io_time s k"
    "\<not> verify_user (e_kdf env) (s_users s) (u @ ''|0|0|0|'') (hd_get req ''password'' [])"
    "\<forall>k. io_wout s k = W_ok" "m_stats_path (s_monitor s) \<noteq> a_log_path (io_audit s)"
    "forged_last u (m_stats (s_monitor s))" "m_stats_path m0 = m_stats_path (s_monitor s)"
  shows "let s' = handle_auth_check env req s; m = snd (load_stats (io_fs s') m0) in
    map_of (m_stats (s_monitor s')) u = map_of (m_stats (s_monitor s)) u
    \<and> map_of (m_stats m) u = Some new_stats
    \<and> (\<forall>io2 :: io. 0 \<le> io_time io2 (io_ticks io2) \<longrightarrow> fst (is_locked u m io2) = None)"
proof -
  let ?f = "u @ ''|0|0|0|''"
  note w = wrong_password [OF assms(3), of env, unfolded assms(2), OF assms(4,5)]
  obtain s1 where h: "handle_auth_check env req s = refuse_auth ''auth_check'' ?f s1"
    "s_monitor s1 = s_monitor s" "io_wout s1 = io_wout s" "io_audit s1 = io_audit s" using w .
  let ?m = "fst (record_login_failure ?f (s_monitor s) s1)"
  have files: "io_fs (handle_auth_check env req s) (m_stats_path (s_monitor s)) = Some (bytes_of (stats_text ?m))"
    "s_monitor (handle_auth_check env req s) = ?m"
    using refused_files [of s1 "''auth_check''" ?f] assms(6,7) h by simp_all
  obtain st where m: "?m = put_stats ?f st (s_monitor s)" using record_put(2) by blast
  have new: "map_of (m_stats (snd (load_stats (io_fs (handle_auth_check env req s)) m0))) u = Some new_stats"
  proof (rule forged_loads [OF assms(1)])
    show "forged_last u (m_stats ?m)"
      using forged_last_update [OF assms(8)] by (simp add: m put_stats_def forged_def)
    show "forged u \<in> fst ` set (m_stats ?m)"
      by (simp add: m put_stats_def forged_def dom_map_of_conv_image_fst [symmetric] domIff update_conv)
    show "io_fs (handle_auth_check env req s) (m_stats_path m0) = Some (bytes_of (stats_text ?m))"
      using files(1) assms(9) by simp
  qed
  have "map_of (m_stats ?m) u = map_of (m_stats (s_monitor s)) u" by (simp add: m)
  with new files(2) show ?thesis by (simp add: is_locked_def now_time new_stats_def Let_def)
qed

theorem username_forges_stats_witness:
  "let s = demo_srv\<lparr>s_monitor := put_stats ''bob'' (new_stats\<lparr>lock_until_ts := 5000\<rparr>) demo_monitor\<rparr>;
       s' = handle_auth_check demo_env [(''username'', ''bob|0|0|0|''), (''password'', ''x'')] s in
   map_option lock_until_ts (map_of (m_stats (s_monitor s')) ''bob'') = Some 5000
   \<and> map_of (m_stats (snd (load_stats (io_fs s') demo_monitor))) ''bob'' = Some new_stats"
proof -
  let ?m = "put_stats ''bob'' (new_stats\<lparr>lock_until_ts := 5000\<rparr>) demo_monitor"
  let ?s = "demo_srv\<lparr>s_monitor := ?m\<rparr>" and ?r = "[(''username'', ''bob|0|0|0|''), (''password'', ''x'')]"
  have n: "name_ok ''bob''" by (simp add: name_ok_def)
  have r: "hd_get ?r ''username'' [] = ''bob'' @ ''|0|0|0|''" by (simp add: hd_get_def alookup_def)
  have p: "policy_allows ?s (request_client_id ?r)" by (simp add: policy_allows_def demo_srv_def io.defs)
  have st: "m_stats (s_monitor ?s) = [(''bob'', new_stats\<lparr>lock_until_ts := 5000\<rparr>)]"
    by (simp add: put_stats_def demo_monitor_def)
  have l: "\<forall>st k. map_of (m_stats (s_monitor ?s)) (''bob'' @ ''|0|0|0|'') = Some st \<longrightarrow> lock_until_ts st \<le> io_time ?s k"
    unfolding st by simp
  have v: "\<not> verify_user (e_kdf demo_env) (s_users ?s) (''bob'' @ ''|0|0|0|'') (hd_get ?r ''password'' [])"
    by (simp add: verify_user_def demo_fields demo_users_def)
  have io: "\<forall>k. io_wout ?s k = W_ok" "m_stats_path (s_monitor ?s) \<noteq> a_log_path (io_audit ?s)"
    by (simp_all add: demo_srv_def io.defs demo_io_def demo_monitor_def audit_new_def)
  have f: "forged_last ''bob'' (m_stats (s_monitor ?s))" unfolding st by (simp add: forged_last_def forged_def)
  have "m_stats_path demo_monitor = m_stats_path (s_monitor ?s)" by simp
  from username_forges_stats [OF n r p l v io f this] show ?thesis by (simp add: Let_def st)
qed

end
