(* ===== verification/Spec2Isabelle.thy ===== *)
theory Spec2Isabelle
  imports DemoServer WifiIpc WifiSupervisor EndToEnd TlsLayer GostCli ClientWindow ClientMain WifiDialog
    AdminMain NetworkDialog SecureBuffer ServerMain WifiMains StatsForgery
begin

text \<open>
  Encoder: a client-server system that encrypts files with keys kept on the server, with an
  administration port, a security monitor and a Wi-Fi service for the machine it runs on.

  \<^bold>\<open>The program and its model.\<close>

  \<^item> Utilities. Prelude: the lemmas on strings, numbers and lists the others share.
    Encoding: common/src/base64.cpp, \<open>read_be32\<close>, \<open>write_be32\<close>, \<open>secure_zero\<close> of
    common/src/bytes.cpp, the hexadecimal texts of common/src/auth.cpp. Storage: \<open>read_file\<close> and
    \<open>write_file\<close>, the key files and hash records of server/src/main.cpp. ConfigFile:
    common/src/config.cpp. Protocol: common/src/protocol.cpp. SecureBuffer: common/src/secure_memory.cpp.
  \<^item> Cryptography. Ciphers: the table of ciphers and the names of common/src/crypto.cpp. Evp: the two
    routines that drive OpenSSL. CryptoEngine: \<open>CryptoEngine\<close> and common/src/gost_native.cpp. GostCli,
    with the paths of Paths: the driver of external programs, common/src/gost_cli.cpp.
  \<^item> Server state. Users: \<open>UserStore\<close> (common/src/auth.cpp). AuditLog: server/src/audit.cpp. Effects:
    the files, clock and audit service the components share. Monitor: server/src/monitor.cpp.
    ServerState, Binding, Handlers, Session: server/src/main.cpp, from the small routines over the
    binding policy and the client handlers to the administrative operations, the dispatch of a
    session and the set-up in \<open>main\<close>. ServerMain: arguments, search for the configuration and start of
    \<open>main\<close>, its accept loop, and the administration port (server/src/admin_server.cpp).
  \<^item> Wi-Fi reports. NetStatus: server/src/network_status.cpp and the text of the collector. WifiScan:
    server/src/scan_session.cpp, scan_ipc.cpp, scan_limit.cpp, wifi_control.cpp, snapshot_publish.cpp.
    WifiMains: the programs around them, wifi_collector.cpp, scan_helper.cpp, wifi_policy_guard.cpp.
  \<^item> Wi-Fi changes. WifiProfile: names, keys and the two generated drafts (common/src/wifi_profile.cpp,
    wifi_config_draft.cpp). WifiLink: what the supplicant reports (wifi_link_probe.cpp). WifiChange: the
    state machine of a change, its session with a ticket and the packets of the helper (wifi_change.cpp,
    wifi_session.cpp, wifi_rpc.cpp). WifiJournal: the durable record of a change
    (server/src/wifi_journal.cpp). NetplanFiles: the managed files, the recovery worker and the runtime
    policy. WifiBackend: wifi_managed_backend.cpp. WifiPlatform: wifi_process.cpp,
    wifi_linux_platform.cpp, wifi_netplan_preflight.cpp, wifi_target_probe.cpp. WifiIpc: the packets
    and the loop of the helper (wifi_change_ipc.cpp, wifi_change_helper.cpp). WifiCrash and WifiSafety:
    what a crash can leave, and the system of helper and supervisor. WifiSupervisor: the supervisor's
    start and loop (wifi_recovery_supervisor.cpp, wifi_supervisor_main.cpp).
  \<^item> Clients. Client and ClientFiles: client/src/client_core.cpp and the files it leaves. AdminClient:
    admin/src/admin_client.cpp. EndToEnd: both composed with the server. DemoServer: a concrete
    server for the witnesses. StatsForgery: a failed login, the monitor and its file together. ClientMain: the client's program up to the login (client/src/main.cpp,
    login_dialog.cpp). ClientWindow: its window with the guard of the clipboard (main_window.cpp,
    secure_guards.cpp). AdminWindow: the administrator's window, its analysis and its dialog on accounts
    (admin/src/admin_window.cpp). NetworkDialog and WifiDialog: admin/src/network_dialog.cpp,
    wifi_connect_dialog.cpp and the adapters in admin_window.cpp. AdminMain: the settings of the
    administrator's program (admin/src/main.cpp).
  \<^item> Network. NetSocket: common/src/net.cpp. TlsLayer: common/src/tls.cpp.
  \<^item> GostTool: the stand-alone programs gost.c and decr.c.

  A session reads one request header from the connection, dispatches on its operation and writes a
  reply; the handlers call the user database, the monitor, the audit service, the binding policy and
  the crypto engine. The record \<open>srv\<close> is \<open>ServerContext\<close> with one connection; it extends the record
  \<open>io\<close> of the effects, so the monitor and the audit service act on it directly. Handlers are
  functions from the state to the state, and what they send is in the trace \<open>c_trace\<close>.

  A Wi-Fi change works on a \<open>world\<close>: the disk with the journal and the managed files, the history of the
  states the disk went through (any of which a crash can leave), and the outcomes of system calls.
  Its operations are actions \<open>world \<Rightarrow> (string + 'a) \<times> world\<close>, composed with \<open>andthen\<close>. The
  abstraction is \<open>confirmed\<close>: the configuration the record saves while a change is pending, and the
  installed one otherwise.

  A window is a record of what its object keeps and what it shows; every handler, timer and end of a
  worker is one event of a step function. The \<open>n\<close>-th request of a window uses the connection the
  environment gives for \<open>n\<close>; composed with the server, that is what the server answers.

  A message box runs a loop of events of its own. The boxes of the client's window are modal, so what happens
  while one is open is that the clipboard changes, and the guard's answer to that opens a box in its turn: \<open>show_box\<close>
  takes these changes, nested to any depth, from the environment and logs each box with the state in which
  it opened.

  \<^bold>\<open>What is a parameter.\<close> OpenSSL (the result of each call after the calls before it on the context),
  libakrypt's modes, PBKDF2, \<open>RAND_bytes\<close> (a list of outcomes), the clock, the local hour, rounding of
  doubles, every outcome of opening, writing, closing and renaming files, the results of the calls on
  sockets, the order in which the fields of a header are iterated, what the other end of a client's connection answers; for a Wi-Fi
  change SHA-256, the boot identity and clock, the answers of systemd, of the supplicant and of the
  interfaces; for the external programs the shell with what they write; for
  the buffers of secrets where \<open>new\<close> finds memory and whether a lock of pages is granted; for the windows the user's
  actions and entries, the clipboard (also while a box is open), the stored settings, and Qt's conversions of texts and numbers.
  The assumptions are \<open>mgm_law\<close> (MGM decryption inverts MGM
  encryption), \<open>block_law\<close> (decrypting a block inverts encrypting it), \<open>peer_law\<close> (when OpenSSL
  accepts a certificate) and, for the recovery to complete, that the machine works: \<open>calm\<close>
  (the calls on files succeed and the clock can be read) and \<open>linux_ready\<close> (the process is the administrator's, the service's override
  is the installed one, every command that is run succeeds).

  \<^bold>\<open>What the lemmas show.\<close> Round trips of every format the program writes and reads (base64, hex,
  headers over partial writes, key files, hash records, users, alerts, statistics, policy,
  configuration), also when the write is cut short; the invariant of the user database through every
  operation and session; who can obtain data from the server; that a wrong guess at a padding or a
  tag is never released; the life time of cipher contexts; the growth of locks and the stop of
  password guessing; that operations under one name leave other names alone; freshness, rate limit,
  atomicity and protocol of the Wi-Fi reports. From end to end: a client that is told it is logged in
  was let in by the server, the administrator's window shows every alert of the server exactly once, the
  list of networks the collector publishes is the one the dialog shows, an encrypted file decrypts with
  what the server had returned for it. The windows: plaintexts are in memory or on the disk only while
  the secure mode guards the clipboard, the client's window closes only after everything is encrypted
  again and opens only after a login; the analysis of the log counts exactly the lines of each user;
  the list of devices survives a restart; the Wi-Fi dialog drives the session of the helper, and the
  network dialog shows the last good answer of each kind. Memory for secrets is zero when it is freed; that it is
  locked until then does not hold, and the findings say why. Every open descriptor has one owner, every
  OpenSSL object is freed once. Three theorems show how an unescaped separator forges
  records of the policy, of the statistics and of the administrator's analysis. For Wi-Fi changes: the calls a
  change makes and that it ends; that only the ticket's holder acts on it; that no crash at any
  point loses the confirmed configuration or confirms another one than a requested target; that
  the first round of the supervisor's loop completes the recovery; that the helper never leaves a
  change pending past its deadline; that drafts and journal are read exactly as they are written.

  \<^bold>\<open>Interfaces.\<close> The locale \<open>reversible\<close> is the contract of an encoder and decoder, interpreted for
  base64, hex, key files, hash records, alerts and the file of devices; \<open>per_name\<close> the contract of operations on state kept
  per name, interpreted for accounts, statistics and the binding policy; \<open>quiet_platform\<close> the contract
  of the machine under a Wi-Fi change, interpreted for the Linux adapter; \<open>box_invariant\<close> the contract of what stays
  true while a box of the client's window is open, interpreted for the five facts its handlers rely on.

  \<^bold>\<open>Loops.\<close> All loops are total functions, structural or with a measure (the messages still to come);
  no fuel is used. The reads and writes of a connection end with the bytes or return values given;
  the loops of helper and supervisor, which run for ever, are functions of the rounds seen so far.
  The loop that waits for a child is a \<open>partial_function\<close>, and that it returns is proved from its clock.

  \<^bold>\<open>Not modelled.\<close> Threads and mutexes: the sessions of a server run one after the other, and a worker
  of a dialog is the event of its end. The layout, the wording and the style of the Qt windows, with
  common/gui_theme.h. The client's command line (cli_main.cpp), which only reports that it is not implemented.
  The branches compiled for Windows. Lengths of data are natural numbers, also where crypto.cpp casts them to \<open>int\<close> for
  OpenSSL: the model is of data shorter than 2 GiB. The hash tables of the server are lists in the order of insertion; where
  that order decides, the theorem says so.
\<close>

section \<open>Who is given data\<close>

text \<open>C1: The server sends decrypted data only in answer to a request whose client the binding policy
  allows, whose account is not locked and has the decryption permission, and whose password is
  right; then it sends one block, and when the request names a stored file the block has exactly the
  digest that was recorded for it. (The record must not be one of the monitor's, audit service's or
  policy's own files, which the request itself makes the server write.)\<close>

theorem decryption_guarded:
  "data_sent (handle_decrypt env req s) = data_sent s
    \<or> (\<exists>plain k. data_sent (handle_decrypt env req s) = data_sent s @ [Out_data plain k]
        \<and> authenticated env req s \<and> odd (user_permissions (s_users s) (hd_get req ''username'' []) div 2)
        \<and> (hd_get req ''file_id'' [] \<noteq> [] \<and> hash_path (hd_get req ''file_id'' []) s \<notin> aux_files s \<longrightarrow>
             record_matches env (hd_get req ''file_id'' []) plain s))"
  by (rule decrypt_data_only)

theorem decryption_guarded_witness:
  "data_sent (handle_decrypt demo_env [(''username'', ''eve''), (''password'', ''x'')] demo_srv) = []"
proof -
  have "\<not> authenticated demo_env [(''username'', ''eve''), (''password'', ''x'')] demo_srv"
    by (simp add: authenticated_def verify_user_def demo_fields demo_users_def hd_get_def alookup_def)
  then show ?thesis
    using decryption_guarded [of demo_env "[(''username'', ''eve''), (''password'', ''x'')]" demo_srv]
    by (simp add: demo_fields)
qed

text \<open>The server sends encrypted data only in answer to a request that was let in the same way
  and whose account has the encryption permission.\<close>

theorem encryption_guarded:
  "data_sent (handle_encrypt env req s) = data_sent s
    \<or> (authenticated env req s \<and> odd (user_permissions (s_users s) (hd_get req ''username'' [])))"
  by (rule encrypt_data_only)

text \<open>C3: Without the administrator's token (or when the server has none) an administrative request
  gets an error and nothing else happens: no file, account, policy or statistic changes.\<close>

theorem admin_needs_token:
  assumes "is_admin_op (hd_get req ''op'' [])" "\<not> admin_authorized req s"
  shows "handle_request env admin_only wifi_path req s = send_error ''Unauthorized'' s
    \<and> same_state s (handle_request env admin_only wifi_path req s)"
  by (simp add: unauthorized_request [OF assms] send_error_state)

theorem admin_needs_token_witness:
  "handle_request demo_admin_env True True [(''op'', ''admin_unlock_user''), (''admin_token'', ''guess'')] demo_srv
     = send_error ''Unauthorized'' demo_srv"
proof -
  let ?req = "[(''op'', ''admin_unlock_user''), (''admin_token'', ''guess'')]"
  have "is_admin_op (hd_get ?req ''op'' [])" "\<not> admin_authorized ?req demo_srv"
    by (simp_all add: is_admin_op_def admin_authorized_def starts_with_def hd_get_def alookup_def demo_fields)
  from admin_needs_token [OF this] show ?thesis by blast
qed

text \<open>Every session, whatever its request and whatever fails in it, leaves the user database
  well formed: the stored accounts can be saved and read back without loss.\<close>

theorem sessions_keep_users:
  assumes "users_ok (s_users s)"
  shows "users_ok (s_users (handle_session env admin_only wifi_path accepted s))"
  using assms by (rule handle_session_ok)

theorem sessions_keep_users_witness:
  "users_ok (s_users (handle_session demo_admin_env False False True demo_srv))"
  by (rule sessions_keep_users) (simp add: demo_fields demo_users_ok)

text \<open>C24: A file encrypted with a GOST cipher decrypts, through the server's own choice between the
  new container and the historical format, with the key material that was returned for it.\<close>

theorem gost_file_roundtrip:
  assumes "mgm_law (e_crypto env)" "native_gost (e_crypto env)" "gost_id c \<noteq> 0"
    "engine_encrypt (e_crypto env) c plain rng = (Inr r, rng')"
  shows "decrypt_data env c file_id (r_data r) (r_key r, r_iv r, r_tag r) s = Inr plain"
  using assms by (rule gost_server_decrypt)

theorem gost_file_roundtrip_witness:
  "decrypt_data demo_env MAGMA ''f'' (gost_header MAGMA 2 @ replicate 8 1 @ [8, 9] @ replicate 8 7)
     (replicate 32 5, [], []) demo_srv = Inr [8, 9]"
proof -
  have s: "find_cipher_spec MAGMA = Some (mk_spec MAGMA ''magma'' None True False False)" by code_simp
  have n: "native_gost demo_crypto" by (simp add: demo_crypto_def)
  have e: "engine_encrypt (e_crypto demo_env) MAGMA [8, 9] [Some (replicate 32 5), Some (replicate 8 1)] =
      (Inr \<lparr>r_data = gost_header MAGMA 2 @ replicate 8 1 @ [8, 9] @ replicate 8 7, r_key = replicate 32 5,
            r_iv = [], r_tag = []\<rparr>, [])"
    using demo_container by (simp add: engine_encrypt_def s n demo_env_def)
  show ?thesis
    using gost_file_roundtrip [of demo_env MAGMA _ _ _ _ "''f''" demo_srv, OF _ _ _ e] demo_mgm n
    by (simp add: demo_env_def gost_id_def)
qed

text \<open>The reply to an encryption is sent whether or not the hash record could be written: the
  result of that write is dropped, so a client can be given a file identifier the server will not
  know later.\<close>

theorem encryption_replies_anyway:
  "\<exists>file_id n. Out_header (encrypt_reply c h file_id hex k ks r) n
     \<in> set (c_trace (encrypt_finish env u c h ks name sz hex r k s))"
  by (rule encrypt_finish_reply)

end
